(* ===== verification/Prelude.thy ===== *)
theory Prelude
  imports Complex_Main "HOL-Library.Word" "HOL-Library.Sublist" "HOL-Library.Multiset"
    "HOL-Library.AList"
begin

text \<open>
  Shared vocabulary of the NullNode development: the machine integer types, the result
  type that models Rust's \<open>Result\<close>, the parts of Rust's standard library that the sources
  use (string splitting, decimal formatting, slices, \<open>chunks\<close>, \<open>copy_from_slice\<close>), and the
  generic lemmas on lists, options and maps on which the component theories rest.

  A Rust \<open>String\<close> or \<open>&str\<close> is a \<open>string\<close>: the list of its UTF-8 bytes, so that \<open>length\<close> is
  Rust's \<open>len()\<close>. The functions that inspect characters (\<open>is_ascii_hexdigit\<close>, \<open>split('-')\<close>,
  case conversion) look at ASCII only; a byte of a multi-byte character is at least 128 and is
  never equal to an ASCII character, so working on bytes gives the same answer.
  An \<open>f64\<close> is a rational number (every finite double is one); rounding is not modelled.
\<close>

section \<open>Types\<close>

type_synonym u8 = "8 word"
type_synonym u16 = "16 word"
type_synonym u32 = "32 word"
type_synonym u64 = "64 word"
type_synonym u128 = "128 word"
type_synonym bytes = "8 word list"
type_synonym f64 = rat

named_theorems result_simps \<open>unfolding of the error-propagation combinators\<close>
named_theorems str_simps \<open>facts about formatted strings\<close>
named_theorems invs \<open>invariants kept by the operations\<close>

section \<open>Results\<close>

text \<open>Rust's \<open>Result<A, E>\<close> is \<open>'e + 'a\<close>, with \<open>Inl\<close> for \<open>Err\<close>. The operator \<open>?\<close> is
  \<open>bind_result\<close>, and \<open>map_err\<close> rewrites the error.\<close>

definition bind_result :: "'e + 'a \<Rightarrow> ('a \<Rightarrow> 'e + 'b) \<Rightarrow> 'e + 'b" where
  "bind_result r f = (case r of Inl e \<Rightarrow> Inl e | Inr a \<Rightarrow> f a)"

definition map_err :: "('e \<Rightarrow> 'd) \<Rightarrow> 'e + 'a \<Rightarrow> 'd + 'a" where
  "map_err f r = (case r of Inl e \<Rightarrow> Inl (f e) | Inr a \<Rightarrow> Inr a)"

definition ok_or :: "'e \<Rightarrow> 'a option \<Rightarrow> 'e + 'a" where
  "ok_or e x = (case x of None \<Rightarrow> Inl e | Some a \<Rightarrow> Inr a)"

definition unwrap_or :: "'a \<Rightarrow> 'e + 'a \<Rightarrow> 'a" where
  "unwrap_or d r = (case r of Inl _ \<Rightarrow> d | Inr a \<Rightarrow> a)"

definition opt_or :: "'a \<Rightarrow> 'a option \<Rightarrow> 'a" where
  "opt_or d x = (case x of None \<Rightarrow> d | Some a \<Rightarrow> a)"

lemma bind_result_simps [simp]:
  "bind_result (Inl e) f = Inl e"
  "bind_result (Inr a) f = f a"
  by (simp_all add: bind_result_def)

lemma bind_result_Inr [result_simps]:
  "bind_result r f = Inr b \<longleftrightarrow> (\<exists>a. r = Inr a \<and> f a = Inr b)"
  by (cases r) auto

lemma bind_result_Inl [result_simps]:
  "bind_result r f = Inl e \<longleftrightarrow> r = Inl e \<or> (\<exists>a. r = Inr a \<and> f a = Inl e)"
  by (cases r) auto

lemma map_err_simps [simp]:
  "map_err f (Inl e) = Inl (f e)"
  "map_err f (Inr a) = Inr a"
  by (simp_all add: map_err_def)

lemma map_err_Inr [simp]: "map_err f r = Inr a \<longleftrightarrow> r = Inr a"
  by (cases r) auto

lemma ok_or_simps [simp]:
  "ok_or e None = Inl e"
  "ok_or e (Some a) = Inr a"
  by (simp_all add: ok_or_def)

lemma ok_or_Inr [simp]: "ok_or e x = Inr a \<longleftrightarrow> x = Some a"
  by (cases x) auto

lemma unwrap_or_simps [simp]:
  "unwrap_or d (Inl e) = d"
  "unwrap_or d (Inr a) = a"
  by (simp_all add: unwrap_or_def)

lemma opt_or_simps [simp]:
  "opt_or d None = d"
  "opt_or d (Some a) = a"
  by (simp_all add: opt_or_def)

lemma unwrap_or_False [simp]: "unwrap_or False r \<longleftrightarrow> r = Inr True"
  by (cases r) auto

section \<open>Characters and strings\<close>

definition is_ascii_hexdigit :: "char \<Rightarrow> bool" where
  "is_ascii_hexdigit c \<longleftrightarrow>
     c \<in> set ''0123456789abcdefABCDEF''"

definition ascii_upper :: "char \<Rightarrow> char" where
  "ascii_upper c =
     (let n = (of_char c :: nat) in if 97 \<le> n \<and> n \<le> 122 then char_of (n - 32) else c)"

definition ascii_lower :: "char \<Rightarrow> char" where
  "ascii_lower c =
     (let n = (of_char c :: nat) in if 65 \<le> n \<and> n \<le> 90 then char_of (n + 32) else c)"

definition to_uppercase :: "string \<Rightarrow> string" where
  "to_uppercase s = map ascii_upper s"

definition to_lowercase :: "string \<Rightarrow> string" where
  "to_lowercase s = map ascii_lower s"

definition eq_ignore_ascii_case :: "string \<Rightarrow> string \<Rightarrow> bool" where
  "eq_ignore_ascii_case a b \<longleftrightarrow> to_lowercase a = to_lowercase b"

definition as_bytes :: "string \<Rightarrow> bytes" where
  "as_bytes s = map (\<lambda>c. of_char c) s"

lemma length_as_bytes [simp]: "length (as_bytes s) = length s"
  by (simp add: as_bytes_def)

lemma unat_of_char_u8 [simp]: "unat (of_char c :: u8) = of_char c"
proof -
  have "(of_char c :: u8) = of_nat (of_char c)"
    by (simp add: of_nat_of_char)
  then show ?thesis
    using nat_of_char_less_256 [of c] by (simp add: unat_of_nat)
qed

lemma as_bytes_inj [simp]: "as_bytes a = as_bytes b \<longleftrightarrow> a = b"
proof -
  have "inj (\<lambda>c. of_char c :: u8)"
    by (rule injI) (metis unat_of_char_u8 of_char_eq_iff)
  then show ?thesis
    by (simp add: as_bytes_def inj_map_eq_map)
qed

lemma unat_u8_less: "unat (b :: u8) < 256"
  using unsigned_less [of b, where ?'a = nat] by simp

text \<open>Rust's \<open>str::split(c)\<close>: the pieces between the separators, at least one piece.\<close>

fun split_on :: "char \<Rightarrow> string \<Rightarrow> string list" where
  "split_on c [] = [[]]"
| "split_on c (x # xs) =
     (if x = c then [] # split_on c xs
      else (x # hd (split_on c xs)) # tl (split_on c xs))"

lemma split_on_neq_Nil [simp]: "split_on c s \<noteq> []"
  by (cases s) simp_all

lemma split_on_none: "c \<notin> set s \<Longrightarrow> split_on c s = [s]"
  by (induction s) auto

lemma split_on_append: "c \<notin> set a \<Longrightarrow> split_on c (a @ c # b) = a # split_on c b"
  by (induction a) auto

lemma split_on_pieces: "\<forall>p \<in> set (split_on c s). c \<notin> set p"
proof (induction s)
  case Nil
  then show ?case by simp
next
  case (Cons x xs)
  then show ?case
    by (cases "split_on c xs") auto
qed

text \<open>A string is its pieces joined by the separator again.\<close>

fun join_with :: "char \<Rightarrow> string list \<Rightarrow> string" where
  "join_with c [] = []"
| "join_with c [w] = w"
| "join_with c (w # v # ws) = w @ c # join_with c (v # ws)"

lemma join_with_Cons: "ws \<noteq> [] \<Longrightarrow> join_with c (w # ws) = w @ c # join_with c ws"
  by (cases ws) auto

lemma join_with_Cons_char: "ws \<noteq> [] \<Longrightarrow> join_with c ((x # hd ws) # tl ws) = x # join_with c ws"
  by (cases "tl ws"; cases ws) auto

lemma join_split_on: "join_with c (split_on c s) = s"
  by (induction s) (auto simp: join_with_Cons join_with_Cons_char)

text \<open>A separator that occurs in neither prefix determines where the prefix ends.\<close>

lemma delim_left_inject [str_simps]:
  "c \<notin> set a \<Longrightarrow> c \<notin> set a' \<Longrightarrow> a @ c # b = a' @ c # b' \<longleftrightarrow> a = a' \<and> b = b'"
proof (induction a arbitrary: a')
  case Nil
  then show ?case by (cases a') auto
next
  case (Cons x a)
  then show ?case by (cases a') auto
qed

lemma delim_right_inject [str_simps]:
  assumes "c \<notin> set b" and "c \<notin> set b'"
  shows "a @ c # b = a' @ c # b' \<longleftrightarrow> a = a' \<and> b = b'"
proof -
  have "a @ c # b = a' @ c # b' \<longleftrightarrow> rev (a @ c # b) = rev (a' @ c # b')"
    by (rule rev_is_rev_conv [symmetric])
  also have "\<dots> \<longleftrightarrow> rev b @ c # rev a = rev b' @ c # rev a'"
    by simp
  also have "\<dots> \<longleftrightarrow> rev b = rev b' \<and> rev a = rev a'"
    using assms by (intro delim_left_inject) simp_all
  finally show ?thesis by auto
qed

text \<open>\<open>trim_end_matches(c)\<close>.\<close>

definition trim_end_matches :: "char \<Rightarrow> string \<Rightarrow> string" where
  "trim_end_matches c s = rev (dropWhile (\<lambda>x. x = c) (rev s))"

lemma set_trim_end_matches: "set (trim_end_matches c s) \<subseteq> set s"
  by (auto simp: trim_end_matches_def dest: set_dropWhileD)

text \<open>\<open>String::from_utf8\<close>: the well-formed byte sequences of the Unicode standard.\<close>

definition utf8_cont :: "nat \<Rightarrow> nat \<Rightarrow> u8 \<Rightarrow> bool" where
  "utf8_cont lo hi b \<longleftrightarrow> lo \<le> unat b \<and> unat b \<le> hi"

fun utf8_valid :: "bytes \<Rightarrow> bool" where
  "utf8_valid [] = True"
| "utf8_valid (a # r) =
     (if unat a < 0x80 then utf8_valid r
      else case r of
        [] \<Rightarrow> False
      | b # r1 \<Rightarrow>
          if 0xC2 \<le> unat a \<and> unat a \<le> 0xDF then utf8_cont 0x80 0xBF b \<and> utf8_valid r1
          else case r1 of
            [] \<Rightarrow> False
          | c # r2 \<Rightarrow>
              if 0xE0 \<le> unat a \<and> unat a \<le> 0xEF
              then utf8_cont (if unat a = 0xE0 then 0xA0 else 0x80)
                             (if unat a = 0xED then 0x9F else 0xBF) b
                   \<and> utf8_cont 0x80 0xBF c \<and> utf8_valid r2
              else case r2 of
                [] \<Rightarrow> False
              | d # r3 \<Rightarrow>
                  0xF0 \<le> unat a \<and> unat a \<le> 0xF4
                  \<and> utf8_cont (if unat a = 0xF0 then 0x90 else 0x80)
                              (if unat a = 0xF4 then 0x8F else 0xBF) b
                  \<and> utf8_cont 0x80 0xBF c \<and> utf8_cont 0x80 0xBF d \<and> utf8_valid r3)"

definition from_utf8 :: "bytes \<Rightarrow> string option" where
  "from_utf8 bs = (if utf8_valid bs then Some (map (\<lambda>b. char_of (unat b)) bs) else None)"

lemma from_utf8_as_bytes [simp]: "utf8_valid (as_bytes s) \<Longrightarrow> from_utf8 (as_bytes s) = Some s"
  by (simp add: from_utf8_def as_bytes_def o_def)

lemma utf8_valid_ascii: "\<forall>b \<in> set bs. unat b < 0x80 \<Longrightarrow> utf8_valid bs"
  by (induction bs) auto

section \<open>Decimal formatting\<close>

text \<open>\<open>format!("{}", n)\<close> for the integer types: decimal digits, and a minus sign first for a
  negative number.\<close>

definition digit_char :: "nat \<Rightarrow> char" where
  "digit_char d = char_of (48 + d)"

definition digit_val :: "char \<Rightarrow> nat" where
  "digit_val c = of_char c - 48"

function show_nat :: "nat \<Rightarrow> string" where
  "show_nat n = (if n < 10 then [digit_char n] else show_nat (n div 10) @ [digit_char (n mod 10)])"
  by pat_completeness auto
termination
  by (relation "measure id") auto

declare show_nat.simps [simp del]

definition show_int :: "int \<Rightarrow> string" where
  "show_int i = (if i < 0 then CHR ''-'' # show_nat (nat (- i)) else show_nat (nat i))"

definition read_nat :: "string \<Rightarrow> nat" where
  "read_nat s = foldl (\<lambda>a c. 10 * a + digit_val c) 0 s"

lemma digit_val_char [simp]: "d < 10 \<Longrightarrow> digit_val (digit_char d) = d"
  by (simp add: digit_val_def digit_char_def)

lemma of_char_digit_char: "d < 10 \<Longrightarrow> (of_char (digit_char d) :: nat) = 48 + d"
  by (simp add: digit_char_def)

lemma read_show_nat [simp]: "read_nat (show_nat n) = n"
proof (induction n rule: show_nat.induct)
  case (1 n)
  show ?case
  proof (cases "n < 10")
    case True
    then show ?thesis by (subst show_nat.simps) (simp add: read_nat_def)
  next
    case False
    with 1 have "read_nat (show_nat (n div 10)) = n div 10" by simp
    with False show ?thesis
      by (subst show_nat.simps) (simp add: read_nat_def)
  qed
qed

lemma show_nat_inject [simp]: "show_nat m = show_nat n \<longleftrightarrow> m = n"
  by (metis read_show_nat)

lemma show_nat_digits: "c \<in> set (show_nat n) \<Longrightarrow> 48 \<le> (of_char c :: nat) \<and> (of_char c :: nat) \<le> 57"
proof (induction n rule: show_nat.induct)
  case (1 n)
  then show ?case
    by (subst (asm) (2) show_nat.simps) (auto simp: of_char_digit_char split: if_splits)
qed

lemma show_nat_no_sep:
  "CHR '':'' \<notin> set (show_nat n)" "CHR ''|'' \<notin> set (show_nat n)" "CHR ''-'' \<notin> set (show_nat n)"
  using show_nat_digits [of _ n] by force+

lemma show_int_no_sep:
  "CHR '':'' \<notin> set (show_int i)" "CHR ''|'' \<notin> set (show_int i)"
  by (auto simp: show_int_def show_nat_no_sep)

lemma show_int_inject [simp]: "show_int i = show_int j \<longleftrightarrow> i = j"
proof -
  have "show_nat m \<noteq> CHR ''-'' # show_nat n" for m n
    using show_nat_no_sep(3) [of m] by force
  then show ?thesis
    by (auto simp: show_int_def) metis
qed

section \<open>Slices\<close>

text \<open>\<open>slice.chunks(n)\<close>: consecutive pieces of length \<open>n\<close>, the last one possibly shorter. Rust
  panics for \<open>n = 0\<close>; every caller passes a positive constant.\<close>

function chunks :: "nat \<Rightarrow> 'a list \<Rightarrow> 'a list list" where
  "chunks n xs = (if n = 0 \<or> xs = [] then [] else take n xs # chunks n (drop n xs))"
  by pat_completeness auto
termination
  by (relation "measure (\<lambda>(n, xs). length xs)") auto

declare chunks.simps [simp del]

definition div_ceil :: "nat \<Rightarrow> nat \<Rightarrow> nat" where
  "div_ceil a b = (a + b - 1) div b"

lemma chunks_Nil [simp]: "chunks n [] = []"
  by (simp add: chunks.simps)

lemma chunks_unfold: "0 < n \<Longrightarrow> xs \<noteq> [] \<Longrightarrow> chunks n xs = take n xs # chunks n (drop n xs)"
  by (simp add: chunks.simps [of n xs])

lemma concat_chunks [simp]: "0 < n \<Longrightarrow> concat (chunks n xs) = xs"
proof (induction n xs rule: chunks.induct)
  case (1 n xs)
  then show ?case
    by (cases "xs = []") (simp_all add: chunks_unfold)
qed

lemma length_chunks: "0 < n \<Longrightarrow> length (chunks n xs) = div_ceil (length xs) n"
proof (induction n xs rule: chunks.induct)
  case (1 n xs)
  show ?case
  proof (cases "xs = []")
    case True
    with 1 show ?thesis by (simp add: div_ceil_def)
  next
    case False
    with 1 have IH: "length (chunks n (drop n xs)) = (length xs - n + n - 1) div n"
      by (simp add: div_ceil_def)
    show ?thesis
    proof (cases "n \<le> length xs")
      case True
      then have "(length xs + n - 1) div n = Suc ((length xs - n + n - 1) div n)"
      proof -
        from True have "length xs + n - 1 = (length xs - n + n - 1) + n"
          using 1(2) by simp
        then have "(length xs + n - 1) div n = ((length xs - n + n - 1) + n) div n"
          by (rule arg_cong)
        also have "\<dots> = Suc ((length xs - n + n - 1) div n)"
          using 1(2) by (simp only: div_add_self2 Suc_eq_plus1 neq0_conv)
        finally show ?thesis .
      qed
      with IH False 1(2) show ?thesis by (simp add: chunks_unfold div_ceil_def)
    next
      case short: False
      then have "drop n xs = []" by simp
      moreover have "(length xs + n - 1) div n = 1"
      proof (rule div_nat_eqI)
        from False have "0 < length xs" by simp
        then show "n * 1 \<le> length xs + n - 1" by linarith
        from short 1(2) show "length xs + n - 1 < n * Suc 1" by simp
      qed
      ultimately show ?thesis
        using False 1(2) by (simp add: chunks_unfold div_ceil_def)
    qed
  qed
qed

lemma chunks_nth: "0 < n \<Longrightarrow> i < length (chunks n xs) \<Longrightarrow> chunks n xs ! i = take n (drop (n * i) xs)"
proof (induction n xs arbitrary: i rule: chunks.induct)
  case (1 n xs)
  then have ne: "xs \<noteq> []" by auto
  show ?case
  proof (cases i)
    case 0
    with 1(2) ne show ?thesis by (simp add: chunks_unfold)
  next
    case (Suc j)
    with 1 ne have "chunks n (drop n xs) ! j = take n (drop (n * j) (drop n xs))"
      by (simp add: chunks_unfold)
    with Suc 1(2) ne show ?thesis by (simp add: chunks_unfold add.commute)
  qed
qed

text \<open>\<open>dst[start..start + len].copy_from_slice(src)\<close> with \<open>len = length src\<close> and the range inside
  \<open>dst\<close>.\<close>

definition copy_at :: "nat \<Rightarrow> 'a list \<Rightarrow> 'a list \<Rightarrow> 'a list" where
  "copy_at start src dst = take start dst @ src @ drop (start + length src) dst"

lemma length_copy_at [simp]:
  "start + length src \<le> length dst \<Longrightarrow> length (copy_at start src dst) = length dst"
  by (simp add: copy_at_def)

lemma nth_copy_at:
  assumes "start + length src \<le> length dst" and "i < length dst"
  shows "copy_at start src dst ! i =
    (if start \<le> i \<and> i < start + length src then src ! (i - start) else dst ! i)"
  using assms by (auto simp: copy_at_def nth_append min_def)

lemma length_filter_imp: "(\<And>x. P x \<Longrightarrow> Q x) \<Longrightarrow> length (filter P xs) \<le> length (filter Q xs)"
  by (induction xs) auto

section \<open>Hash tables\<close>

text \<open>
  A \<open>HashMap\<close> whose size or iteration order the code looks at is an association list with
  distinct keys; the order of the list stands for the table's iteration order, which Rust
  leaves open and on which no theorem depends. \<open>insert\<close> and \<open>remove\<close> are \<open>AList.update\<close> and
  \<open>AList.delete\<close>.
\<close>

abbreviation wf_map :: "('k \<times> 'v) list \<Rightarrow> bool" where
  "wf_map m \<equiv> distinct (map fst m)"

lemma length_AList_delete:
  "wf_map m \<Longrightarrow> length (AList.delete k m) = (if k \<in> fst ` set m then length m - 1 else length m)"
proof (induction m)
  case (Cons p m)
  show ?case
  proof (cases "fst p = k")
    case True
    with Cons.prems have "k \<notin> fst ` set m" by auto
    then have "AList.delete k m = m" by (auto intro: delete_idem)
    with True show ?thesis by (cases p) simp
  next
    case False
    with Cons have "length (AList.delete k m) = (if k \<in> fst ` set m then length m - 1 else length m)"
      by simp
    with False show ?thesis by (cases p) (auto dest: length_pos_if_in_set)
  qed
qed simp

lemma map_of_fold_delete:
  "map_of (fold AList.delete ks m) k = (if k \<in> set ks then None else map_of m k)"
  by (induction ks arbitrary: m) (auto simp: delete_conv')

lemma length_AList_update:
  "length (AList.update k v m) = (if k \<in> fst ` set m then length m else Suc (length m))"
  by (induction m) auto

lemma set_AList_update: "set (AList.update k v m) \<subseteq> insert (k, v) (set m)"
  by (induction m) auto

lemma wf_map_update [simp]: "wf_map m \<Longrightarrow> wf_map (AList.update k v m)"
  by (rule distinct_update)

lemma wf_map_delete [simp]: "wf_map m \<Longrightarrow> wf_map (AList.delete k m)"
  by (rule distinct_delete)

lemma wf_map_filter [simp]: "wf_map m \<Longrightarrow> wf_map (filter P m)"
  by (simp add: distinct_map_filter)

lemma map_of_filter_wf:
  "wf_map m \<Longrightarrow> map_of (filter (\<lambda>(k, v). P k v) m) k
     = (case map_of m k of None \<Rightarrow> None | Some v \<Rightarrow> if P k v then Some v else None)"
  by (induction m) (auto split: option.splits simp: map_of_eq_None_iff [symmetric] image_iff)

lemma map_of_filter_kept:
  "\<forall>v. (k, v) \<in> set m \<longrightarrow> P (k, v) \<Longrightarrow> map_of (filter P m) k = map_of m k"
  by (induction m) auto

text \<open>\<open>Iterator::min_by_key\<close>: the first element with the least key.\<close>

fun min_by_key :: "('a \<Rightarrow> 'b :: linorder) \<Rightarrow> 'a list \<Rightarrow> 'a option" where
  "min_by_key f [] = None"
| "min_by_key f (x # xs) =
     (case min_by_key f xs of None \<Rightarrow> Some x | Some y \<Rightarrow> if f x \<le> f y then Some x else Some y)"

lemma min_by_key_None [simp]: "min_by_key f xs = None \<longleftrightarrow> xs = []"
  by (cases xs) (auto split: option.splits)

lemma min_by_key_Some:
  "min_by_key f xs = Some x \<Longrightarrow> x \<in> set xs \<and> (\<forall>y \<in> set xs. f x \<le> f y)"
  by (induction xs arbitrary: x) (fastforce split: option.splits if_splits)+

section \<open>State machines\<close>

text \<open>
  The contract of a component that processes events one after the other: the initial state
  satisfies the invariant and every event keeps it. The component theories interpret this
  locale on their own handlers, with the events of the code as a datatype.
\<close>

locale state_machine =
  fixes init :: 's
    and step :: "'e \<Rightarrow> 's \<Rightarrow> 's"
    and ok :: "'s \<Rightarrow> bool"
  assumes init_ok: "ok init"
    and step_ok: "ok s \<Longrightarrow> ok (step e s)"
begin

lemma run_ok: "ok s \<Longrightarrow> ok (fold step es s)"
  by (induction es arbitrary: s) (simp_all add: step_ok)

lemma run_init_ok: "ok (fold step es init)"
  by (rule run_ok) (rule init_ok)

end

section \<open>Replay protection\<close>

text \<open>The outputs of a history, and that no step of it is of a bad kind.\<close>

fun trace :: "('e \<Rightarrow> 's \<Rightarrow> 's) \<Rightarrow> ('e \<Rightarrow> 's \<Rightarrow> 'n option) \<Rightarrow> 'e list \<Rightarrow> 's \<Rightarrow> 'n list" where
  "trace step out [] s = []"
| "trace step out (e # es) s =
     (case out e s of None \<Rightarrow> [] | Some n \<Rightarrow> [n]) @ trace step out es (step e s)"

fun never :: "('e \<Rightarrow> 's \<Rightarrow> 's) \<Rightarrow> ('e \<Rightarrow> 's \<Rightarrow> bool) \<Rightarrow> 'e list \<Rightarrow> 's \<Rightarrow> bool" where
  "never step bad [] s \<longleftrightarrow> True"
| "never step bad (e # es) s \<longleftrightarrow> \<not> bad e s \<and> never step bad es (step e s)"

text \<open>
  The contract of a replay guard: a step accepts only a token that it has not seen, an accepted
  token is seen from then on, and only the steps that are known to forget may lose one. Then no
  token is accepted twice in a history without forgetting steps.
\<close>

locale replay_guard =
  fixes seen :: "'n \<Rightarrow> 's \<Rightarrow> bool"
    and step :: "'e \<Rightarrow> 's \<Rightarrow> 's"
    and accepts :: "'e \<Rightarrow> 's \<Rightarrow> 'n option"
    and forgets :: "'e \<Rightarrow> 's \<Rightarrow> bool"
  assumes accepts_fresh: "accepts e s = Some n \<Longrightarrow> \<not> seen n s"
    and accepts_seen: "accepts e s = Some n \<Longrightarrow> seen n (step e s)"
    and seen_kept: "seen n s \<Longrightarrow> \<not> forgets e s \<Longrightarrow> seen n (step e s)"
begin

lemma seen_not_accepted:
  "seen n s \<Longrightarrow> never step forgets es s \<Longrightarrow> n \<notin> set (trace step accepts es s)"
proof (induction es arbitrary: s)
  case (Cons e es)
  from Cons.prems have "seen n (step e s)" and "never step forgets es (step e s)"
    by (simp_all add: seen_kept)
  with Cons.IH have "n \<notin> set (trace step accepts es (step e s))" by simp
  moreover from Cons.prems(1) have "accepts e s \<noteq> Some n" using accepts_fresh by blast
  ultimately show ?case by (simp split: option.split)
qed simp

lemma accepted_once: "never step forgets es s \<Longrightarrow> distinct (trace step accepts es s)"
proof (induction es arbitrary: s)
  case (Cons e es)
  then have "n \<notin> set (trace step accepts es (step e s))" if "accepts e s = Some n" for n
    using seen_not_accepted [OF accepts_seen [OF that]] by simp
  with Cons show ?case by (simp split: option.split)
qed simp

end

section \<open>Versioned entries\<close>

text \<open>
  The contract of a versioned entry: a step accepts only a version above the current one, an
  accepted version becomes the current one, and other steps keep it unless they are known to
  drop the entry. Then the accepted versions of a history are strictly increasing.
\<close>

locale version_guard =
  fixes ver :: "'s \<Rightarrow> 'v :: linorder option"
    and step :: "'e \<Rightarrow> 's \<Rightarrow> 's"
    and accepts :: "'e \<Rightarrow> 's \<Rightarrow> 'v option"
    and drops :: "'e \<Rightarrow> 's \<Rightarrow> bool"
  assumes accepts_newer: "accepts e s = Some v \<Longrightarrow> ver s = Some v' \<Longrightarrow> v' < v"
    and accepts_current: "accepts e s = Some v \<Longrightarrow> ver (step e s) = Some v"
    and ver_kept: "accepts e s = None \<Longrightarrow> \<not> drops e s \<Longrightarrow> ver (step e s) = ver s"
begin

lemma later_versions:
  "ver s = Some v \<Longrightarrow> never step drops es s \<Longrightarrow> \<forall>w \<in> set (trace step accepts es s). v < w"
proof (induction es arbitrary: s v)
  case (Cons e es)
  show ?case
  proof (cases "accepts e s")
    case None
    with Cons.prems have "ver (step e s) = Some v" by (simp add: ver_kept)
    with None Cons.IH [of "step e s" v] Cons.prems(2) show ?thesis by simp
  next
    case (Some w)
    then have "v < w" using accepts_newer Cons.prems(1) by blast
    moreover have "\<forall>u \<in> set (trace step accepts es (step e s)). w < u"
      using Cons.IH [OF accepts_current [OF Some]] Cons.prems(2) by simp
    ultimately show ?thesis using Some by auto
  qed
qed simp

lemma versions_increase: "never step drops es s \<Longrightarrow> sorted_wrt (<) (trace step accepts es s)"
proof (induction es arbitrary: s)
  case (Cons e es)
  then show ?case
    using later_versions [OF accepts_current] by (auto split: option.split)
qed simp

end

end
