(* ===== verification/Gpg.thy ===== *)
theory Gpg
  imports Prelude
begin

text \<open>
  Detached OpenPGP signatures (\<open>protocol/src/gpg.rs\<close>). The Sequoia library, the hash functions
  and base64 are parameters, collected in one record that the other theories share. Public
  keys, signature packets and secret key pairs are represented by their encodings; a packet
  pile is the list of its packets, \<open>None\<close> for a packet that is not a signature. Errors of the
  library are texts.
\<close>

record 'cert pgp_lib =
  blake2b_8 :: "bytes \<Rightarrow> bytes"
  b64_encode :: "bytes \<Rightarrow> string"
  b64_decode :: "string \<Rightarrow> bytes option"
  hmac_sha256 :: "bytes \<Rightarrow> bytes \<Rightarrow> bytes"
  utf8_lossy :: "bytes \<Rightarrow> string"
  cert_from_bytes :: "bytes \<Rightarrow> 'cert option"
  cert_serialize :: "'cert \<Rightarrow> bytes"
  cert_fingerprint :: "'cert \<Rightarrow> string"
  cert_keys :: "'cert \<Rightarrow> bytes list"
  key_secret :: "bytes \<Rightarrow> string + bytes"
  key_keypair :: "bytes \<Rightarrow> string + bytes"
  signer_stream :: "bytes \<Rightarrow> bytes \<Rightarrow> string + bytes"
  packet_parser :: "bytes \<Rightarrow> string + bytes"
  packet_pile :: "bytes \<Rightarrow> string + bytes option list"
  hash_context :: "bytes \<Rightarrow> string + unit"
  verify_hash :: "bytes \<Rightarrow> bytes \<Rightarrow> bytes \<Rightarrow> bool"

section \<open>Signing and verifying\<close>

text \<open>The first key of a certificate signs; the writer stack (armour and signer) is one
  library call.\<close>

definition sign_detached :: "'cert pgp_lib \<Rightarrow> string \<Rightarrow> 'cert \<Rightarrow> string + string" where
  "sign_detached P data cert =
     (case cert_keys P cert of
        [] \<Rightarrow> Inl ''no key found in certificate''
      | key # _ \<Rightarrow>
          bind_result (map_err (\<lambda>e. ''secret key unavailable: '' @ e) (key_secret P key)) (\<lambda>secret.
          bind_result (map_err (\<lambda>e. ''keypair conversion: '' @ e) (key_keypair P secret)) (\<lambda>keypair.
          bind_result (signer_stream P keypair (as_bytes data)) (\<lambda>sig_buf.
            ok_or ''sig UTF-8'' (from_utf8 sig_buf)))))"

text \<open>The loop over the packets: the first signature that verifies decides, a signature with an
  unsupported hash algorithm is an error.\<close>

fun verify_packets :: "'cert pgp_lib \<Rightarrow> bytes \<Rightarrow> string \<Rightarrow> bytes option list \<Rightarrow> string + bool" where
  "verify_packets P key data [] = Inr False"
| "verify_packets P key data (None # ps) = verify_packets P key data ps"
| "verify_packets P key data (Some sg # ps) =
     bind_result (map_err (\<lambda>e. ''hash context: '' @ e) (hash_context P sg)) (\<lambda>_.
       if verify_hash P sg key (as_bytes data) then Inr True else verify_packets P key data ps)"

definition verify_detached :: "'cert pgp_lib \<Rightarrow> string \<Rightarrow> string \<Rightarrow> 'cert \<Rightarrow> string + bool" where
  "verify_detached P sig_armored data cert =
     bind_result (map_err (\<lambda>e. ''parse signature: '' @ e) (packet_parser P (as_bytes sig_armored))) (\<lambda>parser.
     bind_result (map_err (\<lambda>e. ''parse signature pile: '' @ e) (packet_pile P parser)) (\<lambda>pile.
       case cert_keys P cert of
         [] \<Rightarrow> Inl ''no key found in certificate''
       | signing_key # _ \<Rightarrow> verify_packets P signing_key data pile))"

definition cert_from_armored :: "'cert pgp_lib \<Rightarrow> string \<Rightarrow> string + 'cert" where
  "cert_from_armored P armored = ok_or ''parse armored cert'' (cert_from_bytes P (as_bytes armored))"

text \<open>The wrappers around a certificate, and the generation of a key pair: \<open>generate\<close> is the library's builder with
  its random numbers and clock, \<open>tsk_serialize\<close> its writer of certificates with their secret keys.\<close>

definition cert_parse :: "'cert pgp_lib \<Rightarrow> bytes \<Rightarrow> string + 'cert" where
  "cert_parse P bs = ok_or ''parse cert'' (cert_from_bytes P bs)"

definition cert_to_bytes :: "('cert \<Rightarrow> string + bytes) \<Rightarrow> 'cert \<Rightarrow> string + bytes" where
  "cert_to_bytes tsk_serialize cert =
     bind_result (map_err (\<lambda>e. ''serialize cert: '' @ e) (tsk_serialize cert)) Inr"

definition gpg_fingerprint_from_cert :: "'cert pgp_lib \<Rightarrow> 'cert \<Rightarrow> string" where
  "gpg_fingerprint_from_cert P cert = cert_fingerprint P cert"

definition generate_keypair :: "'cert pgp_lib \<Rightarrow> (string \<Rightarrow> string + 'cert) \<Rightarrow> string \<Rightarrow> string + 'cert \<times> bytes" where
  "generate_keypair P generate user_id =
     bind_result (map_err (\<lambda>e. ''key generation: '' @ e) (generate user_id)) (\<lambda>cert.
       case cert_keys P cert of
         [] \<Rightarrow> Inl ''no secret key after generation''
       | key # _ \<Rightarrow>
           bind_result (map_err (\<lambda>e. ''secret key unavailable: '' @ e) (key_secret P key)) (\<lambda>secret.
           bind_result (map_err (\<lambda>e. ''keypair conversion: '' @ e) (key_keypair P secret)) (\<lambda>keypair.
             Inr (cert, keypair))))"

text \<open>A generated pair belongs together: signing with the certificate is signing with the key pair.\<close>

theorem generated_keypair_signs:
  assumes "generate_keypair P generate user_id = Inr (cert, keypair)"
  shows "sign_detached P data cert = bind_result (signer_stream P keypair (as_bytes data)) (\<lambda>sig_buf. ok_or ''sig UTF-8'' (from_utf8 sig_buf))"
proof -
  from assms obtain key rest secret
    where "cert_keys P cert = key # rest" "key_secret P key = Inr secret" "key_keypair P secret = Inr keypair"
    by (cases "generate user_id") (auto simp: generate_keypair_def bind_result_Inr split: list.split_asm)
  then show ?thesis by (simp add: sign_detached_def)
qed

lemma verify_packets_True:
  "verify_packets P key data ps = Inr True \<longleftrightarrow>
     (\<exists>before sg after. ps = before @ Some sg # after \<and> verify_hash P sg key (as_bytes data)
        \<and> (\<forall>s. Some s \<in> set (before @ [Some sg]) \<longrightarrow> (\<exists>u. hash_context P s = Inr u)))"
  (is "_ \<longleftrightarrow> (\<exists>b sg a. ?R ps b sg a)")
proof (induction ps)
  case (Cons p ps)
  have step: "(\<exists>b sg a. ?R (p # ps) b sg a) \<longleftrightarrow>
      (case p of None \<Rightarrow> (\<exists>b sg a. ?R ps b sg a)
       | Some s \<Rightarrow> (\<exists>u. hash_context P s = Inr u) \<and>
           (verify_hash P s key (as_bytes data) \<or> (\<exists>b sg a. ?R ps b sg a)))" (is "?L = ?M")
  proof
    assume ?L
    then obtain b sg a where R: "?R (p # ps) b sg a" by blast
    show ?M
    proof (cases b)
      case Nil
      with R show ?thesis by auto
    next
      case (Cons q b')
      with R have "?R ps b' sg a" by auto
      with R Cons show ?thesis by (auto split: option.split)
    qed
  next
    assume M: ?M
    show ?L
    proof (cases "\<exists>b sg a. ?R ps b sg a")
      case True
      then obtain b sg a where "?R ps b sg a" by blast
      with M have "?R (p # ps) (p # b) sg a" by (auto split: option.splits)
      then show ?thesis by blast
    next
      case False
      with M obtain s where "p = Some s" "verify_hash P s key (as_bytes data)" "\<exists>u. hash_context P s = Inr u"
        by (auto split: option.splits)
      then have "?R (p # ps) [] s ps" by simp
      then show ?thesis by blast
    qed
  qed
  show ?case
    unfolding step using Cons.IH by (cases p) (auto simp: bind_result_Inr)
qed simp

text \<open>
  What an accepted detached signature means: the signature text parses, the certificate has a
  key, and some signature packet verifies over exactly the given data under the certificate's
  first key, every signature packet up to it having a supported hash; conversely such a packet
  makes verification succeed.
\<close>

theorem verify_detached_exact:
  "verify_detached P sig_armored data cert = Inr True \<longleftrightarrow>
     (\<exists>parser pile key rest before sg after.
        packet_parser P (as_bytes sig_armored) = Inr parser \<and> packet_pile P parser = Inr pile
        \<and> cert_keys P cert = key # rest \<and> pile = before @ Some sg # after
        \<and> verify_hash P sg key (as_bytes data)
        \<and> list_all (\<lambda>p. case p of None \<Rightarrow> True | Some s \<Rightarrow> \<not> isl (hash_context P s)) (before @ [Some sg]))"
proof -
  have sup: "(\<forall>s. Some s \<in> set ps \<longrightarrow> (\<exists>u. hash_context P s = Inr u)) \<longleftrightarrow>
      list_all (\<lambda>p. case p of None \<Rightarrow> True | Some s \<Rightarrow> \<not> isl (hash_context P s)) ps" for ps
  proof -
    have "(\<exists>u. hash_context P s = Inr u) \<longleftrightarrow> \<not> isl (hash_context P s)" for s
      by (cases "hash_context P s") simp_all
    then show ?thesis by (auto simp: list_all_iff split: option.split)
  qed
  have "verify_detached P sig_armored data cert = Inr True \<longleftrightarrow>
      (\<exists>parser pile key rest. packet_parser P (as_bytes sig_armored) = Inr parser \<and> packet_pile P parser = Inr pile
         \<and> cert_keys P cert = key # rest \<and> verify_packets P key data pile = Inr True)"
    by (cases "cert_keys P cert") (auto simp: verify_detached_def bind_result_Inr)
  then show ?thesis
    unfolding verify_packets_True sup by blast
qed

end
