(* ===== verification/Wire.thy ===== *)
theory Wire
  imports Gpg
begin

text \<open>
  The protocol crate's constants and wire envelope (\<open>protocol/src/constants.rs\<close>,
  \<open>protocol/src/envelope.rs\<close>): JSON values as the wire carries them, the \<open>WireEnvelope\<close> with its
  field accessors, the parsers of the DHT requests, the builders of the DHT responses, and the
  canonical signing data.

  Random message identifiers (\<open>uuid_hex\<close>) and the clock (\<open>now_unix\<close>) are arguments of the
  builders. The JSON printer and the number printer are parameters; signatures are
  those of the theory \<open>Gpg\<close>.
\<close>

section \<open>Protocol constants\<close>

definition STORE_TTL :: int where "STORE_TTL = 86400"
definition MAX_TTL :: int where "MAX_TTL = 604800"
definition MAX_KEY_SIZE :: nat where "MAX_KEY_SIZE = 256"
definition ADDR_TTL :: int where "ADDR_TTL = 7200"
definition POW_MAX_AGE :: int where "POW_MAX_AGE = 300"
definition MAX_VALUE_SIZE :: nat where "MAX_VALUE_SIZE = 4096"
definition MAX_TOTAL_KEYS :: nat where "MAX_TOTAL_KEYS = 1000000"
definition CONN_RATE_LIMIT :: nat where "CONN_RATE_LIMIT = 50"
definition CONN_RATE_WINDOW :: nat where "CONN_RATE_WINDOW = 60"

definition MSG_P2P_HELLO :: string where "MSG_P2P_HELLO = ''p2p-hello''"
definition MSG_P2P_HELLO_ACK :: string where "MSG_P2P_HELLO_ACK = ''p2p-hello-ack''"
definition MSG_P2P_BRAID_CHUNK :: string where "MSG_P2P_BRAID_CHUNK = ''p2p-braid-chunk''"

section \<open>JSON values\<close>

text \<open>\<open>serde_json::Value\<close>. A number is an integer (between \<open>- 2 ^ 63\<close> and \<open>2 ^ 64 - 1\<close>) or a
  double. An object is its key-value pairs; a lookup takes the first pair with the key.\<close>

datatype json =
    JNull
  | JBool bool
  | JInt int
  | JFloat f64
  | JStr string
  | JArr "json list"
  | JObj "(string \<times> json) list"

fun as_object :: "json \<Rightarrow> (string \<rightharpoonup> json) option" where
  "as_object (JObj kvs) = Some (map_of kvs)"
| "as_object _ = None"

fun as_str :: "json \<Rightarrow> string option" where
  "as_str (JStr s) = Some s"
| "as_str _ = None"

text \<open>An integer is an \<open>i64\<close> (a \<open>u64\<close>) only when it is in that type's range.\<close>

fun as_i64 :: "json \<Rightarrow> int option" where
  "as_i64 (JInt i) = (if - (2 ^ 63) \<le> i \<and> i < 2 ^ 63 then Some i else None)"
| "as_i64 _ = None"

fun as_u64 :: "json \<Rightarrow> u64 option" where
  "as_u64 (JInt i) = (if 0 \<le> i \<and> i < 2 ^ 64 then Some (word_of_int i) else None)"
| "as_u64 _ = None"

lemma as_u64_uint [simp]: "as_u64 (JInt (uint w)) = Some w"
  using unsigned_less [of w, where ?'a = int] by simp

fun as_f64 :: "json \<Rightarrow> f64 option" where
  "as_f64 (JInt i) = Some (of_int i)"
| "as_f64 (JFloat r) = Some r"
| "as_f64 _ = None"

fun as_array :: "json \<Rightarrow> json list option" where
  "as_array (JArr xs) = Some xs"
| "as_array _ = None"

text \<open>\<open>Value::get(key)\<close> is \<open>None\<close> on anything but an object.\<close>

definition json_get :: "json \<Rightarrow> string \<Rightarrow> json option" where
  "json_get j k = Option.bind (as_object j) (\<lambda>m. m k)"

text \<open>A \<open>Vec<u8>\<close> is printed as an array of numbers.\<close>

definition bytes_json :: "bytes \<Rightarrow> json" where
  "bytes_json bs = JArr (map (\<lambda>b. JInt (uint b)) bs)"

section \<open>The wire envelope\<close>

record WireEnvelope =
  msg_type :: string
  payload :: json
  msg_id :: string
  ts :: f64
  sig :: string

definition payload_field :: "WireEnvelope \<Rightarrow> string \<Rightarrow> json option" where
  "payload_field env key = Option.bind (as_object (payload env)) (\<lambda>m. m key)"

definition payload_str :: "WireEnvelope \<Rightarrow> string \<Rightarrow> string option" where
  "payload_str env key = Option.bind (payload_field env key) as_str"

definition payload_i64 :: "WireEnvelope \<Rightarrow> string \<Rightarrow> int option" where
  "payload_i64 env key = Option.bind (payload_field env key) as_i64"

lemma payload_field_JObj [simp]:
  "payload env = JObj kvs \<Longrightarrow> payload_field env key = map_of kvs key"
  by (simp add: payload_field_def)

lemma json_get_payload: "json_get (payload env) key = payload_field env key"
  by (simp add: json_get_def payload_field_def)

lemma payload_i64_range:
  "payload_i64 env key = Some i \<Longrightarrow> - (2 ^ 63) \<le> i \<and> i < 2 ^ 63"
  by (auto simp: payload_i64_def bind_eq_Some_conv elim!: as_i64.elims split: if_splits)

text \<open>The canonical signing data. The printers of JSON values and of doubles are parameters.\<close>

definition signing_data :: "(json \<Rightarrow> string) \<Rightarrow> (f64 \<Rightarrow> string) \<Rightarrow> WireEnvelope \<Rightarrow> string" where
  "signing_data show_json show_f64 env =
     msg_type env @ ''|'' @ show_json (payload env) @ ''|'' @ msg_id env @ ''|'' @ show_f64 (ts env)"

definition sign_gpg ::
  "(json \<Rightarrow> string) \<Rightarrow> (f64 \<Rightarrow> string) \<Rightarrow> 'cert pgp_lib \<Rightarrow> WireEnvelope \<Rightarrow> 'cert
    \<Rightarrow> string + WireEnvelope" where
  "sign_gpg show_json show_f64 P env cert =
     bind_result (sign_detached P (signing_data show_json show_f64 env) cert)
       (\<lambda>s. Inr (env\<lparr>sig := s\<rparr>))"

definition set_signature :: "WireEnvelope \<Rightarrow> string \<Rightarrow> WireEnvelope" where
  "set_signature env s = env\<lparr>sig := s\<rparr>"

definition is_signed :: "WireEnvelope \<Rightarrow> bool" where
  "is_signed env \<longleftrightarrow> sig env \<noteq> []"

definition verify_gpg ::
  "(json \<Rightarrow> string) \<Rightarrow> (f64 \<Rightarrow> string) \<Rightarrow> 'cert pgp_lib \<Rightarrow> WireEnvelope
    \<Rightarrow> 'cert \<Rightarrow> string + bool" where
  "verify_gpg show_json show_f64 P env cert =
     (if sig env = [] then Inr False
      else verify_detached P (sig env) (signing_data show_json show_f64 env) cert)"

section \<open>DHT requests and responses\<close>

record DhtPut =
  put_key :: string
  put_value :: string
  put_salt :: string
  put_seq :: int
  put_ttl :: int
  put_nonce :: int
  put_publisher_cert :: string

record DhtAddrRecord =
  ar_null_id :: string
  ar_address :: string
  ar_ttl :: int
  ar_publisher_fp :: string
  ar_publisher_cert :: string

definition parse_dht_put :: "WireEnvelope \<Rightarrow> DhtPut option" where
  "parse_dht_put env =
     Option.bind (payload_str env ''key'') (\<lambda>k.
     Option.bind (payload_str env ''value'') (\<lambda>v.
     Option.bind (payload_str env ''salt'') (\<lambda>s.
       Some \<lparr>put_key = k, put_value = v, put_salt = s,
             put_seq = opt_or 0 (payload_i64 env ''seq''),
             put_ttl = opt_or STORE_TTL (payload_i64 env ''ttl''),
             put_nonce = opt_or 0 (payload_i64 env ''nonce''),
             put_publisher_cert = opt_or [] (payload_str env ''publisher_cert'')\<rparr>)))"

definition parse_dht_get :: "WireEnvelope \<Rightarrow> string option" where
  "parse_dht_get env = payload_str env ''key''"

definition parse_dht_addr_record :: "WireEnvelope \<Rightarrow> DhtAddrRecord option" where
  "parse_dht_addr_record env =
     Option.bind (payload_str env ''null_id'') (\<lambda>n.
     Option.bind (payload_str env ''address'') (\<lambda>a.
     Option.bind (payload_str env ''publisher_fp'') (\<lambda>fp.
       Some \<lparr>ar_null_id = n, ar_address = a,
             ar_ttl = opt_or ADDR_TTL (payload_i64 env ''ttl''),
             ar_publisher_fp = fp,
             ar_publisher_cert = opt_or [] (payload_str env ''publisher_cert'')\<rparr>)))"

definition build_dht_found ::
  "string \<Rightarrow> f64 \<Rightarrow> string \<Rightarrow> string \<Rightarrow> string \<Rightarrow> int \<Rightarrow> WireEnvelope" where
  "build_dht_found mid now key value salt seq =
     \<lparr>msg_type = ''dht-found'',
      payload = JObj [(''key'', JStr key), (''value'', JStr value), (''salt'', JStr salt),
                      (''seq'', JInt seq)],
      msg_id = mid, ts = now, sig = []\<rparr>"

definition build_dht_error :: "string \<Rightarrow> f64 \<Rightarrow> string \<Rightarrow> string \<Rightarrow> WireEnvelope" where
  "build_dht_error mid now key message =
     \<lparr>msg_type = ''dht-error'',
      payload = JObj [(''key'', JStr key), (''message'', JStr message)],
      msg_id = mid, ts = now, sig = []\<rparr>"

section \<open>Properties\<close>

lemma build_dht_found_fields [simp]:
  "msg_type (build_dht_found mid now k v s n) = ''dht-found''"
  "payload_str (build_dht_found mid now k v s n) ''key'' = Some k"
  "payload_str (build_dht_found mid now k v s n) ''value'' = Some v"
  "payload_str (build_dht_found mid now k v s n) ''salt'' = Some s"
  by (simp_all add: build_dht_found_def payload_str_def payload_field_def)

lemma build_dht_error_fields [simp]:
  "msg_type (build_dht_error mid now k m) = ''dht-error''"
  "payload_str (build_dht_error mid now k m) ''key'' = Some k"
  "payload_str (build_dht_error mid now k m) ''message'' = Some m"
  by (simp_all add: build_dht_error_def payload_str_def payload_field_def)

lemma build_dht_found_not_error [simp]:
  "build_dht_found mid now k v s n \<noteq> build_dht_error mid' now' k' m"
  by (simp add: build_dht_found_def build_dht_error_def)

text \<open>
  The canonical signing data covers every security-relevant field: two envelopes whose message
  types and identifiers contain no \<open>|\<close> and which have the same signing data agree in type,
  payload, identifier and timestamp, provided the printers of JSON values and of doubles
  tell the two envelopes' values apart and doubles are printed without a \<open>|\<close>.
\<close>

theorem signing_data_binds_fields:
  assumes "CHR ''|'' \<notin> set (msg_type e)" and "CHR ''|'' \<notin> set (msg_type e')"
    and "CHR ''|'' \<notin> set (msg_id e)" and "CHR ''|'' \<notin> set (msg_id e')"
    and "CHR ''|'' \<notin> set (show_f64 (ts e))" and "CHR ''|'' \<notin> set (show_f64 (ts e'))"
    and "inj_on show_json {payload e, payload e'}" and "inj_on show_f64 {ts e, ts e'}"
    and "signing_data show_json show_f64 e = signing_data show_json show_f64 e'"
  shows "msg_type e = msg_type e' \<and> payload e = payload e' \<and> msg_id e = msg_id e' \<and> ts e = ts e'"
proof -
  let ?b = "CHR ''|''"
  have "msg_type e @ ?b # (show_json (payload e) @ ?b # (msg_id e @ ?b # show_f64 (ts e)))
      = msg_type e' @ ?b # (show_json (payload e') @ ?b # (msg_id e' @ ?b # show_f64 (ts e')))"
    using assms(9) by (simp add: signing_data_def)
  then have "msg_type e = msg_type e'"
    and rest: "(show_json (payload e) @ ?b # msg_id e) @ ?b # show_f64 (ts e)
      = (show_json (payload e') @ ?b # msg_id e') @ ?b # show_f64 (ts e')"
    using assms(1,2) by (simp_all add: delim_left_inject)
  from rest have "show_json (payload e) @ ?b # msg_id e = show_json (payload e') @ ?b # msg_id e'"
    and "show_f64 (ts e) = show_f64 (ts e')"
    by (simp_all only: delim_right_inject [OF assms(5,6)])
  moreover from this(1) have "show_json (payload e) = show_json (payload e')"
    and "msg_id e = msg_id e'"
    by (simp_all only: delim_right_inject [OF assms(3,4)])
  ultimately show ?thesis
    using \<open>msg_type e = msg_type e'\<close> assms(7,8) by (auto dest: inj_onD)
qed

theorem signing_data_binds_fields_witness:
  "let e = build_dht_found ''ab12'' 7 ''k'' ''v'' ''s'' 3; e' = set_signature e ''xyz''
   in e \<noteq> e' \<and> signing_data (\<lambda>_. ''{}'') (\<lambda>r. show_int (floor r)) e
        = signing_data (\<lambda>_. ''{}'') (\<lambda>r. show_int (floor r)) e'
      \<and> msg_type e = msg_type e' \<and> payload e = payload e' \<and> msg_id e = msg_id e' \<and> ts e = ts e'"
  using signing_data_binds_fields
    [of "build_dht_found ''ab12'' 7 ''k'' ''v'' ''s'' 3"
        "set_signature (build_dht_found ''ab12'' 7 ''k'' ''v'' ''s'' 3) ''xyz''"
        "\<lambda>r. show_int (floor r)" "\<lambda>_. ''{}''"]
  by (simp add: Let_def show_int_no_sep build_dht_found_def set_signature_def signing_data_def)

text \<open>
  Without that restriction the signing data is ambiguous: for every pair of payloads there are
  two envelopes with different message types, payloads and identifiers and the same signing
  data, because \<open>|\<close> is not escaped. A signature over one is a signature over the other.
\<close>

theorem signing_data_ambiguous:
  "let e = \<lparr>msg_type = t @ ''|'' @ show_json p, payload = q, msg_id = i, ts = now, sig = s\<rparr>;
       e' = \<lparr>msg_type = t, payload = p, msg_id = show_json q @ ''|'' @ i, ts = now, sig = s\<rparr>
   in signing_data show_json show_f64 e = signing_data show_json show_f64 e'
      \<and> msg_type e \<noteq> msg_type e' \<and> msg_id e \<noteq> msg_id e'"
  by (simp add: Let_def signing_data_def)

end
