(* ===== verification/Identity.thy ===== *)
theory Identity
  imports Wire
begin

text \<open>
  Identities and signatures of the DHT (\<open>dht-core/src/crypto_helpers.rs\<close>): the syntax of
  fingerprints and Null IDs, the derivation of a Null ID from a fingerprint, the bounded
  certificate cache with least-recently-used eviction, and the two ways to verify a detached
  signature. The hash functions, base64 and the OpenPGP library are the parameters of the theory
  \<open>Gpg\<close>; instants of the monotonic clock are natural numbers.
\<close>

section \<open>Fingerprints and Null IDs\<close>

definition validate_fingerprint :: "string \<Rightarrow> bool" where
  "validate_fingerprint fp \<longleftrightarrow>
     (if length fp \<noteq> 32 \<and> length fp \<noteq> 40 then False else list_all is_ascii_hexdigit fp)"

definition validate_null_id :: "string \<Rightarrow> bool" where
  "validate_null_id nid =
     (let parts = split_on CHR ''-'' nid
      in if length parts \<noteq> 3 \<or> parts ! 0 \<noteq> ''NN'' then False
         else length (parts ! 1) = 4 \<and> length (parts ! 2) = 4)"

text \<open>The two slices \<open>b32[..4]\<close> and \<open>b32[4..8]\<close> panic on an encoding of fewer than eight
  characters; \<open>null_id_slices\<close> below shows that they are in range.\<close>

definition null_id_text :: "'cert pgp_lib \<Rightarrow> string \<Rightarrow> string" where
  "null_id_text P fp = take 8 (trim_end_matches CHR ''='' (b64_encode P (blake2b_8 P (as_bytes fp))))"

definition compute_null_id :: "'cert pgp_lib \<Rightarrow> string \<Rightarrow> string" where
  "compute_null_id P fp =
     (let b32 = null_id_text P fp in ''NN-'' @ take 4 b32 @ ''-'' @ take 4 (drop 4 b32))"

definition constant_time_compare :: "'cert pgp_lib \<Rightarrow> string \<Rightarrow> string \<Rightarrow> bool" where
  "constant_time_compare P a b \<longleftrightarrow>
     hmac_sha256 P (as_bytes ''constant-time-compare'') (as_bytes a)
     = hmac_sha256 P (as_bytes ''constant-time-compare'') (as_bytes b)"

definition validate_null_id_strict :: "'cert pgp_lib \<Rightarrow> string \<Rightarrow> string \<Rightarrow> bool" where
  "validate_null_id_strict P nid fp =
     (if \<not> validate_null_id nid then False
      else if \<not> validate_fingerprint fp then False
      else constant_time_compare P (compute_null_id P fp) nid)"

section \<open>The certificate cache\<close>

definition CERT_CACHE_MAX_ENTRIES :: nat where "CERT_CACHE_MAX_ENTRIES = 1000"

type_synonym cert_cache = "(string \<times> string \<times> nat) list option"

definition cache_cert :: "nat \<Rightarrow> string \<Rightarrow> string \<Rightarrow> cert_cache \<Rightarrow> cert_cache" where
  "cache_cert now fp armored guard =
     (let cache = AList.update (to_uppercase fp) (armored, now) (opt_or [] guard)
      in Some (if CERT_CACHE_MAX_ENTRIES < length cache
               then (case min_by_key (\<lambda>(_, _, t). t) cache of
                       None \<Rightarrow> cache
                     | Some (lru_key, _) \<Rightarrow> AList.delete lru_key cache)
               else cache))"

definition get_cached_cert :: "nat \<Rightarrow> string \<Rightarrow> cert_cache \<Rightarrow> string option \<times> cert_cache" where
  "get_cached_cert now fp guard =
     (case guard of
        None \<Rightarrow> (None, guard)
      | Some cache \<Rightarrow>
          (case map_of cache (to_uppercase fp) of
             None \<Rightarrow> (None, guard)
           | Some (cert, _) \<Rightarrow> (Some cert, Some (AList.update (to_uppercase fp) (cert, now) cache))))"

section \<open>Signatures\<close>

text \<open>Both verifiers decode the base64 signature to text first; they may change the cache.\<close>

definition decode_signature :: "'cert pgp_lib \<Rightarrow> string \<Rightarrow> string option" where
  "decode_signature P b64_sig = Option.bind (b64_decode P b64_sig) from_utf8"

definition verify_signature ::
  "'cert pgp_lib \<Rightarrow> nat \<Rightarrow> string \<Rightarrow> string \<Rightarrow> string \<Rightarrow> cert_cache \<Rightarrow> bool \<times> cert_cache" where
  "verify_signature P now data b64_sig fp guard =
     (if \<not> validate_fingerprint fp then (False, guard)
      else case decode_signature P b64_sig of
        None \<Rightarrow> (False, guard)
      | Some sig_armored \<Rightarrow>
          (case get_cached_cert now fp guard of
             (None, guard') \<Rightarrow> (False, guard')
           | (Some cert_armored, guard') \<Rightarrow>
               (case cert_from_bytes P (as_bytes cert_armored) of
                  None \<Rightarrow> (False, guard')
                | Some cert \<Rightarrow>
                    if \<not> eq_ignore_ascii_case (cert_fingerprint P cert) fp then (False, guard')
                    else (unwrap_or False (verify_detached P sig_armored data cert), guard'))))"

definition verify_signature_with_cert ::
  "'cert pgp_lib \<Rightarrow> nat \<Rightarrow> string \<Rightarrow> string \<Rightarrow> 'cert \<Rightarrow> cert_cache \<Rightarrow> bool \<times> cert_cache" where
  "verify_signature_with_cert P now data b64_sig cert guard =
     (case decode_signature P b64_sig of
        None \<Rightarrow> (False, guard)
      | Some sig_armored \<Rightarrow>
          (unwrap_or False (verify_detached P sig_armored data cert),
           cache_cert now (cert_fingerprint P cert) (utf8_lossy P (cert_serialize P cert)) guard))"

section \<open>Null IDs are well formed\<close>

text \<open>What base64 and BLAKE2b document: an eight-byte digest, and an encoding of eight bytes
  that keeps at least eight characters without its padding and uses no hyphen.\<close>

definition null_id_lib :: "'cert pgp_lib \<Rightarrow> bool" where
  "null_id_lib P \<longleftrightarrow>
     (\<forall>x. length (blake2b_8 P x) = 8)
     \<and> (\<forall>x. length x = 8 \<longrightarrow> 8 \<le> length (trim_end_matches CHR ''='' (b64_encode P x))
              \<and> CHR ''-'' \<notin> set (b64_encode P x))"

lemma null_id_slices:
  assumes "null_id_lib P"
  shows "length (null_id_text P fp) = 8" and "CHR ''-'' \<notin> set (null_id_text P fp)"
proof -
  let ?b = "b64_encode P (blake2b_8 P (as_bytes fp))"
  have l: "8 \<le> length (trim_end_matches CHR ''='' ?b)" and h: "CHR ''-'' \<notin> set ?b"
    using assms by (simp_all add: null_id_lib_def)
  from l show "length (null_id_text P fp) = 8" by (simp add: null_id_text_def)
  from h show "CHR ''-'' \<notin> set (null_id_text P fp)"
    using set_trim_end_matches [of "CHR ''=''" ?b]
    by (auto simp: null_id_text_def dest: in_set_takeD)
qed

lemma split_null_id:
  "CHR ''-'' \<notin> set a \<Longrightarrow> CHR ''-'' \<notin> set b \<Longrightarrow>
     split_on CHR ''-'' (''NN-'' @ a @ ''-'' @ b) = [''NN'', a, b]"
  using split_on_append [of "CHR ''-''" "''NN''" "a @ ''-'' @ b"]
  by (simp add: split_on_append split_on_none)

lemma validate_null_id_shape:
  "validate_null_id nid \<longleftrightarrow>
     (\<exists>a b. nid = ''NN-'' @ a @ ''-'' @ b \<and> length a = 4 \<and> length b = 4
        \<and> CHR ''-'' \<notin> set a \<and> CHR ''-'' \<notin> set b)" (is "_ \<longleftrightarrow> ?R")
proof
  assume v: "validate_null_id nid"
  then obtain a b where p: "split_on CHR ''-'' nid = [''NN'', a, b]" and l: "length a = 4" "length b = 4"
    by (auto simp: validate_null_id_def Let_def numeral_3_eq_3 length_Suc_conv split: if_splits)
  from p have "nid = ''NN-'' @ a @ ''-'' @ b"
    using join_split_on [of "CHR ''-''" nid] by simp
  moreover have "CHR ''-'' \<notin> set a \<and> CHR ''-'' \<notin> set b"
    using split_on_pieces [of "CHR ''-''" nid] p by simp
  ultimately show ?R using l by blast
next
  assume ?R
  then show "validate_null_id nid"
    by (auto simp: validate_null_id_def Let_def split_null_id simp del: append_Cons)
qed

text \<open>
  A derived Null ID always passes the syntax check of the handlers, so an honest publisher is
  never turned away by it: it is \<open>NN-XXXX-XXXX\<close>, twelve bytes long, for every fingerprint.
\<close>

theorem compute_null_id_valid:
  assumes "null_id_lib P"
  shows "validate_null_id (compute_null_id P fp) \<and> length (compute_null_id P fp) = 12"
proof -
  let ?t = "null_id_text P fp"
  have l: "length ?t = 8" and h: "CHR ''-'' \<notin> set ?t"
    using null_id_slices [OF assms] by blast+
  then have "CHR ''-'' \<notin> set (take 4 ?t)" "CHR ''-'' \<notin> set (take 4 (drop 4 ?t))"
    by (auto dest: in_set_takeD in_set_dropD)
  with l have "validate_null_id (compute_null_id P fp)"
    unfolding validate_null_id_shape compute_null_id_def Let_def
    by (intro exI [of _ "take 4 ?t"] exI [of _ "take 4 (drop 4 ?t)"]) simp
  with l show ?thesis by (simp add: compute_null_id_def Let_def)
qed

text \<open>A library for the witnesses: a constant digest and encoding, and certificates that are
  their own fingerprints.\<close>

definition toy_pgp :: "string pgp_lib" where
  "toy_pgp =
     \<lparr>blake2b_8 = (\<lambda>_. replicate 8 0), b64_encode = (\<lambda>_. ''ABCDEFGHIJK=''),
      b64_decode = (\<lambda>s. Some (as_bytes s)), hmac_sha256 = (\<lambda>_ x. x), utf8_lossy = map (\<lambda>b. char_of (unat b)),
      cert_from_bytes = from_utf8, cert_serialize = as_bytes, cert_fingerprint = id,
      cert_keys = (\<lambda>c. [as_bytes c]), key_secret = Inr, key_keypair = Inr, signer_stream = (\<lambda>k _. Inr k),
      packet_parser = Inr, packet_pile = (\<lambda>b. Inr [Some b]), hash_context = (\<lambda>_. Inr ()),
      verify_hash = (\<lambda>s k _. s = k)\<rparr>"

lemma toy_null_id_lib: "null_id_lib toy_pgp"
  by (simp add: null_id_lib_def toy_pgp_def trim_end_matches_def)

theorem compute_null_id_valid_witness:
  "validate_null_id (compute_null_id toy_pgp ''AB'') \<and> length (compute_null_id toy_pgp ''AB'') = 12"
  by (rule compute_null_id_valid [OF toy_null_id_lib])

section \<open>The cache is bounded and remembers\<close>

definition cert_cache_ok :: "cert_cache \<Rightarrow> bool" where
  "cert_cache_ok guard \<longleftrightarrow>
     (case guard of None \<Rightarrow> True
      | Some m \<Rightarrow> wf_map m \<and> length m \<le> CERT_CACHE_MAX_ENTRIES)"

lemma cert_cache_ok_opt:
  "cert_cache_ok g \<longleftrightarrow> wf_map (opt_or [] g) \<and> length (opt_or [] g) \<le> CERT_CACHE_MAX_ENTRIES"
  by (cases g) (auto simp: cert_cache_ok_def)

lemma cache_cert_ok [invs]:
  assumes "cert_cache_ok g"
  shows "cert_cache_ok (cache_cert now fp a g)"
proof -
  let ?m = "AList.update (to_uppercase fp) (a, now) (opt_or [] g)"
  have wf: "wf_map ?m" and len: "length ?m \<le> Suc CERT_CACHE_MAX_ENTRIES"
    using assms by (auto simp: cert_cache_ok_opt length_AList_update)
  show ?thesis
  proof (cases "CERT_CACHE_MAX_ENTRIES < length ?m")
    case True
    then have "?m \<noteq> []" by auto
    then obtain k v where m: "min_by_key (\<lambda>(_, _, t). t) ?m = Some (k, v)"
      by (cases "min_by_key (\<lambda>(_, _, t). t) ?m") auto
    then have "k \<in> fst ` set ?m"
      by (force dest: min_by_key_Some)
    then have "length (AList.delete k ?m) = length ?m - 1"
      by (simp add: length_AList_delete wf)
    with True m wf len show ?thesis
      by (simp add: cache_cert_def cert_cache_ok_def Let_def)
  next
    case False
    with wf show ?thesis by (simp add: cache_cert_def cert_cache_ok_def Let_def)
  qed
qed

lemma get_cached_cert_ok [invs]: "cert_cache_ok g \<Longrightarrow> cert_cache_ok (snd (get_cached_cert now fp g))"
  by (auto simp: get_cached_cert_def cert_cache_ok_def length_AList_update dest!: map_of_SomeD
      split: option.splits) (metis image_eqI fst_conv)

lemma verify_signature_ok [invs]: "cert_cache_ok g \<Longrightarrow> cert_cache_ok (snd (verify_signature P now d s fp g))"
  using get_cached_cert_ok [of g now fp]
  by (auto simp: verify_signature_def split: option.splits prod.splits)

lemma verify_signature_with_cert_ok [invs]:
  "cert_cache_ok g \<Longrightarrow> cert_cache_ok (snd (verify_signature_with_cert P now d s c g))"
  by (auto simp: verify_signature_with_cert_def cache_cert_ok split: option.splits)

text \<open>
  The certificate cache never exceeds its thousand entries and never holds a fingerprint
  twice, whatever is cached, looked up or verified: least-recently-used eviction keeps the
  bound on every path.
\<close>

theorem cert_cache_bounded:
  assumes "cert_cache_ok g"
  shows "cert_cache_ok (cache_cert now fp a g)
    \<and> cert_cache_ok (snd (get_cached_cert now fp g))
    \<and> cert_cache_ok (snd (verify_signature P now d s fp g))
    \<and> cert_cache_ok (snd (verify_signature_with_cert P now d s c g))"
  using assms by (simp add: invs)

theorem cert_cache_bounded_witness:
  "cert_cache_ok (cache_cert 3 ''AB'' ''cert'' None)
    \<and> cert_cache_ok (snd (get_cached_cert 3 ''AB'' None))
    \<and> cert_cache_ok (snd (verify_signature toy_pgp 3 ''d'' ''s'' ''AB'' None))
    \<and> cert_cache_ok (snd (verify_signature_with_cert toy_pgp 3 ''d'' ''s'' ''C'' None))"
  by (rule cert_cache_bounded) (simp add: cert_cache_ok_def)

text \<open>
  What was cached is found again, whatever the letter case of the fingerprint, even when the
  insertion evicts an entry of a full cache, provided the clock has advanced since the older
  entries were last used.
\<close>

theorem cert_cache_remembers:
  assumes "cert_cache_ok g" and "\<forall>(k, a, t) \<in> set (opt_or [] g). t < now"
    and "to_uppercase fp' = to_uppercase fp"
  shows "fst (get_cached_cert now' fp' (cache_cert now fp armored g)) = Some armored"
proof -
  let ?k = "to_uppercase fp" and ?old = "opt_or [] g"
  let ?m = "AList.update ?k (armored, now) ?old"
  have lk: "map_of ?m ?k = Some (armored, now)"
    by (simp add: update_conv')
  have "map_of (AList.delete k ?m) ?k = Some (armored, now)"
    if "CERT_CACHE_MAX_ENTRIES < length ?m" "min_by_key (\<lambda>(_, _, t). t) ?m = Some (k, v)" for k v
  proof -
    have "?old \<noteq> []"
      using that(1) by (auto simp: CERT_CACHE_MAX_ENTRIES_def)
    have "\<exists>p \<in> set ?m. fst p \<noteq> ?k"
    proof (rule ccontr)
      assume "\<not> ?thesis"
      then have "set (map fst ?m) \<subseteq> {?k}" by auto
      then have "card (set (map fst ?m)) \<le> 1"
        using card_mono [of "{?k}" "set (map fst ?m)"] by simp
      moreover have "wf_map ?m" using assms(1) by (simp add: cert_cache_ok_opt)
      ultimately have "length ?m \<le> 1"
        by (metis distinct_card length_map)
      with that(1) show False by (simp add: CERT_CACHE_MAX_ENTRIES_def)
    qed
    then obtain k0 a0 t0 where p: "(k0, a0, t0) \<in> set ?m" "k0 \<noteq> ?k" by force
    have "map_of ?m k0 = Some (a0, t0)"
      using p(1) assms(1) by (simp add: cert_cache_ok_opt)
    with p(2) have "map_of ?old k0 = Some (a0, t0)" by (simp add: update_conv')
    then have "t0 < now" using assms(2) by (auto dest: map_of_SomeD)
    moreover have "snd v \<le> t0"
      using bspec [OF conjunct2 [OF min_by_key_Some [OF that(2)]] p(1)] by (cases v) simp
    moreover have "(k, v) \<in> set ?m"
      using min_by_key_Some [OF that(2)] by simp
    then have "map_of ?m k = Some v"
      using assms(1) by (simp add: cert_cache_ok_opt)
    ultimately have "k \<noteq> ?k" using lk by auto
    with lk show ?thesis by (simp add: delete_conv')
  qed
  with lk show ?thesis
    by (auto simp: cache_cert_def get_cached_cert_def Let_def assms(3) split: option.splits)
qed

theorem cert_cache_remembers_witness:
  "fst (get_cached_cert 9 ''ab'' (cache_cert 5 ''AB'' ''cert'' (Some [(''CD'', ''other'', 4)])))
     = Some ''cert''"
  by (rule cert_cache_remembers) (simp add: cert_cache_ok_def CERT_CACHE_MAX_ENTRIES_def, simp, code_simp)

section \<open>Which key signed\<close>

text \<open>
  Verification by fingerprint binds the signature to the identity: it succeeds only with a
  well-formed fingerprint, a certificate cached under it whose own fingerprint is the same
  one, and a signature that this certificate verifies over exactly this data.
\<close>

theorem verify_signature_binds_fingerprint:
  assumes "fst (verify_signature P now data b64_sig fp g)"
  shows "validate_fingerprint fp \<and>
    (\<exists>armored cert sig_text.
       fst (get_cached_cert now fp g) = Some armored
       \<and> cert_from_bytes P (as_bytes armored) = Some cert
       \<and> eq_ignore_ascii_case (cert_fingerprint P cert) fp
       \<and> decode_signature P b64_sig = Some sig_text
       \<and> verify_detached P sig_text data cert = Inr True)"
  using assms
  by (auto simp: verify_signature_def split: if_splits option.splits prod.splits)

definition hex32 :: string where "hex32 = replicate 32 CHR ''A''"

theorem verify_signature_binds_fingerprint_witness:
  "validate_fingerprint hex32 \<and>
    (\<exists>armored cert sig_text.
       fst (get_cached_cert 2 hex32 (Some [(hex32, hex32, 1)])) = Some armored
       \<and> cert_from_bytes toy_pgp (as_bytes armored) = Some cert
       \<and> eq_ignore_ascii_case (cert_fingerprint toy_pgp cert) hex32
       \<and> decode_signature toy_pgp hex32 = Some sig_text
       \<and> verify_detached toy_pgp sig_text ''data'' cert = Inr True)"
  by (rule verify_signature_binds_fingerprint) code_simp

end
