(* ===== verification/Pow.thy ===== *)
theory Pow
  imports Wire
begin

text \<open>
  Proof of work (\<open>protocol/src/pow.rs\<close>): the leading-zero count, the memory-hard check and the
  nonce search. Argon2id is a parameter: a function that builds the hasher's parameters and one
  that hashes a password with a salt; both may fail with a message.
\<close>

unbundle bit_operations_syntax

definition DHT_POW_MEMORY_COST :: nat where "DHT_POW_MEMORY_COST = 16384"
definition DHT_POW_TIME_COST :: nat where "DHT_POW_TIME_COST = 3"
definition DHT_POW_PARALLELISM :: nat where "DHT_POW_PARALLELISM = 1"
definition DHT_POW_HASH_LEN :: nat where "DHT_POW_HASH_LEN = 32"
definition DHT_POW_DIFFICULTY :: nat where "DHT_POW_DIFFICULTY = 16"
definition MIN_POW_DIFFICULTY :: nat where "MIN_POW_DIFFICULTY = 8"
definition ADDR_POW_DIFFICULTY :: nat where "ADDR_POW_DIFFICULTY = 12"
definition POW_SALT :: bytes where "POW_SALT = as_bytes ''nullnode-dht-pow''"

section \<open>Leading zero bits\<close>

text \<open>The inner loop shifts the first non-zero byte left until its top bit is set.\<close>

function shift_count :: "u8 \<Rightarrow> nat" where
  "shift_count b = (if 0 < b \<and> b AND 0x80 = 0 then Suc (shift_count (push_bit 1 b)) else 0)"
  by pat_completeness auto

lemma top_bit_clear: "(b :: u8) AND 0x80 = 0 \<longleftrightarrow> unat b < 128"
proof -
  have "b AND 2 ^ 7 = 0 \<longleftrightarrow> \<not> bit b 7"
    by (rule and_exp_eq_0_iff_not_bit)
  moreover have "bit b 7 \<longleftrightarrow> odd (unat b div 128)"
    using bit_unsigned_iff [of b 7, where ?'a = nat] by (simp add: bit_iff_odd)

  moreover have "unat b div 128 = (if unat b < 128 then 0 else 1)"
    using unat_u8_less [of b] by (auto intro!: div_nat_eqI)
  ultimately show ?thesis by simp
qed

lemma unat_shl_1: "unat (b :: u8) < 128 \<Longrightarrow> unat (b * 2) = 2 * unat b"
  by (simp add: unat_word_ariths)

termination shift_count
  by (relation "measure (\<lambda>b. 256 - unat b)")
    (auto simp: top_bit_clear unat_shl_1 word_less_nat_alt)

declare shift_count.simps [simp del]

fun leading_zero_bits :: "bytes \<Rightarrow> nat" where
  "leading_zero_bits [] = 0"
| "leading_zero_bits (b # bs) = (if b = 0 then 8 + leading_zero_bits bs else shift_count b)"

text \<open>The reference: the hash read as a big-endian number.\<close>

definition be_value :: "bytes \<Rightarrow> nat" where
  "be_value bs = foldl (\<lambda>a b. 256 * a + unat b) 0 bs"

lemma be_value_aux:
  "foldl (\<lambda>a (b :: u8). 256 * a + unat b) n bs = n * 256 ^ length bs + be_value bs"
proof (induction bs arbitrary: n)
  case Nil
  then show ?case by (simp add: be_value_def)
next
  case (Cons b bs)
  have "foldl (\<lambda>a b. 256 * a + unat b) n (b # bs)
      = (256 * n + unat b) * 256 ^ length bs + be_value bs"
    using Cons.IH [of "256 * n + unat b"] by simp
  moreover have "be_value (b # bs) = unat b * 256 ^ length bs + be_value bs"
    using Cons.IH [of "unat b"] by (simp add: be_value_def)
  ultimately show ?case by (simp add: algebra_simps)
qed

lemma be_value_Nil [simp]: "be_value [] = 0"
  by (simp add: be_value_def)

lemma be_value_Cons: "be_value (b # bs) = unat b * 256 ^ length bs + be_value bs"
  using be_value_aux [of "unat b" bs] by (simp add: be_value_def)

lemma be_value_bound: "be_value bs < 256 ^ length bs"
proof (induction bs)
  case Nil
  then show ?case by simp
next
  case (Cons b bs)
  have "unat b + 1 \<le> 256"
    using unat_u8_less [of b] by simp
  then have "(unat b + 1) * 256 ^ length bs \<le> 256 * 256 ^ length bs"
    by (rule mult_le_mono1)
  then have "unat b * 256 ^ length bs + 256 ^ length bs \<le> 256 * 256 ^ length bs"
    by (simp only: add_mult_distrib mult_1)
  with Cons have "unat b * 256 ^ length bs + be_value bs < 256 * 256 ^ length bs"
    by linarith
  then show ?case by (simp add: be_value_Cons)
qed

lemma shift_count_iff:
  "0 < unat b \<Longrightarrow> d \<le> 8 \<Longrightarrow> d \<le> shift_count b \<longleftrightarrow> unat b < 2 ^ (8 - d)"
proof (induction b arbitrary: d rule: shift_count.induct)
  case (1 b)
  have lt: "unat b < 256"
    by (rule unat_u8_less)
  show ?case
  proof (cases "unat b < 128")
    case True
    then have sc: "shift_count b = Suc (shift_count (push_bit 1 b))"
      using 1(2) by (subst shift_count.simps) (simp add: top_bit_clear word_less_nat_alt)
    show ?thesis
    proof (cases d)
      case 0
      with lt show ?thesis by simp
    next
      case (Suc e)
      have "e \<le> shift_count (push_bit 1 b) \<longleftrightarrow> unat (push_bit 1 b) < 2 ^ (8 - e)"
        using 1 True Suc by (intro 1(1)) (simp_all add: top_bit_clear unat_shl_1 word_less_nat_alt)
      moreover have "8 - e = Suc (8 - d)"
        using Suc 1(3) by simp
      ultimately show ?thesis using sc Suc True by (simp add: unat_shl_1)
    qed
  next
    case False
    then have "shift_count b = 0"
      by (subst shift_count.simps) (simp add: top_bit_clear)
    moreover have "\<not> unat b < 2 ^ (8 - d)" if "0 < d"
    proof -
      have "(2::nat) ^ (8 - d) \<le> 2 ^ 7"
        using that by (intro power_increasing) auto
      with False show ?thesis by simp
    qed
    ultimately show ?thesis using lt by (cases "d = 0") auto
  qed
qed

lemma leading_zero_bits_le: "leading_zero_bits bs \<le> 8 * length bs"
proof (induction bs)
  case (Cons b bs)
  have "shift_count b \<le> 8" if "b \<noteq> 0"
  proof (rule ccontr)
    assume "\<not> shift_count b \<le> 8"
    then have "8 \<le> shift_count b" by simp
    with that have "unat b < 1"
      using shift_count_iff [of b 8] by (simp add: unat_gt_0)
    with that show False by (simp add: unat_eq_0)
  qed
  with Cons show ?case by auto
qed simp

lemma pow256: "(256 :: nat) ^ n = 2 ^ (8 * n)"
  by (simp add: power_mult)

lemma high_part_less: "v < K \<Longrightarrow> h * K + v < k * K \<longleftrightarrow> h < (k :: nat)"
  using div_less_iff_less_mult [of K "h * K + v" k] by simp

lemma leading_zero_bits_iff:
  "d \<le> 8 * length bs \<Longrightarrow> d \<le> leading_zero_bits bs \<longleftrightarrow> be_value bs < 2 ^ (8 * length bs - d)"
proof (induction bs arbitrary: d)
  case Nil
  then show ?case by simp
next
  case (Cons b bs)
  let ?n = "8 * length bs"
  have v: "be_value bs < 2 ^ ?n"
    using be_value_bound [of bs] by (simp add: pow256)
  consider (zero) "b = 0" | (small) "b \<noteq> 0" "d \<le> 8" | (large) "b \<noteq> 0" "8 < d" by linarith
  then show ?case
  proof cases
    case zero
    show ?thesis
    proof (cases "d \<le> 8")
      case True
      then have "(2 :: nat) ^ ?n \<le> 2 ^ (8 + ?n - d)"
        by (intro power_increasing) auto
      with v have "be_value bs < 2 ^ (8 + ?n - d)" by (rule less_le_trans)
      with zero True show ?thesis by (simp add: be_value_Cons)
    next
      case False
      with Cons.prems have "d - 8 \<le> ?n" by simp
      from Cons.IH [OF this] zero False show ?thesis
        by (auto simp: be_value_Cons add.commute)
    qed
  next
    case small
    then have "0 < unat b" by (simp add: unat_gt_0)
    have split: "(2 :: nat) ^ (8 + ?n - d) = 2 ^ (8 - d) * 2 ^ ?n"
      using small by (simp flip: power_add)
    with shift_count_iff [OF \<open>0 < unat b\<close> small(2)] high_part_less [OF v, of "unat b" "2 ^ (8 - d)"] small show ?thesis
      by (simp add: be_value_Cons pow256 split)
  next
    case large
    then have "1 \<le> unat b" by (simp add: unat_gt_0 Suc_le_eq)
    then have "shift_count b < 8"
      using shift_count_iff [of b 8] by simp
    moreover have "(2 :: nat) ^ (8 + ?n - d) \<le> unat b * 2 ^ ?n"
      using mult_le_mono [OF \<open>1 \<le> unat b\<close> power_increasing [of "8 + ?n - d" ?n "2 :: nat"]] large by simp
    ultimately show ?thesis
      using large by (simp add: be_value_Cons pow256)
  qed
qed

section \<open>Check and solve\<close>

datatype PowError =
    Argon2Params string
  | Argon2Hash string
  | DifficultyTooHigh
  | DifficultyTooLow nat nat

text \<open>The hasher: \<open>Params::new\<close> and \<open>Argon2::hash_password_into\<close>.\<close>

record 'p argon2 =
  params_new :: "nat \<Rightarrow> nat \<Rightarrow> nat \<Rightarrow> nat option \<Rightarrow> string + 'p"
  hash_password_into :: "'p \<Rightarrow> bytes \<Rightarrow> bytes \<Rightarrow> string + bytes"

definition node_pow_salt :: "bytes \<Rightarrow> bytes" where
  "node_pow_salt node_secret = POW_SALT @ node_secret"

definition pow_input :: "string \<Rightarrow> u64 \<Rightarrow> string" where
  "pow_input data nonce = data @ '':'' @ show_nat (unat nonce)"

definition pow_params :: "'p argon2 \<Rightarrow> PowError + 'p" where
  "pow_params A = map_err Argon2Params
     (params_new A DHT_POW_MEMORY_COST DHT_POW_TIME_COST DHT_POW_PARALLELISM (Some DHT_POW_HASH_LEN))"

definition pow_attempt :: "'p argon2 \<Rightarrow> 'p \<Rightarrow> bytes \<Rightarrow> string \<Rightarrow> nat \<Rightarrow> u64 \<Rightarrow> PowError + bool" where
  "pow_attempt A p salt data difficulty nonce =
     bind_result (map_err Argon2Hash (hash_password_into A p (as_bytes (pow_input data nonce)) salt))
       (\<lambda>raw. Inr (difficulty \<le> leading_zero_bits raw))"

definition pow_check :: "'p argon2 \<Rightarrow> string \<Rightarrow> u64 \<Rightarrow> nat \<Rightarrow> bytes \<Rightarrow> PowError + bool" where
  "pow_check A data nonce difficulty node_secret =
     (if difficulty < MIN_POW_DIFFICULTY then Inl (DifficultyTooLow difficulty MIN_POW_DIFFICULTY)
      else bind_result (pow_params A)
        (\<lambda>p. pow_attempt A p (node_pow_salt node_secret) data difficulty nonce))"

function pow_loop ::
  "'p argon2 \<Rightarrow> 'p \<Rightarrow> bytes \<Rightarrow> string \<Rightarrow> nat \<Rightarrow> u64 \<Rightarrow> u64 \<Rightarrow> PowError + u64 option" where
  "pow_loop A p salt data difficulty max_attempts nonce =
     (if nonce < max_attempts then
        bind_result (pow_attempt A p salt data difficulty nonce)
          (\<lambda>ok. if ok then Inr (Some nonce)
                else pow_loop A p salt data difficulty max_attempts (nonce + 1))
      else Inr None)"
  by pat_completeness auto

lemma u64_succ: "(n :: u64) < m \<Longrightarrow> unat (n + 1) = unat n + 1"
proof -
  assume "n < m"
  moreover have "unat m < 2 ^ 64"
    using unsigned_less [of m, where ?'a = nat] by simp
  ultimately have "unat n + 1 < 2 ^ 64"
    by (simp add: word_less_nat_alt)
  then show ?thesis by (simp add: unat_word_ariths)
qed

termination pow_loop
  by (relation "measure (\<lambda>(A, p, s, d, k, m, n). unat m - unat n)")
    (auto simp: u64_succ word_less_nat_alt)

declare pow_loop.simps [simp del]

definition pow_solve :: "'p argon2 \<Rightarrow> string \<Rightarrow> nat \<Rightarrow> u64 \<Rightarrow> bytes \<Rightarrow> PowError + u64 option" where
  "pow_solve A data difficulty max_attempts node_secret =
     (if difficulty < MIN_POW_DIFFICULTY then Inl (DifficultyTooLow difficulty MIN_POW_DIFFICULTY)
      else bind_result (pow_params A)
        (\<lambda>p. pow_loop A p (node_pow_salt node_secret) data difficulty max_attempts 0))"

section \<open>Properties\<close>

text \<open>What the Argon2 library documents: these parameters are valid, and hashing a password and a
  salt of the admitted lengths (a salt of at least eight bytes, both below \<open>2 ^ 32\<close> bytes)
  fills the whole output buffer.\<close>

definition argon2_total :: "'p argon2 \<Rightarrow> bool" where
  "argon2_total A \<longleftrightarrow>
     (\<exists>p. params_new A DHT_POW_MEMORY_COST DHT_POW_TIME_COST DHT_POW_PARALLELISM
            (Some DHT_POW_HASH_LEN) = Inr p
        \<and> (\<forall>pw salt. length pw < 2 ^ 32 \<longrightarrow> 8 \<le> length salt \<longrightarrow> length salt < 2 ^ 32 \<longrightarrow>
             (\<exists>raw. hash_password_into A p pw salt = Inr raw \<and> length raw = DHT_POW_HASH_LEN)))"

lemma length_show_nat: "n < 10 ^ Suc k \<Longrightarrow> length (show_nat n) \<le> Suc k"
proof (induction k arbitrary: n)
  case 0
  then show ?case by (subst show_nat.simps) simp
next
  case (Suc k)
  then have "n div 10 < 10 ^ Suc k" by (simp add: div_less_iff_less_mult)
  then have "length (show_nat (n div 10)) \<le> Suc k" by (rule Suc.IH)
  then show ?case by (subst show_nat.simps) simp
qed

lemma length_pow_input: "length data < 2 ^ 31 \<Longrightarrow> length (pow_input data n) < 2 ^ 32"
proof -
  have "unat n < 2 ^ 64" using unsigned_less [of n, where ?'a = nat] by simp
  then have "length (show_nat (unat n)) \<le> Suc 19" by (intro length_show_nat) simp
  then show "length data < 2 ^ 31 \<Longrightarrow> ?thesis" by (simp add: pow_input_def)
qed

lemma pow_loop_spec:
  assumes "\<And>n. \<exists>b. pow_attempt A p salt data d n = Inr b"
  shows "pow_loop A p salt data d m k = Inr r \<Longrightarrow>
    (case r of
       Some n \<Rightarrow> k \<le> n \<and> n < m \<and> pow_attempt A p salt data d n = Inr True
                \<and> (\<forall>j. k \<le> j \<longrightarrow> j < n \<longrightarrow> pow_attempt A p salt data d j = Inr False)
     | None \<Rightarrow> \<forall>j. k \<le> j \<longrightarrow> j < m \<longrightarrow> pow_attempt A p salt data d j = Inr False)"
proof (induction A p salt data d m k rule: pow_loop.induct)
  case (1 A p salt data d m k)
  have ge_cases: "k \<le> j \<longleftrightarrow> j = k \<or> k + 1 \<le> j" if "k < m" for j
    using u64_succ [OF that] by (auto simp: word_le_nat_alt word_unat_eq_iff)
  show ?case
    using 1 ge_cases
    by (subst (asm) (2) pow_loop.simps)
       (fastforce split: if_splits option.splits simp: result_simps)
qed

lemma pow_loop_total:
  "(\<And>n. \<exists>b. pow_attempt A p salt data d n = Inr b) \<Longrightarrow> \<exists>r. pow_loop A p salt data d m k = Inr r"
proof (induction A p salt data d m k rule: pow_loop.induct)
  case (1 A p salt data d m k)
  from "1.prems" [of k] obtain b where b: "pow_attempt A p salt data d k = Inr b" by blast
  then show ?case
    using "1.IH" [of False] "1.prems"
    by (subst pow_loop.simps) auto
qed

lemma pow_check_attempt:
  assumes "MIN_POW_DIFFICULTY \<le> d" and "pow_params A = Inr p"
  shows "pow_check A data n d sec = pow_attempt A p (node_pow_salt sec) data d n"
  using assms by (simp add: pow_check_def)

lemma argon2_total_attempt:
  assumes "argon2_total A" and "length data < 2 ^ 31" and "length sec < 2 ^ 31"
  obtains p where "pow_params A = Inr p"
    and "\<And>d n. \<exists>raw. hash_password_into A p (as_bytes (pow_input data n)) (node_pow_salt sec) = Inr raw
           \<and> length raw = 32
           \<and> pow_attempt A p (node_pow_salt sec) data d n = Inr (d \<le> leading_zero_bits raw)"
proof -
  from assms(1) obtain p where p: "params_new A DHT_POW_MEMORY_COST DHT_POW_TIME_COST
      DHT_POW_PARALLELISM (Some DHT_POW_HASH_LEN) = Inr p"
    and h: "\<And>pw salt. length pw < 2 ^ 32 \<Longrightarrow> 8 \<le> length salt \<Longrightarrow> length salt < 2 ^ 32 \<Longrightarrow>
      \<exists>raw. hash_password_into A p pw salt = Inr raw \<and> length raw = DHT_POW_HASH_LEN"
    unfolding argon2_total_def by blast
  have salt: "8 \<le> length (node_pow_salt sec)" "length (node_pow_salt sec) < 2 ^ 32"
    using assms(3) by (simp_all add: node_pow_salt_def POW_SALT_def)
  show ?thesis
  proof (rule that)
    show "pow_params A = Inr p" by (simp add: pow_params_def p)
    show "\<exists>raw. hash_password_into A p (as_bytes (pow_input data n)) (node_pow_salt sec) = Inr raw
           \<and> length raw = 32
           \<and> pow_attempt A p (node_pow_salt sec) data d n = Inr (d \<le> leading_zero_bits raw)" for d n
      using h [OF _ salt, of "as_bytes (pow_input data n)"] length_pow_input [OF assms(2), of n]
      by (auto simp: pow_attempt_def DHT_POW_HASH_LEN_def)
  qed
qed

text \<open>
  C24. The search for a nonce is exact: with a working Argon2 and an allowed difficulty,
  \<open>pow_solve\<close> always returns, it returns the least nonce below \<open>max_attempts\<close> that \<open>pow_check\<close>
  accepts, and it returns \<open>None\<close> only if \<open>pow_check\<close> rejects every nonce below \<open>max_attempts\<close>.
\<close>

theorem pow_solve_exact:
  assumes "argon2_total A" and "MIN_POW_DIFFICULTY \<le> d"
    and "length data < 2 ^ 31" and "length sec < 2 ^ 31"
  shows "\<exists>r. pow_solve A data d m sec = Inr r \<and>
    (case r of
       Some n \<Rightarrow> n < m \<and> pow_check A data n d sec = Inr True
                \<and> (\<forall>j. j < n \<longrightarrow> pow_check A data j d sec = Inr False)
     | None \<Rightarrow> \<forall>j. j < m \<longrightarrow> pow_check A data j d sec = Inr False)"
proof -
  obtain p where p: "pow_params A = Inr p"
    and at: "\<And>d n. \<exists>raw. hash_password_into A p (as_bytes (pow_input data n)) (node_pow_salt sec) = Inr raw
           \<and> length raw = 32 \<and> pow_attempt A p (node_pow_salt sec) data d n = Inr (d \<le> leading_zero_bits raw)"
    using argon2_total_attempt [OF assms(1,3,4)] by blast
  then have tot: "\<exists>b. pow_attempt A p (node_pow_salt sec) data d n = Inr b" for n by blast
  obtain r where r: "pow_loop A p (node_pow_salt sec) data d m 0 = Inr r"
    using pow_loop_total [OF tot] by blast
  with p assms(2) have "pow_solve A data d m sec = Inr r"
    by (simp add: pow_solve_def)
  with pow_loop_spec [OF tot r] show ?thesis
    by (auto simp: pow_check_attempt [OF assms(2) p] split: option.splits)
qed

text \<open>
  What a proof of work proves: \<open>pow_check\<close> accepts exactly when the 32-byte hash, read as a
  big-endian number, is below \<open>2 ^ (256 - difficulty)\<close>, so the byte loop and the shift loop
  count leading zero bits correctly for every hash.
\<close>

theorem pow_check_iff_small_hash:
  assumes "argon2_total A" and "MIN_POW_DIFFICULTY \<le> d" and "d \<le> 256"
    and "length data < 2 ^ 31" and "length sec < 2 ^ 31"
  shows "\<exists>raw. length raw = 32
    \<and> (\<exists>p. params_new A 16384 3 1 (Some 32) = Inr p
          \<and> hash_password_into A p (as_bytes (data @ '':'' @ show_nat (unat n)))
              (as_bytes ''nullnode-dht-pow'' @ sec) = Inr raw)
    \<and> pow_check A data n d sec = Inr (be_value raw < 2 ^ (256 - d))"
proof -
  obtain p where p: "pow_params A = Inr p"
    and at: "\<And>d n. \<exists>raw. hash_password_into A p (as_bytes (pow_input data n)) (node_pow_salt sec) = Inr raw
           \<and> length raw = 32 \<and> pow_attempt A p (node_pow_salt sec) data d n = Inr (d \<le> leading_zero_bits raw)"
    using argon2_total_attempt [OF assms(1,4,5)] by blast
  from p have "params_new A 16384 3 1 (Some 32) = Inr p"
    by (simp add: pow_params_def DHT_POW_MEMORY_COST_def DHT_POW_TIME_COST_def
        DHT_POW_PARALLELISM_def DHT_POW_HASH_LEN_def)
  moreover obtain raw where raw: "hash_password_into A p (as_bytes (pow_input data n)) (node_pow_salt sec) = Inr raw"
      "length raw = 32" "pow_attempt A p (node_pow_salt sec) data d n = Inr (d \<le> leading_zero_bits raw)"
    using at by blast
  moreover from raw have "pow_check A data n d sec = Inr (be_value raw < 2 ^ (256 - d))"
    using leading_zero_bits_iff [of d raw] assms(2,3) by (simp add: pow_check_attempt p)
  ultimately show ?thesis
    using raw by (auto simp: pow_input_def node_pow_salt_def POW_SALT_def)
qed

text \<open>
  The colon makes the hashed input unique: two pairs of data and nonce with the same input are
  the same pair, whatever characters the data contains.
\<close>

theorem pow_input_unique:
  "pow_input data nonce = pow_input data' nonce' \<longleftrightarrow> data = data' \<and> nonce = nonce'"
  by (auto simp: pow_input_def word_unat_eq_iff
      delim_right_inject [OF show_nat_no_sep(1) show_nat_no_sep(1)])

text \<open>
  A difficulty below the minimum is refused by check and search alike, before any hashing and
  whatever the hash library does, so no request can lower the work to nothing.
\<close>

theorem pow_difficulty_floor:
  assumes "d < 8"
  shows "pow_check A data n d sec = Inl (DifficultyTooLow d 8)
    \<and> pow_solve A data d m sec = Inl (DifficultyTooLow d 8)"
  using assms by (simp add: pow_check_def pow_solve_def MIN_POW_DIFFICULTY_def)

section \<open>Witnesses\<close>

text \<open>A stand-in hash for the witnesses: the nonce's last character decides the first byte.\<close>

definition toy_argon2 :: "unit argon2" where
  "toy_argon2 =
     \<lparr>params_new = (\<lambda>_ _ _ _. Inr ()),
      hash_password_into = (\<lambda>_ pw _. Inr ((if last pw = 51 then 0 else 255) # replicate 31 7))\<rparr>"

lemma toy_argon2_total: "argon2_total toy_argon2"
  by (simp add: argon2_total_def toy_argon2_def DHT_POW_HASH_LEN_def)

theorem pow_solve_exact_witness:
  "argon2_total toy_argon2 \<and> MIN_POW_DIFFICULTY \<le> 8
   \<and> (\<exists>r. pow_solve toy_argon2 ''test'' 8 5 [] = Inr r \<and>
    (case r of
       Some n \<Rightarrow> n < 5 \<and> pow_check toy_argon2 ''test'' n 8 [] = Inr True
                \<and> (\<forall>j. j < n \<longrightarrow> pow_check toy_argon2 ''test'' j 8 [] = Inr False)
     | None \<Rightarrow> \<forall>j. j < 5 \<longrightarrow> pow_check toy_argon2 ''test'' j 8 [] = Inr False))"
  using toy_argon2_total pow_solve_exact [OF toy_argon2_total, of 8 "''test''" "[]" 5]
  by (simp add: MIN_POW_DIFFICULTY_def)

theorem pow_check_iff_small_hash_witness:
  "\<exists>raw. length raw = 32
    \<and> (\<exists>p. params_new toy_argon2 16384 3 1 (Some 32) = Inr p
          \<and> hash_password_into toy_argon2 p (as_bytes (''test'' @ '':'' @ show_nat (unat (3 :: u64))))
              (as_bytes ''nullnode-dht-pow'' @ []) = Inr raw)
    \<and> pow_check toy_argon2 ''test'' 3 8 [] = Inr (be_value raw < 2 ^ (256 - 8))"
  using pow_check_iff_small_hash [OF toy_argon2_total, of 8 "''test''" "[]" 3]
  by (simp add: MIN_POW_DIFFICULTY_def)

theorem pow_difficulty_floor_witness:
  "pow_check toy_argon2 ''test'' 0 5 [] = Inl (DifficultyTooLow 5 8)
    \<and> pow_solve toy_argon2 ''test'' 5 10000 [] = Inl (DifficultyTooLow 5 8)"
  using pow_difficulty_floor [of 5 toy_argon2 "''test''" 0 "[]" 10000] by simp

end
