(* ===== verification/RateLimit.thy ===== *)
theory RateLimit
  imports Prelude
begin

text \<open>
  The sliding-window rate limiter of the DHT node (\<open>dht-core/src/ratelimit.rs\<close>). The table of
  buckets is an association list in the iteration order of the \<open>HashMap\<close>; the clock reading
  of a call is an argument. The lock makes every call one step, so a history of the limiter is
  a sequence of steps.
\<close>

section \<open>The limiter\<close>

record RateLimiter =
  rl_max :: nat
  rl_window :: f64
  rl_max_buckets :: nat
  rl_buckets :: "(string \<times> f64 list) list"

definition limiter_new :: "nat \<Rightarrow> f64 \<Rightarrow> RateLimiter" where
  "limiter_new max_per_window window_sec =
     \<lparr>rl_max = max_per_window, rl_window = window_sec, rl_max_buckets = 100000, rl_buckets = []\<rparr>"

definition evict_first :: "string \<Rightarrow> RateLimiter \<Rightarrow> (string \<times> f64 list) list" where
  "evict_first key L =
     (if rl_max_buckets L \<le> length (rl_buckets L) \<and> map_of (rl_buckets L) key = None
      then (case rl_buckets L of
              [] \<Rightarrow> rl_buckets L
            | (oldest, _) # _ \<Rightarrow> AList.delete oldest (rl_buckets L))
      else rl_buckets L)"

definition allow :: "f64 \<Rightarrow> string \<Rightarrow> RateLimiter \<Rightarrow> bool \<times> RateLimiter" where
  "allow now key L =
     (let cutoff = now - rl_window L;
          buckets = evict_first key L;
          entries = filter (\<lambda>t. cutoff \<le> t) (opt_or [] (map_of buckets key))
      in if rl_max L \<le> length entries
         then (False, L\<lparr>rl_buckets := AList.update key entries buckets\<rparr>)
         else (True, L\<lparr>rl_buckets := AList.update key (entries @ [now]) buckets\<rparr>))"

text \<open>\<open>prune\<close> and one round of the background task: trim every bucket, then remove the keys
  whose bucket became empty.\<close>

definition prune :: "f64 \<Rightarrow> RateLimiter \<Rightarrow> RateLimiter" where
  "prune now L =
     (let cutoff = now - rl_window L;
          trimmed = map (\<lambda>(k, entries). (k, filter (\<lambda>t. cutoff \<le> t) entries)) (rl_buckets L);
          keys_to_remove = map fst (filter (\<lambda>(k, entries). entries = []) trimmed)
      in L\<lparr>rl_buckets := fold AList.delete keys_to_remove trimmed\<rparr>)"

section \<open>Histories\<close>

datatype limiter_event = Allow f64 string | Prune f64

fun event_time :: "limiter_event \<Rightarrow> f64" where
  "event_time (Allow t _) = t"
| "event_time (Prune t) = t"

fun event_keys :: "limiter_event \<Rightarrow> string set" where
  "event_keys (Allow _ k) = {k}"
| "event_keys (Prune _) = {}"

text \<open>A step of the history keeps the log of the granted requests beside the limiter.\<close>

fun limiter_step :: "limiter_event \<Rightarrow> (string \<times> f64) list \<times> RateLimiter
    \<Rightarrow> (string \<times> f64) list \<times> RateLimiter" where
  "limiter_step (Allow now k) (g, L) =
     (let (ok, L') = allow now k L in (if ok then g @ [(k, now)] else g, L'))"
| "limiter_step (Prune now) (g, L) = (g, prune now L)"

definition grants_of :: "string \<Rightarrow> (string \<times> f64) list \<Rightarrow> f64 list" where
  "grants_of k g = map snd (filter (\<lambda>(k', _). k' = k) g)"

definition bucket_of :: "RateLimiter \<Rightarrow> string \<Rightarrow> f64 list" where
  "bucket_of L k = opt_or [] (map_of (rl_buckets L) k)"

lemma grants_of_snoc [simp]:
  "grants_of k (g @ [(k', t)]) = grants_of k g @ (if k' = k then [t] else [])"
  by (simp add: grants_of_def)

section \<open>Pruning keeps what is recent\<close>

lemma wf_map_fold_delete: "wf_map m \<Longrightarrow> wf_map (fold AList.delete ks m)"
  by (induction ks arbitrary: m) simp_all

lemma length_fold_delete: "length (fold AList.delete ks m) \<le> length m"
proof (induction ks arbitrary: m)
  case (Cons k ks)
  then show ?case
    using length_delete_le [of k m] order_trans by (auto intro: order_trans)
qed simp

lemma map_of_map_snd: "map_of (map (\<lambda>(k, v). (k, f v)) m) k = map_option f (map_of m k)"
  by (induction m) auto

lemma bucket_of_prune:
  assumes "wf_map (rl_buckets L)"
  shows "bucket_of (prune now L) k = filter (\<lambda>t. now - rl_window L \<le> t) (bucket_of L k)"
proof -
  let ?f = "filter (\<lambda>t. now - rl_window L \<le> t)"
  let ?tr = "map (\<lambda>(k, es). (k, ?f es)) (rl_buckets L)"
  have wf: "wf_map ?tr"
    using assms by (simp add: o_def case_prod_beta)
  have lk: "map_of ?tr k = map_option ?f (map_of (rl_buckets L) k)"
    by (rule map_of_map_snd)
  have rm: "k \<in> set (map fst (filter (\<lambda>(k, es). es = []) ?tr)) \<longleftrightarrow> map_of ?tr k = Some []"
    using wf by (force dest: map_of_SomeD)
  show ?thesis
    using lk by (cases "map_of (rl_buckets L) k")
      (auto simp: prune_def bucket_of_def Let_def map_of_fold_delete rm simp del: set_map)
qed

section \<open>Size bounds\<close>

text \<open>The shape that every history keeps: distinct keys, no bucket above the ceiling, and no
  more buckets than the cap.\<close>

definition limiter_ok :: "RateLimiter \<Rightarrow> bool" where
  "limiter_ok L \<longleftrightarrow> wf_map (rl_buckets L) \<and> 0 < rl_max_buckets L
     \<and> length (rl_buckets L) \<le> rl_max_buckets L
     \<and> (\<forall>k. length (bucket_of L k) \<le> rl_max L)"

lemma wf_map_evict_first [simp]: "wf_map (rl_buckets L) \<Longrightarrow> wf_map (evict_first key L)"
  by (auto simp: evict_first_def split: list.splits intro: wf_map_delete)

lemma allow_params [simp]:
  "rl_max (snd (allow now key L)) = rl_max L"
  "rl_window (snd (allow now key L)) = rl_window L"
  "rl_max_buckets (snd (allow now key L)) = rl_max_buckets L"
  by (simp_all add: allow_def Let_def)

lemma prune_params [simp]:
  "rl_max (prune now L) = rl_max L"
  "rl_window (prune now L) = rl_window L"
  "rl_max_buckets (prune now L) = rl_max_buckets L"
  by (simp_all add: prune_def Let_def)

lemma wf_map_allow [simp]: "wf_map (rl_buckets L) \<Longrightarrow> wf_map (rl_buckets (snd (allow now key L)))"
  by (simp add: allow_def Let_def)

lemma wf_map_prune [simp]: "wf_map (rl_buckets L) \<Longrightarrow> wf_map (rl_buckets (prune now L))"
  by (simp add: prune_def Let_def wf_map_fold_delete o_def case_prod_beta)

lemma length_evict_first:
  assumes "limiter_ok L"
  shows "length (AList.update key es (evict_first key L)) \<le> rl_max_buckets L"
proof (cases "rl_max_buckets L \<le> length (rl_buckets L) \<and> map_of (rl_buckets L) key = None")
  case True
  with assms obtain k es' m where m: "rl_buckets L = (k, es') # m"
    by (cases "rl_buckets L") (auto simp: limiter_ok_def)
  with True have "evict_first key L = AList.delete k m" by (simp add: evict_first_def)
  moreover have "length (AList.delete k m) \<le> length m" by (rule length_delete_le)
  ultimately show ?thesis
    using assms m by (simp add: length_AList_update limiter_ok_def)
next
  case False
  then have "evict_first key L = rl_buckets L" by (auto simp: evict_first_def)
  with False assms show ?thesis
    by (auto simp: length_AList_update limiter_ok_def map_of_eq_None_iff)
qed

lemma bucket_of_allow:
  "bucket_of (snd (allow now key L)) k =
     (if k = key then filter (\<lambda>t. now - rl_window L \<le> t) (opt_or [] (map_of (evict_first key L) key))
        @ (if fst (allow now key L) then [now] else [])
      else opt_or [] (map_of (evict_first key L) k))"
  by (auto simp: allow_def bucket_of_def Let_def update_conv')

lemma fst_allow:
  "fst (allow now key L) \<longleftrightarrow>
     length (filter (\<lambda>t. now - rl_window L \<le> t) (opt_or [] (map_of (evict_first key L) key))) < rl_max L"
  by (auto simp: allow_def Let_def)

lemma map_of_evict_first:
  "map_of (evict_first key L) k = None \<or> map_of (evict_first key L) k = map_of (rl_buckets L) k"
  by (auto simp: evict_first_def delete_conv' split: list.splits)

lemma limiter_ok_allow [invs]:
  assumes "limiter_ok L"
  shows "limiter_ok (snd (allow now key L))"
proof -
  have le: "length (opt_or [] (map_of (evict_first key L) k)) \<le> rl_max L" for k
    using map_of_evict_first [of key L k] assms by (auto simp: limiter_ok_def bucket_of_def)
  have "length (bucket_of (snd (allow now key L)) k) \<le> rl_max L" for k
    using le [of k] le_trans [OF length_filter_le le [of key]]
    by (auto simp: bucket_of_allow fst_allow)
  moreover have "length (rl_buckets (snd (allow now key L))) \<le> rl_max_buckets L"
    using length_evict_first [OF assms] by (simp add: allow_def Let_def)
  ultimately show ?thesis
    using assms by (simp add: limiter_ok_def)
qed

lemma limiter_ok_prune [invs]:
  assumes "limiter_ok L"
  shows "limiter_ok (prune now L)"
proof -
  have "length (rl_buckets (prune now L)) \<le> length (rl_buckets L)"
    using length_fold_delete by (fastforce simp: prune_def Let_def intro: order_trans)
  then show ?thesis
    using assms by (auto simp: limiter_ok_def bucket_of_prune intro: order_trans [OF length_filter_le])
qed

lemma limiter_ok_new: "limiter_ok (limiter_new m w)"
  by (simp add: limiter_ok_def limiter_new_def bucket_of_def)

interpretation limiter: state_machine "([], limiter_new m w)" limiter_step "\<lambda>s. limiter_ok (snd s)"
  for m w
proof
  show "limiter_ok (snd ([], limiter_new m w))" by (simp add: limiter_ok_new)
  show "limiter_ok (snd (limiter_step e s))" if "limiter_ok (snd s)" for e and s
    using that by (cases "(e, s)" rule: limiter_step.cases) (auto simp: invs case_prod_beta)
qed

section \<open>The sliding window\<close>

text \<open>
  How the limiter's state relates to the history so far, as long as no bucket was evicted: from
  the cutoff on, a bucket is the log of the grants to its key. The parameter \<open>K\<close> is the set of
  keys that ever ask.
\<close>

definition window_rel :: "string set \<Rightarrow> f64 \<Rightarrow> (string \<times> f64) list \<times> RateLimiter \<Rightarrow> bool" where
  "window_rel K now s \<longleftrightarrow>
     (let (g, L) = s in
        wf_map (rl_buckets L) \<and> fst ` set (rl_buckets L) \<subseteq> K \<and> card K \<le> rl_max_buckets L
        \<and> (\<forall>(k, t) \<in> set g. t \<le> now)
        \<and> (\<forall>k. filter (\<lambda>t. now - rl_window L \<le> t) (grants_of k g)
               = filter (\<lambda>t. now - rl_window L \<le> t) (bucket_of L k))
        \<and> (\<forall>k T. length (filter (\<lambda>t. T - rl_window L \<le> t \<and> t \<le> T) (grants_of k g)) \<le> rl_max L))"

lemma no_eviction:
  assumes "wf_map (rl_buckets L)" and "fst ` set (rl_buckets L) \<subseteq> K" and "finite K"
    and "card K \<le> rl_max_buckets L" and "key \<in> K"
  shows "evict_first key L = rl_buckets L"
proof (cases "map_of (rl_buckets L) key")
  case None
  then have "fst ` set (rl_buckets L) \<subset> K"
    using assms(2,5) by (auto simp: map_of_eq_None_iff)
  then have "card (fst ` set (rl_buckets L)) < card K"
    by (rule psubset_card_mono [OF assms(3)])
  moreover have "card (fst ` set (rl_buckets L)) = length (rl_buckets L)"
    using distinct_card [OF assms(1)] by simp
  ultimately show ?thesis using assms(4) by (simp add: evict_first_def)
qed (simp add: evict_first_def)

lemma filter_later:
  fixes c c' :: "'a :: linorder"
  assumes "c \<le> c'" and "filter (\<lambda>t. c \<le> t) xs = filter (\<lambda>t. c \<le> t) ys"
  shows "filter (\<lambda>t. c' \<le> t) xs = filter (\<lambda>t. c' \<le> t) ys"
proof -
  have "filter (\<lambda>t. c' \<le> t) zs = filter (\<lambda>t. c' \<le> t) (filter (\<lambda>t. c \<le> t) zs)" for zs
    using assms(1) by (induction zs) auto
  with assms(2) show ?thesis by metis
qed

lemma grants_of_set: "t \<in> set (grants_of k g) \<longleftrightarrow> (k, t) \<in> set g"
  by (force simp: grants_of_def)

lemma set_fold_delete: "set (fold AList.delete ks m) \<subseteq> set m"
proof (induction ks arbitrary: m)
  case (Cons k ks)
  have "set (AList.delete k m) \<subseteq> set m" by (auto simp: AList.delete_eq)
  with Cons [of "AList.delete k m"] show ?case by simp
qed simp

lemma prune_keys: "fst ` set (rl_buckets (prune now L)) \<subseteq> fst ` set (rl_buckets L)"
proof -
  have "fst ` set (fold AList.delete ks m) \<subseteq> fst ` set m" for ks and m :: "('a \<times> 'b) list"
    using set_fold_delete by (rule image_mono)
  from this [of _ "map (\<lambda>(k, es). (k, filter (\<lambda>t. now - rl_window L \<le> t) es)) (rl_buckets L)"]
  show ?thesis by (simp add: prune_def Let_def image_image case_prod_beta)
qed

lemma window_step:
  assumes "window_rel K t s" and "t \<le> event_time e" and "finite K" and "event_keys e \<subseteq> K"
  shows "window_rel K (event_time e) (limiter_step e s)"
proof -
  obtain g L where s: "s = (g, L)" by (cases s)
  let ?w = "rl_window L" and ?n = "event_time e"
  note R = assms(1) [unfolded s window_rel_def Let_def prod.case]
  have past: "\<forall>(k, u) \<in> set g. u \<le> ?n"
    using R assms(2) by fastforce
  have log: "filter (\<lambda>u. ?n - ?w \<le> u) (grants_of k g) = filter (\<lambda>u. ?n - ?w \<le> u) (bucket_of L k)" for k
    by (rule filter_later [of "t - ?w"]) (use R assms(2) in simp_all)
  show ?thesis
  proof (cases e)
    case (Prune now)
    then show ?thesis
      using R past log s subset_trans [OF prune_keys]
      by (simp add: window_rel_def bucket_of_prune Let_def)
  next
    case (Allow now key)
    have ev: "evict_first key L = rl_buckets L"
      by (rule no_eviction [of L K]) (use R assms(3,4) Allow in auto)
    let ?in = "\<lambda>T u. T - ?w \<le> u \<and> u \<le> T"
    have grant: "length (filter (?in T) (grants_of key g)) < rl_max L"
      if "fst (allow now key L)" "now \<le> T" for T
    proof -
      have "length (filter (?in T) (grants_of key g)) \<le> length (filter (\<lambda>u. now - ?w \<le> u) (grants_of key g))"
        using that(2) by (intro length_filter_imp) auto
      also have "\<dots> < rl_max L"
        using that(1) log [of key] Allow by (simp add: fst_allow ev bucket_of_def)
      finally show ?thesis .
    qed
    have bkt: "filter (\<lambda>u. now - ?w \<le> u) (bucket_of (snd (allow now key L)) k)
      = filter (\<lambda>u. now - ?w \<le> u) (bucket_of L k @ (if k = key \<and> fst (allow now key L) then [now] else []))" for k
      by (simp add: bucket_of_allow ev) (simp add: bucket_of_def)
    have keys: "fst ` set (rl_buckets (snd (allow now key L))) \<subseteq> K"
      using R assms(4) Allow by (auto simp: allow_def Let_def ev dom_update image_iff)
    have count: "length (filter (?in T) (grants_of k (g @ [(key, now)]))) \<le> rl_max L"
      if "fst (allow now key L)" for k T
      using grant [of T] that R by (auto simp: Suc_le_eq)
    show ?thesis
      using R past log bkt keys count
      by (auto simp: window_rel_def s Allow case_prod_beta Let_def)
  qed
qed

lemma window_run:
  assumes "window_rel K t s" and "sorted (t # map event_time es)" and "finite K"
    and "\<Union> (event_keys ` set es) \<subseteq> K"
  shows "\<exists>t'. window_rel K t' (fold limiter_step es s)"
  using assms
proof (induction es arbitrary: t s)
  case (Cons e es)
  have "window_rel K (event_time e) (limiter_step e s)"
    by (rule window_step [of K t]) (use Cons.prems in auto)
  from Cons.IH [OF this] Cons.prems show ?case by simp
qed auto

lemma limiter_params:
  "rl_max (snd (fold limiter_step es s)) = rl_max (snd s)
   \<and> rl_window (snd (fold limiter_step es s)) = rl_window (snd s)
   \<and> rl_max_buckets (snd (fold limiter_step es s)) = rl_max_buckets (snd s)"
proof (induction es arbitrary: s)
  case (Cons e es)
  then show ?case by (cases "(e, s)" rule: limiter_step.cases) (simp_all add: case_prod_beta)
qed simp

lemma limiter_window:
  assumes "sorted (map event_time es)" and "card (\<Union> (event_keys ` set es)) \<le> 100000"
  shows "length (filter (\<lambda>t. T - w \<le> t \<and> t \<le> T)
           (grants_of k (fst (fold limiter_step es ([], limiter_new m w))))) \<le> m"
proof -
  let ?K = "\<Union> (event_keys ` set es)" and ?init = "([] :: (string \<times> f64) list, limiter_new m w)"
  have fin: "finite ?K"
  proof (rule finite_UN_I)
    show "finite (event_keys e)" for e by (cases e) simp_all
  qed simp
  define t where "t = (case es of [] \<Rightarrow> 0 | e # _ \<Rightarrow> event_time e)"
  have "window_rel ?K t ?init"
    using assms(2) by (simp add: window_rel_def limiter_new_def grants_of_def bucket_of_def)
  moreover have "sorted (t # map event_time es)"
    using assms(1) by (cases es) (simp_all add: t_def)
  ultimately obtain t' where "window_rel ?K t' (fold limiter_step es ?init)"
    using window_run [OF _ _ fin] by blast
  then show ?thesis
    using limiter_params [of es ?init] by (auto simp: window_rel_def case_prod_beta Let_def limiter_new_def)
qed



text \<open>
  The limiter's memory is bounded: after any history whatever, even an attack with unboundedly
  many keys and with a clock that jumps, there are at most 100000 buckets with distinct keys
  and no bucket holds more than \<open>max_per_window\<close> entries.
\<close>

theorem rate_limiter_memory_bounded:
  "let L = snd (fold limiter_step es ([], limiter_new m w))
   in wf_map (rl_buckets L) \<and> length (rl_buckets L) \<le> 100000
      \<and> (\<forall>k. length (bucket_of L k) \<le> m)"
  using limiter.run_init_ok [of es m w] limiter_params [of es "([], limiter_new m w)"]
  by (simp add: limiter_ok_def Let_def limiter_new_def)

end
