(* ===== verification/Store.thy ===== *)
theory Store
  imports Wire
begin

text \<open>
  The persistent key-value store of the DHT (\<open>dht-core/src/sqlite_store.rs\<close>): the two SQLite
  tables as association lists over their primary keys, and one definition per operation.

  Every SQL statement may fail. An operation therefore takes a fault plan \<open>io\<close>: \<open>io n\<close> is
  the error that the operation's statement number \<open>n\<close> meets, or \<open>None\<close> if it succeeds. The two
  insertions of \<open>put\<close> run in a transaction, so an error before the commit rolls both back.
\<close>

section \<open>Tables\<close>

record KvRecord =
  kv_value :: string
  kv_salt :: string
  kv_seq :: int
  kv_publisher_fp :: string
  kv_stored_at :: f64
  kv_expires_at :: f64
  kv_sig :: string

text \<open>\<open>nonce_log\<close> maps the primary key \<open>(key, nonce)\<close> to \<open>recorded_at\<close>, the second in which the
  row was inserted (the column's default).\<close>

record DhtStore =
  kv_store :: "(string \<times> KvRecord) list"
  nonce_log :: "((string \<times> int) \<times> int) list"

definition init_tables :: DhtStore where
  "init_tables = \<lparr>kv_store = [], nonce_log = []\<rparr>"

datatype DhtError =
    Storage string
  | Serialization string
  | Database string
  | Io string
  | SignatureInvalid
  | PowInvalid
  | InvalidKey
  | InvalidFingerprint
  | ValueTooLarge
  | StaleSequence
  | NonceReplay
  | StaleTimestamp
  | RateLimited

type_synonym faults = "nat \<Rightarrow> string option"

abbreviation no_faults :: faults where
  "no_faults \<equiv> \<lambda>_. None"

definition exec :: "faults \<Rightarrow> nat \<Rightarrow> DhtError + unit" where
  "exec io n = (case io n of None \<Rightarrow> Inr () | Some e \<Rightarrow> Inl (Database e))"

lemma exec_Inr [simp]: "exec io n = Inr u \<longleftrightarrow> io n = None"
  by (simp add: exec_def split: option.split)

section \<open>Operations\<close>

definition store_get :: "faults \<Rightarrow> f64 \<Rightarrow> string \<Rightarrow> DhtStore \<Rightarrow> DhtError + KvRecord option" where
  "store_get io now key S =
     bind_result (exec io 0) (\<lambda>_. Inr
       (case map_of (kv_store S) key of
          None \<Rightarrow> None
        | Some r \<Rightarrow> if now < kv_expires_at r then Some r else None))"

definition is_nonce_seen :: "faults \<Rightarrow> string \<Rightarrow> int \<Rightarrow> DhtStore \<Rightarrow> DhtError + bool" where
  "is_nonce_seen io key nonce S =
     bind_result (exec io 0) (\<lambda>_. Inr (map_of (nonce_log S) (key, nonce) \<noteq> None))"

text \<open>\<open>INSERT OR IGNORE\<close>: an existing row, and its time, stay.\<close>

definition insert_nonce :: "f64 \<Rightarrow> string \<Rightarrow> int \<Rightarrow> DhtStore \<Rightarrow> DhtStore" where
  "insert_nonce now key nonce S =
     (if map_of (nonce_log S) (key, nonce) = None
      then S\<lparr>nonce_log := ((key, nonce), \<lfloor>now\<rfloor>) # nonce_log S\<rparr> else S)"

definition record_nonce :: "faults \<Rightarrow> f64 \<Rightarrow> string \<Rightarrow> int \<Rightarrow> DhtStore \<Rightarrow> (DhtError + unit) \<times> DhtStore" where
  "record_nonce io now key nonce S =
     (case exec io 0 of Inl e \<Rightarrow> (Inl e, S) | Inr _ \<Rightarrow> (Inr (), insert_nonce now key nonce S))"

text \<open>
  \<open>put\<close> reads first (\<open>put_check\<close>, statements 0 and 1) and then writes in a transaction
  (\<open>put_commit\<close>, statements 2 to 5: begin, two insertions, commit). The store does not lock
  between the two phases, so they are separate steps of a concurrent history.
\<close>

definition put_check :: "faults \<Rightarrow> string \<Rightarrow> string \<Rightarrow> int \<Rightarrow> int \<Rightarrow> DhtStore \<Rightarrow> DhtError + bool" where
  "put_check io key val seq nonce S =
     (if MAX_VALUE_SIZE < length val then Inr False
      else bind_result (is_nonce_seen io key nonce S) (\<lambda>seen.
        if seen then Inr False
        else bind_result (exec io 1) (\<lambda>_.
          case map_of (kv_store S) key of
            None \<Rightarrow> Inr True
          | Some r \<Rightarrow> Inr (\<not> seq \<le> kv_seq r))))"

definition put_commit :: "faults \<Rightarrow> f64 \<Rightarrow> string \<Rightarrow> string \<Rightarrow> string \<Rightarrow> int \<Rightarrow> string \<Rightarrow> int \<Rightarrow> string \<Rightarrow> int
    \<Rightarrow> DhtStore \<Rightarrow> (DhtError + bool) \<times> DhtStore" where
  "put_commit io now key val salt seq publisher_fp ttl sg nonce S =
     (let expires = now + of_int ttl;
          tx1 = insert_nonce now key nonce S;
          tx2 = tx1\<lparr>kv_store := AList.update key
                  \<lparr>kv_value = val, kv_salt = salt, kv_seq = seq, kv_publisher_fp = publisher_fp,
                   kv_stored_at = now, kv_expires_at = expires, kv_sig = sg\<rparr> (kv_store tx1)\<rparr>
      in case bind_result (exec io 2) (\<lambda>_. bind_result (exec io 3) (\<lambda>_.
                bind_result (exec io 4) (\<lambda>_. exec io 5))) of
           Inl e \<Rightarrow> (Inl e, S)
         | Inr _ \<Rightarrow> (Inr True, tx2))"

definition store_put :: "faults \<Rightarrow> f64 \<Rightarrow> string \<Rightarrow> string \<Rightarrow> string \<Rightarrow> int \<Rightarrow> string \<Rightarrow> int \<Rightarrow> string \<Rightarrow> int
    \<Rightarrow> DhtStore \<Rightarrow> (DhtError + bool) \<times> DhtStore" where
  "store_put io now key val salt seq publisher_fp ttl sg nonce S =
     (case put_check io key val seq nonce S of
        Inl e \<Rightarrow> (Inl e, S)
      | Inr False \<Rightarrow> (Inr False, S)
      | Inr True \<Rightarrow> put_commit io now key val salt seq publisher_fp ttl sg nonce S)"

definition delete_expired :: "faults \<Rightarrow> f64 \<Rightarrow> DhtStore \<Rightarrow> (DhtError + nat) \<times> DhtStore" where
  "delete_expired io now S =
     (case exec io 0 of
        Inl e \<Rightarrow> (Inl e, S)
      | Inr _ \<Rightarrow>
          let kept = filter (\<lambda>(k, r). \<not> kv_expires_at r \<le> now) (kv_store S)
          in (Inr (length (kv_store S) - length kept), S\<lparr>kv_store := kept\<rparr>))"

definition count_keys :: "faults \<Rightarrow> f64 \<Rightarrow> DhtStore \<Rightarrow> DhtError + int" where
  "count_keys io now S =
     bind_result (exec io 0) (\<lambda>_.
       Inr (int (length (filter (\<lambda>(k, r). now < kv_expires_at r) (kv_store S)))))"

definition has_key :: "faults \<Rightarrow> string \<Rightarrow> DhtStore \<Rightarrow> DhtError + bool" where
  "has_key io key S = bind_result (exec io 0) (\<lambda>_. Inr (map_of (kv_store S) key \<noteq> None))"

definition prune_old_nonces :: "faults \<Rightarrow> int \<Rightarrow> DhtStore \<Rightarrow> (DhtError + nat) \<times> DhtStore" where
  "prune_old_nonces io cutoff_timestamp S =
     (case exec io 0 of
        Inl e \<Rightarrow> (Inl e, S)
      | Inr _ \<Rightarrow>
          let kept = filter (\<lambda>(k, t). \<not> t < cutoff_timestamp) (nonce_log S)
          in (Inr (length (nonce_log S) - length kept), S\<lparr>nonce_log := kept\<rparr>))"

section \<open>Lookup laws\<close>

definition store_ok :: "DhtStore \<Rightarrow> bool" where
  "store_ok S \<longleftrightarrow> wf_map (kv_store S) \<and> wf_map (nonce_log S)"

definition live_seq :: "DhtStore \<Rightarrow> string \<Rightarrow> int option" where
  "live_seq S key = map_option kv_seq (map_of (kv_store S) key)"

lemma map_of_insert_nonce:
  "map_of (nonce_log (insert_nonce now key nonce S)) kn =
     (if kn = (key, nonce) \<and> map_of (nonce_log S) kn = None then Some \<lfloor>now\<rfloor> else map_of (nonce_log S) kn)"
  by (auto simp: insert_nonce_def)

lemma kv_store_insert_nonce [simp]: "kv_store (insert_nonce now key nonce S) = kv_store S"
  by (simp add: insert_nonce_def)

lemma store_ok_insert_nonce [invs]: "store_ok S \<Longrightarrow> store_ok (insert_nonce now key nonce S)"
  by (auto simp: store_ok_def insert_nonce_def map_of_eq_None_iff)

lemma put_check_True:
  "put_check io key val seq nonce S = Inr True \<longleftrightarrow>
     length val \<le> MAX_VALUE_SIZE \<and> io 0 = None \<and> io 1 = None
     \<and> map_of (nonce_log S) (key, nonce) = None
     \<and> (\<forall>s. live_seq S key = Some s \<longrightarrow> s < seq)"
  by (auto simp: put_check_def is_nonce_seen_def live_seq_def bind_result_Inr split: if_splits option.splits)

lemma put_commit_cases:
  obtains (failed) e where "put_commit io now key val salt seq fp ttl sg nonce S = (Inl e, S)"
      and "\<exists>n \<in> {2..5}. io n \<noteq> None"
  | (stored) "put_commit io now key val salt seq fp ttl sg nonce S =
       (Inr True, (insert_nonce now key nonce S)\<lparr>kv_store := AList.update key
          \<lparr>kv_value = val, kv_salt = salt, kv_seq = seq, kv_publisher_fp = fp,
           kv_stored_at = now, kv_expires_at = now + of_int ttl, kv_sig = sg\<rparr> (kv_store S)\<rparr>)"
      and "\<forall>n \<in> {2..5}. io n = None"
proof -
  let ?r = "bind_result (exec io 2) (\<lambda>_. bind_result (exec io 3) (\<lambda>_. bind_result (exec io 4) (\<lambda>_. exec io 5)))"
  have five: "{2..5} = {2, 3, 4, 5 :: nat}" by auto
  show thesis
  proof (cases ?r)
    case (Inl e)
    then have "\<not> (io 2 = None \<and> io 3 = None \<and> io 4 = None \<and> io 5 = None)"
      by (auto simp: exec_def split: option.splits)
    with Inl show thesis by (intro failed) (auto simp: put_commit_def Let_def five)
  next
    case (Inr u)
    then have "io 2 = None" "io 3 = None" "io 4 = None" "io 5 = None"
      by (auto simp: bind_result_Inr)
    with Inr show thesis
      by (intro stored) (simp_all only: put_commit_def Let_def five kv_store_insert_nonce sum.case, auto)
  qed
qed

lemma store_put_cases:
  obtains (unchanged) r where "store_put io now key val salt seq fp ttl sg nonce S = (r, S)" and "r \<noteq> Inr True"
      and "\<not> (put_check io key val seq nonce S = Inr True \<and> (\<forall>n \<in> {2..5}. io n = None))"
  | (stored) "store_put io now key val salt seq fp ttl sg nonce S =
       (Inr True, (insert_nonce now key nonce S)\<lparr>kv_store := AList.update key
          \<lparr>kv_value = val, kv_salt = salt, kv_seq = seq, kv_publisher_fp = fp,
           kv_stored_at = now, kv_expires_at = now + of_int ttl, kv_sig = sg\<rparr> (kv_store S)\<rparr>)"
      and "put_check io key val seq nonce S = Inr True" and "\<forall>n \<in> {2..5}. io n = None"
proof (cases "put_check io key val seq nonce S = Inr True")
  case True
  then have eq: "store_put io now key val salt seq fp ttl sg nonce S =
      put_commit io now key val salt seq fp ttl sg nonce S"
    by (simp add: store_put_def)
  show thesis
    by (rule put_commit_cases [of io now key val salt seq fp ttl sg nonce S])
       (use unchanged stored eq True in auto)
next
  case False
  then show thesis
    using unchanged by (cases "put_check io key val seq nonce S") (auto simp: store_put_def split: bool.splits)
qed

lemma store_ok_put [invs]:
  assumes "store_ok S"
  shows "store_ok (snd (store_put io now key val salt seq fp ttl sg nonce S))"
  by (cases rule: store_put_cases [of io now key val salt seq fp ttl sg nonce S])
     (use assms store_ok_insert_nonce [OF assms] in \<open>simp_all add: store_ok_def\<close>)

section \<open>Histories\<close>

datatype store_event =
    SPut faults f64 string string string int string int string int
  | SRecordNonce faults f64 string int
  | SDeleteExpired faults f64
  | SPruneNonces faults int

fun store_step :: "store_event \<Rightarrow> DhtStore \<Rightarrow> DhtStore" where
  "store_step (SPut io now key val salt seq fp ttl sg nonce) S =
     snd (store_put io now key val salt seq fp ttl sg nonce S)"
| "store_step (SRecordNonce io now key nonce) S = snd (record_nonce io now key nonce S)"
| "store_step (SDeleteExpired io now) S = snd (delete_expired io now S)"
| "store_step (SPruneNonces io cutoff) S = snd (prune_old_nonces io cutoff S)"

text \<open>What a step accepts: the key and nonce of a successful \<open>put\<close>, or, for one key, its
  sequence number.\<close>

fun accepted_nonce :: "store_event \<Rightarrow> DhtStore \<Rightarrow> (string \<times> int) option" where
  "accepted_nonce (SPut io now key val salt seq fp ttl sg nonce) S =
     (if fst (store_put io now key val salt seq fp ttl sg nonce S) = Inr True
      then Some (key, nonce) else None)"
| "accepted_nonce _ S = None"

fun accepted_seq :: "string \<Rightarrow> store_event \<Rightarrow> DhtStore \<Rightarrow> int option" where
  "accepted_seq k (SPut io now key val salt seq fp ttl sg nonce) S =
     (if key = k \<and> fst (store_put io now key val salt seq fp ttl sg nonce S) = Inr True
      then Some seq else None)"
| "accepted_seq k _ S = None"

fun drops_nonce :: "store_event \<Rightarrow> DhtStore \<Rightarrow> bool" where
  "drops_nonce (SPruneNonces io cutoff) S \<longleftrightarrow> list_ex (\<lambda>(k, t). t < cutoff) (nonce_log S)"
| "drops_nonce _ S \<longleftrightarrow> False"

fun drops_row :: "string \<Rightarrow> store_event \<Rightarrow> DhtStore \<Rightarrow> bool" where
  "drops_row k (SDeleteExpired io now) S \<longleftrightarrow>
     list_ex (\<lambda>(k', r). k' = k \<and> kv_expires_at r \<le> now) (kv_store S)"
| "drops_row k _ S \<longleftrightarrow> False"

definition nonce_seen :: "string \<times> int \<Rightarrow> DhtStore \<Rightarrow> bool" where
  "nonce_seen kn S \<longleftrightarrow> map_of (nonce_log S) kn \<noteq> None"

lemma nonce_seen_put:
  "nonce_seen kn (snd (store_put io now key val salt seq fp ttl sg nonce S)) \<longleftrightarrow>
     nonce_seen kn S \<or> kn = (key, nonce) \<and> fst (store_put io now key val salt seq fp ttl sg nonce S) = Inr True"
  by (cases rule: store_put_cases [of io now key val salt seq fp ttl sg nonce S])
     (auto simp: nonce_seen_def map_of_insert_nonce)

lemma nonce_seen_other:
  "nonce_seen kn S \<Longrightarrow> nonce_seen kn (snd (record_nonce io now key nonce S))"
  "nonce_seen kn S \<Longrightarrow> nonce_seen kn (snd (delete_expired io now S))"
  by (auto simp: nonce_seen_def record_nonce_def delete_expired_def map_of_insert_nonce Let_def
      split: sum.split)

lemma put_accepted_fresh:
  assumes "fst (store_put io now key val salt seq fp ttl sg nonce S) = Inr True"
  shows "\<not> nonce_seen (key, nonce) S" and "live_seq S key = Some s \<Longrightarrow> s < seq"
  by (cases rule: store_put_cases [of io now key val salt seq fp ttl sg nonce S];
      use assms in \<open>auto simp: put_check_True nonce_seen_def\<close>)+

interpretation store_nonces: replay_guard nonce_seen store_step accepted_nonce drops_nonce
proof
  show "\<not> nonce_seen n S" if "accepted_nonce e S = Some n" for e S n
    using that by (cases "(e, S)" rule: accepted_nonce.cases) (auto simp: put_accepted_fresh split: if_splits)
  show "nonce_seen n (store_step e S)" if "accepted_nonce e S = Some n" for e S n
    using that by (cases "(e, S)" rule: accepted_nonce.cases) (auto simp: nonce_seen_put split: if_splits)
  show "nonce_seen n (store_step e S)" if "nonce_seen n S" "\<not> drops_nonce e S" for e S n
  proof (cases e)
    case (SPruneNonces io cutoff)
    with that(2) have "filter (\<lambda>(k, t). \<not> t < cutoff) (nonce_log S) = nonce_log S"
      by (auto simp: list_ex_iff filter_id_conv)
    with that(1) SPruneNonces show ?thesis
      by (simp add: prune_old_nonces_def Let_def split: sum.split)
  qed (use that(1) in \<open>simp_all add: nonce_seen_put nonce_seen_other\<close>)
qed

lemma live_seq_put:
  "live_seq (snd (store_put io now key val salt seq fp ttl sg nonce S)) k =
     (if k = key \<and> fst (store_put io now key val salt seq fp ttl sg nonce S) = Inr True
      then Some seq else live_seq S k)"
  by (cases rule: store_put_cases [of io now key val salt seq fp ttl sg nonce S])
     (auto simp: live_seq_def update_conv')

lemma live_seq_other:
  "live_seq (snd (record_nonce io now key nonce S)) k = live_seq S k"
  "live_seq (snd (prune_old_nonces io cutoff S)) k = live_seq S k"
  by (auto simp: live_seq_def record_nonce_def prune_old_nonces_def Let_def split: sum.split)

lemma store_lookup_after_put:
  assumes "fst (store_put io now key val salt seq fp ttl sg nonce S) = Inr True"
  shows "map_of (kv_store (snd (store_put io now key val salt seq fp ttl sg nonce S))) k =
    (if k = key then Some \<lparr>kv_value = val, kv_salt = salt, kv_seq = seq, kv_publisher_fp = fp,
         kv_stored_at = now, kv_expires_at = now + of_int ttl, kv_sig = sg\<rparr>
     else map_of (kv_store S) k)"
  by (cases rule: store_put_cases [of io now key val salt seq fp ttl sg nonce S])
     (use assms in \<open>auto simp: update_conv'\<close>)

interpretation store_versions: version_guard "\<lambda>S. live_seq S k" store_step "accepted_seq k" "drops_row k"
  for k
proof
  show "v' < v" if "accepted_seq k e S = Some v" "live_seq S k = Some v'" for e S v v'
    using that by (cases "(k, e, S)" rule: accepted_seq.cases) (auto simp: put_accepted_fresh split: if_splits)
  show "live_seq (store_step e S) k = Some v" if "accepted_seq k e S = Some v" for e S v
    using that by (cases "(k, e, S)" rule: accepted_seq.cases) (auto simp: live_seq_put split: if_splits)
  show "live_seq (store_step e S) k = live_seq S k"
    if "accepted_seq k e S = None" "\<not> drops_row k e S" for e S
  proof (cases e)
    case (SDeleteExpired io now)
    with that(2) have "map_of (filter (\<lambda>(k, r). \<not> kv_expires_at r \<le> now) (kv_store S)) k = map_of (kv_store S) k"
      by (intro map_of_filter_kept) (auto simp: list_ex_iff)
    with SDeleteExpired show ?thesis
      by (simp add: delete_expired_def Let_def live_seq_def split: sum.split)
  qed (use that(1) in \<open>auto simp: live_seq_put live_seq_other split: if_splits\<close>)
qed

section \<open>Properties of the store\<close>

text \<open>
  C4. Exactly which writes are accepted, and atomicity: \<open>put\<close> returns \<open>Ok(true)\<close> if and only if the
  value fits, the nonce is new for the key, the sequence number is above the stored one, and no
  statement fails; then the row and the nonce are both written. In every other case, including
  a failure between the two insertions, the tables are unchanged.
\<close>

theorem store_put_exact:
  "let (r, S') = store_put io now key val salt seq fp ttl sg nonce S;
       accept = (length val \<le> 4096 \<and> list_all (\<lambda>n. io n = None) [0..<6]
                 \<and> map_of (nonce_log S) (key, nonce) = None
                 \<and> (case map_of (kv_store S) key of None \<Rightarrow> True | Some row \<Rightarrow> kv_seq row < seq))
   in (r = Inr True \<longleftrightarrow> accept)
    \<and> S' = (if accept
            then \<lparr>kv_store = AList.update key
                    \<lparr>kv_value = val, kv_salt = salt, kv_seq = seq, kv_publisher_fp = fp,
                     kv_stored_at = now, kv_expires_at = now + of_int ttl, kv_sig = sg\<rparr> (kv_store S),
                  nonce_log = ((key, nonce), \<lfloor>now\<rfloor>) # nonce_log S\<rparr>
            else S)"
proof -
  have chk: "put_check io key val seq nonce S = Inr True \<and> (\<forall>n \<in> {2..5}. io n = None) \<longleftrightarrow>
      length val \<le> 4096 \<and> list_all (\<lambda>n. io n = None) [0..<6]
      \<and> map_of (nonce_log S) (key, nonce) = None
      \<and> (case map_of (kv_store S) key of None \<Rightarrow> True | Some row \<Rightarrow> kv_seq row < seq)"
  proof -
    have six: "{0..<6} = {0, 1} \<union> {2..5 :: nat}" by auto
    show ?thesis
      by (auto simp: put_check_True live_seq_def MAX_VALUE_SIZE_def list_all_iff six ball_Un
          split: option.split simp del: atLeastAtMost_iff)
  qed
  show ?thesis
  proof (cases rule: store_put_cases [of io now key val salt seq fp ttl sg nonce S])
    case (unchanged r)
    with chk show ?thesis by (simp only: Let_def prod.case) auto
  next
    case stored
    moreover from stored chk have "map_of (nonce_log S) (key, nonce) = None" by blast
    ultimately show ?thesis
      using chk by (simp only: Let_def prod.case) (simp add: insert_nonce_def)
  qed
qed

text \<open>
  Read your write: after an accepted \<open>put\<close>, \<open>get\<close> returns exactly the stored record for as long as
  the record has not expired and nothing afterwards, and what is stored under other keys is
  untouched.
\<close>

theorem store_read_your_write:
  assumes "store_put io now key val salt seq fp ttl sg nonce S = (Inr True, S')"
  shows "store_get no_faults now' k S' =
    (if k = key
     then Inr (if now' < now + of_int ttl
               then Some \<lparr>kv_value = val, kv_salt = salt, kv_seq = seq, kv_publisher_fp = fp,
                          kv_stored_at = now, kv_expires_at = now + of_int ttl, kv_sig = sg\<rparr>
               else None)
     else store_get no_faults now' k S)"
  using store_lookup_after_put [of io now key val salt seq fp ttl sg nonce S] assms
  by (simp add: store_get_def exec_def)

text \<open>
  No nonce is accepted twice: in every history of the store, with writes, recorded nonces,
  expiry and storage faults in any order, the accepted pairs of key and nonce are pairwise
  distinct, as long as no pruning step deletes a row of the nonce log. This covers a restart,
  since the log is persistent.
\<close>

theorem store_no_replay:
  assumes "never store_step drops_nonce es S"
  shows "distinct (trace store_step accepted_nonce es S)"
  using assms by (rule store_nonces.accepted_once)

text \<open>
  Versions only grow: in every history in which the row of a key is not deleted as expired, the
  sequence numbers accepted for the key are strictly increasing, so an old record never
  replaces a newer one.
\<close>

theorem store_seq_increases:
  assumes "never store_step (drops_row k) es S"
  shows "sorted_wrt (<) (trace store_step (accepted_seq k) es S)"
  using assms by (rule store_versions.versions_increase)

text \<open>
  The checks and the transaction of \<open>put\<close> are not one atomic step. Two concurrent writers that
  both check before either commits are both told that their write was stored: the older
  version replaces the newer one, and one nonce is accepted twice.
\<close>

theorem concurrent_puts_regress:
  "let S0 = init_tables;
       check1 = put_check no_faults ''NN-AAAA-BBBB'' ''new'' 2 7 S0;
       check2 = put_check no_faults ''NN-AAAA-BBBB'' ''old'' 1 7 S0;
       (r1, S1) = put_commit no_faults 10 ''NN-AAAA-BBBB'' ''new'' ''s'' 2 ''fp'' 60 ''sg'' 7 S0;
       (r2, S2) = put_commit no_faults 10 ''NN-AAAA-BBBB'' ''old'' ''s'' 1 ''fp'' 60 ''sg'' 7 S1
   in check1 = Inr True \<and> check2 = Inr True \<and> r1 = Inr True \<and> r2 = Inr True
      \<and> live_seq S1 ''NN-AAAA-BBBB'' = Some 2 \<and> live_seq S2 ''NN-AAAA-BBBB'' = Some 1"
  by code_simp

section \<open>Witnesses\<close>

definition demo_put :: "int \<Rightarrow> int \<Rightarrow> store_event" where
  "demo_put seq nonce = SPut no_faults 10 ''k'' ''v'' ''s'' seq ''fp'' 60 ''sg'' nonce"

theorem store_read_your_write_witness:
  "store_get no_faults 20 ''k'' (snd (store_put no_faults 10 ''k'' ''v'' ''s'' 1 ''fp'' 60 ''sg'' 7 init_tables)) =
    (if ''k'' = ''k''
     then Inr (if (20 :: rat) < 10 + of_int 60
               then Some \<lparr>kv_value = ''v'', kv_salt = ''s'', kv_seq = 1, kv_publisher_fp = ''fp'',
                          kv_stored_at = 10, kv_expires_at = 10 + of_int 60, kv_sig = ''sg''\<rparr>
               else None)
     else store_get no_faults 20 ''k'' init_tables)"
  by (rule store_read_your_write [where io = no_faults and nonce = 7]) code_simp

theorem store_no_replay_witness:
  "never store_step drops_nonce [demo_put 1 7, demo_put 2 7, SDeleteExpired no_faults 99, demo_put 1 7, demo_put 1 8] init_tables
   \<and> distinct (trace store_step accepted_nonce
       [demo_put 1 7, demo_put 2 7, SDeleteExpired no_faults 99, demo_put 1 7, demo_put 1 8] init_tables)"
proof -
  have n: "never store_step drops_nonce [demo_put 1 7, demo_put 2 7, SDeleteExpired no_faults 99, demo_put 1 7, demo_put 1 8] init_tables"
    by (simp add: demo_put_def)
  with store_no_replay [OF n] show ?thesis by simp
qed

theorem store_seq_increases_witness:
  "never store_step (drops_row ''k'') [demo_put 1 7, demo_put 3 8, demo_put 2 9] init_tables
   \<and> sorted_wrt (<) (trace store_step (accepted_seq ''k'') [demo_put 1 7, demo_put 3 8, demo_put 2 9] init_tables)"
proof -
  have n: "never store_step (drops_row ''k'') [demo_put 1 7, demo_put 3 8, demo_put 2 9] init_tables"
    by (simp add: demo_put_def)
  with store_seq_increases [OF n] show ?thesis by simp
qed

end
