(* ===== verification/DhtNode.thy ===== *)
theory DhtNode
  imports Identity Pow RateLimit Store
begin

text \<open>
  The DHT node (\<open>dht-core/src/dht_node.rs\<close> and \<open>types.rs\<close>): the request handlers for \<open>dht-put\<close>,
  \<open>dht-get\<close> and \<open>dht-addr-record\<close>, the message loop of a connection, the background pruning of
  the in-memory nonces and the accept loop.

  The state that the connections share is a record. A request is handled at one reading of
  the clocks; the clock readings, the random numbers, the message identifier of the reply and
  the storage faults of the request are collected in a record \<open>call\<close>. A reply that could not
  be sent is ignored by the code, so a handler returns its reply.
\<close>

section \<open>Node data\<close>

record NodeConfig =
  cfg_null_id :: string
  cfg_host :: string
  cfg_port :: u16
  cfg_fingerprint :: string
  cfg_ssl_certfile :: string
  cfg_ssl_keyfile :: string
  cfg_stealth_mode :: bool
  cfg_db_path :: "string option"
  cfg_advertised_url :: "string option"

definition NodeConfig_default :: NodeConfig where
  "NodeConfig_default =
     \<lparr>cfg_null_id = [], cfg_host = ''0.0.0.0'', cfg_port = 0, cfg_fingerprint = [],
      cfg_ssl_certfile = [], cfg_ssl_keyfile = [], cfg_stealth_mode = False, cfg_db_path = None,
      cfg_advertised_url = None\<rparr>"

record RoutingEntry =
  re_node_id :: u128
  re_address :: string
  re_null_id :: string
  re_last_seen :: f64

record DhtNode =
  dn_null_id :: string
  dn_fingerprint :: string
  dn_node_id :: u128
  dn_host :: string
  dn_port :: u16
  dn_address :: string
  dn_routing_table :: "(u128 \<times> RoutingEntry list) list"

text \<open>SHA-256 is a parameter; the slice \<open>digest[..16]\<close> is in range because a digest has 32 bytes.\<close>

definition node_id_from_nid :: "(bytes \<Rightarrow> bytes) \<Rightarrow> string \<Rightarrow> u128" where
  "node_id_from_nid sha256 nid = word_of_nat (be_value (take 16 (sha256 (as_bytes nid))))"

definition hash_key :: "(bytes \<Rightarrow> bytes) \<Rightarrow> string \<Rightarrow> u128" where
  "hash_key sha256 key = word_of_nat (be_value (take 16 (sha256 (as_bytes key))))"

unbundle bit_operations_syntax

definition xor_distance :: "u128 \<Rightarrow> u128 \<Rightarrow> u128" where
  "xor_distance a b = a XOR b"

section \<open>Shared state and calls\<close>

text \<open>The in-memory nonces per key are a \<open>HashSet<i64>\<close> each. A line of the bot log is kept as
  its fields.\<close>

record node_state =
  ns_store :: DhtStore
  ns_seen :: "(string \<times> int set) list"
  ns_certs :: cert_cache
  ns_conn_limiter :: RateLimiter
  ns_get_limiter :: RateLimiter
  ns_bot_log :: "(string \<times> u16 \<times> string \<times> string option) list"

record ('cert, 'p) node_lib =
  nl_pgp :: "'cert pgp_lib"
  nl_argon2 :: "'p argon2"
  nl_from_json :: "string \<Rightarrow> string + WireEnvelope"

record call =
  c_now :: f64
  c_instant :: nat
  c_mid :: string
  c_rand :: u32
  c_io :: "nat \<Rightarrow> faults"

datatype reply = Envelope WireEnvelope | RawJson json

definition reply_error :: "call \<Rightarrow> string \<Rightarrow> string \<Rightarrow> reply" where
  "reply_error c key message = Envelope (build_dht_error (c_mid c) (c_now c) key message)"

definition reply_found :: "call \<Rightarrow> string \<Rightarrow> string \<Rightarrow> string \<Rightarrow> int \<Rightarrow> reply" where
  "reply_found c key val salt seq = Envelope (build_dht_found (c_mid c) (c_now c) key val salt seq)"

definition stealth_response :: "call \<Rightarrow> json" where
  "stealth_response c =
     JObj [(''type'', JStr ''dht-found''),
           (''payload'', JObj [(''key'', JStr []), (''value'', JStr []), (''salt'', JStr []), (''seq'', JInt 0)]),
           (''msg_id'', JStr (c_mid c)), (''ts'', JFloat (c_now c)), (''sig'', JStr [])]"

definition node_new :: "(bytes \<Rightarrow> bytes) \<Rightarrow> NodeConfig \<Rightarrow> DhtStore \<Rightarrow> DhtNode \<times> node_state" where
  "node_new sha256 cfg store =
     (\<lparr>dn_null_id = cfg_null_id cfg, dn_fingerprint = cfg_fingerprint cfg,
       dn_node_id = node_id_from_nid sha256 (cfg_null_id cfg), dn_host = cfg_host cfg,
       dn_port = cfg_port cfg,
       dn_address = opt_or (cfg_host cfg @ '':'' @ show_nat (unat (cfg_port cfg))) (cfg_advertised_url cfg),
       dn_routing_table = []\<rparr>,
      \<lparr>ns_store = store, ns_seen = [], ns_certs = None,
       ns_conn_limiter = limiter_new CONN_RATE_LIMIT (of_nat CONN_RATE_WINDOW),
       ns_get_limiter = limiter_new 30 60, ns_bot_log = []\<rparr>)"

section \<open>Handlers\<close>

definition verify_dht_put_signature ::
  "'cert pgp_lib \<Rightarrow> nat \<Rightarrow> string \<Rightarrow> string \<Rightarrow> string \<Rightarrow> WireEnvelope \<Rightarrow> cert_cache \<Rightarrow> bool \<times> cert_cache" where
  "verify_dht_put_signature P t sign_data sg publisher_fp env g =
     (case payload_str env ''publisher_cert'' of
        Some cert_armored \<Rightarrow>
          (case cert_from_bytes P (as_bytes cert_armored) of
             Some cert \<Rightarrow> verify_signature_with_cert P t sign_data sg cert g
           | None \<Rightarrow> verify_signature P t sign_data sg publisher_fp g)
      | None \<Rightarrow> verify_signature P t sign_data sg publisher_fp g)"

definition handle_put ::
  "('cert, 'p) node_lib \<Rightarrow> string \<Rightarrow> call \<Rightarrow> WireEnvelope \<Rightarrow> node_state \<Rightarrow> reply \<times> node_state" where
  "handle_put L node_fingerprint c env N =
     (let key = opt_or [] (payload_str env ''key'');
          value_b64 = opt_or [] (payload_str env ''value'');
          salt = opt_or [] (payload_str env ''salt'');
          seq = opt_or 0 (payload_i64 env ''seq'');
          ttl = min (opt_or STORE_TTL (payload_i64 env ''ttl'')) STORE_TTL;
          nonce = opt_or 0 (payload_i64 env ''nonce'')
      in
      if \<not> validate_null_id key then (reply_error c key ''invalid key format'', N)
      else if MAX_KEY_SIZE < length key then (reply_error c key ''key too long'', N)
      else if ttl \<le> 0 \<or> MAX_TTL < ttl then (reply_error c key ''ttl out of range'', N)
      else if \<not> unwrap_or False (has_key (c_io c 0) key (ns_store N))
              \<and> int MAX_TOTAL_KEYS \<le> unwrap_or 0 (count_keys (c_io c 1) (c_now c) (ns_store N))
      then (reply_error c key ''DHT store full (max keys reached)'', N)
      else if MAX_VALUE_SIZE < length value_b64 then (reply_error c key ''value too large'', N)
      else if nonce \<in> opt_or {} (map_of (ns_seen N) key) then (reply_error c key ''nonce replay'', N)
      else
        let pow_difficulty = (if seq = 0 then 8 else DHT_POW_DIFFICULTY);
            pow_data = key @ value_b64 @ salt @ show_int seq
        in
        if \<not> unwrap_or False (pow_check (nl_argon2 L) pow_data (word_of_int nonce) pow_difficulty
                              (as_bytes node_fingerprint))
        then (reply_error c key ''insufficient proof-of-work'', N)
        else if sig env = [] then (reply_error c key ''missing signature'', N)
        else
          let publisher_fp = opt_or [] (payload_str env ''publisher_fp'') in
          if \<not> validate_fingerprint publisher_fp
          then (reply_error c key ''invalid publisher fingerprint'', N)
          else
            let expected_nid = compute_null_id (nl_pgp L) publisher_fp in
            if expected_nid \<noteq> key
            then (reply_error c key (''key mismatch: expected '' @ expected_nid), N)
            else
              let sign_data = key @ ''|'' @ value_b64 @ ''|'' @ salt @ ''|'' @ show_int seq @ ''|'' @ show_int nonce;
                  (verified, certs) = verify_dht_put_signature (nl_pgp L) (c_instant c) sign_data (sig env)
                                        publisher_fp env (ns_certs N);
                  N = N\<lparr>ns_certs := certs\<rparr>
              in
              if \<not> verified then (reply_error c key ''signature verification failed'', N)
              else
                (case store_put (c_io c 2) (c_now c) key value_b64 salt seq publisher_fp ttl (sig env) nonce
                        (ns_store N) of
                   (Inr True, store) \<Rightarrow>
                     (reply_found c key value_b64 salt seq,
                      N\<lparr>ns_store := store,
                        ns_seen := AList.update key (insert nonce (opt_or {} (map_of (ns_seen N) key))) (ns_seen N)\<rparr>)
                 | (Inr False, store) \<Rightarrow> (reply_error c key ''stale sequence'', N\<lparr>ns_store := store\<rparr>)
                 | (Inl e, store) \<Rightarrow> (reply_error c key ''storage error'', N\<lparr>ns_store := store\<rparr>)))"

definition handle_get :: "bool \<Rightarrow> call \<Rightarrow> WireEnvelope \<Rightarrow> node_state \<Rightarrow> reply" where
  "handle_get stealth_mode c env N =
     (let key = opt_or [] (payload_str env ''key'')
      in if \<not> validate_null_id key
         then (if stealth_mode then RawJson (stealth_response c) else reply_error c key ''invalid key format'')
         else (case store_get (c_io c 0) (c_now c) key (ns_store N) of
                 Inr (Some record) \<Rightarrow> reply_found c key (kv_value record) (kv_salt record) (kv_seq record)
               | Inr None \<Rightarrow> reply_error c key ''not found''
               | Inl e \<Rightarrow> reply_error c key ''storage error''))"

text \<open>The signature check inside \<open>handle_addr_record\<close>: unlike for a put, a certificate that does
  not parse is a failure.\<close>

definition verify_addr_signature ::
  "'cert pgp_lib \<Rightarrow> nat \<Rightarrow> string \<Rightarrow> string \<Rightarrow> string \<Rightarrow> WireEnvelope \<Rightarrow> cert_cache \<Rightarrow> bool \<times> cert_cache" where
  "verify_addr_signature P t sign_data sg publisher_fp env g =
     (case payload_str env ''publisher_cert'' of
        Some cert_armored \<Rightarrow>
          (case cert_from_bytes P (as_bytes cert_armored) of
             Some cert \<Rightarrow> verify_signature_with_cert P t sign_data sg cert g
           | None \<Rightarrow> (False, g))
      | None \<Rightarrow> verify_signature P t sign_data sg publisher_fp g)"

definition handle_addr_record ::
  "('cert, 'p) node_lib \<Rightarrow> string \<Rightarrow> call \<Rightarrow> WireEnvelope \<Rightarrow> node_state \<Rightarrow> reply \<times> node_state" where
  "handle_addr_record L node_fingerprint c env N =
     (let null_id = opt_or [] (payload_str env ''null_id'');
          address = opt_or [] (payload_str env ''address'');
          ttl = opt_or ADDR_TTL (payload_i64 env ''ttl'');
          publisher_fp = opt_or [] (payload_str env ''publisher_fp'');
          nonce = opt_or 0 (payload_i64 env ''nonce'')
      in
      if \<not> validate_null_id null_id then (reply_error c null_id ''invalid null_id format'', N)
      else if \<not> validate_fingerprint publisher_fp
      then (reply_error c null_id ''invalid publisher fingerprint'', N)
      else
        let expected_nid = compute_null_id (nl_pgp L) publisher_fp in
        if expected_nid \<noteq> null_id
        then (reply_error c null_id (''null_id mismatch: expected '' @ expected_nid), N)
        else
          let sign_data = null_id @ ''|'' @ address @ ''|'' @ show_int ttl;
              (verified, certs) = verify_addr_signature (nl_pgp L) (c_instant c) sign_data (sig env)
                                    publisher_fp env (ns_certs N);
              N = N\<lparr>ns_certs := certs\<rparr>
          in
          if \<not> verified then (reply_error c null_id ''signature verification failed'', N)
          else
            let pow_data = null_id @ address @ show_int ttl in
            if \<not> unwrap_or False (pow_check (nl_argon2 L) pow_data (word_of_int nonce) ADDR_POW_DIFFICULTY
                                  (as_bytes node_fingerprint))
            then (reply_error c null_id ''insufficient proof-of-work'', N)
            else
              let salt = ''addr:'' @ show_nat (unat (c_rand c));
                  seq = \<lfloor>c_now c\<rfloor>
              in (case store_put (c_io c 0) (c_now c) null_id address salt seq publisher_fp ttl (sig env) nonce
                         (ns_store N) of
                    (Inr True, store) \<Rightarrow> (reply_found c null_id address salt seq, N\<lparr>ns_store := store\<rparr>)
                  | (Inr False, store) \<Rightarrow> (reply_error c null_id ''stale sequence'', N\<lparr>ns_store := store\<rparr>)
                  | (Inl e, store) \<Rightarrow> (reply_error c null_id ''storage error'', N\<lparr>ns_store := store\<rparr>)))"

section \<open>Connections\<close>

definition MAX_FAILURES :: u32 where "MAX_FAILURES = 10"

definition bot_log :: "string \<Rightarrow> u16 \<Rightarrow> string \<Rightarrow> string option \<Rightarrow> node_state \<Rightarrow> node_state" where
  "bot_log ip port reason detail N = N\<lparr>ns_bot_log := ns_bot_log N @ [(ip, port, reason, detail)]\<rparr>"

text \<open>The answer to a request that is not served: the decoy in stealth mode, an error otherwise.\<close>

definition refuse :: "bool \<Rightarrow> call \<Rightarrow> string \<Rightarrow> string \<Rightarrow> reply" where
  "refuse stealth_mode c key message =
     (if stealth_mode then RawJson (stealth_response c) else reply_error c key message)"

definition count_failure :: "string \<Rightarrow> u16 \<Rightarrow> string \<Rightarrow> u32 \<Rightarrow> node_state \<Rightarrow> u32 \<times> node_state" where
  "count_failure ip port what failures N =
     (let failures = failures + 1
      in (failures,
          if failures = MAX_FAILURES then bot_log ip port ''SCANNER'' (Some (what @ '' x10'')) N else N))"

text \<open>The \<open>match\<close> on the type of a fresh envelope.\<close>

definition dispatch ::
  "('cert, 'p) node_lib \<Rightarrow> string \<Rightarrow> bool \<Rightarrow> string \<Rightarrow> u16 \<Rightarrow> call \<Rightarrow> WireEnvelope \<Rightarrow> node_state
    \<Rightarrow> reply \<times> node_state" where
  "dispatch L node_fingerprint stealth_mode ip port c env N =
     (if msg_type env = ''dht-put'' then handle_put L node_fingerprint c env N
      else if msg_type env = ''dht-get'' then
        (let (ok, lim) = allow (c_now c) ip (ns_get_limiter N);
             N = N\<lparr>ns_get_limiter := lim\<rparr>
         in if \<not> ok
            then (refuse stealth_mode c [] ''rate limited'',
                  bot_log ip port ''GET_RATE_LIMITED'' (Some ''dht-get rate limit exceeded'') N)
            else (handle_get stealth_mode c env N, N))
      else if msg_type env = ''dht-addr-record'' then handle_addr_record L node_fingerprint c env N
      else (refuse stealth_mode c (opt_or [] (payload_str env ''key'')) (''unexpected type: '' @ msg_type env),
            bot_log ip port ''BAD_TYPE'' (Some (msg_type env)) N))"

text \<open>The body of the message loop for one text message.\<close>

definition handle_text ::
  "('cert, 'p) node_lib \<Rightarrow> string \<Rightarrow> bool \<Rightarrow> string \<Rightarrow> u16 \<Rightarrow> call \<Rightarrow> string \<Rightarrow> u32 \<Rightarrow> node_state
    \<Rightarrow> reply \<times> u32 \<times> node_state" where
  "handle_text L node_fingerprint stealth_mode ip port c raw failures N =
     (case nl_from_json L raw of
        Inl e \<Rightarrow> (refuse stealth_mode c [] (''bad envelope: '' @ e), count_failure ip port ''bad_envelope'' failures N)
      | Inr env \<Rightarrow>
          if of_int POW_MAX_AGE < \<bar>c_now c - ts env\<bar>
          then (refuse stealth_mode c (opt_or [] (payload_str env ''key'')) ''stale timestamp'',
                count_failure ip port ''stale_timestamp'' failures N)
          else (let (r, N) = dispatch L node_fingerprint stealth_mode ip port c env N in (r, 0, N)))"

datatype ws_event = WsText string | WsClose | WsOther | WsError

fun message_loop ::
  "('cert, 'p) node_lib \<Rightarrow> string \<Rightarrow> bool \<Rightarrow> string \<Rightarrow> u16 \<Rightarrow> (call \<times> ws_event) list \<Rightarrow> u32 \<Rightarrow> node_state
    \<Rightarrow> reply list \<times> u32 \<times> node_state" where
  "message_loop L fp stealth ip port [] failures N = ([], failures, N)"
| "message_loop L fp stealth ip port ((c, WsText raw) # ms) failures N =
     (let (r, failures, N) = handle_text L fp stealth ip port c raw failures N;
          (rs, failures, N) = message_loop L fp stealth ip port ms failures N
      in (r # rs, failures, N))"
| "message_loop L fp stealth ip port ((c, WsOther) # ms) failures N =
     message_loop L fp stealth ip port ms failures N"
| "message_loop L fp stealth ip port ((c, WsClose) # ms) failures N = ([], failures, N)"
| "message_loop L fp stealth ip port ((c, WsError) # ms) failures N = ([], failures, N)"

definition connection_end :: "string \<Rightarrow> u16 \<Rightarrow> u32 \<Rightarrow> node_state \<Rightarrow> node_state" where
  "connection_end ip port failures N =
     (if 5 \<le> failures
      then bot_log ip port ''SUSPECT'' (Some (show_nat (unat failures) @ '' consecutive failures'')) N else N)"

definition handle_connection ::
  "('cert, 'p) node_lib \<Rightarrow> string \<Rightarrow> bool \<Rightarrow> string \<Rightarrow> u16 \<Rightarrow> (call \<times> ws_event) list \<Rightarrow> node_state
    \<Rightarrow> reply list \<times> node_state" where
  "handle_connection L fp stealth ip port ms N =
     (let (rs, failures, N) = message_loop L fp stealth ip port ms 0 N
      in (rs, connection_end ip port failures N))"

section \<open>The node's tasks\<close>

text \<open>One round of the background task over the in-memory nonces.\<close>

definition trim_nonces :: "int set \<Rightarrow> int set" where
  "trim_nonces s =
     (if 64 < card s
      then (let all = sorted_list_of_set s in set (drop (length all - 64) all))
      else s)"

definition prune_seen :: "node_state \<Rightarrow> node_state" where
  "prune_seen N =
     N\<lparr>ns_seen := filter (\<lambda>(_, s). s \<noteq> {}) (map (\<lambda>(k, s). (k, trim_nonces s)) (ns_seen N))\<rparr>"

text \<open>A connection attempt: only an allowed one gets a handler.\<close>

definition accept_peer :: "f64 \<Rightarrow> string \<Rightarrow> node_state \<Rightarrow> bool \<times> node_state" where
  "accept_peer now ip N =
     (let (allowed, lim) = allow now ip (ns_conn_limiter N) in (allowed, N\<lparr>ns_conn_limiter := lim\<rparr>))"

text \<open>
  A history of the node interleaves the steps of all connections: accepting a peer, one text
  message (with the connection's failure counter), the end of a connection, and the pruning
  task. The store's lock and the handlers' order inside a step are the code's; two \<open>put\<close>s that
  overlap inside the store are treated in the theory of the store.
\<close>

datatype node_event =
    NAccept f64 string
  | NText call string u16 string u32
  | NEnd string u16 u32
  | NPrune

fun node_step :: "('cert, 'p) node_lib \<Rightarrow> string \<Rightarrow> bool \<Rightarrow> node_event \<Rightarrow> node_state \<Rightarrow> node_state" where
  "node_step L fp stealth (NAccept now ip) N = snd (accept_peer now ip N)"
| "node_step L fp stealth (NText c ip port raw failures) N =
     snd (snd (handle_text L fp stealth ip port c raw failures N))"
| "node_step L fp stealth (NEnd ip port failures) N = connection_end ip port failures N"
| "node_step L fp stealth NPrune N = prune_seen N"

section \<open>What the handlers ask of the store\<close>

text \<open>The condition under which \<open>handle_put\<close> reaches the store, and the write it then performs.\<close>

definition put_guards :: "('cert, 'p) node_lib \<Rightarrow> string \<Rightarrow> call \<Rightarrow> WireEnvelope \<Rightarrow> node_state \<Rightarrow> bool" where
  "put_guards L node_fp c env N \<longleftrightarrow>
     (let key = opt_or [] (payload_str env ''key'');
          val = opt_or [] (payload_str env ''value'');
          salt = opt_or [] (payload_str env ''salt'');
          seq = opt_or 0 (payload_i64 env ''seq'');
          nonce = opt_or 0 (payload_i64 env ''nonce'');
          publisher_fp = opt_or [] (payload_str env ''publisher_fp'')
      in validate_null_id key \<and> 0 < opt_or 86400 (payload_i64 env ''ttl'')
       \<and> (has_key (c_io c 0) key (ns_store N) = Inr True
          \<or> unwrap_or 0 (count_keys (c_io c 1) (c_now c) (ns_store N)) < 1000000)
       \<and> length val \<le> 4096
       \<and> nonce \<notin> opt_or {} (map_of (ns_seen N) key)
       \<and> pow_check (nl_argon2 L) (key @ val @ salt @ show_int seq) (word_of_int nonce)
           (if seq = 0 then 8 else 16) (as_bytes node_fp) = Inr True
       \<and> sig env \<noteq> [] \<and> validate_fingerprint publisher_fp
       \<and> compute_null_id (nl_pgp L) publisher_fp = key
       \<and> fst (verify_dht_put_signature (nl_pgp L) (c_instant c)
             (key @ ''|'' @ val @ ''|'' @ salt @ ''|'' @ show_int seq @ ''|'' @ show_int nonce)
             (sig env) publisher_fp env (ns_certs N)))"

definition put_event :: "call \<Rightarrow> WireEnvelope \<Rightarrow> store_event" where
  "put_event c env =
     SPut (c_io c 2) (c_now c) (opt_or [] (payload_str env ''key'')) (opt_or [] (payload_str env ''value''))
       (opt_or [] (payload_str env ''salt'')) (opt_or 0 (payload_i64 env ''seq''))
       (opt_or [] (payload_str env ''publisher_fp''))
       (min (opt_or 86400 (payload_i64 env ''ttl'')) 86400) (sig env) (opt_or 0 (payload_i64 env ''nonce''))"

lemma validate_null_id_length: "validate_null_id nid \<Longrightarrow> length nid = 12"
  by (auto simp: validate_null_id_shape)

lemma verify_dht_put_signature_ok [invs]:
  "cert_cache_ok g \<Longrightarrow> cert_cache_ok (snd (verify_dht_put_signature P t d s f env g))"
  by (simp add: verify_dht_put_signature_def invs split: option.split)

lemma verify_addr_signature_ok [invs]:
  "cert_cache_ok g \<Longrightarrow> cert_cache_ok (snd (verify_addr_signature P t d s f env g))"
  by (simp add: verify_addr_signature_def invs split: option.split)

lemma handle_put_refused:
  assumes "\<not> put_guards L node_fp c env N"
  shows "\<exists>m certs. handle_put L node_fp c env N
      = (reply_error c (opt_or [] (payload_str env ''key'')) m, N\<lparr>ns_certs := certs\<rparr>)
      \<and> (cert_cache_ok (ns_certs N) \<longrightarrow> cert_cache_ok certs)"
proof -
  let ?k = "opt_or [] (payload_str env ''key'')"
  define Q where "Q r \<longleftrightarrow> (\<exists>m certs. r = (reply_error c ?k m, N\<lparr>ns_certs := certs\<rparr>)
      \<and> (cert_cache_ok (ns_certs N) \<longrightarrow> cert_cache_ok certs))" for r
  have cert: "Q (reply_error c ?k m, N\<lparr>ns_certs := certs\<rparr>)"
    if "cert_cache_ok (ns_certs N) \<longrightarrow> cert_cache_ok certs" for m certs
    using that by (auto simp: Q_def)
  from this [of "ns_certs N"] have Qerr: "Q (reply_error c ?k m, N)" for m by simp
  have Qerr': "Q (reply_error c ?k m, N\<lparr>ns_certs := snd (verify_dht_put_signature (nl_pgp L) t d s f env (ns_certs N))\<rparr>)"
    for m t d s f
    by (rule cert) (simp add: invs)
  have Qif: "(b \<Longrightarrow> Q x) \<Longrightarrow> (\<not> b \<Longrightarrow> Q y) \<Longrightarrow> Q (if b then x else y)" for b x y by simp
  have "Q (handle_put L node_fp c env N)"
    unfolding handle_put_def Let_def case_prod_beta
    by ((rule Qif, rule Qerr Qerr')+,
        use assms in \<open>simp add: put_guards_def Let_def STORE_TTL_def MAX_TTL_def MAX_TOTAL_KEYS_def
          MAX_VALUE_SIZE_def DHT_POW_DIFFICULTY_def not_less not_le cong: if_cong\<close>)
  then show ?thesis by (simp only: Q_def)
qed

lemma handle_put_guarded:
  assumes "put_guards L node_fp c env N"
  shows "handle_put L node_fp c env N =
    (let key = opt_or [] (payload_str env ''key'');
         val = opt_or [] (payload_str env ''value'');
         salt = opt_or [] (payload_str env ''salt'');
         seq = opt_or 0 (payload_i64 env ''seq'');
         nonce = opt_or 0 (payload_i64 env ''nonce'');
         fp = opt_or [] (payload_str env ''publisher_fp'');
         N' = N\<lparr>ns_certs := snd (verify_dht_put_signature (nl_pgp L) (c_instant c)
             (key @ ''|'' @ val @ ''|'' @ salt @ ''|'' @ show_int seq @ ''|'' @ show_int nonce) (sig env) fp env (ns_certs N))\<rparr>
     in (case store_put (c_io c 2) (c_now c) key val salt seq fp
                (min (opt_or 86400 (payload_i64 env ''ttl'')) 86400) (sig env) nonce (ns_store N) of
           (Inr True, store) \<Rightarrow>
             (reply_found c key val salt seq,
              N'\<lparr>ns_store := store, ns_seen := AList.update key (insert nonce (opt_or {} (map_of (ns_seen N) key))) (ns_seen N)\<rparr>)
         | (Inr False, store) \<Rightarrow> (reply_error c key ''stale sequence'', N'\<lparr>ns_store := store\<rparr>)
         | (Inl e, store) \<Rightarrow> (reply_error c key ''storage error'', N'\<lparr>ns_store := store\<rparr>)))"
proof -
  note G = assms[unfolded put_guards_def Let_def]
  have k: "length (opt_or [] (payload_str env ''key'')) = 12" using G validate_null_id_length by blast
  have t: "min (opt_or 86400 (payload_i64 env ''ttl'')) 86400 \<le> (0::int) \<longleftrightarrow> False"
    "604800 < min (opt_or 86400 (payload_i64 env ''ttl'')) (86400::int) \<longleftrightarrow> False" using G by auto
  have skip: "\<not> b \<Longrightarrow> y = z \<Longrightarrow> (if b then x else y) = z" for b and x y z :: "reply \<times> node_state" by simp
  show ?thesis
    unfolding handle_put_def Let_def case_prod_beta STORE_TTL_def MAX_TTL_def MAX_TOTAL_KEYS_def MAX_VALUE_SIZE_def
      MAX_KEY_SIZE_def DHT_POW_DIFFICULTY_def
    by ((rule skip, (use G k t in force))+, simp split: sum.split bool.split)
qed
lemma handle_put_cases:
  obtains (refused) m certs where
      "\<not> (put_guards L node_fp c env N \<and> accepted_nonce (put_event c env) (ns_store N) \<noteq> None)"
      and "put_guards L node_fp c env N \<longrightarrow> store_step (put_event c env) (ns_store N) = ns_store N"
      and "handle_put L node_fp c env N
             = (reply_error c (opt_or [] (payload_str env ''key'')) m, N\<lparr>ns_certs := certs\<rparr>)"
      and "cert_cache_ok (ns_certs N) \<longrightarrow> cert_cache_ok certs"
  | (accepted) certs where "put_guards L node_fp c env N"
      and "accepted_nonce (put_event c env) (ns_store N)
             = Some (opt_or [] (payload_str env ''key''), opt_or 0 (payload_i64 env ''nonce''))"
      and "handle_put L node_fp c env N =
        (reply_found c (opt_or [] (payload_str env ''key'')) (opt_or [] (payload_str env ''value''))
           (opt_or [] (payload_str env ''salt'')) (opt_or 0 (payload_i64 env ''seq'')),
         N\<lparr>ns_certs := certs, ns_store := store_step (put_event c env) (ns_store N),
           ns_seen := AList.update (opt_or [] (payload_str env ''key''))
             (insert (opt_or 0 (payload_i64 env ''nonce''))
                (opt_or {} (map_of (ns_seen N) (opt_or [] (payload_str env ''key''))))) (ns_seen N)\<rparr>)"
      and "cert_cache_ok (ns_certs N) \<longrightarrow> cert_cache_ok certs"
proof (cases "put_guards L node_fp c env N")
  case False
  with handle_put_refused [OF this] refused show thesis by blast
next
  case True
  let ?k = "opt_or [] (payload_str env ''key'')" and ?v = "opt_or [] (payload_str env ''value'')"
  let ?s = "opt_or [] (payload_str env ''salt'')" and ?q = "opt_or 0 (payload_i64 env ''seq'')"
  let ?n = "opt_or 0 (payload_i64 env ''nonce'')" and ?f = "opt_or [] (payload_str env ''publisher_fp'')"
  let ?t = "min (opt_or 86400 (payload_i64 env ''ttl'')) 86400"
  have eq: "handle_put L node_fp c env N = (case store_put (c_io c 2) (c_now c) ?k ?v ?s ?q ?f ?t (sig env) ?n (ns_store N) of
      (r, store) \<Rightarrow> (case r of
         Inr True \<Rightarrow> (reply_found c ?k ?v ?s ?q, N\<lparr>ns_certs := certs, ns_store := store,
            ns_seen := AList.update ?k (insert ?n (opt_or {} (map_of (ns_seen N) ?k))) (ns_seen N)\<rparr>)
       | Inr False \<Rightarrow> (reply_error c ?k ''stale sequence'', N\<lparr>ns_certs := certs, ns_store := store\<rparr>)
       | Inl e \<Rightarrow> (reply_error c ?k ''storage error'', N\<lparr>ns_certs := certs, ns_store := store\<rparr>)))"
    if "certs = snd (verify_dht_put_signature (nl_pgp L) (c_instant c)
         (?k @ ''|'' @ ?v @ ''|'' @ ?s @ ''|'' @ show_int ?q @ ''|'' @ show_int ?n) (sig env) ?f env (ns_certs N))" for certs
    unfolding handle_put_guarded [OF True] that Let_def by (rule refl)
  show thesis
  proof (cases rule: store_put_cases [of "c_io c 2" "c_now c" ?k ?v ?s ?q ?f ?t "sig env" ?n "ns_store N"])
    case (unchanged r)
    then show thesis
      using eq [OF refl] True refused
      by (cases r) (auto simp: put_event_def invs split: bool.splits)
  next
    case stored
    then show thesis
      using eq [OF refl] True accepted
      by (auto simp: put_event_def invs)
  qed
qed

definition addr_guards :: "('cert, 'p) node_lib \<Rightarrow> string \<Rightarrow> call \<Rightarrow> WireEnvelope \<Rightarrow> node_state \<Rightarrow> bool" where
  "addr_guards L node_fp c env N \<longleftrightarrow>
     (let null_id = opt_or [] (payload_str env ''null_id'');
          address = opt_or [] (payload_str env ''address'');
          ttl = opt_or 7200 (payload_i64 env ''ttl'');
          publisher_fp = opt_or [] (payload_str env ''publisher_fp'');
          nonce = opt_or 0 (payload_i64 env ''nonce'')
      in validate_null_id null_id \<and> validate_fingerprint publisher_fp
       \<and> compute_null_id (nl_pgp L) publisher_fp = null_id
       \<and> fst (verify_addr_signature (nl_pgp L) (c_instant c) (null_id @ ''|'' @ address @ ''|'' @ show_int ttl)
             (sig env) publisher_fp env (ns_certs N))
       \<and> pow_check (nl_argon2 L) (null_id @ address @ show_int ttl) (word_of_int nonce) 12
           (as_bytes node_fp) = Inr True)"

definition addr_event :: "call \<Rightarrow> WireEnvelope \<Rightarrow> store_event" where
  "addr_event c env =
     SPut (c_io c 0) (c_now c) (opt_or [] (payload_str env ''null_id'')) (opt_or [] (payload_str env ''address''))
       (''addr:'' @ show_nat (unat (c_rand c))) \<lfloor>c_now c\<rfloor> (opt_or [] (payload_str env ''publisher_fp''))
       (opt_or 7200 (payload_i64 env ''ttl'')) (sig env) (opt_or 0 (payload_i64 env ''nonce''))"

lemma handle_addr_refused:
  assumes "\<not> addr_guards L node_fp c env N"
  shows "\<exists>m certs. handle_addr_record L node_fp c env N
      = (reply_error c (opt_or [] (payload_str env ''null_id'')) m, N\<lparr>ns_certs := certs\<rparr>)
      \<and> (cert_cache_ok (ns_certs N) \<longrightarrow> cert_cache_ok certs)"
proof -
  let ?k = "opt_or [] (payload_str env ''null_id'')"
  define Q where "Q r \<longleftrightarrow> (\<exists>m certs. r = (reply_error c ?k m, N\<lparr>ns_certs := certs\<rparr>)
      \<and> (cert_cache_ok (ns_certs N) \<longrightarrow> cert_cache_ok certs))" for r
  have cert: "Q (reply_error c ?k m, N\<lparr>ns_certs := certs\<rparr>)"
    if "cert_cache_ok (ns_certs N) \<longrightarrow> cert_cache_ok certs" for m certs
    using that by (auto simp: Q_def)
  from this [of "ns_certs N"] have Qerr: "Q (reply_error c ?k m, N)" for m by simp
  have Qerr': "Q (reply_error c ?k m, N\<lparr>ns_certs := snd (verify_addr_signature (nl_pgp L) t d s f env (ns_certs N))\<rparr>)"
    for m t d s f
    by (rule cert) (simp add: invs)
  have Qif: "(b \<Longrightarrow> Q x) \<Longrightarrow> (\<not> b \<Longrightarrow> Q y) \<Longrightarrow> Q (if b then x else y)" for b x y by simp
  have "Q (handle_addr_record L node_fp c env N)"
    unfolding handle_addr_record_def Let_def case_prod_beta
    by ((rule Qif, rule Qerr Qerr')+,
        use assms in \<open>simp add: addr_guards_def Let_def ADDR_TTL_def ADDR_POW_DIFFICULTY_def\<close>)
  then show ?thesis by (simp only: Q_def)
qed

lemma handle_addr_cases:
  obtains (refused) m certs where
      "\<not> (addr_guards L node_fp c env N \<and> accepted_nonce (addr_event c env) (ns_store N) \<noteq> None)"
      and "addr_guards L node_fp c env N \<longrightarrow> store_step (addr_event c env) (ns_store N) = ns_store N"
      and "handle_addr_record L node_fp c env N
             = (reply_error c (opt_or [] (payload_str env ''null_id'')) m, N\<lparr>ns_certs := certs\<rparr>)"
      and "cert_cache_ok (ns_certs N) \<longrightarrow> cert_cache_ok certs"
  | (accepted) certs where "addr_guards L node_fp c env N"
      and "accepted_nonce (addr_event c env) (ns_store N)
             = Some (opt_or [] (payload_str env ''null_id''), opt_or 0 (payload_i64 env ''nonce''))"
      and "handle_addr_record L node_fp c env N =
        (reply_found c (opt_or [] (payload_str env ''null_id'')) (opt_or [] (payload_str env ''address''))
           (''addr:'' @ show_nat (unat (c_rand c))) \<lfloor>c_now c\<rfloor>,
         N\<lparr>ns_certs := certs, ns_store := store_step (addr_event c env) (ns_store N)\<rparr>)"
      and "cert_cache_ok (ns_certs N) \<longrightarrow> cert_cache_ok certs"
proof (cases "addr_guards L node_fp c env N")
  case False
  with handle_addr_refused [OF this] refused show thesis by blast
next
  case True
  let ?k = "opt_or [] (payload_str env ''null_id'')" and ?v = "opt_or [] (payload_str env ''address'')"
  let ?s = "''addr:'' @ show_nat (unat (c_rand c))" and ?t = "opt_or 7200 (payload_i64 env ''ttl'')"
  let ?n = "opt_or 0 (payload_i64 env ''nonce'')" and ?f = "opt_or [] (payload_str env ''publisher_fp'')"
  note G = True [unfolded addr_guards_def Let_def]
  have skip: "\<not> b \<Longrightarrow> y = z \<Longrightarrow> (if b then x else y) = z" for b and x y z :: "reply \<times> node_state" by simp
  have eq: "handle_addr_record L node_fp c env N = (case store_put (c_io c 0) (c_now c) ?k ?v ?s \<lfloor>c_now c\<rfloor> ?f ?t (sig env) ?n (ns_store N) of
      (r, store) \<Rightarrow> (case r of
         Inr True \<Rightarrow> (reply_found c ?k ?v ?s \<lfloor>c_now c\<rfloor>, N\<lparr>ns_certs := certs, ns_store := store\<rparr>)
       | Inr False \<Rightarrow> (reply_error c ?k ''stale sequence'', N\<lparr>ns_certs := certs, ns_store := store\<rparr>)
       | Inl e \<Rightarrow> (reply_error c ?k ''storage error'', N\<lparr>ns_certs := certs, ns_store := store\<rparr>)))"
    if "certs = snd (verify_addr_signature (nl_pgp L) (c_instant c)
         (?k @ ''|'' @ ?v @ ''|'' @ show_int ?t) (sig env) ?f env (ns_certs N))" for certs
    unfolding handle_addr_record_def that Let_def case_prod_beta ADDR_TTL_def ADDR_POW_DIFFICULTY_def
    by ((rule skip, (use G in force))+, simp split: sum.split bool.split)
  show thesis
  proof (cases rule: store_put_cases [of "c_io c 0" "c_now c" ?k ?v ?s "\<lfloor>c_now c\<rfloor>" ?f ?t "sig env" ?n "ns_store N"])
    case (unchanged r)
    then show thesis
      using eq [OF refl] True refused
      by (cases r) (auto simp: addr_event_def invs split: bool.splits)
  next
    case stored
    then show thesis
      using eq [OF refl] True accepted by (auto simp: addr_event_def invs)
  qed
qed

text \<open>The write, if any, that a step of the node performs on the store.\<close>

fun store_request ::
  "('cert, 'p) node_lib \<Rightarrow> string \<Rightarrow> node_event \<Rightarrow> node_state \<Rightarrow> store_event option" where
  "store_request L fp (NText c ip port raw failures) N =
     (case nl_from_json L raw of
        Inl _ \<Rightarrow> None
      | Inr env \<Rightarrow>
          if 300 < \<bar>c_now c - ts env\<bar> then None
          else if msg_type env = ''dht-put'' \<and> put_guards L fp c env N then Some (put_event c env)
          else if msg_type env = ''dht-addr-record'' \<and> addr_guards L fp c env N then Some (addr_event c env)
          else None)"
| "store_request L fp _ N = None"

lemma bot_log_simps [simp]:
  "ns_store (bot_log ip port r d N) = ns_store N"
  "ns_seen (bot_log ip port r d N) = ns_seen N"
  "ns_certs (bot_log ip port r d N) = ns_certs N"
  "ns_get_limiter (bot_log ip port r d N) = ns_get_limiter N"
  "ns_conn_limiter (bot_log ip port r d N) = ns_conn_limiter N"
  by (simp_all add: bot_log_def)

lemma handle_put_store:
  "ns_store (snd (handle_put L fp c env N)) =
     (if put_guards L fp c env N then store_step (put_event c env) (ns_store N) else ns_store N)"
  by (cases rule: handle_put_cases [of L fp c env N]) auto

lemma handle_addr_store:
  "ns_store (snd (handle_addr_record L fp c env N)) =
     (if addr_guards L fp c env N then store_step (addr_event c env) (ns_store N) else ns_store N)"
  by (cases rule: handle_addr_cases [of L fp c env N]) auto

lemma node_step_store:
  "ns_store (node_step L fp stealth e N) =
     (case store_request L fp e N of None \<Rightarrow> ns_store N | Some se \<Rightarrow> store_step se (ns_store N))"
proof (cases e)
  case (NText c ip port raw failures)
  then show ?thesis
    by (auto simp: handle_text_def dispatch_def handle_put_store handle_addr_store count_failure_def
        POW_MAX_AGE_def Let_def case_prod_beta split: sum.split)
qed (simp_all add: accept_peer_def connection_end_def prune_seen_def case_prod_beta)

end
