(* ===== verification/NodeSafety.thy ===== *)
theory NodeSafety
  imports DhtNode
begin

text \<open>
  What the DHT node guarantees: the handlers refine the store, no request is accepted twice, all
  stored records are authorised, the caches and limiters stay bounded, and lookups are rate
  limited. The last sections show the behaviours in which the code differs from its comments.
\<close>

section \<open>The handlers refine the store\<close>


text \<open>A lookup after an accepted put; the property follows.\<close>

lemma get_after_put:
  assumes "handle_put L fp c env N = (Envelope r, N')" and "msg_type r = ''dht-found''"
    and "payload_str env' ''key'' = payload_str env ''key''"
    and "c_now c' < c_now c + of_int (min (opt_or 86400 (payload_i64 env ''ttl'')) 86400)"
    and "c_io c' 0 = no_faults"
  shows "handle_get stealth c' env' N' =
    reply_found c' (opt_or [] (payload_str env ''key'')) (opt_or [] (payload_str env ''value''))
      (opt_or [] (payload_str env ''salt'')) (opt_or 0 (payload_i64 env ''seq''))"
proof (cases rule: handle_put_cases [of L fp c env N])
  case (refused m certs)
  with assms(1,2) show ?thesis by (auto simp: reply_error_def)
next
  case (accepted certs)
  let ?k = "opt_or [] (payload_str env ''key'')"
  have acc: "fst (store_put (c_io c 2) (c_now c) ?k (opt_or [] (payload_str env ''value''))
      (opt_or [] (payload_str env ''salt'')) (opt_or 0 (payload_i64 env ''seq''))
      (opt_or [] (payload_str env ''publisher_fp'')) (min (opt_or 86400 (payload_i64 env ''ttl'')) 86400)
      (sig env) (opt_or 0 (payload_i64 env ''nonce'')) (ns_store N)) = Inr True"
    using accepted(2) by (simp add: put_event_def split: if_splits)
  have "ns_store N' = store_step (put_event c env) (ns_store N)"
    using accepted(3) assms(1) by auto
  moreover have "validate_null_id ?k"
    using accepted(1) by (simp add: put_guards_def Let_def)
  ultimately show ?thesis
    using store_lookup_after_put [OF acc] assms(3-5)
    by (simp add: handle_get_def put_event_def Let_def store_get_def exec_def)
qed


section \<open>Invariants of the node\<close>

text \<open>Every stored row was published for the identity that its fingerprint derives.\<close>

definition row_ok :: "'cert pgp_lib \<Rightarrow> string \<times> KvRecord \<Rightarrow> bool" where
  "row_ok P row \<longleftrightarrow>
     (let (k, r) = row in validate_null_id k \<and> validate_fingerprint (kv_publisher_fp r)
        \<and> compute_null_id P (kv_publisher_fp r) = k \<and> length (kv_value r) \<le> 4096)"

definition node_ok :: "('cert, 'p) node_lib \<Rightarrow> node_state \<Rightarrow> bool" where
  "node_ok L N \<longleftrightarrow>
     store_ok (ns_store N) \<and> (\<forall>row \<in> set (kv_store (ns_store N)). row_ok (nl_pgp L) row)
     \<and> wf_map (ns_seen N)
     \<and> (\<forall>k. \<forall>n \<in> opt_or {} (map_of (ns_seen N) k). nonce_seen (k, n) (ns_store N))
     \<and> cert_cache_ok (ns_certs N) \<and> limiter_ok (ns_conn_limiter N) \<and> limiter_ok (ns_get_limiter N)"

lemma row_ok_put:
  assumes "\<forall>row \<in> set (kv_store S). row_ok P row" and "store_ok S"
    and "validate_null_id key" and "validate_fingerprint fp" and "compute_null_id P fp = key"
  shows "\<forall>row \<in> set (kv_store (store_step (SPut io now key val salt seq fp ttl sg nonce) S)). row_ok P row"
proof (cases rule: store_put_cases [of io now key val salt seq fp ttl sg nonce S])
  case (unchanged r)
  with assms(1) show ?thesis by simp
next
  case stored
  let ?r = "\<lparr>kv_value = val, kv_salt = salt, kv_seq = seq, kv_publisher_fp = fp,
           kv_stored_at = now, kv_expires_at = now + of_int ttl, kv_sig = sg\<rparr>"
  have "row_ok P (key, ?r)"
    using assms(3-5) stored(2) by (simp add: row_ok_def put_check_True MAX_VALUE_SIZE_def)
  moreover have "set (AList.update key ?r (kv_store S)) \<subseteq> insert (key, ?r) (set (kv_store S))"
    by (rule set_AList_update)
  ultimately show ?thesis using stored(1) assms(1) by auto
qed

lemma put_guards_identity:
  "put_guards L fp c env N \<Longrightarrow>
     validate_null_id (opt_or [] (payload_str env ''key''))
     \<and> validate_fingerprint (opt_or [] (payload_str env ''publisher_fp''))
     \<and> compute_null_id (nl_pgp L) (opt_or [] (payload_str env ''publisher_fp'')) = opt_or [] (payload_str env ''key'')"
  by (simp add: put_guards_def Let_def)

lemma addr_guards_identity:
  "addr_guards L fp c env N \<Longrightarrow>
     validate_null_id (opt_or [] (payload_str env ''null_id''))
     \<and> validate_fingerprint (opt_or [] (payload_str env ''publisher_fp''))
     \<and> compute_null_id (nl_pgp L) (opt_or [] (payload_str env ''publisher_fp'')) = opt_or [] (payload_str env ''null_id'')"
  by (simp add: addr_guards_def Let_def)

text \<open>The store of a node that takes a step satisfies what the store's own steps keep.\<close>

lemma store_request_cases:
  assumes "store_request L fp e N = Some se"
  obtains io now key val salt seq pfp ttl sg nonce
  where "se = SPut io now key val salt seq pfp ttl sg nonce"
    and "validate_null_id key" and "validate_fingerprint pfp" and "compute_null_id (nl_pgp L) pfp = key"
  using assms
  by (cases "(L, fp, e, N)" rule: store_request.cases)
     (auto simp: put_event_def addr_event_def dest!: put_guards_identity addr_guards_identity
       split: sum.splits if_splits)

lemma node_step_rows:
  assumes "store_ok (ns_store N)" and "\<forall>row \<in> set (kv_store (ns_store N)). row_ok (nl_pgp L) row"
  shows "store_ok (ns_store (node_step L fp stealth e N))
    \<and> (\<forall>row \<in> set (kv_store (ns_store (node_step L fp stealth e N))). row_ok (nl_pgp L) row)"
proof (cases "store_request L fp e N")
  case None
  with assms show ?thesis by (simp add: node_step_store)
next
  case (Some se)
  obtain io now key val salt seq pfp ttl sg nonce
    where se: "se = SPut io now key val salt seq pfp ttl sg nonce"
      and id: "validate_null_id key" "validate_fingerprint pfp" "compute_null_id (nl_pgp L) pfp = key"
    using store_request_cases [OF Some] by blast
  show ?thesis
    using row_ok_put [OF assms(2,1) id] Some se store_ok_put [OF assms(1)]
    by (simp add: node_step_store)
qed

lemma nonce_seen_node_step:
  assumes "nonce_seen kn (ns_store N)"
  shows "nonce_seen kn (ns_store (node_step L fp stealth e N))"
proof (cases "store_request L fp e N")
  case None
  with assms show ?thesis by (simp add: node_step_store)
next
  case (Some se)
  then show ?thesis
    using store_request_cases [OF Some] assms
    by (metis node_step_store option.simps(5) store_step.simps(1) nonce_seen_put)
qed

lemma node_step_certs:
  assumes "cert_cache_ok (ns_certs N)"
  shows "cert_cache_ok (ns_certs (node_step L fp stealth e N))"
proof (cases e)
  case (NText c ip port raw failures)
  have "cert_cache_ok (ns_certs (snd (handle_put L fp c env N)))" for env
    by (cases rule: handle_put_cases [of L fp c env N]) (use assms in auto)
  moreover have "cert_cache_ok (ns_certs (snd (handle_addr_record L fp c env N)))" for env
    by (cases rule: handle_addr_cases [of L fp c env N]) (use assms in auto)
  ultimately show ?thesis
    using NText assms
    by (simp add: handle_text_def dispatch_def count_failure_def Let_def case_prod_beta split: sum.split)
qed (use assms in \<open>simp_all add: accept_peer_def connection_end_def prune_seen_def case_prod_beta\<close>)

text \<open>How a step changes the remembered nonces: only an accepted put adds one.\<close>

lemma trim_nonces_subset: "trim_nonces s \<subseteq> s"
proof (cases "64 < card s")
  case True
  then have "finite s" by (metis card.infinite less_zeroE)
  with True show ?thesis
    using set_drop_subset [of _ "sorted_list_of_set s"] by (auto simp: trim_nonces_def Let_def dest: in_set_dropD)
qed (simp add: trim_nonces_def)

lemma node_step_seen:
  assumes "wf_map (ns_seen N)" and "n \<in> opt_or {} (map_of (ns_seen (node_step L fp stealth e N)) k)"
  shows "n \<in> opt_or {} (map_of (ns_seen N) k) \<or> nonce_seen (k, n) (ns_store (node_step L fp stealth e N))"
proof (cases e)
  case (NText c ip port raw failures)
  have p: "n \<in> opt_or {} (map_of (ns_seen N) k) \<or> nonce_seen (k, n) (ns_store (snd (handle_put L fp c env N)))"
    if "n \<in> opt_or {} (map_of (ns_seen (snd (handle_put L fp c env N))) k)" for env
  proof (cases rule: handle_put_cases [of L fp c env N])
    case (accepted certs)
    then show ?thesis
      using that store_nonces.accepts_seen [OF accepted(2)] by (auto simp: update_conv' split: if_splits)
  qed (use that in auto)
  have a: "ns_seen (snd (handle_addr_record L fp c env N)) = ns_seen N" for env
    by (cases rule: handle_addr_cases [of L fp c env N]) auto
  show ?thesis
    using assms(2) NText p a
    by (auto simp: handle_text_def dispatch_def count_failure_def Let_def case_prod_beta
        split: sum.splits if_splits)
next
  case NPrune
  let ?m = "map (\<lambda>(k, s). (k, trim_nonces s)) (ns_seen N)"
  have "wf_map ?m" using assms(1) by (simp add: o_def case_prod_beta)
  then have "map_of (filter (\<lambda>(_, s). s \<noteq> {}) ?m) k =
      (case map_of ?m k of None \<Rightarrow> None | Some s \<Rightarrow> if s \<noteq> {} then Some s else None)"
    by (rule map_of_filter_wf)
  with assms(2) NPrune have "n \<in> opt_or {} (map_of ?m k)"
    by (auto simp: prune_seen_def split: option.splits if_splits)
  moreover have "map_of ?m k = map_option trim_nonces (map_of (ns_seen N) k)"
    by (rule map_of_map_snd)
  ultimately show ?thesis
    using trim_nonces_subset by (cases "map_of (ns_seen N) k") auto
qed (use assms(2) in \<open>auto simp: accept_peer_def connection_end_def case_prod_beta split: if_splits\<close>)

lemma node_step_wf_seen:
  assumes "wf_map (ns_seen N)"
  shows "wf_map (ns_seen (node_step L fp stealth e N))"
proof (cases e)
  case (NText c ip port raw failures)
  have "wf_map (ns_seen (snd (handle_put L fp c env N)))" for env
    by (cases rule: handle_put_cases [of L fp c env N]) (use assms in auto)
  moreover have "wf_map (ns_seen (snd (handle_addr_record L fp c env N)))" for env
    by (cases rule: handle_addr_cases [of L fp c env N]) (use assms in auto)
  ultimately show ?thesis
    using NText assms
    by (simp add: handle_text_def dispatch_def count_failure_def Let_def case_prod_beta split: sum.split)
next
  case NPrune
  have "wf_map (map (\<lambda>(k, s). (k, trim_nonces s)) (ns_seen N))"
    using assms by (simp add: o_def case_prod_beta)
  with NPrune show ?thesis by (simp add: prune_seen_def)
qed (use assms in \<open>simp_all add: accept_peer_def connection_end_def case_prod_beta\<close>)

lemma node_step_limiters:
  assumes "limiter_ok (ns_conn_limiter N)" and "limiter_ok (ns_get_limiter N)"
  shows "limiter_ok (ns_conn_limiter (node_step L fp stealth e N))
    \<and> limiter_ok (ns_get_limiter (node_step L fp stealth e N))"
proof (cases e)
  case (NText c ip port raw failures)
  have "ns_conn_limiter (snd (handle_put L fp c env N)) = ns_conn_limiter N
      \<and> ns_get_limiter (snd (handle_put L fp c env N)) = ns_get_limiter N" for env
    by (cases rule: handle_put_cases [of L fp c env N]) auto
  moreover have "ns_conn_limiter (snd (handle_addr_record L fp c env N)) = ns_conn_limiter N
      \<and> ns_get_limiter (snd (handle_addr_record L fp c env N)) = ns_get_limiter N" for env
    by (cases rule: handle_addr_cases [of L fp c env N]) auto
  ultimately show ?thesis
    using NText assms
    by (simp add: handle_text_def dispatch_def count_failure_def Let_def case_prod_beta invs split: sum.split)
qed (use assms in \<open>simp_all add: accept_peer_def connection_end_def prune_seen_def case_prod_beta invs\<close>)

lemma node_ok_step [invs]:
  assumes "node_ok L N"
  shows "node_ok L (node_step L fp stealth e N)"
proof -
  have "nonce_seen (k, n) (ns_store (node_step L fp stealth e N))"
    if "n \<in> opt_or {} (map_of (ns_seen (node_step L fp stealth e N)) k)" for k n
    using node_step_seen [OF _ that] nonce_seen_node_step assms unfolding node_ok_def by blast
  then show ?thesis
    using assms node_step_rows [of N L fp stealth e] node_step_certs [of N L fp stealth e]
      node_step_wf_seen [of N L fp stealth e] node_step_limiters [of N L fp stealth e]
    by (simp add: node_ok_def)
qed

interpretation node: state_machine "snd (node_new sha256 cfg init_tables)" "node_step L fp stealth" "node_ok L"
  for sha256 cfg L fp stealth
proof
  show "node_ok L (snd (node_new sha256 cfg init_tables))"
    by (simp add: node_ok_def node_new_def init_tables_def store_ok_def cert_cache_ok_def limiter_ok_new)
qed (rule node_ok_step)

definition accepted_write ::
  "('cert, 'p) node_lib \<Rightarrow> string \<Rightarrow> node_event \<Rightarrow> node_state \<Rightarrow> (string \<times> int) option" where
  "accepted_write L fp e N =
     Option.bind (store_request L fp e N) (\<lambda>se. accepted_nonce se (ns_store N))"

interpretation node_nonces: replay_guard "\<lambda>kn N. nonce_seen kn (ns_store N)" "node_step L fp stealth"
    "accepted_write L fp" "\<lambda>_ _. False"
  for L fp stealth
proof
  show "\<not> nonce_seen kn (ns_store N)" if "accepted_write L fp e N = Some kn" for e N kn
    using that by (auto simp: accepted_write_def bind_eq_Some_conv dest: store_nonces.accepts_fresh)
  show "nonce_seen kn (ns_store (node_step L fp stealth e N))" if "accepted_write L fp e N = Some kn" for e N kn
    using that by (auto simp: accepted_write_def bind_eq_Some_conv node_step_store dest: store_nonces.accepts_seen)
qed (rule nonce_seen_node_step)


text \<open>
  C3. The invariant of the node, in every state that a fresh node can reach: each key of the store is
  the Null ID derived from the well-formed fingerprint stored with it, no value exceeds
  4096 bytes, keys and logged nonces are unique, every nonce remembered in memory is also in
  the persistent log, the certificate cache holds at most 1000 certificates, and both rate
  limiters stay within their memory bounds.
\<close>

theorem node_reachable_invariant:
  "let N = fold (node_step L fp stealth) es (snd (node_new sha256 cfg init_tables))
   in list_all (\<lambda>(k, r). validate_null_id k \<and> validate_fingerprint (kv_publisher_fp r)
          \<and> compute_null_id (nl_pgp L) (kv_publisher_fp r) = k \<and> length (kv_value r) \<le> 4096)
        (kv_store (ns_store N))
    \<and> wf_map (kv_store (ns_store N)) \<and> wf_map (nonce_log (ns_store N))
    \<and> {(k, n). n \<in> opt_or {} (map_of (ns_seen N) k)} \<subseteq> fst ` set (nonce_log (ns_store N))
    \<and> length (opt_or [] (ns_certs N)) \<le> 1000
    \<and> limiter_ok (ns_conn_limiter N) \<and> limiter_ok (ns_get_limiter N)"
proof -
  let ?N = "fold (node_step L fp stealth) es (snd (node_new sha256 cfg init_tables))"
  have "node_ok L ?N" by (rule node.run_init_ok)
  moreover have "kn \<in> fst ` set (nonce_log S)" if "nonce_seen kn S" for kn S
    using that by (simp add: nonce_seen_def map_of_eq_None_iff)
  ultimately show ?thesis
    by (auto simp: node_ok_def store_ok_def row_ok_def cert_cache_ok_opt CERT_CACHE_MAX_ENTRIES_def
        list_all_iff Let_def)
qed

section \<open>Lookups are rate limited\<close>

text \<open>The lookups that a step attempts, as events of the limiter, and the lookup it serves.\<close>

fun get_attempts :: "('cert, 'p) node_lib \<Rightarrow> node_event \<Rightarrow> limiter_event list" where
  "get_attempts L (NText c ip port raw failures) =
     (case nl_from_json L raw of
        Inl _ \<Rightarrow> []
      | Inr env \<Rightarrow>
          if \<bar>c_now c - ts env\<bar> \<le> 300 \<and> msg_type env = ''dht-get'' then [Allow (c_now c) ip] else [])"
| "get_attempts L _ = []"

definition served_get :: "('cert, 'p) node_lib \<Rightarrow> node_event \<Rightarrow> node_state \<Rightarrow> (string \<times> f64) option" where
  "served_get L e N =
     (case get_attempts L e of
        [Allow now ip] \<Rightarrow> if fst (allow now ip (ns_get_limiter N)) then Some (ip, now) else None
      | _ \<Rightarrow> None)"

lemma get_limiter_handlers [simp]:
  "ns_get_limiter (snd (handle_put L fp c env N)) = ns_get_limiter N"
  "ns_get_limiter (snd (handle_addr_record L fp c env N)) = ns_get_limiter N"
proof -
  show "ns_get_limiter (snd (handle_put L fp c env N)) = ns_get_limiter N"
    by (cases rule: handle_put_cases [of L fp c env N]) auto
  show "ns_get_limiter (snd (handle_addr_record L fp c env N)) = ns_get_limiter N"
    by (cases rule: handle_addr_cases [of L fp c env N]) auto
qed

lemma get_limiter_step:
  "fold limiter_step (get_attempts L e) (g, ns_get_limiter N) =
     (g @ (case served_get L e N of None \<Rightarrow> [] | Some x \<Rightarrow> [x]),
      ns_get_limiter (node_step L fp stealth e N))"
proof (cases e)
  case (NText c ip port raw failures)
  then show ?thesis
    by (auto simp: served_get_def handle_text_def dispatch_def count_failure_def POW_MAX_AGE_def
        Let_def case_prod_beta split: sum.split)
qed (simp_all add: served_get_def accept_peer_def connection_end_def prune_seen_def case_prod_beta)

lemma get_limiter_run:
  "fold limiter_step (concat (map (get_attempts L) es)) (g, ns_get_limiter N) =
     (g @ trace (node_step L fp stealth) (served_get L) es N,
      ns_get_limiter (fold (node_step L fp stealth) es N))"
proof (induction es arbitrary: g N)
  case (Cons e es)
  then show ?case by (simp add: get_limiter_step [of L e g N fp stealth])
qed simp

text \<open>
  Key enumeration is limited: in every history of a fresh node in which the clock does not run
  backwards and at most 100000 addresses ask, at most 30 lookups are served to any one address
  in any 60 seconds, over all its connections together.
\<close>

theorem node_get_rate:
  assumes "sorted (map event_time (concat (map (get_attempts L) es)))"
    and "card (\<Union> (event_keys ` set (concat (map (get_attempts L) es)))) \<le> 100000"
  shows "length (filter (\<lambda>t. T - 60 \<le> t \<and> t \<le> T)
    (grants_of ip (trace (node_step L fp stealth) (served_get L) es (snd (node_new sha256 cfg store))))) \<le> 30"
proof -
  let ?N = "snd (node_new sha256 cfg store)" and ?ls = "concat (map (get_attempts L) es)"
  have "ns_get_limiter ?N = limiter_new 30 60" by (simp add: node_new_def)
  then have "trace (node_step L fp stealth) (served_get L) es ?N
      = fst (fold limiter_step ?ls ([], limiter_new 30 60))"
    using get_limiter_run [of L es "[]" ?N fp stealth] by simp
  then show ?thesis
    using limiter_window [OF assms, of T 60 ip 30] by simp
qed

section \<open>Connections\<close>

text \<open>The text messages of a connection up to its end, with the calls that handle them.\<close>

fun texts :: "(call \<times> ws_event) list \<Rightarrow> (call \<times> string) list" where
  "texts [] = []"
| "texts ((c, WsText raw) # ms) = (c, raw) # texts ms"
| "texts ((c, WsOther) # ms) = texts ms"
| "texts ((c, WsClose) # ms) = []"
| "texts ((c, WsError) # ms) = []"

lemma message_loop_history:
  "\<exists>fs. length fs = length (texts ms)
     \<and> length (fst (message_loop L fp stealth ip port ms failures N)) = length (texts ms)
     \<and> snd (snd (message_loop L fp stealth ip port ms failures N)) =
        fold (node_step L fp stealth) (map (\<lambda>(p, f). NText (fst p) ip port (snd p) f) (zip (texts ms) fs)) N"
proof (induction ms arbitrary: failures N rule: texts.induct)
  case (2 c raw ms)
  obtain r f' N' where h: "handle_text L fp stealth ip port c raw failures N = (r, f', N')"
    by (cases "handle_text L fp stealth ip port c raw failures N")
  obtain rs f'' N'' where m: "message_loop L fp stealth ip port ms f' N' = (rs, f'', N'')"
    by (cases "message_loop L fp stealth ip port ms f' N'")
  obtain fs where "length fs = length (texts ms)" "length rs = length (texts ms)"
      "N'' = fold (node_step L fp stealth)
         (map (\<lambda>(p, f). NText (fst p) ip port (snd p) f) (zip (texts ms) fs)) N'"
    using "2.IH" [of f' N'] m by auto
  then show ?case
    by (intro exI [of _ "failures # fs"]) (simp add: h m)
qed simp_all

text \<open>
  A connection is a sequence of node steps: each text message up to the close or the first
  error gets exactly one reply and one step, and the connection does nothing else to the shared
  state, so every property of node histories holds for any number of interleaved connections.
\<close>

theorem connection_is_history:
  "\<exists>fs failures. length fs = length (texts ms)
     \<and> length (fst (handle_connection L fp stealth ip port ms N)) = length (texts ms)
     \<and> snd (handle_connection L fp stealth ip port ms N) =
        fold (node_step L fp stealth)
          (map (\<lambda>(p, f). NText (fst p) ip port (snd p) f) (zip (texts ms) fs) @ [NEnd ip port failures]) N"
proof -
  obtain fs where "length fs = length (texts ms)"
     and "length (fst (message_loop L fp stealth ip port ms 0 N)) = length (texts ms)"
     and "snd (snd (message_loop L fp stealth ip port ms 0 N)) =
        fold (node_step L fp stealth) (map (\<lambda>(p, f). NText (fst p) ip port (snd p) f) (zip (texts ms) fs)) N"
    using message_loop_history by blast
  then show ?thesis
    by (cases "message_loop L fp stealth ip port ms 0 N")
       (auto simp: handle_connection_def intro!: exI [of _ fs])
qed

text \<open>
  A message that does not parse, or whose timestamp is more than 300 seconds away from the
  node's clock, changes nothing but the bot log: no record, nonce, certificate or limiter entry.
\<close>

theorem stale_message_inert:
  assumes "case nl_from_json L raw of Inl _ \<Rightarrow> True | Inr env \<Rightarrow> 300 < \<bar>c_now c - ts env\<bar>"
  shows "let N' = node_step L fp stealth (NText c ip port raw failures) N
    in ns_store N' = ns_store N \<and> ns_seen N' = ns_seen N \<and> ns_certs N' = ns_certs N
     \<and> ns_get_limiter N' = ns_get_limiter N \<and> ns_conn_limiter N' = ns_conn_limiter N"
  using assms
  by (auto simp: handle_text_def count_failure_def POW_MAX_AGE_def Let_def split: sum.splits)

section \<open>Where the code differs from its comments\<close>

text \<open>
  The signature gate does not bind the certificate to the publisher: when the request carries a
  certificate that parses, the outcome does not depend on the claimed fingerprint, and any
  certificate whose own signature over the data verifies is accepted. The comment on
  \<open>verify_dht_put_signature\<close> promises that the key matches \<open>publisher_fp\<close>.
\<close>

theorem put_signature_not_bound_to_publisher:
  assumes "payload_str env ''publisher_cert'' = Some armored"
    and "cert_from_bytes P (as_bytes armored) = Some cert"
    and "decode_signature P sg = Some sig_text"
    and "verify_detached P sig_text data cert = Inr True"
  shows "fst (verify_dht_put_signature P t data sg publisher_fp env g)"
  using assms by (simp add: verify_dht_put_signature_def verify_signature_with_cert_def)

text \<open>
  An oversized time to live is clamped, never refused: a put with any \<open>ttl\<close> above 86400, even
  one above \<open>MAX_TTL\<close>, is handled exactly as the same put with \<open>ttl = 86400\<close>. The comment
  in \<open>handle_put\<close> says that values above \<open>MAX_TTL\<close> are rejected.
\<close>

theorem put_oversized_ttl_clamped:
  assumes "payload_i64 env ''ttl'' = Some t" and "86400 \<le> t" and "payload_i64 env' ''ttl'' = Some 86400"
    and "\<And>k. payload_str env' k = payload_str env k"
    and "\<And>k. k \<noteq> ''ttl'' \<Longrightarrow> payload_i64 env' k = payload_i64 env k"
    and "sig env' = sig env"
  shows "handle_put L fp c env N = handle_put L fp c env' N"
proof -
  have t: "min (opt_or STORE_TTL (payload_i64 env' ''ttl'')) STORE_TTL
      = min (opt_or STORE_TTL (payload_i64 env ''ttl'')) STORE_TTL"
    using assms(1-3) by (simp add: STORE_TTL_def)
  have v: "verify_dht_put_signature P t d s f env' g = verify_dht_put_signature P t d s f env g" for P t d s f g
    by (simp add: verify_dht_put_signature_def assms(4))
  have "payload_i64 env' ''seq'' = payload_i64 env ''seq''" "payload_i64 env' ''nonce'' = payload_i64 env ''nonce''"
    by (simp_all add: assms(5))
  then show ?thesis
    unfolding handle_put_def t v assms(4,6) by simp
qed

text \<open>
  Address records escape the bound on the time to live: \<open>handle_addr_record\<close> checks neither
  \<open>STORE_TTL\<close> nor \<open>MAX_TTL\<close>, so whatever \<open>ttl\<close> the publisher signs becomes the lifetime of the
  stored record.
\<close>

theorem addr_record_ttl_unbounded:
  assumes "handle_addr_record L fp c env N = (Envelope r, N')" and "msg_type r = ''dht-found''"
    and "payload_i64 env ''ttl'' = Some t"
  shows "map_option kv_expires_at (map_of (kv_store (ns_store N')) (opt_or [] (payload_str env ''null_id'')))
    = Some (c_now c + of_int t)"
proof (cases rule: handle_addr_cases [of L fp c env N])
  case (refused m certs)
  with assms(1,2) show ?thesis by (auto simp: reply_error_def)
next
  case (accepted certs)
  let ?k = "opt_or [] (payload_str env ''null_id'')"
  have acc: "fst (store_put (c_io c 0) (c_now c) ?k (opt_or [] (payload_str env ''address''))
      (''addr:'' @ show_nat (unat (c_rand c))) \<lfloor>c_now c\<rfloor> (opt_or [] (payload_str env ''publisher_fp''))
      (opt_or 7200 (payload_i64 env ''ttl'')) (sig env) (opt_or 0 (payload_i64 env ''nonce'')) (ns_store N)) = Inr True"
    using accepted(2) by (simp add: addr_event_def split: if_splits)
  have "ns_store N' = store_step (addr_event c env) (ns_store N)"
    using accepted(3) assms(1) by auto
  then show ?thesis
    using store_lookup_after_put [OF acc] assms(3) by (simp add: addr_event_def)
qed

section \<open>Witnesses\<close>

text \<open>A node with stand-in libraries, a signed put for the identity of \<open>hex32\<close> and a signed
  address record that is to live for thirty years.\<close>

definition demo_get :: WireEnvelope where
  "demo_get = \<lparr>msg_type = ''dht-get'', payload = JObj [(''key'', JStr ''NN-ABCD-EFGH'')],
     msg_id = ''m'', ts = 10, sig = []\<rparr>"

definition demo_lib :: "(string, unit) node_lib" where
  "demo_lib = \<lparr>nl_pgp = toy_pgp, nl_argon2 = toy_argon2, nl_from_json = (\<lambda>_. Inr demo_get)\<rparr>"

definition demo_node :: node_state where
  "demo_node = snd (node_new (\<lambda>_. replicate 32 0) NodeConfig_default init_tables)"

lemma demo_node_simps:
  "ns_store demo_node = init_tables" "ns_seen demo_node = []" "ns_certs demo_node = None"
  by (simp_all add: demo_node_def node_new_def)

definition demo_call :: "f64 \<Rightarrow> call" where
  "demo_call now = \<lparr>c_now = now, c_instant = 1, c_mid = ''id'', c_rand = 4, c_io = \<lambda>_. no_faults\<rparr>"

definition demo_put_env :: "int \<Rightarrow> WireEnvelope" where
  "demo_put_env t = \<lparr>msg_type = ''dht-put'',
     payload = JObj [(''key'', JStr ''NN-ABCD-EFGH''), (''value'', JStr ''v''), (''salt'', JStr ''s''),
       (''seq'', JInt 0), (''ttl'', JInt t), (''nonce'', JInt 3), (''publisher_fp'', JStr hex32),
       (''publisher_cert'', JStr hex32)],
     msg_id = ''m'', ts = 10, sig = hex32\<rparr>"

definition demo_addr_env :: WireEnvelope where
  "demo_addr_env = \<lparr>msg_type = ''dht-addr-record'',
     payload = JObj [(''null_id'', JStr ''NN-ABCD-EFGH''), (''address'', JStr ''host:1''),
       (''ttl'', JInt 1000000000), (''nonce'', JInt 3), (''publisher_fp'', JStr hex32),
       (''publisher_cert'', JStr hex32)],
     msg_id = ''m'', ts = 10, sig = hex32\<rparr>"

lemma toy_signature:
  "cert_from_bytes toy_pgp (as_bytes hex32) = Some hex32"
  "decode_signature toy_pgp hex32 = Some hex32"
  "verify_detached toy_pgp hex32 data hex32 = Inr True"
  by (code_simp, code_simp, simp add: toy_pgp_def verify_detached_def)

lemma demo_identity:
  "validate_null_id ''NN-ABCD-EFGH''" "validate_fingerprint hex32"
  "compute_null_id toy_pgp hex32 = ''NN-ABCD-EFGH''"
  by code_simp+

lemma toy_pow: "pow_check toy_argon2 data 3 12 sec = Inr True"
proof -
  have "show_nat (unat (3 :: u64)) = ''3''" by code_simp
  moreover have "leading_zero_bits (0 # replicate 31 7) = 13" by code_simp
  ultimately show ?thesis
    by (simp add: pow_check_def pow_attempt_def pow_params_def toy_argon2_def pow_input_def
        as_bytes_def MIN_POW_DIFFICULTY_def)
qed


theorem node_get_rate_witness:
  "length (filter (\<lambda>t. 30 - 60 \<le> t \<and> t \<le> 30)
    (grants_of ''ip'' (trace (node_step demo_lib [] False) (served_get demo_lib)
       [NText (demo_call 10) ''ip'' 1 ''raw'' 0, NText (demo_call 11) ''ip'' 1 ''raw'' 0]
       (snd (node_new (\<lambda>_. replicate 32 0) NodeConfig_default init_tables))))) \<le> 30"
  by (rule node_get_rate) (simp_all add: demo_lib_def demo_call_def demo_get_def)

theorem stale_message_inert_witness:
  "let N' = node_step demo_lib [] False (NText (demo_call 1000) ''ip'' 1 ''raw'' 0) demo_node
    in ns_store N' = ns_store demo_node \<and> ns_seen N' = ns_seen demo_node \<and> ns_certs N' = ns_certs demo_node
     \<and> ns_get_limiter N' = ns_get_limiter demo_node \<and> ns_conn_limiter N' = ns_conn_limiter demo_node"
  by (rule stale_message_inert) (simp add: demo_lib_def demo_call_def demo_get_def)

theorem put_signature_not_bound_to_publisher_witness:
  "cert_fingerprint toy_pgp hex32 \<noteq> replicate 32 CHR ''B''
   \<and> fst (verify_dht_put_signature toy_pgp 1 ''data'' hex32 (replicate 32 CHR ''B'') (demo_put_env 60) None)"
proof
  show "cert_fingerprint toy_pgp hex32 \<noteq> replicate 32 CHR ''B''" by (simp add: toy_pgp_def hex32_def)
  show "fst (verify_dht_put_signature toy_pgp 1 ''data'' hex32 (replicate 32 CHR ''B'') (demo_put_env 60) None)"
    by (intro put_signature_not_bound_to_publisher [of _ hex32 _ hex32])
       (simp add: demo_put_env_def payload_str_def, (rule toy_signature)+)
qed

theorem put_oversized_ttl_clamped_witness:
  "handle_put demo_lib [] (demo_call 10) (demo_put_env 1000000) demo_node
   = handle_put demo_lib [] (demo_call 10) (demo_put_env 86400) demo_node"
  by (rule put_oversized_ttl_clamped [of _ 1000000])
     (auto simp: demo_put_env_def payload_str_def payload_i64_def)

theorem addr_record_ttl_unbounded_witness:
  "map_option kv_expires_at (map_of (kv_store (ns_store
     (snd (handle_addr_record demo_lib [] (demo_call 10) demo_addr_env demo_node)))) ''NN-ABCD-EFGH'')
    = Some (10 + of_int 1000000000)"
proof -
  let ?r = "handle_addr_record demo_lib [] (demo_call 10) demo_addr_env demo_node"
  have "addr_guards demo_lib [] (demo_call 10) demo_addr_env demo_node"
    using toy_signature toy_pow demo_identity
    by (simp add: addr_guards_def verify_addr_signature_def verify_signature_with_cert_def demo_lib_def
        demo_addr_env_def payload_str_def payload_i64_def demo_call_def)
  moreover have "accepted_nonce (addr_event (demo_call 10) demo_addr_env) (ns_store demo_node) \<noteq> None"
    by (simp only: demo_node_simps) code_simp
  moreover have "show_nat (unat (c_rand (demo_call 10))) = ''4''" by code_simp
  ultimately have "fst ?r = reply_found (demo_call 10) ''NN-ABCD-EFGH'' ''host:1'' ''addr:4'' 10"
    by (cases rule: handle_addr_cases [of demo_lib "[]" "demo_call 10" demo_addr_env demo_node])
       (simp_all add: demo_addr_env_def demo_call_def payload_str_def)
  then have "?r = (Envelope (build_dht_found ''id'' 10 ''NN-ABCD-EFGH'' ''host:1'' ''addr:4'' 10), snd ?r)"
    by (intro prod_eqI) (simp_all add: reply_found_def demo_call_def)
  from addr_record_ttl_unbounded [OF this] show ?thesis
    by (simp add: demo_addr_env_def payload_str_def payload_i64_def demo_call_def)
qed

end
