(* ===== verification/Braid.thy ===== *)
theory Braid
  imports Wire
begin

text \<open>
  The braid protocol (\<open>protocol/src/braid.rs\<close>): an ML-KEM encapsulation key is cut into chunks of
  64 bytes, the chunks travel in any order, and the receiver collects them and rebuilds the key.
  SHA-512 is a parameter. A key has fewer than \<open>2 ^ 64\<close> bytes, so the \<open>usize\<close> arithmetic on
  positions (at most \<open>2 ^ 32 * 64\<close>) does not overflow.
\<close>

section \<open>Model\<close>

definition CHUNK_SIZE :: nat where "CHUNK_SIZE = 64"

record BraidChunk =
  bc_chunk_num :: u32
  bc_total_chunks :: u32
  bc_ek_hash :: bytes
  bc_seed :: bytes
  bc_payload :: bytes

record BraidHandshake =
  bh_total_chunks :: u32
  bh_received_chunks :: "BraidChunk list"
  bh_ek_hash :: bytes
  bh_complete :: bool

definition braid_new :: BraidHandshake where
  "braid_new = \<lparr>bh_total_chunks = 0, bh_received_chunks = [], bh_ek_hash = replicate 64 0,
                bh_complete = False\<rparr>"

datatype BraidError = ChunkNumOutOfRange u32 u32 | EkHashMismatch | DuplicateChunk

text \<open>\<open>add_chunk\<close> returns its verdict and the handshake it leaves behind; the early returns keep
  whatever was written before them. Its two writes come first: adopting the parameters of the
  first chunk, and appending a chunk with the completeness check.\<close>

definition braid_adopt :: "BraidHandshake \<Rightarrow> BraidChunk \<Rightarrow> BraidHandshake" where
  "braid_adopt h c =
     (if bh_total_chunks h = 0
      then h\<lparr>bh_total_chunks := bc_total_chunks c, bh_ek_hash := bc_ek_hash c\<rparr> else h)"

definition braid_push :: "BraidHandshake \<Rightarrow> BraidChunk \<Rightarrow> BraidHandshake" where
  "braid_push h c =
     (let h' = h\<lparr>bh_received_chunks := bh_received_chunks h @ [c]\<rparr>
      in if length (bh_received_chunks h') = unat (bh_total_chunks h')
         then h'\<lparr>bh_complete := True\<rparr> else h')"

definition add_chunk :: "BraidHandshake \<Rightarrow> BraidChunk \<Rightarrow> (BraidError + bool) \<times> BraidHandshake" where
  "add_chunk h c =
     (if bc_total_chunks c \<le> bc_chunk_num c
      then (Inl (ChunkNumOutOfRange (bc_chunk_num c) (bc_total_chunks c)), h)
      else
        let h1 = braid_adopt h c
        in if bh_ek_hash h1 \<noteq> bc_ek_hash c then (Inl EkHashMismatch, h1)
           else if list_ex (\<lambda>r. bc_chunk_num r = bc_chunk_num c) (bh_received_chunks h1)
           then (Inl DuplicateChunk, h1)
           else let h2 = braid_push h1 c in (Inr (bh_complete h2), h2))"

definition place_chunk :: "BraidChunk \<Rightarrow> bytes \<Rightarrow> bytes" where
  "place_chunk c key =
     (let start = unat (bc_chunk_num c) * CHUNK_SIZE;
          n = min (length (bc_payload c)) CHUNK_SIZE
      in if start + n \<le> length key then copy_at start (take n (bc_payload c)) key else key)"

definition reconstruct_enc_key :: "BraidHandshake \<Rightarrow> nat \<Rightarrow> bytes" where
  "reconstruct_enc_key h key_len =
     foldl (\<lambda>key c. place_chunk c key) (replicate key_len 0) (bh_received_chunks h)"

definition split_key_to_chunks :: "(bytes \<Rightarrow> bytes) \<Rightarrow> bytes \<Rightarrow> BraidChunk list" where
  "split_key_to_chunks sha512 key =
     (let total = div_ceil (length key) CHUNK_SIZE in
      map (\<lambda>(i, p). \<lparr>bc_chunk_num = of_nat i, bc_total_chunks = of_nat total,
                      bc_ek_hash = sha512 key, bc_seed = take 32 key, bc_payload = p\<rparr>)
          (enumerate 0 (chunks CHUNK_SIZE key)))"

definition json_bytes :: "bytes \<Rightarrow> json" where
  "json_bytes bs = JArr (map (\<lambda>b. JInt (uint b)) bs)"

definition build_braid_chunk_msg :: "string \<Rightarrow> f64 \<Rightarrow> BraidChunk \<Rightarrow> WireEnvelope" where
  "build_braid_chunk_msg mid now c =
     \<lparr>msg_type = MSG_P2P_BRAID_CHUNK,
      payload = JObj [(''chunk_num'', JInt (uint (bc_chunk_num c))),
                      (''total_chunks'', JInt (uint (bc_total_chunks c))),
                      (''ek_hash'', json_bytes (bc_ek_hash c)),
                      (''seed'', json_bytes (bc_seed c)),
                      (''payload'', json_bytes (bc_payload c))],
      msg_id = mid, ts = now, sig = []\<rparr>"

text \<open>Receiving a list of chunks: every call is \<open>unwrap\<close>ped, so the first error stops.\<close>

fun add_chunks :: "BraidHandshake \<Rightarrow> BraidChunk list \<Rightarrow> BraidError + BraidHandshake" where
  "add_chunks h [] = Inr h"
| "add_chunks h (c # cs) =
     (case add_chunk h c of (Inl e, _) \<Rightarrow> Inl e | (Inr _, h') \<Rightarrow> add_chunks h' cs)"

section \<open>The state machine's invariant\<close>

text \<open>Chunk numbers are distinct and below the total their chunk claims, all chunks carry the
  handshake's hash, nothing is received before
  the total is known, and the total is positive once it is known.\<close>

definition braid_inv :: "BraidHandshake \<Rightarrow> bool" where
  "braid_inv h \<longleftrightarrow>
     distinct (map bc_chunk_num (bh_received_chunks h))
     \<and> (\<forall>c \<in> set (bh_received_chunks h). bc_ek_hash c = bh_ek_hash h \<and> bc_chunk_num c < bc_total_chunks c)
     \<and> (bh_total_chunks h = 0 \<longrightarrow> bh_received_chunks h = [] \<and> \<not> bh_complete h)
     \<and> (bh_complete h \<longrightarrow> unat (bh_total_chunks h) \<le> length (bh_received_chunks h))"

lemma braid_inv_new [invs]: "braid_inv braid_new"
  by (simp add: braid_inv_def braid_new_def)

lemma braid_adopt_inv [invs]:
  "braid_inv h \<Longrightarrow> bc_chunk_num c < bc_total_chunks c \<Longrightarrow>
     braid_inv (braid_adopt h c) \<and> bh_total_chunks (braid_adopt h c) \<noteq> 0"
  by (auto simp: braid_inv_def braid_adopt_def word_gt_0 dest: order.strict_trans1)

lemma braid_push_inv [invs]:
  assumes "braid_inv h" and "bh_total_chunks h \<noteq> 0" and "bh_ek_hash h = bc_ek_hash c"
    and "\<not> list_ex (\<lambda>r. bc_chunk_num r = bc_chunk_num c) (bh_received_chunks h)"
    and "bc_chunk_num c < bc_total_chunks c"
  shows "braid_inv (braid_push h c)"
proof -
  have "bc_chunk_num c \<notin> bc_chunk_num ` set (bh_received_chunks h)"
    using assms(4) by (auto simp: list_ex_iff)
  with assms(1-3,5) show ?thesis
    by (auto simp: braid_inv_def braid_push_def Let_def)
qed

lemma braid_inv_add_chunk [invs]:
  assumes "braid_inv h"
  shows "braid_inv (snd (add_chunk h c))"
proof (cases "bc_chunk_num c < bc_total_chunks c")
  case True
  with assms have "braid_inv (braid_adopt h c)" "bh_total_chunks (braid_adopt h c) \<noteq> 0"
    by (simp_all add: invs)
  with True show ?thesis
    by (simp add: add_chunk_def Let_def braid_push_inv not_le [symmetric])
next
  case False
  with assms show ?thesis by (simp add: add_chunk_def not_less)
qed

section \<open>Any order of chunks rebuilds the key\<close>

lemma add_chunk_accept:
  assumes "bc_chunk_num c < T" "bc_total_chunks c = T" "bc_ek_hash c = H"
    and "bh_total_chunks h = 0 \<or> bh_total_chunks h = T \<and> bh_ek_hash h = H"
    and "bc_chunk_num c \<notin> set (map bc_chunk_num (bh_received_chunks h))"
  obtains h' where "add_chunk h c = (Inr (bh_complete h'), h')"
    and "bh_received_chunks h' = bh_received_chunks h @ [c]"
    and "bh_total_chunks h' = T" and "bh_ek_hash h' = H"
    and "length (bh_received_chunks h') = unat T \<Longrightarrow> bh_complete h'"
proof
  show "add_chunk h c = (Inr (bh_complete (braid_push (braid_adopt h c) c)), braid_push (braid_adopt h c) c)"
    using assms
    by (auto simp: add_chunk_def Let_def not_le [symmetric] braid_adopt_def list_ex_iff image_iff)
qed (use assms in \<open>auto simp: braid_push_def braid_adopt_def Let_def\<close>)

lemma add_chunks_accept:
  assumes "\<forall>c \<in> set cs. bc_chunk_num c < T \<and> bc_total_chunks c = T \<and> bc_ek_hash c = H"
    and "distinct (map bc_chunk_num (bh_received_chunks h @ cs))"
    and "bh_total_chunks h = 0 \<or> bh_total_chunks h = T \<and> bh_ek_hash h = H"
  shows "\<exists>h'. add_chunks h cs = Inr h' \<and> bh_received_chunks h' = bh_received_chunks h @ cs
    \<and> (cs \<noteq> [] \<longrightarrow> length (bh_received_chunks h') = unat T \<longrightarrow> bh_complete h')"
  using assms
proof (induction cs arbitrary: h)
  case Nil
  then show ?case by simp
next
  case (Cons c cs)
  then have acc: "bc_chunk_num c < T" "bc_total_chunks c = T" "bc_ek_hash c = H"
      "bc_chunk_num c \<notin> set (map bc_chunk_num (bh_received_chunks h))" by auto
  obtain h1 where h1: "add_chunk h c = (Inr (bh_complete h1), h1)"
      "bh_received_chunks h1 = bh_received_chunks h @ [c]" "bh_total_chunks h1 = T" "bh_ek_hash h1 = H"
      "length (bh_received_chunks h1) = unat T \<Longrightarrow> bh_complete h1"
    using add_chunk_accept [OF acc(1-3) Cons.prems(3) acc(4)] by blast
  show ?case
  proof (cases "cs = []")
    case True
    with h1 show ?thesis by auto
  next
    case False
    have "\<exists>h'. add_chunks h1 cs = Inr h' \<and> bh_received_chunks h' = bh_received_chunks h1 @ cs
        \<and> (cs \<noteq> [] \<longrightarrow> length (bh_received_chunks h') = unat T \<longrightarrow> bh_complete h')"
      using Cons.prems h1 by (intro Cons.IH) auto
    with h1 False show ?thesis by auto
  qed
qed

lemma num_chunks_bound:
  assumes "length key \<le> 64 * (2 ^ 32 - 1)"
  shows "length (chunks CHUNK_SIZE key) < 2 ^ 32"
proof -
  have "length (chunks CHUNK_SIZE key) = (length key + 63) div 64"
    by (simp add: length_chunks div_ceil_def CHUNK_SIZE_def)
  also have "\<dots> < 2 ^ 32"
    using assms by (simp add: less_mult_imp_div_less)
  finally show ?thesis .
qed

lemma split_key_conv:
  "split_key_to_chunks sha512 key =
     map (\<lambda>i. \<lparr>bc_chunk_num = of_nat i, bc_total_chunks = of_nat (length (chunks CHUNK_SIZE key)),
               bc_ek_hash = sha512 key, bc_seed = take 32 key,
               bc_payload = take CHUNK_SIZE (drop (CHUNK_SIZE * i) key)\<rparr>)
         [0..<length (chunks CHUNK_SIZE key)]"
  by (rule nth_equalityI)
     (simp_all add: split_key_to_chunks_def Let_def nth_enumerate_eq chunks_nth length_chunks
       CHUNK_SIZE_def)

lemma split_key_nums_distinct:
  assumes "length key \<le> 64 * (2 ^ 32 - 1)"
  shows "distinct (map bc_chunk_num (split_key_to_chunks sha512 key))"
proof -
  have "inj_on (of_nat :: nat \<Rightarrow> u32) {0..<length (chunks CHUNK_SIZE key)}"
    using num_chunks_bound [OF assms] by (intro inj_onI) (simp add: word_of_nat_eq_iff take_bit_nat_eq_self)
  then show ?thesis
    by (simp add: split_key_conv o_def distinct_map)
qed

lemma length_place_chunk [simp]: "length (place_chunk c acc) = length acc"
  by (simp add: place_chunk_def Let_def)

text \<open>One chunk fills its own 64 positions with the key's bytes and touches no other position.\<close>

lemma place_chunk_nth:
  assumes "c \<in> set (split_key_to_chunks sha512 key)" and "length acc = length key"
    and "length key \<le> 64 * (2 ^ 32 - 1)" and "j < length key"
  shows "place_chunk c acc ! j =
           (if of_nat (j div 64) = bc_chunk_num c then key ! j else acc ! j)"
proof -
  let ?n = "length (chunks CHUNK_SIZE key)"
  have n: "?n < 2 ^ 32" and len: "?n = div_ceil (length key) 64"
    using num_chunks_bound [OF assms(3)] by (simp_all add: length_chunks CHUNK_SIZE_def)
  obtain i where i: "i < ?n" "bc_chunk_num c = of_nat i"
      "bc_payload c = take 64 (drop (64 * i) key)"
    using assms(1) by (auto simp: split_key_conv CHUNK_SIZE_def)
  have ui: "unat (bc_chunk_num c) = i"
    using i n by (simp add: unat_of_nat)
  have i64: "64 * i < length key"
  proof -
    have "i < (length key + 63) div 64" using i(1) len by (simp add: div_ceil_def)
    then show ?thesis by linarith
  qed
  have jn: "j div 64 < 2 ^ 32"
    using assms(3,4) by (simp add: less_mult_imp_div_less)
  have same: "of_nat (j div 64) = bc_chunk_num c \<longleftrightarrow> j div 64 = i"
    using i(1,2) n jn by (simp add: word_of_nat_eq_iff take_bit_nat_eq_self)
  have "j div 64 = i \<longleftrightarrow> 64 * i \<le> j \<and> j < 64 * i + 64" by auto
  then show ?thesis
    using assms(2,4) i64 i(3) ui same
    by (auto simp: place_chunk_def Let_def CHUNK_SIZE_def mult.commute nth_copy_at min_def)
qed

lemma fold_place_chunks:
  assumes "set cs \<subseteq> set (split_key_to_chunks sha512 key)" and "length acc = length key"
    and "length key \<le> 64 * (2 ^ 32 - 1)"
  shows "length (foldl (\<lambda>k c. place_chunk c k) acc cs) = length key
    \<and> (\<forall>j < length key. foldl (\<lambda>k c. place_chunk c k) acc cs ! j =
         (if of_nat (j div 64) \<in> bc_chunk_num ` set cs then key ! j else acc ! j))"
  using assms
proof (induction cs arbitrary: acc)
  case Nil
  then show ?case by simp
next
  case (Cons c cs)
  have pl: "place_chunk c acc ! j = (if of_nat (j div 64) = bc_chunk_num c then key ! j else acc ! j)"
    if "j < length key" for j
    using place_chunk_nth [of c sha512 key acc j] Cons.prems that by auto
  with Cons.IH [of "place_chunk c acc"] Cons.prems pl show ?case by auto
qed

lemma split_key_nums_cover:
  "j < length key \<Longrightarrow>
     (of_nat (j div 64) :: u32) \<in> bc_chunk_num ` set (split_key_to_chunks sha512 key)"
proof -
  assume j: "j < length key"
  have "j div 64 < length (chunks CHUNK_SIZE key)"
    using j by (simp add: length_chunks CHUNK_SIZE_def div_ceil_def)
  then show ?thesis by (force simp: split_key_conv)
qed

text \<open>
  C23. Round trip in any order: however the chunks of a key are permuted on the way, the receiver
  accepts every one of them, ends complete, and rebuilds exactly the key. The key must not be
  empty and its chunks must be countable in 32 bits.
\<close>

theorem braid_roundtrip_any_order:
  assumes "key \<noteq> []" and "length key \<le> 64 * (2 ^ 32 - 1)"
    and "mset cs = mset (split_key_to_chunks sha512 key)"
  shows "\<exists>h. add_chunks braid_new cs = Inr h \<and> bh_complete h
    \<and> reconstruct_enc_key h (length key) = key"
proof -
  let ?n = "length (chunks CHUNK_SIZE key)" and ?S = "split_key_to_chunks sha512 key"
  have n: "?n < 2 ^ 32" by (rule num_chunks_bound [OF assms(2)])
  have eq: "set cs = set ?S" "length cs = ?n"
    using mset_eq_setD [OF assms(3)] mset_eq_length [OF assms(3)] by (simp_all add: split_key_conv)
  have "mset (map bc_chunk_num cs) = mset (map bc_chunk_num ?S)"
    using assms(3) by simp
  then have dist: "distinct (map bc_chunk_num cs)"
    using split_key_nums_distinct [OF assms(2)] mset_eq_imp_distinct_iff by blast
  have ok: "\<forall>c \<in> set cs. bc_chunk_num c < of_nat ?n \<and> bc_total_chunks c = of_nat ?n
      \<and> bc_ek_hash c = sha512 key"
    using n unfolding eq(1)
    by (auto simp: split_key_conv word_less_nat_alt unat_of_nat)
  obtain h where h: "add_chunks braid_new cs = Inr h" "bh_received_chunks h = cs"
      "cs \<noteq> [] \<longrightarrow> length cs = unat (of_nat ?n :: u32) \<longrightarrow> bh_complete h"
    using add_chunks_accept [OF ok, of braid_new] dist by (auto simp: braid_new_def)
  have "chunks CHUNK_SIZE key \<noteq> []"
    using assms(1) by (simp add: chunks_unfold CHUNK_SIZE_def)
  then have "cs \<noteq> []" using eq(2) by auto
  with h eq(2) n have "bh_complete h" by (simp add: unat_of_nat)
  moreover have "reconstruct_enc_key h (length key) = key"
    using fold_place_chunks [of cs sha512 key "replicate (length key) 0"] eq(1) assms(2) h(2)
      split_key_nums_cover [of _ key sha512]
    by (intro nth_equalityI) (simp_all add: reconstruct_enc_key_def)
  ultimately show ?thesis using h(1) by blast
qed

theorem braid_roundtrip_any_order_witness:
  "\<exists>h. add_chunks braid_new (rev (split_key_to_chunks (\<lambda>_. [1, 2]) (replicate 70 7))) = Inr h
    \<and> bh_complete h \<and> reconstruct_enc_key h (length (replicate 70 (7 :: u8))) = replicate 70 7"
  using braid_roundtrip_any_order
    [of "replicate 70 7" "rev (split_key_to_chunks (\<lambda>_. [1, 2]) (replicate 70 7))" "\<lambda>_. [1, 2]"]
  by simp

section \<open>Completeness\<close>

text \<open>The states a handshake can be in: any sequence of chunks, accepted or refused.\<close>

inductive braid_reachable :: "BraidHandshake \<Rightarrow> bool" where
  new: "braid_reachable braid_new"
| chunk: "braid_reachable h \<Longrightarrow> braid_reachable (snd (add_chunk h c))"

lemma braid_reachable_inv: "braid_reachable h \<Longrightarrow> braid_inv h"
  by (induction rule: braid_reachable.induct) (simp_all add: invs)

lemma card_u32_below: "card {i :: u32. i < t} = unat t"
proof -
  have "unat ` {i :: u32. i < t} = {..<unat t}"
  proof (intro equalityI subsetI)
    fix n assume "n \<in> {..<unat t}"
    then have "n < unat t" by simp
    moreover have "unat t < 2 ^ 32"
      using unsigned_less [of t, where ?'a = nat] by simp
    ultimately have "unat (of_nat n :: u32) = n" by (simp add: unat_of_nat)
    with \<open>n < unat t\<close> show "n \<in> unat ` {i :: u32. i < t}"
      by (intro image_eqI [of _ _ "of_nat n"]) (simp_all add: word_less_nat_alt)
  qed (auto simp: word_less_nat_alt)
  moreover have "inj_on unat {i :: u32. i < t}"
    by (rule inj_onI) (simp add: word_unat_eq_iff)
  ultimately show ?thesis
    by (metis card_image card_lessThan)
qed

text \<open>
  No chunk is missing: in every state the receiver can reach, if it reports completion and the
  chunks it holds agree with it on the number of chunks, then it holds every chunk number
  below that number and no other.
\<close>

theorem braid_complete_all_present:
  assumes "braid_reachable h" and "bh_complete h"
    and "\<forall>c \<in> set (bh_received_chunks h). bc_total_chunks c = bh_total_chunks h"
  shows "bc_chunk_num ` set (bh_received_chunks h) = {i. i < bh_total_chunks h}"
proof -
  have inv: "braid_inv h" by (rule braid_reachable_inv [OF assms(1)])
  let ?N = "bc_chunk_num ` set (bh_received_chunks h)"
  have sub: "?N \<subseteq> {i. i < bh_total_chunks h}"
    using inv assms(3) by (auto simp: braid_inv_def)
  have "card ?N = length (bh_received_chunks h)"
    using inv by (metis braid_inv_def distinct_card length_map set_map)
  moreover have "unat (bh_total_chunks h) \<le> length (bh_received_chunks h)"
    using inv assms(2) by (simp add: braid_inv_def)
  ultimately have "card {i. i < bh_total_chunks h} \<le> card ?N"
    by (simp add: card_u32_below)
  with sub show ?thesis by (intro card_seteq) simp_all
qed

text \<open>A one-chunk handshake for the witness.\<close>

definition demo_chunk :: "u32 \<Rightarrow> u32 \<Rightarrow> BraidChunk" where
  "demo_chunk i t = \<lparr>bc_chunk_num = i, bc_total_chunks = t, bc_ek_hash = [9], bc_seed = [],
                     bc_payload = [5]\<rparr>"

theorem braid_complete_all_present_witness:
  "braid_reachable (snd (add_chunk braid_new (demo_chunk 0 1)))
   \<and> bc_chunk_num ` set (bh_received_chunks (snd (add_chunk braid_new (demo_chunk 0 1))))
       = {i. i < bh_total_chunks (snd (add_chunk braid_new (demo_chunk 0 1)))}"
proof -
  have r: "braid_reachable (snd (add_chunk braid_new (demo_chunk 0 1)))"
    by (intro braid_reachable.intros)
  show ?thesis
    using r braid_complete_all_present [OF r]
    by (simp add: add_chunk_def braid_adopt_def braid_push_def braid_new_def demo_chunk_def Let_def)
qed

text \<open>
  The agreement on the number of chunks is not checked by the code: after a first chunk that
  announces two chunks, a chunk numbered 5 of an announced nine with the same hash is accepted,
  the handshake reports completion, and chunk 1 was never received.
\<close>

theorem braid_mixed_totals_complete:
  "\<exists>h. add_chunks braid_new [demo_chunk 0 2, demo_chunk 5 9] = Inr h
    \<and> bh_complete h \<and> bh_total_chunks h = 2 \<and> 1 \<notin> bc_chunk_num ` set (bh_received_chunks h)"
  by (simp add: add_chunk_def braid_adopt_def braid_push_def braid_new_def demo_chunk_def Let_def)

end
