(* ===== verification/Kem.thy ===== *)
theory Kem
  imports Wire
begin

text \<open>
  ML-KEM key pairs and their files (\<open>crypto/src/kyber.rs\<close>). The primitives (ML-KEM, HKDF, AES-GCM,
  SHA-512, base64, hex) and serde's printer and parser are parameters in the record
  \<open>crypto_lib\<close>. An encapsulation key is its encoding, a decapsulation key is its 64-byte seed;
  random bytes are arguments. A file system is a map from paths to contents, and a write or a
  read may fail. A slice conversion that panics in the code is the error \<open>Panic\<close>.
\<close>

datatype CryptoError =
    InvalidFingerprint string
  | EncryptFailed string
  | DecryptFailed string
  | Serialization string
  | Ratchet string
  | KeyPersistence string
  | Pir string
  | Panic string

record crypto_lib =
  hkdf_expand :: "bytes \<Rightarrow> bytes \<Rightarrow> nat \<Rightarrow> bytes option"
  aes_encrypt :: "bytes \<Rightarrow> bytes \<Rightarrow> bytes \<Rightarrow> bytes option"
  aes_decrypt :: "bytes \<Rightarrow> bytes \<Rightarrow> bytes \<Rightarrow> bytes option"
  kem_encapsulate :: "bytes \<Rightarrow> bytes \<Rightarrow> bytes \<times> bytes"
  kem_decapsulate :: "bytes \<Rightarrow> bytes \<Rightarrow> bytes"
  kem_public :: "bytes \<Rightarrow> bytes"
  ek_valid :: "bytes \<Rightarrow> bool"
  sha512 :: "bytes \<Rightarrow> bytes"
  b64enc :: "bytes \<Rightarrow> string"
  b64dec :: "string \<Rightarrow> bytes option"
  hex_encode :: "bytes \<Rightarrow> string"
  hex_decode :: "string \<Rightarrow> bytes option"
  json_print :: "json \<Rightarrow> string"
  json_parse :: "string \<Rightarrow> json option"

text \<open>What the libraries document, for inputs of the sizes that the code uses: HKDF-SHA256 expands
  to any length up to \<open>255 * 32\<close>; AES-256-GCM with a 32-byte key and a 12-byte nonce encrypts
  every message below \<open>2 ^ 36 - 31\<close> bytes, appends a 16-byte tag, and decrypts what it
  encrypted; a decapsulation recovers the encapsulated 32-byte secret from the 1568-byte
  ciphertext; the public key of a seed is a valid encapsulation key of 1568 bytes; the text
  encodings are inverted by their decoders; the JSON text of an object of strings and numbers
  parses to an object with the same strings at the same keys and no other keys.\<close>

fun json_scalar :: "json \<Rightarrow> bool" where
  "json_scalar (JStr s) \<longleftrightarrow> True"
| "json_scalar (JInt i) \<longleftrightarrow> True"
| "json_scalar _ \<longleftrightarrow> False"

definition crypto_laws :: "crypto_lib \<Rightarrow> bool" where
  "crypto_laws L \<longleftrightarrow>
     (\<forall>ikm info n. n \<le> 255 * 32 \<longrightarrow> (\<exists>okm. hkdf_expand L ikm info n = Some okm \<and> length okm = n))
     \<and> (\<forall>k n m. length k = 32 \<longrightarrow> length n = 12 \<longrightarrow> length m < 2 ^ 36 - 31 \<longrightarrow>
          (\<exists>c. aes_encrypt L k n m = Some c \<and> length c = length m + 16 \<and> aes_decrypt L k n c = Some m))
     \<and> (\<forall>r seed. length seed = 64 \<longrightarrow>
          (let (ct, ss) = kem_encapsulate L r (kem_public L seed)
           in length ct = 1568 \<and> length ss = 32 \<and> kem_decapsulate L seed ct = ss)
          \<and> ek_valid L (kem_public L seed) \<and> length (kem_public L seed) = 1568)
     \<and> (\<forall>b. b64dec L (b64enc L b) = Some b) \<and> (\<forall>b. hex_decode L (hex_encode L b) = Some b)
     \<and> (\<forall>kvs. distinct (map fst kvs) \<longrightarrow> list_all (json_scalar \<circ> snd) kvs \<longrightarrow>
          (\<exists>j. json_parse L (json_print L (JObj kvs)) = Some j
             \<and> (\<forall>k s. map_of kvs k = Some (JStr s) \<longrightarrow> json_get j k = Some (JStr s))
             \<and> (\<forall>k. map_of kvs k = None \<longrightarrow> json_get j k = None)))"

section \<open>Key pairs\<close>

record MlKem1024Keypair =
  kp_enc :: bytes
  kp_dec :: bytes

definition extract_braid_seed :: "bytes \<Rightarrow> CryptoError + bytes" where
  "extract_braid_seed enc_key_bytes =
     (if length enc_key_bytes < 32 then Inl (Panic ''slice index'') else Inr (take 32 enc_key_bytes))"

definition ek_hash :: "crypto_lib \<Rightarrow> bytes \<Rightarrow> bytes" where
  "ek_hash L enc_key_bytes = take 64 (sha512 L enc_key_bytes)"

definition encode_enc_key :: "crypto_lib \<Rightarrow> bytes \<Rightarrow> string" where
  "encode_enc_key L key = b64enc L key"

definition decode_enc_key :: "crypto_lib \<Rightarrow> string \<Rightarrow> CryptoError + bytes" where
  "decode_enc_key L b64 =
     bind_result (ok_or (KeyPersistence ''base64 decode'') (b64dec L b64)) (\<lambda>bs.
       if ek_valid L bs then Inr bs else Inl (KeyPersistence ''invalid enc key bytes''))"

text \<open>\<open>generate\<close> draws a seed; \<open>from_seed\<close> uses the given one.\<close>

definition from_seed :: "crypto_lib \<Rightarrow> bytes \<Rightarrow> CryptoError + MlKem1024Keypair" where
  "from_seed L seed =
     (if length seed \<noteq> 64 then Inl (Serialization ''invalid seed length'')
      else Inr \<lparr>kp_enc = kem_public L seed, kp_dec = seed\<rparr>)"

definition generate :: "crypto_lib \<Rightarrow> bytes \<Rightarrow> CryptoError + MlKem1024Keypair" where
  "generate L rnd = Inr \<lparr>kp_enc = kem_public L rnd, kp_dec = rnd\<rparr>"

definition encapsulate :: "crypto_lib \<Rightarrow> bytes \<Rightarrow> bytes \<Rightarrow> CryptoError + bytes \<times> bytes" where
  "encapsulate L rnd enc_key = Inr (kem_encapsulate L rnd enc_key)"

definition decapsulate :: "crypto_lib \<Rightarrow> MlKem1024Keypair \<Rightarrow> bytes \<Rightarrow> CryptoError + bytes" where
  "decapsulate L kp ciphertext = Inr (kem_decapsulate L (kp_dec kp) ciphertext)"

section \<open>Key files\<close>

type_synonym file_system = "string \<rightharpoonup> string"

definition write_file :: "bool \<Rightarrow> string \<Rightarrow> string \<Rightarrow> file_system \<Rightarrow> (CryptoError + unit) \<times> file_system" where
  "write_file ok path content fs =
     (if ok then (Inr (), fs(path \<mapsto> content)) else (Inl (KeyPersistence ''write failed''), fs))"

text \<open>The AES key that protects the secret key at rest.\<close>

definition file_key :: "crypto_lib \<Rightarrow> bytes \<Rightarrow> CryptoError + bytes" where
  "file_key L encryption_key =
     ok_or (KeyPersistence ''HKDF expand failed'')
       (hkdf_expand L encryption_key (as_bytes ''nullnode-kyber-key-enc-v1'') 32)"

definition save :: "crypto_lib \<Rightarrow> bool \<Rightarrow> bytes \<Rightarrow> MlKem1024Keypair \<Rightarrow> string \<Rightarrow> bytes \<Rightarrow> file_system
    \<Rightarrow> (CryptoError + unit) \<times> file_system" where
  "save L ok nonce kp path encryption_key fs =
     (case bind_result (file_key L encryption_key) (\<lambda>aes_key.
             ok_or (KeyPersistence ''AES-GCM encrypt'') (aes_encrypt L aes_key nonce (kp_dec kp))) of
        Inl e \<Rightarrow> (Inl e, fs)
      | Inr ciphertext \<Rightarrow>
          write_file ok path
            (json_print L (JObj [(''enc'', JStr (hex_encode L (kp_enc kp))),
                                 (''nonce'', JStr (hex_encode L nonce)),
                                 (''dec_encrypted'', JStr (hex_encode L ciphertext))])) fs)"

definition json_field :: "json \<Rightarrow> string \<Rightarrow> CryptoError + string" where
  "json_field data name =
     ok_or (KeyPersistence (''missing '' @ name @ '' field'')) (Option.bind (json_get data name) as_str)"

definition hex_field :: "crypto_lib \<Rightarrow> string \<Rightarrow> string \<Rightarrow> CryptoError + bytes" where
  "hex_field L name text = ok_or (KeyPersistence (name @ '' hex decode'')) (hex_decode L text)"

text \<open>Both loaders end with the same reconstruction from the two byte strings.\<close>

definition rebuild_keypair :: "crypto_lib \<Rightarrow> bytes \<Rightarrow> bytes \<Rightarrow> CryptoError + MlKem1024Keypair" where
  "rebuild_keypair L enc_bytes dec_bytes =
     (if \<not> ek_valid L enc_bytes then Inl (KeyPersistence ''invalid enc key bytes'')
      else if length dec_bytes \<noteq> 64 then Inl (KeyPersistence ''invalid seed length'')
      else Inr \<lparr>kp_enc = enc_bytes, kp_dec = dec_bytes\<rparr>)"

definition load :: "crypto_lib \<Rightarrow> string \<Rightarrow> bytes \<Rightarrow> file_system \<Rightarrow> CryptoError + MlKem1024Keypair" where
  "load L path encryption_key fs =
     bind_result (ok_or (KeyPersistence ''read failed'') (fs path)) (\<lambda>content.
     bind_result (ok_or (KeyPersistence ''parse failed'') (json_parse L content)) (\<lambda>data.
     bind_result (json_field data ''enc'') (\<lambda>enc_hex.
     bind_result (json_field data ''nonce'') (\<lambda>nonce_hex.
     bind_result (json_field data ''dec_encrypted'') (\<lambda>dec_encrypted_hex.
     bind_result (hex_field L ''enc'' enc_hex) (\<lambda>enc_bytes.
     bind_result (hex_field L ''nonce'' nonce_hex) (\<lambda>nonce_bytes.
     bind_result (hex_field L ''dec_encrypted'' dec_encrypted_hex) (\<lambda>dec_ciphertext.
     bind_result (file_key L encryption_key) (\<lambda>aes_key.
       if length nonce_bytes \<noteq> 12 then Inl (Panic ''nonce length'')
       else
         bind_result (ok_or (KeyPersistence ''AES-GCM decrypt'')
                       (aes_decrypt L aes_key nonce_bytes dec_ciphertext))
           (\<lambda>dec_bytes. rebuild_keypair L enc_bytes dec_bytes))))))))))"

definition load_or_generate :: "crypto_lib \<Rightarrow> bool \<Rightarrow> bytes \<Rightarrow> bytes \<Rightarrow> string \<Rightarrow> bytes \<Rightarrow> file_system
    \<Rightarrow> (CryptoError + MlKem1024Keypair) \<times> file_system" where
  "load_or_generate L ok rnd nonce path encryption_key fs =
     (if fs path \<noteq> None then (load L path encryption_key fs, fs)
      else case generate L rnd of
        Inl e \<Rightarrow> (Inl e, fs)
      | Inr kp \<Rightarrow>
          (case save L ok nonce kp path encryption_key fs of
             (Inl e, fs') \<Rightarrow> (Inl e, fs')
           | (Inr _, fs') \<Rightarrow> (Inr kp, fs')))"

definition save_unencrypted :: "crypto_lib \<Rightarrow> bool \<Rightarrow> string \<Rightarrow> MlKem1024Keypair \<Rightarrow> file_system
    \<Rightarrow> (CryptoError + unit) \<times> file_system" where
  "save_unencrypted L ok path kp fs =
     write_file ok path
       (json_print L (JObj [(''enc'', JStr (hex_encode L (kp_enc kp))),
                            (''dec'', JStr (hex_encode L (kp_dec kp)))])) fs"

definition load_unencrypted :: "crypto_lib \<Rightarrow> string \<Rightarrow> file_system \<Rightarrow> CryptoError + MlKem1024Keypair" where
  "load_unencrypted L path fs =
     bind_result (ok_or (KeyPersistence ''read failed'') (fs path)) (\<lambda>content.
     bind_result (ok_or (KeyPersistence ''parse failed'') (json_parse L content)) (\<lambda>data.
     bind_result (json_field data ''enc'') (\<lambda>enc_hex.
     bind_result (json_field data ''dec'') (\<lambda>dec_hex.
     bind_result (hex_field L ''enc'' enc_hex) (\<lambda>enc_bytes.
     bind_result (hex_field L ''dec'' dec_hex) (\<lambda>dec_bytes.
       rebuild_keypair L enc_bytes dec_bytes))))))"

definition load_or_generate_unencrypted :: "crypto_lib \<Rightarrow> bool \<Rightarrow> bytes \<Rightarrow> string \<Rightarrow> file_system
    \<Rightarrow> (CryptoError + MlKem1024Keypair) \<times> file_system" where
  "load_or_generate_unencrypted L ok rnd path fs =
     (if fs path \<noteq> None then (load_unencrypted L path fs, fs)
      else case generate L rnd of
        Inl e \<Rightarrow> (Inl e, fs)
      | Inr kp \<Rightarrow>
          (case save_unencrypted L ok path kp fs of
             (Inl e, fs') \<Rightarrow> (Inl e, fs')
           | (Inr _, fs') \<Rightarrow> (Inr kp, fs')))"

section \<open>Variants\<close>

datatype MlKemVariant = MlKem768 | MlKem1024

fun enc_key_size :: "MlKemVariant \<Rightarrow> nat" where
  "enc_key_size MlKem768 = 1184"
| "enc_key_size MlKem1024 = 1568"

fun ciphertext_size :: "MlKemVariant \<Rightarrow> nat" where
  "ciphertext_size MlKem768 = 1088"
| "ciphertext_size MlKem1024 = 1568"

definition min_ciphertext_len :: "MlKemVariant \<Rightarrow> nat" where
  "min_ciphertext_len v = enc_key_size v + ciphertext_size v + 12 + 16"

record VariantKeypair =
  vk_variant :: MlKemVariant
  vk_enc_bytes :: bytes
  vk_dec_bytes :: bytes

text \<open>The 768 variant has its own key generation, the second parameter.\<close>

definition variant_generate :: "crypto_lib \<Rightarrow> (bytes \<Rightarrow> bytes) \<Rightarrow> bytes \<Rightarrow> MlKemVariant \<Rightarrow> CryptoError + VariantKeypair" where
  "variant_generate L public768 rnd v =
     (case v of
        MlKem1024 \<Rightarrow> bind_result (generate L rnd) (\<lambda>kp.
          Inr \<lparr>vk_variant = v, vk_enc_bytes = kp_enc kp, vk_dec_bytes = kp_dec kp\<rparr>)
      | MlKem768 \<Rightarrow> Inr \<lparr>vk_variant = v, vk_enc_bytes = public768 rnd, vk_dec_bytes = rnd\<rparr>)"

definition as_1024 :: "crypto_lib \<Rightarrow> VariantKeypair \<Rightarrow> CryptoError + MlKem1024Keypair" where
  "as_1024 L vk =
     (if vk_variant vk \<noteq> MlKem1024 then Inl (KeyPersistence ''keypair is not ML-KEM-1024'')
      else if \<not> ek_valid L (vk_enc_bytes vk) then Inl (KeyPersistence ''invalid enc key'')
      else if length (vk_dec_bytes vk) \<noteq> 64 then Inl (KeyPersistence ''invalid dec key'')
      else Inr \<lparr>kp_enc = vk_enc_bytes vk, kp_dec = vk_dec_bytes vk\<rparr>)"

section \<open>Properties\<close>

lemma crypto_laws_hkdf:
  assumes "crypto_laws L" and "n \<le> 255 * 32"
  obtains okm where "hkdf_expand L ikm info n = Some okm" and "length okm = n"
  using assms unfolding crypto_laws_def by blast

lemma crypto_laws_aes:
  assumes "crypto_laws L" and "length k = 32" and "length n = 12" and "length m < 2 ^ 36 - 31"
  obtains c where "aes_encrypt L k n m = Some c" and "length c = length m + 16" and "aes_decrypt L k n c = Some m"
  using assms unfolding crypto_laws_def by blast

lemma crypto_laws_kem:
  assumes "crypto_laws L" and "length seed = 64"
  obtains ct ss where "kem_encapsulate L r (kem_public L seed) = (ct, ss)" and "length ct = 1568"
    and "length ss = 32" and "kem_decapsulate L seed ct = ss"
proof -
  have "let (ct, ss) = kem_encapsulate L r (kem_public L seed)
        in length ct = 1568 \<and> length ss = 32 \<and> kem_decapsulate L seed ct = ss"
    using assms unfolding crypto_laws_def by blast
  then show thesis
    by (cases "kem_encapsulate L r (kem_public L seed)") (auto intro: that)
qed

lemma crypto_laws_text:
  assumes "crypto_laws L"
  shows "b64dec L (b64enc L b) = Some b" and "hex_decode L (hex_encode L b) = Some b"
  using assms unfolding crypto_laws_def by blast+

lemma crypto_laws_json:
  assumes "crypto_laws L" and "distinct (map fst kvs)" and "list_all (json_scalar \<circ> snd) kvs"
  obtains j where "json_parse L (json_print L (JObj kvs)) = Some j"
    and "\<And>k s. map_of kvs k = Some (JStr s) \<Longrightarrow> json_get j k = Some (JStr s)"
    and "\<And>k. map_of kvs k = None \<Longrightarrow> json_get j k = None"
  using assms unfolding crypto_laws_def by metis

lemma crypto_laws_public:
  assumes "crypto_laws L" and "length seed = 64"
  shows "ek_valid L (kem_public L seed)"
  using assms unfolding crypto_laws_def by blast

lemma load_save:
  assumes "crypto_laws L" and "length nonce = 12" and "ek_valid L (kp_enc kp)" and "length (kp_dec kp) = 64"
  obtains fs' where "save L True nonce kp path key fs = (Inr (), fs')" and "load L path key fs' = Inr kp"
    and "\<And>p. p \<noteq> path \<Longrightarrow> fs' p = fs p"
proof -
  obtain k where k: "hkdf_expand L key (as_bytes ''nullnode-kyber-key-enc-v1'') 32 = Some k" "length k = 32"
    using crypto_laws_hkdf [OF assms(1), of 32] by auto
  obtain c where c: "aes_encrypt L k nonce (kp_dec kp) = Some c" "aes_decrypt L k nonce c = Some (kp_dec kp)"
    using crypto_laws_aes [OF assms(1) k(2) assms(2), of "kp_dec kp"] assms(4) by auto
  let ?fs = "snd (save L True nonce kp path key fs)"
  obtain j where j: "json_parse L (json_print L (JObj [(''enc'', JStr (hex_encode L (kp_enc kp))),
      (''nonce'', JStr (hex_encode L nonce)), (''dec_encrypted'', JStr (hex_encode L c))])) = Some j"
    "json_get j ''enc'' = Some (JStr (hex_encode L (kp_enc kp)))" "json_get j ''nonce'' = Some (JStr (hex_encode L nonce))"
    "json_get j ''dec_encrypted'' = Some (JStr (hex_encode L c))"
    by (rule crypto_laws_json [OF assms(1), of "[(''enc'', JStr (hex_encode L (kp_enc kp))),
      (''nonce'', JStr (hex_encode L nonce)), (''dec_encrypted'', JStr (hex_encode L c))]"]) simp_all
  have "fst (save L True nonce kp path key fs) = Inr ()"
    by (simp add: save_def file_key_def k c write_file_def)
  moreover have "load L path key ?fs = Inr kp"
    using assms(2-4)
    by (simp add: save_def load_def file_key_def k c write_file_def crypto_laws_text [OF assms(1)] j
        json_field_def hex_field_def rebuild_keypair_def)
  moreover have "?fs p = fs p" if "p \<noteq> path" for p
    using that by (simp add: save_def file_key_def k c write_file_def)
  ultimately show thesis by (intro that [of ?fs]) (simp_all add: prod_eq_iff)
qed

text \<open>
  Key persistence: the first \<open>load_or_generate\<close> creates a key pair and writes it encrypted; every
  later call with the same encryption key returns exactly that key pair, whatever random bytes
  it would have drawn, and leaves the file alone.
\<close>

theorem load_or_generate_stable:
  assumes "crypto_laws L" and "fs path = None" and "length rnd = 64" and "length nonce = 12"
  shows "\<exists>kp fs'. load_or_generate L True rnd nonce path key fs = (Inr kp, fs')
    \<and> kp_dec kp = rnd \<and> kp_enc kp = kem_public L rnd
    \<and> load_or_generate L ok2 rnd2 nonce2 path key fs' = (Inr kp, fs')"
proof -
  let ?kp = "\<lparr>kp_enc = kem_public L rnd, kp_dec = rnd\<rparr>"
  obtain fs' where s: "save L True nonce ?kp path key fs = (Inr (), fs')" and l: "load L path key fs' = Inr ?kp"
    by (rule load_save [OF assms(1,4), of ?kp path key fs])
       (use crypto_laws_public [OF assms(1,3)] assms(3) in simp_all)
  from l have "fs' path \<noteq> None" by (auto simp: load_def bind_result_Inr)
  then show ?thesis
    using assms(2) s l by (intro exI [of _ ?kp] exI [of _ fs']) (simp add: load_or_generate_def generate_def)
qed

text \<open>A key file whose nonce does not decode to twelve bytes does not give an error: the conversion
  of the nonce panics.\<close>

lemma load_bad_nonce_panics:
  assumes "fs path = Some content"
    and "json_parse L content = Some (JObj [(''enc'', JStr e), (''nonce'', JStr n), (''dec_encrypted'', JStr d)])"
    and "hex_decode L e = Some eb" and "hex_decode L n = Some nb" and "hex_decode L d = Some db"
    and "hkdf_expand L key (as_bytes ''nullnode-kyber-key-enc-v1'') 32 = Some k" and "length nb \<noteq> 12"
  shows "load L path key fs = Inl (Panic ''nonce length'')"
  using assms by (simp add: load_def file_key_def json_field_def hex_field_def json_get_def)

section \<open>A stand-in library\<close>

text \<open>Transparent primitives that satisfy the laws: texts are the bytes themselves, a ciphertext
  is the message with a constant tag, and an object of strings is printed with a unary length
  before each string.\<close>

definition toy_str :: "string \<Rightarrow> string" where
  "toy_str s = replicate (length s) CHR ''1'' @ CHR ''0'' # s"

definition toy_unstr :: "string \<Rightarrow> string \<times> string" where
  "toy_unstr t = (let n = length (takeWhile (\<lambda>c. c = CHR ''1'') t); r = drop (Suc n) t in (take n r, drop n r))"

fun toy_print :: "json \<Rightarrow> string" where
  "toy_print (JObj kvs) = concat (map (\<lambda>(k, v). toy_str k @ toy_str (opt_or [] (as_str v))) kvs)"
| "toy_print _ = []"

fun toy_parse :: "nat \<Rightarrow> string \<Rightarrow> (string \<times> json) list" where
  "toy_parse 0 t = []"
| "toy_parse (Suc fuel) t =
     (if t = [] then []
      else let (k, t1) = toy_unstr t; (v, t2) = toy_unstr t1 in (k, JStr v) # toy_parse fuel t2)"

definition toy_crypto :: crypto_lib where
  "toy_crypto =
     \<lparr>hkdf_expand = (\<lambda>ikm info n. Some (take n (ikm @ info @ replicate n 0))),
      aes_encrypt = (\<lambda>k n m. Some (m @ replicate 16 0)), aes_decrypt = (\<lambda>k n c. Some (take (length c - 16) c)),
      kem_encapsulate = (\<lambda>r ek. (take 1568 (ek @ replicate 1568 0), take 32 (ek @ replicate 32 0))),
      kem_decapsulate = (\<lambda>seed ct. take 32 (ct @ replicate 32 0)),
      kem_public = (\<lambda>seed. take 1568 (seed @ replicate 1568 7)), ek_valid = (\<lambda>ek. length ek = 1568),
      sha512 = (\<lambda>_. replicate 64 0),
      b64enc = map (\<lambda>b. char_of (unat b)), b64dec = (\<lambda>s. Some (as_bytes s)),
      hex_encode = map (\<lambda>b. char_of (unat b)), hex_decode = (\<lambda>s. Some (as_bytes s)),
      json_print = toy_print, json_parse = (\<lambda>t. Some (JObj (toy_parse (length t) t)))\<rparr>"

lemma toy_unstr_str: "toy_unstr (toy_str s @ r) = (s, r)"
proof -
  have "takeWhile (\<lambda>c. c = CHR ''1'') (replicate n CHR ''1'' @ CHR ''0'' # x) = replicate n CHR ''1''" for n x
    by (induction n) simp_all
  then show ?thesis by (simp add: toy_unstr_def toy_str_def Let_def)
qed

lemma toy_parse_print:
  "length (toy_print (JObj kvs)) \<le> fuel \<Longrightarrow>
   toy_parse fuel (toy_print (JObj kvs)) = map (\<lambda>(k, v). (k, JStr (opt_or [] (as_str v)))) kvs"
proof (induction kvs arbitrary: fuel)
  case Nil
  then show ?case by (cases fuel) simp_all
next
  case (Cons kv kvs)
  obtain k v where kv: "kv = (k, v)" by (cases kv)
  let ?t = "toy_print (JObj kvs)" and ?v = "opt_or [] (as_str v)"
  have p: "toy_print (JObj (kv # kvs)) = toy_str k @ toy_str ?v @ ?t" by (simp add: kv)
  have ne: "toy_str k \<noteq> []" by (simp add: toy_str_def)
  from Cons.prems obtain f where f: "fuel = Suc f" unfolding p using ne by (cases fuel) auto
  have "length ?t \<le> f" using Cons.prems unfolding p f by (simp add: toy_str_def)
  then have "toy_parse f ?t = map (\<lambda>(k, v). (k, JStr (opt_or [] (as_str v)))) kvs" by (rule Cons.IH)
  then show ?case
    unfolding p f using toy_unstr_str [of k "toy_str ?v @ ?t"] toy_unstr_str [of ?v ?t] ne
    by (simp add: kv del: toy_print.simps)
qed

lemma toy_json:
  "distinct (map fst kvs) \<Longrightarrow> \<exists>j. Some (JObj (toy_parse (length (toy_print (JObj kvs))) (toy_print (JObj kvs)))) = Some j
     \<and> (\<forall>k s. map_of kvs k = Some (JStr s) \<longrightarrow> json_get j k = Some (JStr s)) \<and> (\<forall>k. map_of kvs k = None \<longrightarrow> json_get j k = None)"
  by (simp add: toy_parse_print json_get_def map_of_map del: toy_print.simps)

lemma as_bytes_char_of [simp]: "as_bytes (map (\<lambda>b. char_of (unat b)) bs) = bs"
proof -
  have "(of_char (char_of (unat b)) :: u8) = b" for b :: u8
    using unat_u8_less [of b] by (simp add: word_unat_eq_iff)
  then show ?thesis by (simp add: as_bytes_def o_def)
qed

lemma toy_crypto_laws: "crypto_laws toy_crypto"
  using toy_json
  by (auto simp: crypto_laws_def toy_crypto_def min_def)

theorem load_or_generate_stable_witness:
  "\<exists>kp fs'. load_or_generate toy_crypto True (replicate 64 5) (replicate 12 0) ''key'' [1] Map.empty = (Inr kp, fs')
    \<and> kp_dec kp = replicate 64 5 \<and> kp_enc kp = kem_public toy_crypto (replicate 64 5)
    \<and> load_or_generate toy_crypto False [] [] ''key'' [1] fs' = (Inr kp, fs')"
  by (rule load_or_generate_stable [OF toy_crypto_laws]) simp_all

end
