(* ===== verification/RatchetSession.thy ===== *)
theory RatchetSession
  imports Kem
begin

text \<open>
  The message encryption of two peers (\<open>crypto/src/lib.rs\<close>, \<open>DoubleRatchetSession\<close>): key schedule,
  encryption of first and later messages, decryption with its two wire formats, and the syntax
  checks of the crate. A session operation returns its result and the session it leaves; on an
  error the session keeps whatever was written before the error.
\<close>

section \<open>Syntax checks\<close>

definition crypto_validate_fingerprint :: "string \<Rightarrow> CryptoError + unit" where
  "crypto_validate_fingerprint fp =
     (let cleaned = to_uppercase (filter (\<lambda>c. c \<noteq> CHR '' '') fp)
      in if \<not> (32 \<le> length cleaned \<and> length cleaned \<le> 40)
         then Inl (InvalidFingerprint ''fingerprint must be 32-40 hex chars'')
         else if \<not> list_all is_ascii_hexdigit cleaned
         then Inl (InvalidFingerprint ''fingerprint contains non-hex characters'')
         else Inr ())"

definition crypto_validate_null_id :: "string \<Rightarrow> CryptoError + unit" where
  "crypto_validate_null_id nid =
     (let parts = split_on CHR ''-'' nid
      in if length parts \<noteq> 3 \<or> parts ! 0 \<noteq> ''NN'' \<or> length (parts ! 1) \<noteq> 4 \<or> length (parts ! 2) \<noteq> 4
         then Inl (InvalidFingerprint ''null ID must be NN-XXXX-XXXX format'') else Inr ())"

text \<open>The derivation of a Null ID, over BLAKE2b and base64.\<close>

definition null_id :: "(bytes \<Rightarrow> bytes) \<Rightarrow> crypto_lib \<Rightarrow> string \<Rightarrow> string" where
  "null_id blake L fingerprint =
     (let b64 = take 8 (trim_end_matches CHR ''='' (b64enc L (blake (as_bytes fingerprint))))
      in ''NN-'' @ take 4 b64 @ ''-'' @ take 4 (drop 4 b64))"

definition crypto_validate_null_id_strict :: "(bytes \<Rightarrow> bytes) \<Rightarrow> crypto_lib \<Rightarrow> string \<Rightarrow> string \<Rightarrow> CryptoError + unit" where
  "crypto_validate_null_id_strict blake L nid fingerprint =
     bind_result (crypto_validate_null_id nid) (\<lambda>_.
     bind_result (crypto_validate_fingerprint fingerprint) (\<lambda>_.
       let expected = null_id blake L fingerprint
       in if nid \<noteq> expected
          then Inl (InvalidFingerprint (''null ID '' @ nid @ '' does not match fingerprint-derived ID '' @ expected))
          else Inr ()))"

section \<open>Sessions\<close>

definition NONCE_SIZE :: nat where "NONCE_SIZE = 12"

record RatchetState =
  rs_peer_fp :: string
  rs_peer_nid :: string
  rs_our_fp :: string
  rs_is_initiator :: bool
  rs_root_key :: bytes
  rs_send_chain_key :: bytes
  rs_recv_chain_key :: bytes
  rs_send_message_number :: u64
  rs_recv_message_number :: u64
  rs_skipped_keys :: "string \<rightharpoonup> bytes"

definition session_new :: "crypto_lib \<Rightarrow> string \<Rightarrow> string \<Rightarrow> string \<Rightarrow> bool \<Rightarrow> bytes \<Rightarrow> CryptoError + RatchetState" where
  "session_new L peer_fp peer_nid our_fp is_initiator shared_secret =
     (if length shared_secret < 32 then Inl (Ratchet ''shared_secret must be at least 32 bytes'')
      else
        bind_result (ok_or (Ratchet ''HKDF root_key'')
          (hkdf_expand L shared_secret (as_bytes ''nullnode-double-ratchet-v1-root'') 32)) (\<lambda>root_key.
        bind_result (ok_or (Ratchet ''HKDF chain_keys'')
          (hkdf_expand L shared_secret (as_bytes ''nullnode-double-ratchet-v1-chains'') 64)) (\<lambda>chain_keys.
          let (send_ck, recv_ck) =
            (if is_initiator then (take 32 chain_keys, drop 32 chain_keys)
             else (drop 32 chain_keys, take 32 chain_keys))
          in Inr \<lparr>rs_peer_fp = peer_fp, rs_peer_nid = peer_nid, rs_our_fp = our_fp,
                  rs_is_initiator = is_initiator, rs_root_key = root_key, rs_send_chain_key = send_ck,
                  rs_recv_chain_key = recv_ck, rs_send_message_number = 0,
                  rs_recv_message_number = 0, rs_skipped_keys = Map.empty\<rparr>)))"

definition derive_message_key :: "crypto_lib \<Rightarrow> bytes \<Rightarrow> CryptoError + bytes \<times> bytes" where
  "derive_message_key L chain_key =
     bind_result (ok_or (Ratchet ''HKDF step'')
       (hkdf_expand L chain_key (as_bytes ''nullnode-double-ratchet-v1-step'') 64))
       (\<lambda>output. Inr (take 32 output, drop 32 output))"

definition encrypt_first :: "crypto_lib \<Rightarrow> bytes \<Rightarrow> string \<Rightarrow> RatchetState \<Rightarrow> (CryptoError + bytes) \<times> RatchetState" where
  "encrypt_first L nonce plaintext st =
     (case derive_message_key L (rs_send_chain_key st) of
        Inl e \<Rightarrow> (Inl e, st)
      | Inr (msg_key, new_ck) \<Rightarrow>
          let st = st\<lparr>rs_send_chain_key := new_ck\<rparr>
          in (case aes_encrypt L msg_key nonce (as_bytes plaintext) of
                None \<Rightarrow> (Inl (EncryptFailed ''AES-GCM''), st)
              | Some ciphertext \<Rightarrow>
                  (Inr (nonce @ ciphertext),
                   st\<lparr>rs_send_message_number := rs_send_message_number st + 1\<rparr>)))"

definition u16_be_bytes :: "nat \<Rightarrow> bytes" where
  "u16_be_bytes n = [of_nat (n div 256), of_nat n]"

lemma length_u16_be_bytes [simp]: "length (u16_be_bytes n) = 2"
  by (simp add: u16_be_bytes_def)

definition u16_from_be :: "u8 \<Rightarrow> u8 \<Rightarrow> nat" where
  "u16_from_be a b = unat a * 256 + unat b"

definition encrypt_message ::
  "crypto_lib \<Rightarrow> bytes \<Rightarrow> bytes \<Rightarrow> string \<Rightarrow> bytes \<Rightarrow> RatchetState \<Rightarrow> (CryptoError + bytes) \<times> RatchetState" where
  "encrypt_message L rnd nonce plaintext recipient_kyber_enc st =
     (case encapsulate L rnd recipient_kyber_enc of
        Inl e \<Rightarrow> (Inl (EncryptFailed ''kyber encapsulate''), st)
      | Inr (kyber_ct, kyber_ss) \<Rightarrow>
          (case derive_message_key L (rs_send_chain_key st @ kyber_ss) of
             Inl e \<Rightarrow> (Inl e, st)
           | Inr (msg_key, new_ck) \<Rightarrow>
               let st = st\<lparr>rs_send_chain_key := new_ck\<rparr>
               in (case aes_encrypt L msg_key nonce (as_bytes plaintext) of
                     None \<Rightarrow> (Inl (EncryptFailed ''AES-GCM''), st)
                   | Some ciphertext \<Rightarrow>
                       (Inr (nonce @ ciphertext @ kyber_ct @ u16_be_bytes (length kyber_ct)),
                        st\<lparr>rs_send_message_number := rs_send_message_number st + 1\<rparr>))))"

text \<open>Advance the receiving chain with the given key material and open the ciphertext: the common
  tail of both decryption paths. The chain has advanced even when the ciphertext is bad.\<close>

definition open_with :: "crypto_lib \<Rightarrow> bytes \<Rightarrow> bytes \<Rightarrow> bytes \<Rightarrow> RatchetState \<Rightarrow> (CryptoError + bytes) \<times> RatchetState" where
  "open_with L key_material nonce ct st =
     (case derive_message_key L key_material of
        Inl e \<Rightarrow> (Inl e, st)
      | Inr (msg_key, new_ck) \<Rightarrow>
          let st = st\<lparr>rs_recv_chain_key := new_ck\<rparr>
          in (case aes_decrypt L msg_key nonce ct of
                None \<Rightarrow> (Inl (DecryptFailed ''AES-GCM''), st)
              | Some pt \<Rightarrow> (Inr pt, st\<lparr>rs_recv_message_number := rs_recv_message_number st + 1\<rparr>)))"

definition simple_decrypt :: "crypto_lib \<Rightarrow> bytes \<Rightarrow> bytes \<Rightarrow> RatchetState \<Rightarrow> (CryptoError + bytes) \<times> RatchetState" where
  "simple_decrypt L nonce body st = open_with L (rs_recv_chain_key st) nonce body st"

text \<open>The length field that the last two bytes of the body would be.\<close>

definition kyber_len :: "bytes \<Rightarrow> nat" where
  "kyber_len body = u16_from_be (body ! (length body - 2)) (body ! (length body - 1))"

definition kyber_format :: "bytes \<Rightarrow> bool" where
  "kyber_format body \<longleftrightarrow> 2 < length body \<and> 0 < kyber_len body \<and> kyber_len body + 2 \<le> length body"

definition decrypt_body ::
  "crypto_lib \<Rightarrow> bytes \<Rightarrow> bytes \<Rightarrow> MlKem1024Keypair \<Rightarrow> RatchetState \<Rightarrow> (CryptoError + bytes) \<times> RatchetState" where
  "decrypt_body L nonce body our_kyber st =
     (if kyber_format body
      then
        let aes_ct_end = length body - 2 - kyber_len body;
            aes_ct = take aes_ct_end body;
            kyber_ct = take (kyber_len body) (drop aes_ct_end body)
        in if length kyber_ct \<noteq> 1568 then (Inl (DecryptFailed ''kyber parse''), st)
           else (case decapsulate L our_kyber kyber_ct of
                   Inl e \<Rightarrow> (Inl (DecryptFailed ''kyber dec''), st)
                 | Inr kyber_ss \<Rightarrow> open_with L (rs_recv_chain_key st @ kyber_ss) nonce aes_ct st)
      else simple_decrypt L nonce body st)"

definition decrypt_message ::
  "crypto_lib \<Rightarrow> string \<Rightarrow> MlKem1024Keypair \<Rightarrow> RatchetState \<Rightarrow> (CryptoError + string) \<times> RatchetState" where
  "decrypt_message L ciphertext_b64 our_kyber st =
     (case b64dec L ciphertext_b64 of
        None \<Rightarrow> (Inl (DecryptFailed ''base64 decode''), st)
      | Some raw \<Rightarrow>
          if length raw < NONCE_SIZE + 16 + 2 then (Inl (DecryptFailed ''ciphertext too short''), st)
          else
            (case decrypt_body L (take NONCE_SIZE raw) (drop NONCE_SIZE raw) our_kyber st of
               (Inl e, st') \<Rightarrow> (Inl e, st')
             | (Inr pt, st') \<Rightarrow> (ok_or (DecryptFailed ''utf8'') (from_utf8 pt), st')))"

section \<open>One message\<close>

lemma u16_round: "n < 65536 \<Longrightarrow> u16_from_be (of_nat (n div 256)) (of_nat n) = n"
proof -
  assume "n < 65536"
  then have "n div 256 < 256" by (simp add: div_less_iff_less_mult)
  then show ?thesis by (simp add: u16_from_be_def unat_of_nat take_bit_eq_mod)
qed

lemma derive_message_key_total:
  assumes "crypto_laws L"
  obtains mk ck where "derive_message_key L k = Inr (mk, ck)" and "length mk = 32" and "length ck = 32"
proof -
  obtain out where "hkdf_expand L k (as_bytes ''nullnode-double-ratchet-v1-step'') 64 = Some out" "length out = 64"
    using crypto_laws_hkdf [OF assms, of 64] by auto
  then show thesis by (intro that [of "take 32 out" "drop 32 out"]) (simp_all add: derive_message_key_def)
qed

text \<open>The wire format of later messages is recognised as such.\<close>

lemma kyber_format_encrypted:
  assumes "length kct = 1568"
  shows "kyber_len (ct @ kct @ u16_be_bytes 1568) = 1568" and "kyber_format (ct @ kct @ u16_be_bytes 1568)"
proof -
  let ?b = "ct @ kct @ u16_be_bytes 1568"
  have l: "length ?b = length ct + 1568 + 2" by (simp add: assms u16_be_bytes_def)
  have "?b ! (length ?b - 2) = of_nat (1568 div 256)" "?b ! (length ?b - 1) = of_nat 1568"
    by (simp_all add: l nth_append assms u16_be_bytes_def)
  then show k: "kyber_len ?b = 1568"
    using u16_round [of 1568] by (simp add: kyber_len_def)
  from k l show "kyber_format ?b" by (simp add: kyber_format_def)
qed

text \<open>A message takes the receiving chain from one key to the next and yields its plaintext, for
  whatever else the receiving session holds.\<close>

definition delivers :: "crypto_lib \<Rightarrow> bytes \<Rightarrow> bytes \<Rightarrow> string \<times> string \<Rightarrow> bytes \<Rightarrow> bool" where
  "delivers L seed ck m ck' \<longleftrightarrow>
     (\<forall>r. rs_recv_chain_key r = ck \<longrightarrow>
        decrypt_message L (fst m) \<lparr>kp_enc = kem_public L seed, kp_dec = seed\<rparr> r =
          (Inr (snd m), r\<lparr>rs_recv_chain_key := ck', rs_recv_message_number := rs_recv_message_number r + 1\<rparr>))"

lemma encrypt_message_delivers:
  assumes "crypto_laws L" and "length seed = 64" and "length nonce = 12"
    and "length pt < 2 ^ 36 - 31" and "utf8_valid (as_bytes pt)"
  obtains ct s' where "encrypt_message L rnd nonce pt (kem_public L seed) s = (Inr ct, s')"
    and "delivers L seed (rs_send_chain_key s) (b64enc L ct, pt) (rs_send_chain_key s')"
    and "rs_recv_chain_key s' = rs_recv_chain_key s"
proof -
  obtain kct ss where kem: "kem_encapsulate L rnd (kem_public L seed) = (kct, ss)" "length kct = 1568"
      "kem_decapsulate L seed kct = ss"
    using crypto_laws_kem [OF assms(1,2), of rnd] by metis
  obtain mk ck where dk: "derive_message_key L (rs_send_chain_key s @ ss) = Inr (mk, ck)" "length mk = 32"
    using derive_message_key_total [OF assms(1)] by blast
  obtain c where c: "aes_encrypt L mk nonce (as_bytes pt) = Some c" "aes_decrypt L mk nonce c = Some (as_bytes pt)"
      "length c = length pt + 16"
    using crypto_laws_aes [OF assms(1) dk(2) assms(3), of "as_bytes pt"] assms(4) by auto
  let ?b = "c @ kct @ u16_be_bytes 1568" and ?kp = "\<lparr>kp_enc = kem_public L seed, kp_dec = seed\<rparr>"
  note kf = kyber_format_encrypted [OF kem(2), of c]
  have split: "take (length ?b - 2 - 1568) ?b = c" "take 1568 (drop (length ?b - 2 - 1568) ?b) = kct"
    using kem(2) by simp_all
  have body: "decrypt_body L nonce ?b ?kp r =
      (Inr (as_bytes pt), r\<lparr>rs_recv_chain_key := ck, rs_recv_message_number := rs_recv_message_number r + 1\<rparr>)"
    if "rs_recv_chain_key r = rs_send_chain_key s" for r
    unfolding decrypt_body_def Let_def kf(1) split using kf(2) kem dk c that
    by (simp add: decapsulate_def open_with_def)
  show thesis
  proof (rule that)
    show "encrypt_message L rnd nonce pt (kem_public L seed) s =
        (Inr (nonce @ ?b), s\<lparr>rs_send_chain_key := ck, rs_send_message_number := rs_send_message_number s + 1\<rparr>)"
      using kem dk c by (simp add: encrypt_message_def encapsulate_def)
    show "delivers L seed (rs_send_chain_key s) (b64enc L (nonce @ ?b), pt)
        (rs_send_chain_key (s\<lparr>rs_send_chain_key := ck, rs_send_message_number := rs_send_message_number s + 1\<rparr>))"
      using body assms(3,5) kem(2)
      by (simp add: delivers_def decrypt_message_def crypto_laws_text [OF assms(1)] NONCE_SIZE_def)
  qed simp
qed

text \<open>The same for a first message, unless its last two bytes look like a length.\<close>

lemma encrypt_first_delivers:
  assumes "crypto_laws L" and "length nonce = 12"
    and "length pt < 2 ^ 36 - 31" and "2 \<le> length pt" and "utf8_valid (as_bytes pt)"
  obtains ct s' where "encrypt_first L nonce pt s = (Inr ct, s')"
    and "\<not> kyber_format (drop 12 ct) \<Longrightarrow> delivers L seed (rs_send_chain_key s) (b64enc L ct, pt) (rs_send_chain_key s')"
    and "rs_recv_chain_key s' = rs_recv_chain_key s"
proof -
  obtain mk ck where dk: "derive_message_key L (rs_send_chain_key s) = Inr (mk, ck)" "length mk = 32"
    using derive_message_key_total [OF assms(1)] by blast
  obtain c where c: "aes_encrypt L mk nonce (as_bytes pt) = Some c" "aes_decrypt L mk nonce c = Some (as_bytes pt)"
      "length c = length pt + 16"
    using crypto_laws_aes [OF assms(1) dk(2) assms(2), of "as_bytes pt"] assms(3) by auto
  let ?s = "s\<lparr>rs_send_chain_key := ck, rs_send_message_number := rs_send_message_number s + 1\<rparr>"
  show thesis
  proof (rule that [of "nonce @ c" ?s])
    show "encrypt_first L nonce pt s = (Inr (nonce @ c), ?s)" using dk c by (simp add: encrypt_first_def)
    assume "\<not> kyber_format (drop 12 (nonce @ c))"
    then show "delivers L seed (rs_send_chain_key s) (b64enc L (nonce @ c), pt) (rs_send_chain_key ?s)"
      using assms(2,4,5) dk c by (simp add: delivers_def decrypt_message_def crypto_laws_text [OF assms(1)] NONCE_SIZE_def
          decrypt_body_def simple_decrypt_def open_with_def)
  qed simp
qed

section \<open>Conversations\<close>

text \<open>
  A conversation of two parties, \<open>True\<close> and \<open>False\<close>. Each direction is a queue that keeps the
  order; both parties send whenever they like, and messages are received at any later time.
  The queue keeps the plaintext beside the ciphertext, for comparison with what is received.
\<close>

datatype chat_event = Send bool bytes bytes string | Recv bool

type_synonym chat =
  "(bool \<Rightarrow> RatchetState) \<times> (bool \<Rightarrow> (string \<times> string) list) \<times> ((CryptoError + string) \<times> string) list"

fun chat_step :: "crypto_lib \<Rightarrow> (bool \<Rightarrow> bytes) \<Rightarrow> chat_event \<Rightarrow> chat \<Rightarrow> chat" where
  "chat_step L seed (Send p rnd nonce pt) (st, q, out) =
     (case encrypt_message L rnd nonce pt (kem_public L (seed (\<not> p))) (st p) of
        (Inl e, s) \<Rightarrow> (st(p := s), q, out)
      | (Inr ct, s) \<Rightarrow> (st(p := s), q(p := q p @ [(b64enc L ct, pt)]), out))"
| "chat_step L seed (Recv p) (st, q, out) =
     (case q (\<not> p) of
        [] \<Rightarrow> (st, q, out)
      | m # rest \<Rightarrow>
          (case decrypt_message L (fst m) \<lparr>kp_enc = kem_public L (seed p), kp_dec = seed p\<rparr> (st p) of
             (r, s) \<Rightarrow> (st(p := s), q(\<not> p := rest), out @ [(r, snd m)])))"

fun chain_link :: "crypto_lib \<Rightarrow> bytes \<Rightarrow> bytes \<Rightarrow> (string \<times> string) list \<Rightarrow> bytes \<Rightarrow> bool" where
  "chain_link L seed ck [] ck' \<longleftrightarrow> ck = ck'"
| "chain_link L seed ck (m # q) ck' \<longleftrightarrow> (\<exists>ck1. delivers L seed ck m ck1 \<and> chain_link L seed ck1 q ck')"

lemma chain_link_snoc:
  "chain_link L seed ck q ck1 \<Longrightarrow> delivers L seed ck1 m ck2 \<Longrightarrow> chain_link L seed ck (q @ [m]) ck2"
  by (induction q arbitrary: ck) auto

definition chat_ok :: "crypto_lib \<Rightarrow> (bool \<Rightarrow> bytes) \<Rightarrow> chat \<Rightarrow> bool" where
  "chat_ok L seed s \<longleftrightarrow>
     (let (st, q, out) = s in
        (\<forall>p. chain_link L (seed (\<not> p)) (rs_recv_chain_key (st (\<not> p))) (q p) (rs_send_chain_key (st p)))
        \<and> list_all (\<lambda>(r, pt). r = Inr pt) out)"

text \<open>What a party may send: a Rust string within the cipher's limit, with a 12-byte nonce.\<close>

fun chat_send_ok :: "chat_event \<Rightarrow> bool" where
  "chat_send_ok (Send p rnd nonce pt) \<longleftrightarrow>
     length nonce = 12 \<and> length pt < 2 ^ 36 - 31 \<and> utf8_valid (as_bytes pt)"
| "chat_send_ok (Recv p) \<longleftrightarrow> True"

lemma chat_ok_step:
  assumes "crypto_laws L" and "\<And>p. length (seed p) = 64" and "chat_send_ok e" and "chat_ok L seed s"
  shows "chat_ok L seed (chat_step L seed e s)"
proof -
  obtain st q out where s: "s = (st, q, out)" by (cases s)
  note ok = assms(4) [unfolded s chat_ok_def Let_def prod.case]
  show ?thesis
  proof (cases e)
    case (Send p rnd nonce pt)
    with assms(3) have "length nonce = 12" "length pt < 2 ^ 36 - 31" "utf8_valid (as_bytes pt)" by auto
    then obtain ct s' where e: "encrypt_message L rnd nonce pt (kem_public L (seed (\<not> p))) (st p) = (Inr ct, s')"
        and d: "delivers L (seed (\<not> p)) (rs_send_chain_key (st p)) (b64enc L ct, pt) (rs_send_chain_key s')"
        and k: "rs_recv_chain_key s' = rs_recv_chain_key (st p)"
      using encrypt_message_delivers [OF assms(1) assms(2) [of "\<not> p"], of nonce pt rnd "st p"] by blast
    have "chain_link L (seed (\<not> p)) (rs_recv_chain_key (st (\<not> p))) (q p @ [(b64enc L ct, pt)]) (rs_send_chain_key s')"
      using ok d by (blast intro: chain_link_snoc)
    moreover have "chain_link L (seed p) (rs_recv_chain_key (st p)) (q (\<not> p)) (rs_send_chain_key (st (\<not> p)))"
      using spec [OF conjunct1 [OF ok], of "\<not> p"] by simp
    moreover have "chat_step L seed e s = (st(p := s'), q(p := q p @ [(b64enc L ct, pt)]), out)"
      by (simp add: s Send e)
    ultimately show ?thesis
      using ok k by (cases p) (simp_all add: chat_ok_def all_bool_eq)
  next
    case (Recv p)
    show ?thesis
    proof (cases "q (\<not> p)")
      case Nil
      with ok show ?thesis by (simp add: s Recv chat_ok_def)
    next
      case (Cons m rest)
      have "chain_link L (seed p) (rs_recv_chain_key (st p)) (q (\<not> p)) (rs_send_chain_key (st (\<not> p)))"
        using spec [OF conjunct1 [OF ok], of "\<not> p"] by simp
      then obtain ck where d: "delivers L (seed p) (rs_recv_chain_key (st p)) m ck"
          and l: "chain_link L (seed p) ck rest (rs_send_chain_key (st (\<not> p)))"
        using Cons by auto
      let ?r = "(st p)\<lparr>rs_recv_chain_key := ck, rs_recv_message_number := rs_recv_message_number (st p) + 1\<rparr>"
      have dec: "decrypt_message L (fst m) \<lparr>kp_enc = kem_public L (seed p), kp_dec = seed p\<rparr> (st p) = (Inr (snd m), ?r)"
        using d by (simp add: delivers_def)
      have "chat_step L seed e s = (st(p := ?r), q(\<not> p := rest), out @ [(Inr (snd m), snd m)])"
        by (simp add: s Recv Cons dec)
      then show ?thesis
        using ok l by (cases p) (simp_all add: chat_ok_def all_bool_eq)
    qed
  qed
qed

lemma session_new_total:
  assumes "crypto_laws L" and "32 \<le> length secret"
  obtains a b where "session_new L fa na oa True secret = Inr a" and "session_new L fb nb ob False secret = Inr b"
    and "rs_send_chain_key a = rs_recv_chain_key b" and "rs_recv_chain_key a = rs_send_chain_key b"
proof -
  obtain rk where "hkdf_expand L secret (as_bytes ''nullnode-double-ratchet-v1-root'') 32 = Some rk"
    by (rule crypto_laws_hkdf [OF assms(1), of 32]) simp
  moreover obtain ck where "hkdf_expand L secret (as_bytes ''nullnode-double-ratchet-v1-chains'') 64 = Some ck"
    by (rule crypto_laws_hkdf [OF assms(1), of 64]) simp
  ultimately show thesis
    using assms(2) by (intro that) (simp add: session_new_def, simp add: session_new_def, simp_all)
qed

text \<open>
  C13. Conversations work: two sessions made from the same secret, one as initiator, exchange messages
  in both directions in any interleaving of sends and ordered receives, and every message that
  is received decrypts to exactly the plaintext that was sent. Each message refreshes the chain
  with a new encapsulation, and the two directions never disturb each other.
\<close>

theorem conversation_correct:
  assumes "crypto_laws L" and "\<And>p. length (seed p) = 64" and "32 \<le> length secret"
    and "session_new L fa na oa True secret = Inr a" and "session_new L fb nb ob False secret = Inr b"
    and "list_all chat_send_ok es"
  shows "list_all (\<lambda>(r, pt). r = Inr pt)
    (snd (snd (fold (chat_step L seed) es (\<lambda>p. if p then a else b, \<lambda>_. [], []))))"
proof -
  have "rs_send_chain_key a = rs_recv_chain_key b" "rs_recv_chain_key a = rs_send_chain_key b"
    using assms(4,5) session_new_total [OF assms(1,3), of fa na oa fb nb ob] by auto
  then have init: "chat_ok L seed (\<lambda>p. if p then a else b, \<lambda>_. [], [])"
    by (simp add: chat_ok_def)
  have "chat_ok L seed s \<Longrightarrow> chat_ok L seed (fold (chat_step L seed) es s)" for s
    using assms(6) by (induction es arbitrary: s) (simp_all add: chat_ok_step assms(1,2))
  from this [OF init] show ?thesis by (auto simp: chat_ok_def)
qed

section \<open>First messages and bad messages\<close>

text \<open>
  The two wire formats are told apart by two bytes of ciphertext. A first message (of at least
  two bytes; a shorter one is refused as too short) is decrypted correctly if and only if the last two bytes of its ciphertext do not happen to form a plausible
  length: when they do (and the length is not that of a real encapsulation), a valid message of
  an honest peer is refused.
\<close>

theorem first_message_decrypts_iff:
  assumes "crypto_laws L" and "length nonce = 12" and "length pt < 2 ^ 36 - 31" and "2 \<le> length pt"
    and "utf8_valid (as_bytes pt)" and "rs_recv_chain_key r = rs_send_chain_key s"
    and "encrypt_first L nonce pt s = (Inr ct, s')" and "kyber_len (drop 12 ct) \<noteq> 1568"
  shows "fst (decrypt_message L (b64enc L ct) kp r) =
    (if kyber_format (drop 12 ct) then Inl (DecryptFailed ''kyber parse'') else Inr pt)"
proof -
  obtain mk ck where dk: "derive_message_key L (rs_send_chain_key s) = Inr (mk, ck)" "length mk = 32"
    using derive_message_key_total [OF assms(1)] by blast
  obtain c where c: "aes_encrypt L mk nonce (as_bytes pt) = Some c" "aes_decrypt L mk nonce c = Some (as_bytes pt)"
      "length c = length pt + 16"
    using crypto_laws_aes [OF assms(1) dk(2) assms(2), of "as_bytes pt"] assms(3) by auto
  have ct: "ct = nonce @ c" using assms(7) dk c by (simp add: encrypt_first_def)
  have body: "decrypt_body L nonce c kp r = (if kyber_format c then (Inl (DecryptFailed ''kyber parse''), r)
      else (Inr (as_bytes pt), r\<lparr>rs_recv_chain_key := ck, rs_recv_message_number := rs_recv_message_number r + 1\<rparr>))"
    using assms(2,6,8) dk c
    by (auto simp: ct decrypt_body_def Let_def kyber_format_def simple_decrypt_def open_with_def)
  show ?thesis
    using assms(2,4,5) c by (simp add: decrypt_message_def crypto_laws_text [OF assms(1)] ct NONCE_SIZE_def body)
qed

text \<open>
  A forged message breaks the session: any text of enough bytes in the simple format whose
  authentication fails is rejected, but the receiving chain has moved on by one step, so
  the session has lost the key for the next genuine message.
\<close>

theorem forged_message_advances_chain:
  assumes "b64dec L text = Some raw" and "30 \<le> length raw" and "\<not> kyber_format (drop 12 raw)"
    and "derive_message_key L (rs_recv_chain_key r) = Inr (mk, ck)"
    and "aes_decrypt L mk (take 12 raw) (drop 12 raw) = None"
  shows "decrypt_message L text kp r = (Inl (DecryptFailed ''AES-GCM''), r\<lparr>rs_recv_chain_key := ck\<rparr>)"
  using assms by (simp add: decrypt_message_def decrypt_body_def simple_decrypt_def open_with_def NONCE_SIZE_def)

section \<open>Witnesses\<close>

definition toy_session :: "bool \<Rightarrow> RatchetState" where
  "toy_session init = (case session_new toy_crypto ''fp'' ''nid'' ''our'' init (replicate 32 9) of
     Inr s \<Rightarrow> s | Inl _ \<Rightarrow> undefined)"

lemma toy_session_new: "session_new toy_crypto ''fp'' ''nid'' ''our'' init (replicate 32 9) = Inr (toy_session init)"
  by (simp add: toy_session_def session_new_def toy_crypto_def)

theorem conversation_correct_witness:
  "list_all (\<lambda>(r, pt). r = Inr pt)
    (snd (snd (fold (chat_step toy_crypto (\<lambda>_. replicate 64 5))
       [Send True [] (replicate 12 0) ''hello'', Send False [] (replicate 12 0) ''hi'', Recv True, Recv False]
       (\<lambda>p. if p then toy_session True else toy_session False, \<lambda>_. [], []))))"
  by (rule conversation_correct [OF toy_crypto_laws _ _ toy_session_new toy_session_new])
     (simp_all add: as_bytes_def utf8_valid_ascii)

text \<open>With a cipher whose tag is \<open>0 1\<close> repeated, the last two bytes of every first message read as
  the length 1.\<close>

definition tag_crypto :: crypto_lib where
  "tag_crypto = toy_crypto\<lparr>aes_encrypt := (\<lambda>k n m. Some (m @ [0, 1, 0, 1, 0, 1, 0, 1, 0, 1, 0, 1, 0, 1, 0, 1]))\<rparr>"

lemma tag_crypto_laws: "crypto_laws tag_crypto"
  using toy_crypto_laws by (simp add: crypto_laws_def tag_crypto_def toy_crypto_def)

theorem first_message_decrypts_iff_witness:
  "fst (decrypt_message tag_crypto (b64enc tag_crypto
     (replicate 12 0 @ as_bytes ''hello'' @ [0, 1, 0, 1, 0, 1, 0, 1, 0, 1, 0, 1, 0, 1, 0, 1]))
       \<lparr>kp_enc = [], kp_dec = []\<rparr> (toy_session False)) =
    (if kyber_format (drop 12 (replicate 12 0 @ as_bytes ''hello'' @ [0, 1, 0, 1, 0, 1, 0, 1, 0, 1, 0, 1, 0, 1, 0, 1]))
     then Inl (DecryptFailed ''kyber parse'') else Inr ''hello'')
   \<and> kyber_format (drop 12 (replicate 12 0 @ as_bytes ''hello'' @ [0, 1, 0, 1, 0, 1, 0, 1, 0, 1, 0, 1, 0, 1, 0, 1]))"
proof
  let ?ct = "replicate 12 0 @ as_bytes ''hello'' @ [0, 1, 0, 1, 0, 1, 0, 1, 0, 1, 0, 1, 0, 1, 0, 1] :: bytes"
  show "kyber_format (drop 12 ?ct)" by code_simp
  have k: "kyber_len (drop 12 ?ct) \<noteq> 1568" by code_simp
  have "encrypt_first tag_crypto (replicate 12 0) ''hello'' (toy_session True) =
      (Inr ?ct, snd (encrypt_first tag_crypto (replicate 12 0) ''hello'' (toy_session True)))"
    by (simp add: encrypt_first_def derive_message_key_def tag_crypto_def toy_crypto_def Let_def)
  moreover have "rs_recv_chain_key (toy_session False) = rs_send_chain_key (toy_session True)"
    by (simp add: toy_session_def session_new_def toy_crypto_def)
  ultimately show "fst (decrypt_message tag_crypto (b64enc tag_crypto ?ct) \<lparr>kp_enc = [], kp_dec = []\<rparr> (toy_session False)) =
      (if kyber_format (drop 12 ?ct) then Inl (DecryptFailed ''kyber parse'') else Inr ''hello'')"
    using k by (intro first_message_decrypts_iff [OF tag_crypto_laws]) (simp_all add: as_bytes_def utf8_valid_ascii)
qed

theorem forged_message_advances_chain_witness:
  "decrypt_message (toy_crypto\<lparr>aes_decrypt := \<lambda>_ _ _. None\<rparr>) (replicate 30 CHR 0x00) \<lparr>kp_enc = [], kp_dec = []\<rparr> (toy_session True)
   = (Inl (DecryptFailed ''AES-GCM''), (toy_session True)\<lparr>rs_recv_chain_key := as_bytes ''nullnode-double-ratchet-v1-step'' @ [0]\<rparr>)"
proof (rule forged_message_advances_chain [where raw = "replicate 30 0"])
  show "\<not> kyber_format (drop 12 (replicate 30 0))" by code_simp
  show "derive_message_key (toy_crypto\<lparr>aes_decrypt := \<lambda>_ _ _. None\<rparr>) (rs_recv_chain_key (toy_session True)) =
      Inr (rs_recv_chain_key (toy_session True), as_bytes ''nullnode-double-ratchet-v1-step'' @ [0])"
    by (simp add: derive_message_key_def toy_crypto_def toy_session_def session_new_def as_bytes_def)
qed (simp_all add: toy_crypto_def as_bytes_def)

end
