(* ===== verification/Mailbox.thy ===== *)
theory Mailbox
  imports Kem
begin

text \<open>
  The relay's mailboxes (\<open>relay/src/main.rs\<close>): the bounded in-memory mailbox of a recipient, the
  SQLite table that makes messages survive a restart, and the operations of \<open>RelayState\<close> on both
  (store, fetch, acknowledge, purge, clean up). Times are seconds as \<open>u64\<close>; the subtraction of
  times wraps, as in a release build. A failing SQL statement is the argument \<open>db_ok = False\<close>.
\<close>

section \<open>In-memory mailbox\<close>

definition MAX_MAILBOX_SIZE :: nat where "MAX_MAILBOX_SIZE = 1000"
definition MAILBOX_TTL_SECONDS :: u64 where "MAILBOX_TTL_SECONDS = 604800"
definition MAX_ENTRIES_PER_SENDER :: nat where "MAX_ENTRIES_PER_SENDER = 10"

record MailboxEntry =
  me_signed_blob :: string
  me_sender_nid :: string
  me_sender_fp :: string
  me_seq :: int
  me_stored_at :: u64

record Mailbox =
  mb_entries :: "MailboxEntry list"
  mb_max_size :: nat

definition mailbox_new :: "nat \<Rightarrow> Mailbox" where
  "mailbox_new max_size = \<lparr>mb_entries = [], mb_max_size = max_size\<rparr>"

text \<open>\<open>position\<close> and \<open>remove\<close>: drop the first element that satisfies a predicate.\<close>

fun remove_first :: "('a \<Rightarrow> bool) \<Rightarrow> 'a list \<Rightarrow> 'a list" where
  "remove_first P [] = []"
| "remove_first P (x # xs) = (if P x then xs else x # remove_first P xs)"

definition from_sender :: "string \<Rightarrow> MailboxEntry list \<Rightarrow> MailboxEntry list" where
  "from_sender fp es = filter (\<lambda>e. me_sender_fp e = fp) es"

definition others :: "string \<Rightarrow> MailboxEntry list \<Rightarrow> MailboxEntry list" where
  "others fp es = filter (\<lambda>e. me_sender_fp e \<noteq> fp) es"

definition mailbox_store :: "MailboxEntry \<Rightarrow> Mailbox \<Rightarrow> Mailbox" where
  "mailbox_store entry mb =
     (let sender_count = length (from_sender (me_sender_fp entry) (mb_entries mb));
          kept = (if MAX_ENTRIES_PER_SENDER \<le> sender_count
                  then remove_first (\<lambda>e. me_sender_fp e = me_sender_fp entry) (mb_entries mb)
                  else if mb_max_size mb \<le> length (mb_entries mb) then tl (mb_entries mb)
                  else mb_entries mb)
      in mb\<lparr>mb_entries := kept @ [entry]\<rparr>)"

definition mailbox_fetch :: "u64 \<Rightarrow> Mailbox \<Rightarrow> MailboxEntry list" where
  "mailbox_fetch now mb = filter (\<lambda>e. now - me_stored_at e < MAILBOX_TTL_SECONDS) (mb_entries mb)"

definition mailbox_ack :: "int \<Rightarrow> Mailbox \<Rightarrow> Mailbox" where
  "mailbox_ack seq mb = mb\<lparr>mb_entries := filter (\<lambda>e. me_seq e \<noteq> seq) (mb_entries mb)\<rparr>"

section \<open>The persistent table\<close>

record MailRow =
  row_recipient_nid :: string
  row_signed_blob :: string
  row_sender_nid :: string
  row_sender_fp :: string
  row_seq :: int
  row_stored_at :: int
  row_delivered :: bool
  row_sender_encrypted :: string

text \<open>Part of \<open>RelayState\<close>: the mailboxes by recipient, the table if a database is configured (in
  order of insertion), and the key for the sender metadata.\<close>

record mail_state =
  ms_mailboxes :: "(string \<times> Mailbox) list"
  ms_db :: "MailRow list option"
  ms_metadata_key :: bytes

record MailboxStoreRequest =
  sr_recipient_nid :: string
  sr_signed_blob :: string
  sr_sender_nid :: string
  sr_sender_fp :: string
  sr_seq :: int
  sr_sender_sig :: string
  sr_timestamp :: f64
  sr_nonce :: string
  sr_sender_cert :: string
  sr_sealed_sender :: string

text \<open>\<open>encrypt\<close> panics if AES fails; \<open>None\<close> stands for the panic.\<close>

definition encrypt_metadata :: "crypto_lib \<Rightarrow> bytes \<Rightarrow> string \<Rightarrow> bytes \<Rightarrow> string option" where
  "encrypt_metadata L nonce_bytes plaintext key =
     map_option (\<lambda>ciphertext. hex_encode L (nonce_bytes @ ciphertext))
       (aes_encrypt L key nonce_bytes (as_bytes plaintext))"

definition decrypt_metadata :: "crypto_lib \<Rightarrow> string \<Rightarrow> bytes \<Rightarrow> string option" where
  "decrypt_metadata L encrypted_hex key =
     Option.bind (hex_decode L encrypted_hex) (\<lambda>data.
       if length data < 28 then None
       else Option.bind (aes_decrypt L key (take 12 data) (drop 12 data)) from_utf8)"

definition request_entry :: "u64 \<Rightarrow> MailboxStoreRequest \<Rightarrow> MailboxEntry" where
  "request_entry now req =
     \<lparr>me_signed_blob = sr_signed_blob req, me_sender_nid = sr_sender_nid req,
      me_sender_fp = sr_sender_fp req, me_seq = sr_seq req, me_stored_at = now\<rparr>"

definition store_message :: "crypto_lib \<Rightarrow> bool \<Rightarrow> bytes \<Rightarrow> u64 \<Rightarrow> MailboxStoreRequest \<Rightarrow> mail_state
    \<Rightarrow> (string + unit) \<times> mail_state" where
  "store_message L db_ok nonce_bytes now req M =
     (let nid = sr_recipient_nid req;
          mailbox = opt_or (mailbox_new MAX_MAILBOX_SIZE) (map_of (ms_mailboxes M) nid);
          mailbox = mailbox_store (request_entry now req) mailbox;
          M = M\<lparr>ms_mailboxes := AList.update nid mailbox (ms_mailboxes M)\<rparr>
      in case ms_db M of
           None \<Rightarrow> (Inr (), M)
         | Some rows \<Rightarrow>
             (case encrypt_metadata L nonce_bytes (sr_sender_nid req @ [CHR 0x0A] @ sr_sender_fp req)
                     (ms_metadata_key M) of
                None \<Rightarrow> (Inl ''panic: AES-256-GCM encrypt'', M)
              | Some sender_encrypted \<Rightarrow>
                  if \<not> db_ok then (Inl ''db store error'', M)
                  else (Inr (), M\<lparr>ms_db := Some (rows @
                         [\<lparr>row_recipient_nid = nid, row_signed_blob = sr_signed_blob req,
                           row_sender_nid = sr_sender_nid req, row_sender_fp = sr_sender_fp req,
                           row_seq = sr_seq req, row_stored_at = sint now, row_delivered = False,
                           row_sender_encrypted = sender_encrypted\<rparr>])\<rparr>)))"

definition row_entry :: "MailRow \<Rightarrow> MailboxEntry" where
  "row_entry r =
     \<lparr>me_signed_blob = row_signed_blob r, me_sender_nid = row_sender_nid r,
      me_sender_fp = row_sender_fp r, me_seq = row_seq r, me_stored_at = word_of_int (row_stored_at r)\<rparr>"

text \<open>\<open>ORDER BY seq\<close> leaves the order of equal sequence numbers open; rows with equal numbers are
  kept in insertion order here.\<close>

definition fetch_messages :: "bool \<Rightarrow> u64 \<Rightarrow> string \<Rightarrow> mail_state \<Rightarrow> MailboxEntry list" where
  "fetch_messages db_ok now recipient_nid M =
     (let from_db = (case ms_db M of
                       None \<Rightarrow> []
                     | Some rows \<Rightarrow>
                         if db_ok then map row_entry (sort_key row_seq
                           (filter (\<lambda>r. row_recipient_nid r = recipient_nid \<and> \<not> row_delivered r) rows))
                         else [])
      in if from_db \<noteq> [] then from_db
         else (case map_of (ms_mailboxes M) recipient_nid of
                 None \<Rightarrow> [] | Some mb \<Rightarrow> mailbox_fetch now mb))"

definition update_mailbox :: "string \<Rightarrow> (Mailbox \<Rightarrow> Mailbox) \<Rightarrow> mail_state \<Rightarrow> mail_state" where
  "update_mailbox nid f M =
     (case map_of (ms_mailboxes M) nid of
        None \<Rightarrow> M | Some mb \<Rightarrow> M\<lparr>ms_mailboxes := AList.update nid (f mb) (ms_mailboxes M)\<rparr>)"

definition update_rows :: "bool \<Rightarrow> (MailRow list \<Rightarrow> MailRow list) \<Rightarrow> mail_state \<Rightarrow> mail_state" where
  "update_rows db_ok f M = (if db_ok then M\<lparr>ms_db := map_option f (ms_db M)\<rparr> else M)"

definition ack_message :: "bool \<Rightarrow> string \<Rightarrow> int \<Rightarrow> mail_state \<Rightarrow> mail_state" where
  "ack_message db_ok recipient_nid seq M =
     update_rows db_ok
       (map (\<lambda>r. if row_recipient_nid r = recipient_nid \<and> row_seq r = seq \<and> \<not> row_delivered r
                 then r\<lparr>row_delivered := True\<rparr> else r))
       (update_mailbox recipient_nid (mailbox_ack seq) M)"

definition purge_all_messages :: "bool \<Rightarrow> string \<Rightarrow> mail_state \<Rightarrow> mail_state" where
  "purge_all_messages db_ok recipient_nid M =
     update_rows db_ok (filter (\<lambda>r. row_recipient_nid r \<noteq> recipient_nid))
       (M\<lparr>ms_mailboxes := AList.delete recipient_nid (ms_mailboxes M)\<rparr>)"

definition cleanup_expired :: "bool \<Rightarrow> u64 \<Rightarrow> mail_state \<Rightarrow> mail_state" where
  "cleanup_expired db_ok now M =
     (let trimmed = map (\<lambda>(k, mb). (k, mb\<lparr>mb_entries :=
            filter (\<lambda>e. now - me_stored_at e < MAILBOX_TTL_SECONDS) (mb_entries mb)\<rparr>)) (ms_mailboxes M);
          cutoff = sint (now - MAILBOX_TTL_SECONDS)
      in update_rows db_ok (filter (\<lambda>r. \<not> (row_stored_at r < cutoff \<and> row_delivered r)))
           (M\<lparr>ms_mailboxes := filter (\<lambda>(_, mb). mb_entries mb \<noteq> []) trimmed\<rparr>))"

definition get_local_null_ids :: "mail_state \<Rightarrow> string list" where
  "get_local_null_ids M = map fst (ms_mailboxes M)"

section \<open>Bounds of a mailbox\<close>

definition mailbox_ok :: "Mailbox \<Rightarrow> bool" where
  "mailbox_ok mb \<longleftrightarrow> 0 < mb_max_size mb \<and> length (mb_entries mb) \<le> mb_max_size mb
     \<and> (\<forall>fp. length (from_sender fp (mb_entries mb)) \<le> MAX_ENTRIES_PER_SENDER)"

lemma length_remove_first:
  "length (remove_first P xs) = (if list_ex P xs then length xs - 1 else length xs)"
  by (induction xs) (auto simp: list_ex_iff dest: length_pos_if_in_set)

lemma filter_remove_first:
  "length (filter Q (remove_first P xs)) \<le> length (filter Q xs)"
  by (induction xs) auto

lemma from_remove_first:
  "from_sender fp es \<noteq> [] \<Longrightarrow>
     length (from_sender fp (remove_first (\<lambda>e. me_sender_fp e = fp) es)) = length (from_sender fp es) - 1"
  by (induction es) (auto simp: from_sender_def)

lemma others_remove_first [simp]: "others fp (remove_first (\<lambda>e. me_sender_fp e = fp) es) = others fp es"
  by (induction es) (auto simp: others_def)

lemma from_sender_simps [simp]:
  "from_sender fp [] = []"
  "from_sender fp (es @ es') = from_sender fp es @ from_sender fp es'"
  "from_sender fp [e] = (if me_sender_fp e = fp then [e] else [])"
  by (simp_all add: from_sender_def)

lemma others_simps [simp]:
  "others fp (es @ es') = others fp es @ others fp es'"
  "others fp [e] = (if me_sender_fp e = fp then [] else [e])"
  by (simp_all add: others_def)

lemma from_sender_tl: "length (from_sender fp (tl es)) \<le> length (from_sender fp es)"
  by (cases es) (simp_all add: from_sender_def)

lemma from_plus_others: "length (from_sender fp es) + length (others fp es) = length es"
  by (induction es) (auto simp: from_sender_def others_def)

lemma from_sender_ne_ex: "from_sender fp es \<noteq> [] \<longleftrightarrow> list_ex (\<lambda>e. me_sender_fp e = fp) es"
  by (induction es) (auto simp: from_sender_def)

lemma mailbox_ok_store [invs]:
  assumes "mailbox_ok mb"
  shows "mailbox_ok (mailbox_store entry mb)"
proof -
  let ?s = "me_sender_fp entry" and ?es = "mb_entries mb"
  have cap: "length (from_sender fp ?es) \<le> 10" for fp
    using assms by (simp add: mailbox_ok_def MAX_ENTRIES_PER_SENDER_def)
  consider (own) "10 \<le> length (from_sender ?s ?es)"
    | (full) "length (from_sender ?s ?es) < 10" "mb_max_size mb \<le> length ?es"
    | (room) "length (from_sender ?s ?es) < 10" "length ?es < mb_max_size mb" by linarith
  then show ?thesis
  proof cases
    case own
    then have ne: "from_sender ?s ?es \<noteq> []" by auto
    have le: "length (from_sender fp (remove_first (\<lambda>e. me_sender_fp e = ?s) ?es)) \<le> length (from_sender fp ?es)" for fp
      unfolding from_sender_def by (rule filter_remove_first)
    have "length (from_sender fp (remove_first (\<lambda>e. me_sender_fp e = ?s) ?es @ [entry])) \<le> 10" for fp
      using from_remove_first [OF ne] cap [of ?s] order_trans [OF le cap, of fp] own by auto
    moreover have "length (remove_first (\<lambda>e. me_sender_fp e = ?s) ?es) = length ?es - 1" "0 < length ?es"
      using ne by (auto simp: length_remove_first from_sender_ne_ex)
    ultimately show ?thesis
      using own assms by (simp add: mailbox_store_def mailbox_ok_def MAX_ENTRIES_PER_SENDER_def Let_def)
  next
    case full
    with assms have "0 < length ?es" by (simp add: mailbox_ok_def)
    have "length (from_sender fp (tl ?es @ [entry])) \<le> 10" for fp
      using full(1) order_trans [OF from_sender_tl cap, of fp] from_sender_tl [of ?s ?es] by auto
    with full assms \<open>0 < length ?es\<close> show ?thesis
      by (simp add: mailbox_store_def mailbox_ok_def MAX_ENTRIES_PER_SENDER_def)
  next
    case room
    have "length (from_sender fp (?es @ [entry])) \<le> 10" for fp
      using room(1) assms by (auto simp: mailbox_ok_def MAX_ENTRIES_PER_SENDER_def)
    with room assms show ?thesis
      by (simp add: mailbox_store_def mailbox_ok_def MAX_ENTRIES_PER_SENDER_def)
  qed
qed

lemma mailbox_ok_filter [invs]: "mailbox_ok mb \<Longrightarrow> mailbox_ok (mb\<lparr>mb_entries := filter P (mb_entries mb)\<rparr>)"
proof -
  have "length (from_sender fp (filter P es)) \<le> length (from_sender fp es)" for fp es
    unfolding from_sender_def filter_filter by (rule length_filter_imp) simp
  then show "mailbox_ok mb \<Longrightarrow> ?thesis"
    by (auto simp: mailbox_ok_def intro: order_trans [OF length_filter_le] order_trans)
qed

section \<open>Histories of the mail store\<close>

datatype mail_event =
    MStore bool bytes u64 MailboxStoreRequest
  | MAck bool string int
  | MPurge bool string
  | MCleanup bool u64

fun mail_step :: "crypto_lib \<Rightarrow> mail_event \<Rightarrow> mail_state \<Rightarrow> mail_state" where
  "mail_step L (MStore db_ok nonce now req) M = snd (store_message L db_ok nonce now req M)"
| "mail_step L (MAck db_ok nid seq) M = ack_message db_ok nid seq M"
| "mail_step L (MPurge db_ok nid) M = purge_all_messages db_ok nid M"
| "mail_step L (MCleanup db_ok now) M = cleanup_expired db_ok now M"

definition mail_ok :: "mail_state \<Rightarrow> bool" where
  "mail_ok M \<longleftrightarrow> wf_map (ms_mailboxes M)
     \<and> (\<forall>(k, mb) \<in> set (ms_mailboxes M). mailbox_ok mb \<and> mb_max_size mb = MAX_MAILBOX_SIZE)"

lemma mail_ok_update:
  assumes "mail_ok M" and "mailbox_ok mb" and "mb_max_size mb = MAX_MAILBOX_SIZE"
  shows "mail_ok (M\<lparr>ms_mailboxes := AList.update k mb (ms_mailboxes M)\<rparr>)"
  using assms set_AList_update [of k mb "ms_mailboxes M"] by (auto simp: mail_ok_def)

lemma mail_ok_db [simp]: "mail_ok (M\<lparr>ms_db := db\<rparr>) = mail_ok M"
  by (simp add: mail_ok_def)

lemma mail_ok_update_rows [simp]: "mail_ok (update_rows db_ok f M) = mail_ok M"
  by (simp add: update_rows_def)

lemma mailboxes_update_rows [simp]: "ms_mailboxes (update_rows db_ok f M) = ms_mailboxes M"
  by (simp add: update_rows_def)

lemma mail_ok_lookup:
  "mail_ok M \<Longrightarrow> map_of (ms_mailboxes M) k = Some mb \<Longrightarrow> mailbox_ok mb \<and> mb_max_size mb = MAX_MAILBOX_SIZE"
  by (auto simp: mail_ok_def dest!: map_of_SomeD)

lemma mailbox_new_ok: "mailbox_ok (mailbox_new MAX_MAILBOX_SIZE)"
  by (simp add: mailbox_ok_def mailbox_new_def MAX_MAILBOX_SIZE_def)

lemma mb_max_size_store [simp]: "mb_max_size (mailbox_store e mb) = mb_max_size mb"
  by (simp add: mailbox_store_def Let_def)

lemma mail_ok_store [invs]:
  assumes "mail_ok M"
  shows "mail_ok (snd (store_message L db_ok nonce now req M))"
proof -
  let ?nid = "sr_recipient_nid req"
  let ?mb = "opt_or (mailbox_new MAX_MAILBOX_SIZE) (map_of (ms_mailboxes M) ?nid)"
  have "mailbox_ok ?mb \<and> mb_max_size ?mb = MAX_MAILBOX_SIZE"
    using mail_ok_lookup [OF assms] mailbox_new_ok
    by (cases "map_of (ms_mailboxes M) ?nid") (auto simp: mailbox_new_def)
  then have "mail_ok (M\<lparr>ms_mailboxes := AList.update ?nid (mailbox_store (request_entry now req) ?mb) (ms_mailboxes M)\<rparr>)"
    by (intro mail_ok_update) (simp_all add: assms invs)
  then show ?thesis
    by (auto simp: store_message_def Let_def split: option.split)
qed

lemma mail_ok_ack [invs]: "mail_ok M \<Longrightarrow> mail_ok (ack_message db_ok nid seq M)"
  by (auto simp: ack_message_def update_mailbox_def mailbox_ack_def split: option.split
      intro!: mail_ok_update mailbox_ok_filter dest: mail_ok_lookup)

lemma mail_ok_purge [invs]: "mail_ok M \<Longrightarrow> mail_ok (purge_all_messages db_ok nid M)"
  by (auto simp: purge_all_messages_def mail_ok_def AList.delete_eq intro!: wf_map_filter)

lemma mail_ok_cleanup [invs]: "mail_ok M \<Longrightarrow> mail_ok (cleanup_expired db_ok now M)"
  by (auto simp: cleanup_expired_def mail_ok_def Let_def o_def case_prod_beta invs
      intro!: wf_map_filter)

interpretation mail: state_machine "\<lparr>ms_mailboxes = [], ms_db = db, ms_metadata_key = k\<rparr>" "mail_step L" mail_ok
  for db k L
proof
  show "mail_ok \<lparr>ms_mailboxes = [], ms_db = db, ms_metadata_key = k\<rparr>" by (simp add: mail_ok_def)
  show "mail_ok (mail_step L e M)" if "mail_ok M" for e M
    using that by (cases e) (simp_all add: invs)
qed

section \<open>Properties of the mail store\<close>

text \<open>
  Mailboxes are bounded: after any history of stores, acknowledgements, purges and clean-ups, with
  any database failures, no recipient has more than 1000 messages in memory and no sender
  has more than 10 of them.
\<close>

theorem mailboxes_bounded:
  "list_all (\<lambda>(nid, mb). length (mb_entries mb) \<le> 1000 \<and> (\<forall>fp. length (from_sender fp (mb_entries mb)) \<le> 10))
     (ms_mailboxes (fold (mail_step L) es \<lparr>ms_mailboxes = [], ms_db = db, ms_metadata_key = k\<rparr>))"
proof -
  have "mail_ok (fold (mail_step L) es \<lparr>ms_mailboxes = [], ms_db = db, ms_metadata_key = k\<rparr>)"
    by (rule mail.run_init_ok)
  then show ?thesis
    by (auto simp: mail_ok_def mailbox_ok_def list_all_iff MAX_MAILBOX_SIZE_def MAX_ENTRIES_PER_SENDER_def)
qed

lemma others_store: "suffix (others (me_sender_fp e) (mb_entries (mailbox_store e mb))) (others (me_sender_fp e) (mb_entries mb))"
proof -
  have "suffix (others fp (tl es)) (others fp es)" for fp es
    by (cases es) (auto simp: others_def suffix_def)
  then show ?thesis
    by (auto simp: mailbox_store_def Let_def)
qed

lemma length_store: "mailbox_ok mb \<Longrightarrow> length (mb_entries mb) \<le> length (mb_entries (mailbox_store e mb))"
  by (auto simp: mailbox_store_def Let_def length_remove_first mailbox_ok_def)

text \<open>
  One sender cannot flush a mailbox: however many messages one sender stores, at most ten messages
  of the other senders are displaced, they are the oldest ones, and the rest keep their order.
\<close>

theorem mailbox_flood_bounded:
  assumes "mailbox_ok mb" and "list_all (\<lambda>e. me_sender_fp e = s) es"
  shows "suffix (others s (mb_entries (fold mailbox_store es mb))) (others s (mb_entries mb))
    \<and> length (others s (mb_entries mb)) \<le> length (others s (mb_entries (fold mailbox_store es mb))) + 10"
proof -
  have "suffix (others s (mb_entries (fold mailbox_store es mb))) (others s (mb_entries mb))
      \<and> length (mb_entries mb) \<le> length (mb_entries (fold mailbox_store es mb)) \<and> mailbox_ok (fold mailbox_store es mb)"
    using assms
  proof (induction es arbitrary: mb)
    case (Cons e es)
    then show ?case
      using others_store [of e mb] length_store [of mb e] mailbox_ok_store [of mb e]
      by (auto intro: suffix_order.trans order_trans)
  qed simp
  moreover have "length (from_sender s (mb_entries (fold mailbox_store es mb))) \<le> 10" if "mailbox_ok (fold mailbox_store es mb)"
    using that by (simp add: mailbox_ok_def MAX_ENTRIES_PER_SENDER_def)
  ultimately show ?thesis
    using from_plus_others [of s "mb_entries mb"] from_plus_others [of s "mb_entries (fold mailbox_store es mb)"]
    by fastforce
qed

definition flood :: "MailboxEntry list" where
  "flood = replicate 12 \<lparr>me_signed_blob = ''x'', me_sender_nid = ''n'', me_sender_fp = ''mallory'',
     me_seq = 1, me_stored_at = 0\<rparr>"

definition small_box :: Mailbox where
  "small_box = \<lparr>mb_entries = [\<lparr>me_signed_blob = ''hello'', me_sender_nid = ''n'', me_sender_fp = ''alice'',
     me_seq = 1, me_stored_at = 0\<rparr>], mb_max_size = 20\<rparr>"

theorem mailbox_flood_bounded_witness:
  "suffix (others ''mallory'' (mb_entries (fold mailbox_store flood small_box))) (others ''mallory'' (mb_entries small_box))
    \<and> length (others ''mallory'' (mb_entries small_box))
        \<le> length (others ''mallory'' (mb_entries (fold mailbox_store flood small_box))) + 10"
proof (rule mailbox_flood_bounded)
  show "mailbox_ok small_box"
    by (simp add: mailbox_ok_def small_box_def from_sender_def MAX_ENTRIES_PER_SENDER_def)
  show "list_all (\<lambda>e. me_sender_fp e = ''mallory'') flood"
    by (simp add: flood_def list_all_iff)
qed

lemma store_has_entry: "e \<in> set (mb_entries (mailbox_store e mb))"
  by (simp add: mailbox_store_def Let_def)

lemma row_entry_request:
  "row_entry \<lparr>row_recipient_nid = nid, row_signed_blob = sr_signed_blob req, row_sender_nid = sr_sender_nid req,
     row_sender_fp = sr_sender_fp req, row_seq = sr_seq req, row_stored_at = sint now, row_delivered = False,
     row_sender_encrypted = enc\<rparr> = request_entry now req"
  by (simp add: row_entry_def request_entry_def)

text \<open>
  A message that the relay reports as stored is delivered by the next fetch of its recipient within
  the seven days, whether or not the database answers the fetch.
\<close>

theorem stored_message_fetched:
  assumes "fst (store_message L db_ok nonce now req M) = Inr ()" and "now' - now < MAILBOX_TTL_SECONDS"
  shows "request_entry now req \<in> set (fetch_messages db_ok' now' (sr_recipient_nid req)
    (snd (store_message L db_ok nonce now req M)))"
proof -
  let ?mb = "opt_or (mailbox_new MAX_MAILBOX_SIZE) (map_of (ms_mailboxes M) (sr_recipient_nid req))"
  have mem: "request_entry now req \<in> set (mailbox_fetch now' (mailbox_store (request_entry now req) ?mb))"
    using assms(2) store_has_entry by (simp add: mailbox_fetch_def request_entry_def [of now])
  show ?thesis
  proof (cases "ms_db M")
    case None
    with mem show ?thesis by (simp add: store_message_def fetch_messages_def Let_def update_conv')
  next
    case (Some rows)
    then obtain enc where enc: "encrypt_metadata L nonce (sr_sender_nid req @ [CHR 0x0A] @ sr_sender_fp req)
        (ms_metadata_key M) = Some enc" and ok: db_ok
      using assms(1) by (auto simp: store_message_def Let_def split: option.splits if_splits)
    show ?thesis
      using mem Some enc ok by (simp add: store_message_def fetch_messages_def Let_def update_conv' row_entry_request)
  qed
qed

definition hello_request :: "string \<Rightarrow> int \<Rightarrow> MailboxStoreRequest" where
  "hello_request fp n = \<lparr>sr_recipient_nid = ''bob'', sr_signed_blob = ''hi '' @ fp, sr_sender_nid = ''n'',
     sr_sender_fp = fp, sr_seq = n, sr_sender_sig = [], sr_timestamp = 0, sr_nonce = [], sr_sender_cert = [],
     sr_sealed_sender = []\<rparr>"

definition empty_mail :: mail_state where
  "empty_mail = \<lparr>ms_mailboxes = [], ms_db = Some [], ms_metadata_key = []\<rparr>"

theorem stored_message_fetched_witness:
  "request_entry 5 (hello_request ''alice'' 1) \<in> set (fetch_messages False 9 ''bob''
    (snd (store_message toy_crypto True [] 5 (hello_request ''alice'' 1) empty_mail)))"
proof -
  have "fst (store_message toy_crypto True [] 5 (hello_request ''alice'' 1) empty_mail) = Inr ()"
    by (simp add: store_message_def empty_mail_def hello_request_def encrypt_metadata_def toy_crypto_def Let_def)
  moreover have "9 - 5 < MAILBOX_TTL_SECONDS" by (simp add: MAILBOX_TTL_SECONDS_def)
  ultimately show ?thesis
    using stored_message_fetched [of toy_crypto True "[]" 5 "hello_request ''alice'' 1" empty_mail 9 False]
    by (simp add: hello_request_def)
qed

text \<open>What a recipient has in memory and, undelivered, in the database. The operations of the mail
  store are characterised by their effect on these two lists.\<close>

definition in_memory :: "string \<Rightarrow> mail_state \<Rightarrow> MailboxEntry list" where
  "in_memory nid M = (case map_of (ms_mailboxes M) nid of None \<Rightarrow> [] | Some mb \<Rightarrow> mb_entries mb)"

definition pending :: "string \<Rightarrow> mail_state \<Rightarrow> MailRow list" where
  "pending nid M = (case ms_db M of None \<Rightarrow> []
     | Some rows \<Rightarrow> filter (\<lambda>r. row_recipient_nid r = nid \<and> \<not> row_delivered r) rows)"

lemma fetch_messages_eq:
  "fetch_messages db_ok now nid M =
     (if db_ok \<and> pending nid M \<noteq> [] then map row_entry (sort_key row_seq (pending nid M))
      else filter (\<lambda>e. now - me_stored_at e < MAILBOX_TTL_SECONDS) (in_memory nid M))"
proof -
  have "sort_key f xs = [] \<longleftrightarrow> xs = []" for f :: "MailRow \<Rightarrow> int" and xs
    by (metis length_0_conv length_sort)
  then show ?thesis
    by (simp add: fetch_messages_def Let_def in_memory_def pending_def mailbox_fetch_def split: option.split)
qed

lemma in_memory_ack [simp]:
  "in_memory nid (ack_message db_ok nid' n M) =
     (if nid' = nid then filter (\<lambda>e. me_seq e \<noteq> n) (in_memory nid M) else in_memory nid M)"
  by (simp add: in_memory_def ack_message_def update_mailbox_def mailbox_ack_def update_conv' split: option.split)

lemma db_update_mailbox [simp]: "ms_db (update_mailbox nid f M) = ms_db M"
  by (simp add: update_mailbox_def split: option.split)

lemma pending_ack [simp]:
  "pending nid (ack_message db_ok nid' n M) =
     (if db_ok \<and> nid' = nid then filter (\<lambda>r. row_seq r \<noteq> n) (pending nid M) else pending nid M)"
proof -
  let ?P = "\<lambda>r. row_recipient_nid r = nid \<and> \<not> row_delivered r"
  have eq: "filter ?P (map (\<lambda>r. if row_recipient_nid r = k \<and> row_seq r = n \<and> \<not> row_delivered r
        then r\<lparr>row_delivered := True\<rparr> else r) rows)
      = (if k = nid then filter (\<lambda>r. row_seq r \<noteq> n) (filter ?P rows) else filter ?P rows)" for rows k
    by (induction rows) auto
  show ?thesis
    by (simp add: pending_def ack_message_def update_rows_def eq del: filter_filter split: option.split)
qed

lemma in_memory_purge [simp]:
  "in_memory nid (purge_all_messages db_ok nid' M) = (if nid' = nid then [] else in_memory nid M)"
  by (simp add: in_memory_def purge_all_messages_def delete_conv')

lemma pending_purge [simp]:
  "pending nid (purge_all_messages db_ok nid' M) = (if db_ok \<and> nid' = nid then [] else pending nid M)"
  by (cases "ms_db M") (auto simp: pending_def purge_all_messages_def update_rows_def filter_empty_conv intro: filter_cong)

lemma pending_cleanup [simp]: "pending nid (cleanup_expired db_ok now M) = pending nid M"
  by (cases "ms_db M") (auto simp: pending_def cleanup_expired_def update_rows_def Let_def intro: filter_cong)

lemma in_memory_cleanup:
  assumes "mail_ok M"
  shows "set (in_memory nid (cleanup_expired db_ok now M)) \<subseteq> set (in_memory nid M)"
proof (cases "map_of (ms_mailboxes (cleanup_expired db_ok now M)) nid")
  case (Some mb)
  then obtain mb' where mb': "(nid, mb') \<in> set (ms_mailboxes M)" "set (mb_entries mb) \<subseteq> set (mb_entries mb')"
    by (auto simp: cleanup_expired_def Let_def dest!: map_of_SomeD)
  then have "map_of (ms_mailboxes M) nid = Some mb'"
    using assms by (simp add: mail_ok_def)
  with Some mb' show ?thesis by (simp add: in_memory_def)
qed (simp add: in_memory_def)

lemma set_mailbox_store: "set (mb_entries (mailbox_store e mb)) \<subseteq> insert e (set (mb_entries mb))"
proof -
  have h1: "x \<in> set (remove_first P xs) \<Longrightarrow> x \<in> set xs" for P x and xs :: "MailboxEntry list"
    by (induction xs) (auto split: if_splits)
  have h2: "x \<in> set (tl xs) \<Longrightarrow> x \<in> set xs" for x and xs :: "MailboxEntry list" by (cases xs) auto
  show ?thesis by (auto simp: mailbox_store_def Let_def dest: h1 h2)
qed

lemma in_memory_store:
  "set (in_memory nid (snd (store_message L db_ok nonce now req M))) \<subseteq>
     (if sr_recipient_nid req = nid then {request_entry now req} else {}) \<union> set (in_memory nid M)"
proof -
  let ?mb = "opt_or (mailbox_new MAX_MAILBOX_SIZE) (map_of (ms_mailboxes M) (sr_recipient_nid req))"
  have "in_memory nid (snd (store_message L db_ok nonce now req M)) =
      (if sr_recipient_nid req = nid then mb_entries (mailbox_store (request_entry now req) ?mb) else in_memory nid M)"
    by (simp add: in_memory_def store_message_def Let_def update_conv' split: option.split)
  moreover have "set (mb_entries ?mb) \<subseteq> set (in_memory (sr_recipient_nid req) M)"
    by (cases "map_of (ms_mailboxes M) (sr_recipient_nid req)") (simp_all add: in_memory_def mailbox_new_def)
  ultimately show ?thesis
    using set_mailbox_store [of "request_entry now req" ?mb] by auto
qed

lemma pending_store:
  "row_seq ` set (pending nid (snd (store_message L db_ok nonce now req M))) \<subseteq>
     (if sr_recipient_nid req = nid then {sr_seq req} else {}) \<union> row_seq ` set (pending nid M)"
  by (auto simp: pending_def store_message_def Let_def split: option.split)

text \<open>No fetch of a recipient can return the sequence number.\<close>

definition gone :: "string \<Rightarrow> int \<Rightarrow> mail_state \<Rightarrow> bool" where
  "gone nid n M \<longleftrightarrow> n \<notin> me_seq ` set (in_memory nid M) \<and> n \<notin> row_seq ` set (pending nid M)"

fun stores :: "string \<Rightarrow> int \<Rightarrow> mail_event \<Rightarrow> bool" where
  "stores nid n (MStore db_ok nonce now req) = (sr_recipient_nid req = nid \<and> sr_seq req = n)"
| "stores nid n _ = False"

lemma gone_fetch: "gone nid n M \<Longrightarrow> n \<notin> me_seq ` set (fetch_messages db_ok now nid M)"
  by (auto simp: gone_def fetch_messages_eq row_entry_def)

lemma gone_ack: "gone nid n (ack_message True nid n M)"
  by (auto simp: gone_def)

lemma gone_store:
  assumes "gone nid n M" and "\<not> (sr_recipient_nid req = nid \<and> sr_seq req = n)"
  shows "gone nid n (snd (store_message L db_ok nonce now req M))"
proof -
  have "me_seq (request_entry now req) = sr_seq req" by (simp add: request_entry_def)
  then show ?thesis
    using assms in_memory_store [of nid L db_ok nonce now req M] pending_store [of nid L db_ok nonce now req M]
    by (auto simp: gone_def split: if_splits)
qed

lemma gone_step:
  "gone nid n M \<Longrightarrow> mail_ok M \<Longrightarrow> \<not> stores nid n e \<Longrightarrow> gone nid n (mail_step L e M)"
  using in_memory_cleanup [of M nid]
  by (cases e) (auto simp: gone_store, auto simp: gone_def)

text \<open>
  An acknowledged message is not delivered again: once the acknowledgement of a sequence number has
  been recorded, no later fetch of that recipient returns it, through every later
  history that does not store a new message with that number, and whether or not the database answers.
\<close>

theorem acknowledged_not_redelivered:
  assumes "list_all (\<lambda>e. \<not> stores nid n e) es'"
  shows "n \<notin> me_seq ` set (fetch_messages db_ok now nid
    (fold (mail_step L) (es @ MAck True nid n # es') \<lparr>ms_mailboxes = [], ms_db = db, ms_metadata_key = k\<rparr>))"
proof -
  let ?M = "fold (mail_step L) es \<lparr>ms_mailboxes = [], ms_db = db, ms_metadata_key = k\<rparr>"
  have "mail_ok (ack_message True nid n ?M)" by (intro invs mail.run_init_ok)
  moreover have "gone nid n M \<Longrightarrow> mail_ok M \<Longrightarrow> gone nid n (fold (mail_step L) es' M)" for M
    using assms
  proof (induction es' arbitrary: M)
    case (Cons e es')
    then show ?case using gone_step [of nid n M e L] mail.step_ok [of M L e] by simp
  qed simp
  ultimately show ?thesis
    using gone_ack [of nid n ?M] gone_fetch by simp
qed

theorem acknowledged_not_redelivered_witness:
  "1 \<notin> me_seq ` set (fetch_messages True 9 ''bob''
    (fold (mail_step toy_crypto) ([MStore True [] 5 (hello_request ''alice'' 1)] @ MAck True ''bob'' 1 #
       [MStore True [] 7 (hello_request ''alice'' 2)]) \<lparr>ms_mailboxes = [], ms_db = Some [], ms_metadata_key = []\<rparr>))"
  by (rule acknowledged_not_redelivered) (simp add: hello_request_def)

text \<open>
  Sequence numbers are chosen by senders, but an acknowledgement names the number only: with two
  senders using the same number, acknowledging the message of one drops the unread message of the other,
  in memory and in the database.
\<close>

theorem ack_drops_other_sender:
  "let M = fold (mail_step toy_crypto)
         [MStore True [] 5 (hello_request ''alice'' 1), MStore True [] 6 (hello_request ''carol'' 1)] empty_mail
   in map me_signed_blob (fetch_messages True 7 ''bob'' M) = [''hi alice'', ''hi carol'']
      \<and> fetch_messages True 8 ''bob'' (mail_step toy_crypto (MAck True ''bob'' 1) M) = []
      \<and> fetch_messages False 8 ''bob'' (mail_step toy_crypto (MAck True ''bob'' 1) M) = []"
  by (simp add: Let_def empty_mail_def hello_request_def store_message_def encrypt_metadata_def toy_crypto_def
      fetch_messages_def ack_message_def update_mailbox_def update_rows_def mailbox_ack_def mailbox_store_def
      mailbox_new_def request_entry_def row_entry_def from_sender_def MAX_ENTRIES_PER_SENDER_def
      MAX_MAILBOX_SIZE_def mailbox_fetch_def)

lemma pending_cleanups: "pending nid (fold (\<lambda>(db_ok, t). cleanup_expired db_ok t) cs M) = pending nid M"
  by (induction cs arbitrary: M) auto

text \<open>
  The seven-day limit holds for the memory only. A stored message that is never acknowledged stays in
  the database: whatever clean-ups run and however late the fetch, it is still returned.
\<close>

theorem unacknowledged_never_expires:
  assumes "fst (store_message L True nonce now req M) = Inr ()" and "ms_db M \<noteq> None"
  shows "request_entry now req \<in> set (fetch_messages True late (sr_recipient_nid req)
    (fold (\<lambda>(db_ok, t). cleanup_expired db_ok t) cs (snd (store_message L True nonce now req M))))"
proof -
  obtain rows row where row: "ms_db (snd (store_message L True nonce now req M)) = Some (rows @ [row])"
      "row_recipient_nid row = sr_recipient_nid req" "\<not> row_delivered row" "row_entry row = request_entry now req"
    using assms by (auto simp: store_message_def Let_def row_entry_request split: option.splits)
  then have "row \<in> set (pending (sr_recipient_nid req) (snd (store_message L True nonce now req M)))"
    by (simp add: pending_def)
  then have "request_entry now req \<in> row_entry ` set (pending (sr_recipient_nid req) (snd (store_message L True nonce now req M)))"
    using row(4) by (metis imageI)
  then show ?thesis
    by (auto simp: fetch_messages_eq pending_cleanups)
qed

theorem unacknowledged_never_expires_witness:
  "request_entry 5 (hello_request ''alice'' 1) \<in> set (fetch_messages True 999999999 ''bob''
    (fold (\<lambda>(db_ok, t). cleanup_expired db_ok t) [(True, 99999999)]
      (snd (store_message toy_crypto True [] 5 (hello_request ''alice'' 1) empty_mail))))"
proof -
  have "fst (store_message toy_crypto True [] 5 (hello_request ''alice'' 1) empty_mail) = Inr ()"
    by (simp add: store_message_def empty_mail_def hello_request_def encrypt_metadata_def toy_crypto_def Let_def)
  moreover have "ms_db empty_mail \<noteq> None" by (simp add: empty_mail_def)
  ultimately show ?thesis
    using unacknowledged_never_expires [of toy_crypto "[]" 5 "hello_request ''alice'' 1" empty_mail 999999999 "[(True, 99999999)]"]
    by (simp add: hello_request_def)
qed

end
