(* ===== verification/RelayAuth.thy ===== *)
theory RelayAuth
  imports Mailbox Identity
begin

text \<open>
  Authentication of requests at the relay (\<open>relay/src/main.rs\<close>): the request structures and how
  serde reads them from JSON, timestamp freshness, the replay tables, detached signatures with
  certificates pinned on first use, and the HMAC comparison. The clock reading of a call is an argument;
  the relay reads it several times while it handles one message, here it is read once per message.
\<close>

section \<open>Reading structures from JSON\<close>

text \<open>A derived \<open>Deserialize\<close> reads a structure from an object by field name, or from an array by
  position if it is not longer than the structure; \<open>None\<close> if the value is neither.\<close>

definition json_struct :: "string list \<Rightarrow> json \<Rightarrow> (string \<Rightarrow> json option) option" where
  "json_struct names j =
     (case j of
        JObj kvs \<Rightarrow> Some (map_of kvs)
      | JArr xs \<Rightarrow> if length xs \<le> length names then Some (map_of (zip names xs)) else None
      | _ \<Rightarrow> None)"

definition required :: "(json \<Rightarrow> 'a option) \<Rightarrow> json option \<Rightarrow> 'a option" where
  "required conv v = Option.bind v conv"

text \<open>\<open>#[serde(default)]\<close>: an absent field has the default, a present one of a wrong type is an error.\<close>

definition defaulted :: "'a \<Rightarrow> (json \<Rightarrow> 'a option) \<Rightarrow> json option \<Rightarrow> 'a option" where
  "defaulted d conv v = (case v of None \<Rightarrow> Some d | Some j \<Rightarrow> conv j)"

definition store_fields :: "string list" where
  "store_fields = [''recipient_nid'', ''signed_blob'', ''sender_nid'', ''sender_fp'', ''seq'', ''sender_sig'',
     ''timestamp'', ''nonce'', ''sender_cert'', ''sealed_sender'']"

definition parse_store_request :: "json \<Rightarrow> MailboxStoreRequest option" where
  "parse_store_request j =
     Option.bind (json_struct store_fields j) (\<lambda>f.
     Option.bind (required as_str (f ''recipient_nid'')) (\<lambda>recipient_nid.
     Option.bind (required as_str (f ''signed_blob'')) (\<lambda>signed_blob.
     Option.bind (required as_str (f ''sender_nid'')) (\<lambda>sender_nid.
     Option.bind (required as_str (f ''sender_fp'')) (\<lambda>sender_fp.
     Option.bind (required as_i64 (f ''seq'')) (\<lambda>seq.
     Option.bind (defaulted [] as_str (f ''sender_sig'')) (\<lambda>sender_sig.
     Option.bind (defaulted 0 as_f64 (f ''timestamp'')) (\<lambda>timestamp.
     Option.bind (defaulted [] as_str (f ''nonce'')) (\<lambda>nonce.
     Option.bind (defaulted [] as_str (f ''sender_cert'')) (\<lambda>sender_cert.
     Option.bind (defaulted [] as_str (f ''sealed_sender'')) (\<lambda>sealed_sender.
       Some \<lparr>sr_recipient_nid = recipient_nid, sr_signed_blob = signed_blob, sr_sender_nid = sender_nid,
             sr_sender_fp = sender_fp, sr_seq = seq, sr_sender_sig = sender_sig, sr_timestamp = timestamp,
             sr_nonce = nonce, sr_sender_cert = sender_cert, sr_sealed_sender = sealed_sender\<rparr>)))))))))))"

record MailboxFetchRequest =
  fr_recipient_nid :: string
  fr_auth_hmac :: string
  fr_sender_sig :: string
  fr_requester_fp :: string
  fr_timestamp :: f64
  fr_nonce :: string
  fr_sender_cert :: string

definition fetch_fields :: "string list" where
  "fetch_fields = [''recipient_nid'', ''auth_hmac'', ''sender_sig'', ''requester_fp'', ''timestamp'', ''nonce'',
     ''sender_cert'']"

definition parse_fetch_request :: "json \<Rightarrow> MailboxFetchRequest option" where
  "parse_fetch_request j =
     Option.bind (json_struct fetch_fields j) (\<lambda>f.
     Option.bind (required as_str (f ''recipient_nid'')) (\<lambda>recipient_nid.
     Option.bind (required as_str (f ''auth_hmac'')) (\<lambda>auth_hmac.
     Option.bind (defaulted [] as_str (f ''sender_sig'')) (\<lambda>sender_sig.
     Option.bind (defaulted [] as_str (f ''requester_fp'')) (\<lambda>requester_fp.
     Option.bind (defaulted 0 as_f64 (f ''timestamp'')) (\<lambda>timestamp.
     Option.bind (defaulted [] as_str (f ''nonce'')) (\<lambda>nonce.
     Option.bind (defaulted [] as_str (f ''sender_cert'')) (\<lambda>sender_cert.
       Some \<lparr>fr_recipient_nid = recipient_nid, fr_auth_hmac = auth_hmac, fr_sender_sig = sender_sig,
             fr_requester_fp = requester_fp, fr_timestamp = timestamp, fr_nonce = nonce,
             fr_sender_cert = sender_cert\<rparr>))))))))"

section \<open>Freshness and replay tables\<close>

definition STORE_TIMESTAMP_TOLERANCE_SECS :: int where "STORE_TIMESTAMP_TOLERANCE_SECS = 300"
definition MAX_NONCES_PER_SENDER :: nat where "MAX_NONCES_PER_SENDER = 1000"

definition check_timestamp_freshness :: "f64 \<Rightarrow> f64 \<Rightarrow> string + unit" where
  "check_timestamp_freshness now timestamp =
     (if of_int STORE_TIMESTAMP_TOLERANCE_SECS < \<bar>now - timestamp\<bar> then Inl ''timestamp out of range'' else Inr ())"

text \<open>The older table, of numbers: the window is measured in nonce values.\<close>

definition check_and_record_nonce :: "string \<Rightarrow> int \<Rightarrow> (string \<times> int list) list \<Rightarrow> bool \<times> (string \<times> int list) list" where
  "check_and_record_nonce sender_fp nonce tbl =
     (let entry = opt_or [] (map_of tbl sender_fp)
      in if nonce \<in> set entry then (False, AList.update sender_fp entry tbl)
         else
           let entry = filter (\<lambda>n. nonce - STORE_TIMESTAMP_TOLERANCE_SECS \<le> n) entry;
               entry = (if MAX_NONCES_PER_SENDER \<le> length entry then drop (length entry div 2) entry else entry)
           in (True, AList.update sender_fp (entry @ [nonce]) tbl))"

type_synonym nonce_table = "(string \<times> (string \<times> int) list) list"

definition check_and_record_nonce_str :: "int \<Rightarrow> string \<Rightarrow> string \<Rightarrow> nonce_table \<Rightarrow> bool \<times> nonce_table" where
  "check_and_record_nonce_str now sender_fp nonce tbl =
     (let entry = opt_or [] (map_of tbl sender_fp)
      in if nonce \<in> fst ` set entry then (False, AList.update sender_fp entry tbl)
         else
           let entry = filter (\<lambda>(_, t). now - STORE_TIMESTAMP_TOLERANCE_SECS \<le> t) entry;
               entry = (if MAX_NONCES_PER_SENDER \<le> length entry then drop (length entry div 2) entry else entry)
           in (True, AList.update sender_fp (entry @ [(nonce, now)]) tbl))"

section \<open>Signatures\<close>

type_synonym armored_certs = "(string \<times> string) list"

text \<open>A certificate that comes with a request is remembered for the fingerprint if there is none yet,
  whatever the outcome. The locks of the cache are taken without waiting: \<open>lock_ok = False\<close>
  stands for a lock that is held.\<close>

definition remember_cert :: "string \<Rightarrow> string \<Rightarrow> armored_certs \<Rightarrow> armored_certs" where
  "remember_cert fingerprint provided_cert cache =
     (if provided_cert \<noteq> [] \<and> map_of cache fingerprint = None
      then AList.update fingerprint provided_cert cache else cache)"

definition verify_gpg_detached ::
  "'cert pgp_lib \<Rightarrow> bool \<Rightarrow> string \<Rightarrow> string \<Rightarrow> string \<Rightarrow> string \<Rightarrow> armored_certs \<Rightarrow> (string + bool) \<times> armored_certs" where
  "verify_gpg_detached P lock_ok sig_b64 data fingerprint provided_cert cache =
     (if \<not> lock_ok then (Inl ''cert cache lock'', cache)
      else
        let cache = remember_cert fingerprint provided_cert cache
        in (bind_result (ok_or ''base64 decode signature'' (b64_decode P sig_b64)) (\<lambda>sig_bytes.
            bind_result (ok_or (''no cert in cache for fingerprint '' @ fingerprint) (map_of cache fingerprint)) (\<lambda>armored.
            bind_result (ok_or ''parse cached cert'' (cert_from_bytes P (as_bytes armored))) (\<lambda>cert.
            bind_result (ok_or ''signature UTF-8 error'' (from_utf8 sig_bytes)) (\<lambda>sig_str.
              verify_detached P sig_str data cert)))), cache))"

definition store_signing_data :: "(f64 \<Rightarrow> string) \<Rightarrow> MailboxStoreRequest \<Rightarrow> string" where
  "store_signing_data show_f64 req =
     sr_recipient_nid req @ ''|'' @ sr_sender_nid req @ ''|'' @ sr_sender_fp req @ ''|'' @
     show_int (sr_seq req) @ ''|'' @ show_f64 (sr_timestamp req) @ ''|'' @ sr_nonce req"

definition verify_store_signature ::
  "'cert pgp_lib \<Rightarrow> (f64 \<Rightarrow> string) \<Rightarrow> bool \<Rightarrow> MailboxStoreRequest \<Rightarrow> armored_certs \<Rightarrow> (string + unit) \<times> armored_certs" where
  "verify_store_signature P show_f64 lock_ok req cache =
     (if sr_sender_sig req = [] then (Inl ''missing sender signature'', cache)
      else if sr_sealed_sender req \<noteq> [] then
        (if sr_sender_nid req \<noteq> ''anonymous'' then Inl ''sealed sender requires sender_nid=anonymous'' else Inr (), cache)
      else
        let (verified, cache) = verify_gpg_detached P lock_ok (sr_sender_sig req) (store_signing_data show_f64 req)
              (sr_sender_fp req) (sr_sender_cert req) cache
        in (if unwrap_or False verified then Inr () else Inl ''sender signature verification failed'', cache))"

section \<open>HMAC\<close>

definition compute_hmac :: "'cert pgp_lib \<Rightarrow> crypto_lib \<Rightarrow> string \<Rightarrow> string \<Rightarrow> string" where
  "compute_hmac P L data secret = hex_encode L (hmac_sha256 P (as_bytes secret) (as_bytes data))"

definition byte_or_zero :: "bytes \<Rightarrow> nat \<Rightarrow> u8" where
  "byte_or_zero bs i = (if i < length bs then bs ! i else 0)"

definition verify_hmac :: "'cert pgp_lib \<Rightarrow> crypto_lib \<Rightarrow> string \<Rightarrow> string \<Rightarrow> string \<Rightarrow> bool" where
  "verify_hmac P L data provided_hmac secret =
     (let computed_bytes = as_bytes (compute_hmac P L data secret);
          provided_bytes = as_bytes provided_hmac;
          max_len = max (length computed_bytes) (length provided_bytes);
          acc = fold (\<lambda>i acc. or acc (xor (byte_or_zero computed_bytes i) (byte_or_zero provided_bytes i))) [0..<max_len] 0;
          acc = or acc (xor (of_nat (length computed_bytes)) (of_nat (length provided_bytes)))
      in acc = (0 :: u8))"

section \<open>What the checks establish\<close>

text \<open>The signature verifies under the certificate that the cache holds for the fingerprint.\<close>

definition pin_verifies :: "'cert pgp_lib \<Rightarrow> armored_certs \<Rightarrow> string \<Rightarrow> string \<Rightarrow> string \<Rightarrow> bool" where
  "pin_verifies P cache fp sig_b64 data \<longleftrightarrow>
     (\<exists>armored cert bs s. map_of cache fp = Some armored \<and> cert_from_bytes P (as_bytes armored) = Some cert
        \<and> b64_decode P sig_b64 = Some bs \<and> from_utf8 bs = Some s \<and> verify_detached P s data cert = Inr True)"

lemma verify_gpg_detached_True:
  "fst (verify_gpg_detached P lock_ok sg data fp prov cache) = Inr True \<longleftrightarrow>
     lock_ok \<and> pin_verifies P (remember_cert fp prov cache) fp sg data"
  by (auto simp: verify_gpg_detached_def pin_verifies_def Let_def bind_result_Inr)

lemma snd_verify_gpg_detached:
  "snd (verify_gpg_detached P lock_ok sg data fp prov cache) =
     (if lock_ok then remember_cert fp prov cache else cache)"
  by (simp add: verify_gpg_detached_def Let_def)

lemma remember_cert_keeps: "map_of cache fp = Some c \<Longrightarrow> map_of (remember_cert fp' prov cache) fp = Some c"
  by (auto simp: remember_cert_def update_conv')

lemma verify_gpg_detached_keeps:
  "map_of cache fp = Some c \<Longrightarrow> map_of (snd (verify_gpg_detached P lock_ok sg data fp' prov cache)) fp = Some c"
  by (simp add: snd_verify_gpg_detached remember_cert_keeps)

lemma verify_store_signature_keeps:
  "map_of cache fp = Some c \<Longrightarrow> map_of (snd (verify_store_signature P sf lock_ok req cache)) fp = Some c"
  by (simp add: verify_store_signature_def Let_def case_prod_beta verify_gpg_detached_keeps)

subsection \<open>HMAC comparison\<close>

lemma fold_or_zero:
  "fold (\<lambda>i acc. or acc (f i)) is a = 0 \<longleftrightarrow> a = (0 :: u8) \<and> (\<forall>i \<in> set is. f i = 0)"
  by (induction "is" arbitrary: a) (auto simp: or_eq_0_iff)

lemma xor_zero_u8: "xor a b = (0 :: u8) \<longleftrightarrow> a = b"
  by (metis xor.assoc xor.left_neutral xor_self_eq xor.right_neutral)

lemma of_nat_u8_eq: "(of_nat a :: u8) = of_nat b \<longleftrightarrow> a mod 256 = b mod 256"
proof -
  have "(of_nat a :: u8) = of_nat b \<longleftrightarrow> unat (of_nat a :: u8) = unat (of_nat b :: u8)"
    by (rule word_unat_eq_iff)
  then show ?thesis by (simp add: unat_of_nat)
qed

lemma verify_hmac_iff:
  "verify_hmac P L data h secret \<longleftrightarrow>
     (let c = compute_hmac P L data secret in
        length c mod 256 = length h mod 256
        \<and> (\<forall>i < max (length c) (length h). byte_or_zero (as_bytes c) i = byte_or_zero (as_bytes h) i))"
  by (auto simp: verify_hmac_def Let_def or_eq_0_iff fold_or_zero xor_zero_u8 of_nat_u8_eq)

lemma pad_eq_prefix:
  assumes "\<forall>i < max (length c) (length h). byte_or_zero c i = byte_or_zero h i" and "length c \<le> length h"
  shows "h = c @ replicate (length h - length c) 0"
proof (rule nth_equalityI)
  fix i assume "i < length h"
  then show "h ! i = (c @ replicate (length h - length c) 0) ! i"
    using assms by (auto simp: byte_or_zero_def nth_append dest: spec [of _ i])
qed (use assms in simp)

lemma nul_char: "as_bytes h = as_bytes c @ replicate n 0 \<longleftrightarrow> h = c @ replicate n CHR 0x00"
proof -
  have "as_bytes c @ replicate n 0 = as_bytes (c @ replicate n CHR 0x00)"
    by (simp add: as_bytes_def)
  then show ?thesis by simp
qed



subsection \<open>Replay window\<close>

text \<open>A history of checks: time, fingerprint and nonce of each.\<close>

fun nonce_step :: "int \<times> string \<times> string \<Rightarrow> nonce_table \<Rightarrow> nonce_table" where
  "nonce_step (t, fp, n) tbl = snd (check_and_record_nonce_str t fp n tbl)"

fun nonce_accepted :: "int \<times> string \<times> string \<Rightarrow> nonce_table \<Rightarrow> (string \<times> string) option" where
  "nonce_accepted (t, fp, n) tbl = (if fst (check_and_record_nonce_str t fp n tbl) then Some (fp, n) else None)"

definition nonces_of :: "string \<Rightarrow> nonce_table \<Rightarrow> (string \<times> int) list" where
  "nonces_of fp tbl = opt_or [] (map_of tbl fp)"

lemma nonce_fresh: "fst (check_and_record_nonce_str t fp n tbl) \<longleftrightarrow> n \<notin> fst ` set (nonces_of fp tbl)"
  by (simp add: check_and_record_nonce_str_def nonces_of_def Let_def)

lemma nonces_of_step:
  "nonces_of fp' (snd (check_and_record_nonce_str t fp n tbl)) =
     (let kept = filter (\<lambda>(_, u). t - 300 \<le> u) (nonces_of fp tbl) in
      if fp' \<noteq> fp then nonces_of fp' tbl
      else if n \<in> fst ` set (nonces_of fp tbl) then nonces_of fp tbl
      else (if 1000 \<le> length kept then drop (length kept div 2) kept else kept) @ [(n, t)])"
  by (simp add: check_and_record_nonce_str_def nonces_of_def Let_def update_conv'
      STORE_TIMESTAMP_TOLERANCE_SECS_def MAX_NONCES_PER_SENDER_def)

lemma nonce_recorded:
  "fst (check_and_record_nonce_str t fp n tbl) \<Longrightarrow> (n, t) \<in> set (nonces_of fp (snd (check_and_record_nonce_str t fp n tbl)))"
  by (simp add: nonces_of_step nonce_fresh Let_def)

lemma nonce_kept:
  assumes "(n, t0) \<in> set (nonces_of fp tbl)" and "t \<le> t0 + 300" and "length (nonces_of fp tbl) < 1000"
  shows "(n, t0) \<in> set (nonces_of fp (nonce_step (t, fp', n') tbl))"
    and "length (nonces_of fp (nonce_step (t, fp', n') tbl)) \<le> length (nonces_of fp tbl) + 1"
proof -
  have "length (filter (\<lambda>(_, u). t - 300 \<le> u) (nonces_of fp tbl)) < 1000"
    using assms(3) le_less_trans [OF length_filter_le] by blast
  then show "(n, t0) \<in> set (nonces_of fp (nonce_step (t, fp', n') tbl))"
    using assms(1,2) by (auto simp: nonces_of_step Let_def)
  show "length (nonces_of fp (nonce_step (t, fp', n') tbl)) \<le> length (nonces_of fp tbl) + 1"
    by (auto simp: nonces_of_step Let_def intro: le_trans [OF diff_le_self length_filter_le])
qed

lemma nonce_blocked:
  assumes "(n, t0) \<in> set (nonces_of fp tbl)" and "list_all (\<lambda>(t, _). t \<le> t0 + 300) es"
    and "length (nonces_of fp tbl) + length es \<le> 1000"
  shows "(fp, n) \<notin> set (trace nonce_step nonce_accepted es tbl)"
  using assms
proof (induction es arbitrary: tbl)
  case (Cons e es)
  obtain t fp' n' where e: "e = (t, fp', n')" by (cases e)
  have "(n, t0) \<in> set (nonces_of fp (nonce_step e tbl))"
    "length (nonces_of fp (nonce_step e tbl)) \<le> length (nonces_of fp tbl) + 1"
    using nonce_kept [OF Cons.prems(1), of t fp' n'] Cons.prems e by auto
  then have "(fp, n) \<notin> set (trace nonce_step nonce_accepted es (nonce_step e tbl))"
    using Cons.prems by (intro Cons.IH) auto
  moreover have "n \<in> fst ` set (nonces_of fp tbl)"
    using Cons.prems(1) by force
  then have "nonce_accepted e tbl \<noteq> Some (fp, n)"
    by (auto simp: e nonce_fresh)
  ultimately show ?case by (simp split: option.split)
qed simp



text \<open>
  The window is shorter than the time for which a request is fresh: a request stamped 290 seconds ahead
  is fresh for 590 seconds, but its nonce is forgotten when the sender makes another request after 300
  seconds, and then the identical request is accepted a second time.
\<close>

theorem future_dated_replay:
  "check_timestamp_freshness 0 290 = Inr () \<and> check_timestamp_freshness 302 290 = Inr ()
   \<and> trace nonce_step nonce_accepted [(0, ''A'', ''n''), (301, ''A'', ''m''), (302, ''A'', ''n'')] []
       = [(''A'', ''n''), (''A'', ''m''), (''A'', ''n'')]"
  by (simp add: check_timestamp_freshness_def STORE_TIMESTAMP_TOLERANCE_SECS_def check_and_record_nonce_str_def
      MAX_NONCES_PER_SENDER_def)

end
