(* ===== verification/HostPort.thy ===== *)
theory HostPort
  imports Prelude
begin

text \<open>
  Host and port of an address, as the relay and the bootstrap checks take them apart: \<open>str::parse::<u16>\<close> and the
  split at the last colon.
\<close>

text \<open>\<open>str::parse::<u16>\<close> takes digits, with an optional plus sign.\<close>

definition parse_u16 :: "string \<Rightarrow> nat option" where
  "parse_u16 s =
     (let d = (case s of c # cs \<Rightarrow> if c = CHR ''+'' then cs else s | [] \<Rightarrow> s)
      in if d \<noteq> [] \<and> list_all (\<lambda>c. c \<in> set ''0123456789'') d \<and> read_nat d < 65536 then Some (read_nat d) else None)"

text \<open>\<open>rfind(':')\<close> splits at the last colon.\<close>

definition rsplit_colon :: "string \<Rightarrow> (string \<times> string) option" where
  "rsplit_colon s =
     (let after = rev (takeWhile (\<lambda>c. c \<noteq> CHR '':'') (rev s))
      in if length after = length s then None else Some (take (length s - length after - 1) s, after))"

lemma show_nat_ne [simp]: "show_nat n \<noteq> []"
  by (subst show_nat.simps) simp

lemma digits_between: "48 \<le> (of_char c :: nat) \<Longrightarrow> (of_char c :: nat) \<le> 57 \<Longrightarrow> c \<in> set ''0123456789''"
proof -
  assume "48 \<le> (of_char c :: nat)" "(of_char c :: nat) \<le> 57"
  then have "(of_char c :: nat) \<in> {48, 49, 50, 51, 52, 53, 54, 55, 56, 57}" by simp presburger
  then have "char_of (of_char c :: nat) \<in> set ''0123456789''"
    by (elim insertE) (simp_all add: char_of_def bit_0)
  then show ?thesis by simp
qed

lemma parse_u16_show: "n < 65536 \<Longrightarrow> parse_u16 (show_nat n) = Some n"
proof -
  assume "n < 65536"
  moreover have "list_all (\<lambda>c. c \<in> set ''0123456789'') (show_nat n)"
    using show_nat_digits digits_between unfolding list_all_iff by blast
  moreover have "(case show_nat n of [] \<Rightarrow> show_nat n | c # cs \<Rightarrow> if c = CHR ''+'' then cs else show_nat n) = show_nat n"
    using show_nat_digits [of "CHR ''+''" n] by (cases "show_nat n") auto
  ultimately show ?thesis by (simp add: parse_u16_def)
qed

lemma rsplit_colon_app:
  assumes "CHR '':'' \<notin> set p"
  shows "rsplit_colon (h @ CHR '':'' # p) = Some (h, p)"
proof -
  have "takeWhile (\<lambda>c. c \<noteq> CHR '':'') (rev (h @ CHR '':'' # p)) = rev p"
    using assms by (auto simp: takeWhile_append)
  then show ?thesis by (simp add: rsplit_colon_def)
qed

end
