(* ===== verification/Federation.thy ===== *)
theory Federation
  imports RelayAuth HostPort
begin

text \<open>
  The federation of relays (\<open>relay/src/main.rs\<close>): the table of peers and routes, the channels to the
  peers, gossip, and the structures that relays exchange. A channel (\<open>mpsc::channel(100)\<close>) is the queue
  of its pending messages with a flag that tells whether the receiving task still runs; instants are numbers.
\<close>

section \<open>Envelopes and structures\<close>

record RelayEnvelope =
  re_msg_type :: string
  re_payload :: json
  re_msg_id :: string
  re_ts :: f64

definition relay_envelope_json :: "RelayEnvelope \<Rightarrow> json" where
  "relay_envelope_json env =
     JObj [(''msg_type'', JStr (re_msg_type env)), (''payload'', re_payload env), (''msg_id'', JStr (re_msg_id env)),
           (''ts'', JFloat (re_ts env))]"

definition parse_relay_envelope :: "json \<Rightarrow> RelayEnvelope option" where
  "parse_relay_envelope j =
     Option.bind (json_struct [''msg_type'', ''payload'', ''msg_id'', ''ts''] j) (\<lambda>f.
     Option.bind (required as_str (f ''msg_type'')) (\<lambda>mt.
     Option.bind (f ''payload'') (\<lambda>pl.
     Option.bind (required as_str (f ''msg_id'')) (\<lambda>mid.
     Option.bind (required as_f64 (f ''ts'')) (\<lambda>t.
       Some \<lparr>re_msg_type = mt, re_payload = pl, re_msg_id = mid, re_ts = t\<rparr>)))))"

record RelayForward =
  fw_recipient_nid :: string
  fw_signed_blob :: string
  fw_sender_nid :: string
  fw_sender_fp :: string
  fw_seq :: int
  fw_sender_sig :: string
  fw_timestamp :: f64
  fw_nonce :: int
  fw_hop_count :: u8
  fw_via :: "string list"
  fw_source_relay_url :: string
  fw_source_relay_cert :: string
  fw_source_relay_sig :: string
  fw_source_relay_fp :: string
  fw_sender_cert :: string

definition forward_json :: "RelayForward \<Rightarrow> json" where
  "forward_json fw =
     JObj [(''recipient_nid'', JStr (fw_recipient_nid fw)), (''signed_blob'', JStr (fw_signed_blob fw)),
           (''sender_nid'', JStr (fw_sender_nid fw)), (''sender_fp'', JStr (fw_sender_fp fw)), (''seq'', JInt (fw_seq fw)),
           (''sender_sig'', JStr (fw_sender_sig fw)), (''timestamp'', JFloat (fw_timestamp fw)),
           (''nonce'', JInt (fw_nonce fw)), (''hop_count'', JInt (uint (fw_hop_count fw))),
           (''via'', JArr (map JStr (fw_via fw))), (''source_relay_url'', JStr (fw_source_relay_url fw)),
           (''source_relay_cert'', JStr (fw_source_relay_cert fw)), (''source_relay_sig'', JStr (fw_source_relay_sig fw)),
           (''source_relay_fp'', JStr (fw_source_relay_fp fw)), (''sender_cert'', JStr (fw_sender_cert fw))]"

text \<open>serde reads an \<open>u8\<close> only from an integer in range, a \<open>Vec<String>\<close> only from an array of strings.\<close>

fun as_u8 :: "json \<Rightarrow> u8 option" where
  "as_u8 (JInt i) = (if 0 \<le> i \<and> i < 256 then Some (word_of_int i) else None)"
| "as_u8 _ = None"

fun all_some :: "'a option list \<Rightarrow> 'a list option" where
  "all_some [] = Some []"
| "all_some (x # xs) = Option.bind x (\<lambda>a. map_option (Cons a) (all_some xs))"

definition as_strings :: "json \<Rightarrow> string list option" where
  "as_strings j = Option.bind (as_array j) (\<lambda>xs. all_some (map as_str xs))"

definition forward_fields :: "string list" where
  "forward_fields = [''recipient_nid'', ''signed_blob'', ''sender_nid'', ''sender_fp'', ''seq'', ''sender_sig'',
     ''timestamp'', ''nonce'', ''hop_count'', ''via'', ''source_relay_url'', ''source_relay_cert'',
     ''source_relay_sig'', ''source_relay_fp'', ''sender_cert'']"

definition parse_forward :: "json \<Rightarrow> RelayForward option" where
  "parse_forward j =
     Option.bind (json_struct forward_fields j) (\<lambda>f.
     Option.bind (required as_str (f ''recipient_nid'')) (\<lambda>recipient_nid.
     Option.bind (required as_str (f ''signed_blob'')) (\<lambda>signed_blob.
     Option.bind (required as_str (f ''sender_nid'')) (\<lambda>sender_nid.
     Option.bind (required as_str (f ''sender_fp'')) (\<lambda>sender_fp.
     Option.bind (required as_i64 (f ''seq'')) (\<lambda>seq.
     Option.bind (required as_str (f ''sender_sig'')) (\<lambda>sender_sig.
     Option.bind (required as_f64 (f ''timestamp'')) (\<lambda>timestamp.
     Option.bind (required as_i64 (f ''nonce'')) (\<lambda>nonce.
     Option.bind (defaulted 0 as_u8 (f ''hop_count'')) (\<lambda>hop_count.
     Option.bind (defaulted [] as_strings (f ''via'')) (\<lambda>via.
     Option.bind (defaulted [] as_str (f ''source_relay_url'')) (\<lambda>url.
     Option.bind (defaulted [] as_str (f ''source_relay_cert'')) (\<lambda>cert.
     Option.bind (defaulted [] as_str (f ''source_relay_sig'')) (\<lambda>sg.
     Option.bind (defaulted [] as_str (f ''source_relay_fp'')) (\<lambda>fp.
     Option.bind (defaulted [] as_str (f ''sender_cert'')) (\<lambda>sender_cert.
       Some \<lparr>fw_recipient_nid = recipient_nid, fw_signed_blob = signed_blob, fw_sender_nid = sender_nid,
             fw_sender_fp = sender_fp, fw_seq = seq, fw_sender_sig = sender_sig, fw_timestamp = timestamp,
             fw_nonce = nonce, fw_hop_count = hop_count, fw_via = via, fw_source_relay_url = url,
             fw_source_relay_cert = cert, fw_source_relay_sig = sg, fw_source_relay_fp = fp,
             fw_sender_cert = sender_cert\<rparr>))))))))))))))))"

section \<open>Federation state\<close>

definition FEDERATION_ROUTE_TTL_SECONDS :: f64 where "FEDERATION_ROUTE_TTL_SECONDS = 1800"
definition FEDERATION_PEER_TIMEOUT_SECONDS :: f64 where "FEDERATION_PEER_TIMEOUT_SECONDS = 300"
definition FEDERATION_MAX_RELAY_HOPS :: u8 where "FEDERATION_MAX_RELAY_HOPS = 5"

record PeerInfo =
  pi_url :: string
  pi_routes :: "string list"
  pi_last_seen :: f64
  pi_authenticated :: bool
  pi_sender :: "(bool \<times> string list) option"

record RouteEntry =
  rt_relay_url :: string
  rt_expires_at :: f64

record FederationState =
  fed_peers :: "(string \<times> PeerInfo) list"
  fed_remote_routes :: "(string \<times> RouteEntry) list"
  fed_our_url :: "string option"
  fed_shared_secret :: "string option"
  fed_pending_challenges :: "(string \<times> string \<times> int) list"
  fed_seen_nonces :: "(string \<times> string list) list"

definition federation_new :: "string option \<Rightarrow> FederationState" where
  "federation_new shared_secret =
     \<lparr>fed_peers = [], fed_remote_routes = [], fed_our_url = None, fed_shared_secret = shared_secret,
      fed_pending_challenges = [], fed_seen_nonces = []\<rparr>"

definition add_route :: "f64 \<Rightarrow> string \<Rightarrow> string \<Rightarrow> FederationState \<Rightarrow> FederationState" where
  "add_route now null_id relay_url fed =
     fed\<lparr>fed_remote_routes := AList.update null_id
       \<lparr>rt_relay_url = relay_url, rt_expires_at = now + FEDERATION_ROUTE_TTL_SECONDS\<rparr> (fed_remote_routes fed)\<rparr>"

definition lookup_route :: "string \<Rightarrow> FederationState \<Rightarrow> string option" where
  "lookup_route null_id fed = map_option rt_relay_url (map_of (fed_remote_routes fed) null_id)"

definition add_peer :: "f64 \<Rightarrow> string \<Rightarrow> FederationState \<Rightarrow> FederationState" where
  "add_peer now url fed =
     fed\<lparr>fed_peers := AList.update url
       \<lparr>pi_url = url, pi_routes = [], pi_last_seen = now, pi_authenticated = False, pi_sender = Some (True, [])\<rparr>
       (fed_peers fed)\<rparr>"

definition channel_capacity :: nat where "channel_capacity = 100"

definition update_peer :: "string \<Rightarrow> (PeerInfo \<Rightarrow> PeerInfo) \<Rightarrow> FederationState \<Rightarrow> FederationState" where
  "update_peer url f fed =
     (case map_of (fed_peers fed) url of
        None \<Rightarrow> fed | Some peer \<Rightarrow> fed\<lparr>fed_peers := AList.update url (f peer) (fed_peers fed)\<rparr>)"

definition send_to_peer :: "string \<Rightarrow> string \<Rightarrow> FederationState \<Rightarrow> bool \<times> FederationState" where
  "send_to_peer url message fed =
     (case map_of (fed_peers fed) url of
        None \<Rightarrow> (False, fed)
      | Some peer \<Rightarrow>
          (case pi_sender peer of
             None \<Rightarrow> (False, fed)
           | Some (open_ch, queue) \<Rightarrow>
               if open_ch \<and> length queue < channel_capacity
               then (True, update_peer url (\<lambda>p. p\<lparr>pi_sender := Some (open_ch, queue @ [message])\<rparr>) fed)
               else (False, fed)))"

definition cleanup_expired_routes :: "f64 \<Rightarrow> FederationState \<Rightarrow> FederationState" where
  "cleanup_expired_routes now fed =
     fed\<lparr>fed_remote_routes := filter (\<lambda>(_, entry). now < rt_expires_at entry) (fed_remote_routes fed),
         fed_peers := filter (\<lambda>(_, peer). now - pi_last_seen peer < FEDERATION_PEER_TIMEOUT_SECONDS) (fed_peers fed)\<rparr>"

definition fed_record_nonce :: "string \<Rightarrow> string \<Rightarrow> FederationState \<Rightarrow> bool \<times> FederationState" where
  "fed_record_nonce peer_url nonce fed =
     (let nonces = opt_or [] (map_of (fed_seen_nonces fed) peer_url)
      in if nonce \<in> set nonces then (False, fed\<lparr>fed_seen_nonces := AList.update peer_url nonces (fed_seen_nonces fed)\<rparr>)
         else
           let nonces = (if MAX_NONCES_PER_SENDER \<le> length nonces then drop (length nonces div 2) nonces else nonces)
           in (True, fed\<lparr>fed_seen_nonces := AList.update peer_url (nonces @ [nonce]) (fed_seen_nonces fed)\<rparr>))"

section \<open>Background tasks\<close>

text \<open>\<open>connect_to_peer\<close> registers the peer once the connection is up; then the sender task takes messages
  from the channel (and stops when a send fails), and the receiver task handles what the peer sends.\<close>

definition peer_connected :: "f64 \<Rightarrow> string \<Rightarrow> FederationState \<Rightarrow> FederationState" where
  "peer_connected now url fed = add_peer now url fed"

definition peer_sender_task :: "bool \<Rightarrow> string \<Rightarrow> FederationState \<Rightarrow> string option \<times> FederationState" where
  "peer_sender_task ws_ok url fed =
     (case Option.bind (map_of (fed_peers fed) url) pi_sender of
        Some (True, msg # queue) \<Rightarrow>
          (if ws_ok then Some msg else None, update_peer url (\<lambda>p. p\<lparr>pi_sender := Some (ws_ok, queue)\<rparr>) fed)
      | _ \<Rightarrow> (None, fed))"

definition json_strings :: "json list \<Rightarrow> string list" where
  "json_strings js = List.map_filter as_str js"

definition peer_receiver_task :: "crypto_lib \<Rightarrow> f64 \<Rightarrow> string \<Rightarrow> string \<Rightarrow> FederationState \<Rightarrow> FederationState" where
  "peer_receiver_task L now url text fed =
     (case Option.bind (json_parse L text) parse_relay_envelope of
        None \<Rightarrow> fed
      | Some env \<Rightarrow>
          if re_msg_type env = ''route-advertise'' then
            (case Option.bind (json_get (re_payload env) ''null_ids'') as_array of
               None \<Rightarrow> fed
             | Some peer_routes \<Rightarrow>
                 update_peer url (\<lambda>p. p\<lparr>pi_routes := remdups (json_strings peer_routes), pi_last_seen := now\<rparr>) fed)
          else fed)"

definition gossip_envelope :: "f64 \<Rightarrow> string \<Rightarrow> string \<Rightarrow> string list \<Rightarrow> RelayEnvelope" where
  "gossip_envelope now mid our_url null_ids =
     \<lparr>re_msg_type = ''route-advertise'',
      re_payload = JObj [(''relay_url'', JStr our_url), (''null_ids'', JArr (map JStr null_ids))],
      re_msg_id = mid, re_ts = now\<rparr>"

definition gossip_round :: "crypto_lib \<Rightarrow> f64 \<Rightarrow> f64 \<Rightarrow> string \<Rightarrow> string list \<Rightarrow> FederationState \<Rightarrow> FederationState" where
  "gossip_round L now instant mid null_ids fed =
     (if null_ids = [] then fed
      else
        let json = json_print L (relay_envelope_json (gossip_envelope now mid (opt_or [] (fed_our_url fed)) null_ids))
        in cleanup_expired_routes instant
             (fold (\<lambda>url fed. snd (send_to_peer url json fed)) (map fst (fed_peers fed)) fed))"

definition forward_to_peer :: "crypto_lib \<Rightarrow> f64 \<Rightarrow> string \<Rightarrow> string \<Rightarrow> RelayForward \<Rightarrow> FederationState
    \<Rightarrow> (string + unit) \<times> FederationState" where
  "forward_to_peer L now mid relay_url fw fed =
     (let fw = (if fw_source_relay_url fw = [] then fw\<lparr>fw_source_relay_url := opt_or [] (fed_our_url fed)\<rparr> else fw);
          env = \<lparr>re_msg_type = ''relay-forward'', re_payload = forward_json fw, re_msg_id = mid, re_ts = now\<rparr>
      in (Inr (), snd (send_to_peer relay_url (json_print L (relay_envelope_json env)) fed)))"

section \<open>Relay URLs\<close>

definition strip_scheme :: "string \<Rightarrow> bool \<times> string" where
  "strip_scheme url =
     (if take 6 url = ''wss://'' then (True, drop 6 url)
      else if take 5 url = ''ws://'' then (False, drop 5 url)
      else (False, url))"

definition parse_relay_url :: "string \<Rightarrow> string \<times> nat \<times> bool" where
  "parse_relay_url url =
     (let (use_tls, rest) = strip_scheme url;
          default = (if use_tls then 443 else 80);
          (host, port_str) = (case rsplit_colon rest of Some (h, p) \<Rightarrow> (h, p) | None \<Rightarrow> (rest, if use_tls then ''443'' else ''80''))
      in (host, opt_or default (parse_u16 port_str), use_tls))"

section \<open>Properties\<close>

lemma all_some_map_JStr [simp]: "all_some (map (as_str \<circ> JStr) xs) = Some xs"
  by (induction xs) simp_all

lemma as_u8_uint [simp]: "as_u8 (JInt (uint w)) = Some w"
  using unsigned_less [of w, where ?'a = int] by simp

text \<open>
  A forwarded message arrives as it was sent: the structure that a relay puts into the envelope is read
  back by the receiving relay without loss, for all fields, hop count and route included.
\<close>

theorem forward_roundtrip:
  assumes "- (2 ^ 63) \<le> fw_seq fw" "fw_seq fw < 2 ^ 63" "- (2 ^ 63) \<le> fw_nonce fw" "fw_nonce fw < 2 ^ 63"
  shows "parse_forward (forward_json fw) = Some fw"
proof -
  have "as_i64 (JInt (fw_seq fw)) = Some (fw_seq fw)" "as_i64 (JInt (fw_nonce fw)) = Some (fw_nonce fw)"
    using assms by simp_all
  moreover have "as_strings (JArr (map JStr (fw_via fw))) = Some (fw_via fw)" by (simp add: as_strings_def)
  ultimately show ?thesis
    by (simp add: parse_forward_def forward_json_def json_struct_def required_def defaulted_def
        del: as_i64.simps as_u8.simps)
qed

definition sample_forward :: RelayForward where
  "sample_forward = \<lparr>fw_recipient_nid = ''NN-AAAA-BBBB'', fw_signed_blob = ''x'', fw_sender_nid = ''n'', fw_sender_fp = ''A'',
     fw_seq = -7, fw_sender_sig = ''s'', fw_timestamp = 5, fw_nonce = 9, fw_hop_count = 255, fw_via = [''ws://a'', ''ws://b''],
     fw_source_relay_url = ''ws://a'', fw_source_relay_cert = [], fw_source_relay_sig = [], fw_source_relay_fp = [],
     fw_sender_cert = []\<rparr>"

theorem forward_roundtrip_witness: "parse_forward (forward_json sample_forward) = Some sample_forward"
  by (rule forward_roundtrip) (simp_all add: sample_forward_def)

text \<open>
  Relay addresses: the address of a host (name or IPv6 literal, with colons) and port, with either scheme, is
  split into exactly that host, port and transport security.
\<close>

theorem parse_relay_url_roundtrip:
  assumes "port < 65536"
  shows "parse_relay_url ((if tls then ''wss://'' else ''ws://'') @ host @ '':'' @ show_nat port) = (host, port, tls)"
proof -
  have "strip_scheme ((if tls then ''wss://'' else ''ws://'') @ rest) = (tls, rest)" for rest
    by (simp add: strip_scheme_def)
  then show ?thesis
    using assms by (simp add: parse_relay_url_def rsplit_colon_app show_nat_no_sep parse_u16_show)
qed

theorem parse_relay_url_roundtrip_witness:
  "parse_relay_url ((if True then ''wss://'' else ''ws://'') @ ''relay.example.org'' @ '':'' @ show_nat 8765)
     = (''relay.example.org'', 8765, True)"
  by (rule parse_relay_url_roundtrip) simp

text \<open>A path in the address is not expected: the port is lost without an error, and the default is used.\<close>

lemma parse_relay_url_path: "parse_relay_url ''wss://h:8765/federation'' = (''h'', 443, True)"
  by (simp add: parse_relay_url_def strip_scheme_def rsplit_colon_def parse_u16_def Let_def)

text \<open>The queue of a channel stays within its capacity.\<close>

definition channels_ok :: "FederationState \<Rightarrow> bool" where
  "channels_ok fed \<longleftrightarrow> wf_map (fed_peers fed)
     \<and> (\<forall>(url, p) \<in> set (fed_peers fed). \<forall>b q. pi_sender p = Some (b, q) \<longrightarrow> length q \<le> channel_capacity)"

lemma channels_ok_update_peer:
  assumes "channels_ok fed"
    and "\<And>p b q. map_of (fed_peers fed) url = Some p \<Longrightarrow> pi_sender (f p) = Some (b, q) \<Longrightarrow> length q \<le> channel_capacity"
  shows "channels_ok (update_peer url f fed)"
proof (cases "map_of (fed_peers fed) url")
  case (Some p)
  then have "set (fed_peers (update_peer url f fed)) \<subseteq> insert (url, f p) (set (fed_peers fed))"
    using set_AList_update [of url "f p" "fed_peers fed"] by (simp add: update_peer_def)
  moreover have "wf_map (fed_peers (update_peer url f fed))"
    using assms(1) Some by (simp add: channels_ok_def update_peer_def)
  ultimately show ?thesis
    using assms(1) assms(2) [OF Some] unfolding channels_ok_def by blast
qed (use assms(1) in \<open>simp add: update_peer_def\<close>)

lemma channels_ok_send [invs]: "channels_ok fed \<Longrightarrow> channels_ok (snd (send_to_peer url msg fed))"
  by (auto simp: send_to_peer_def intro!: channels_ok_update_peer split: option.split if_split)

lemma channels_ok_gossip [invs]: "channels_ok fed \<Longrightarrow> channels_ok (gossip_round L now inst mid nids fed)"
proof -
  assume "channels_ok fed"
  then have "channels_ok (fold (\<lambda>url fed. snd (send_to_peer url msg fed)) urls fed)" for msg urls
    by (induction urls arbitrary: fed) (simp_all add: invs)
  moreover have "channels_ok f \<Longrightarrow> channels_ok (cleanup_expired_routes inst f)" for f
    by (auto simp: channels_ok_def cleanup_expired_routes_def)
  ultimately show ?thesis using \<open>channels_ok fed\<close> by (simp add: gossip_round_def Let_def)
qed

end
