(* ===== verification/Relay.thy ===== *)
theory Relay
  imports Federation RateLimit
begin

text \<open>
  The relay server (\<open>relay/src/main.rs\<close>): its state, one definition per message type of
  \<open>handle_message\<close>, the dispatch, the text-message branch of the connection loop, the per-address
  connection limiter, and the background clean-ups. A handler returns either the error that the loop
  reports to the client or the messages it sends, together with the new state, since a failing
  request may already have recorded a certificate or a nonce. Each handler is one step; the locks that the
  code takes around single operations are not interleaved here.
\<close>

section \<open>State\<close>

record relay_state =
  rs_mail :: mail_state
  rs_shared_secret :: "string option"
  rs_nonces :: nonce_table
  rs_conn_limiters :: "(string \<times> RateLimiter \<times> f64) list"
  rs_fed :: FederationState
  rs_certs :: armored_certs
  rs_known_peers :: "string list"
  rs_allow_relay :: bool

definition relay_new :: "string option \<Rightarrow> bytes \<Rightarrow> MailRow list option \<Rightarrow> string list \<Rightarrow> bool \<Rightarrow> relay_state" where
  "relay_new shared_secret metadata_key rows known_peers allow_relay =
     \<lparr>rs_mail = \<lparr>ms_mailboxes = [], ms_db = rows, ms_metadata_key = metadata_key\<rparr>,
      rs_shared_secret = shared_secret, rs_nonces = [], rs_conn_limiters = [], rs_fed = federation_new shared_secret,
      rs_certs = [], rs_known_peers = known_peers, rs_allow_relay = allow_relay\<rparr>"

text \<open>The libraries, and what a call takes from its environment: wall clock, instant, fresh message
  identifier and AES nonce, and whether the locks and the database answer.\<close>

record 'cert relay_lib =
  rb_pgp :: "'cert pgp_lib"
  rb_crypto :: crypto_lib
  rb_show_f64 :: "f64 \<Rightarrow> string"

record relay_call =
  rc_now :: f64
  rc_instant :: f64
  rc_mid :: string
  rc_nonce :: bytes
  rc_lock_ok :: bool
  rc_db_ok :: bool

datatype relay_out = Respond bool "string option" "json option" | SendEnv RelayEnvelope

definition send_ok :: "json option \<Rightarrow> relay_out list" where
  "send_ok data = [Respond True None data]"

definition send_error :: "string \<Rightarrow> relay_out list" where
  "send_error e = [Respond False (Some e) None]"

definition send_env :: "relay_call \<Rightarrow> string \<Rightarrow> json \<Rightarrow> relay_out list" where
  "send_env c mt pl = [SendEnv \<lparr>re_msg_type = mt, re_payload = pl, re_msg_id = rc_mid c, re_ts = rc_now c\<rparr>]"

type_synonym 'a outcome = "(string + 'a) \<times> relay_state"

definition try_then :: "'a outcome \<Rightarrow> ('a \<Rightarrow> relay_state \<Rightarrow> 'b outcome) \<Rightarrow> 'b outcome" where
  "try_then r f = (case r of (Inl e, S) \<Rightarrow> (Inl e, S) | (Inr a, S) \<Rightarrow> f a S)"

text \<open>Calls on parts of the state.\<close>

definition relay_verify :: "'cert relay_lib \<Rightarrow> relay_call \<Rightarrow> string \<Rightarrow> string \<Rightarrow> string \<Rightarrow> string \<Rightarrow> string \<Rightarrow> relay_state \<Rightarrow> unit outcome" where
  "relay_verify R c denied sg data fp cert S =
     (let (verified, certs) = verify_gpg_detached (rb_pgp R) (rc_lock_ok c) sg data fp cert (rs_certs S)
      in (if unwrap_or False verified then Inr () else Inl denied, S\<lparr>rs_certs := certs\<rparr>))"

definition relay_check_nonce :: "relay_call \<Rightarrow> string \<Rightarrow> string \<Rightarrow> relay_state \<Rightarrow> unit outcome" where
  "relay_check_nonce c fp nonce S =
     (let (fresh, tbl) = check_and_record_nonce_str \<lfloor>rc_now c\<rfloor> fp nonce (rs_nonces S)
      in (if fresh then Inr () else Inl ''replay detected: nonce already seen'', S\<lparr>rs_nonces := tbl\<rparr>))"

definition relay_require :: "bool \<Rightarrow> string \<Rightarrow> relay_state \<Rightarrow> unit outcome" where
  "relay_require b e S = (if b then Inr () else Inl e, S)"

definition relay_parse :: "string \<Rightarrow> 'a option \<Rightarrow> relay_state \<Rightarrow> 'a outcome" where
  "relay_parse e x S = (ok_or e x, S)"

definition relay_fresh :: "relay_call \<Rightarrow> f64 \<Rightarrow> relay_state \<Rightarrow> unit outcome" where
  "relay_fresh c timestamp S = (check_timestamp_freshness (rc_now c) timestamp, S)"

section \<open>Mailbox messages\<close>

definition accept_store :: "'cert relay_lib \<Rightarrow> relay_call \<Rightarrow> MailboxStoreRequest \<Rightarrow> relay_state \<Rightarrow> unit outcome" where
  "accept_store R c req S =
     (let (verified, certs) = verify_store_signature (rb_pgp R) (rb_show_f64 R) (rc_lock_ok c) req (rs_certs S)
      in try_then (verified, S\<lparr>rs_certs := certs\<rparr>) (\<lambda>_ S.
         try_then (relay_fresh c (sr_timestamp req) S) (\<lambda>_ S.
         try_then (relay_check_nonce c (sr_sender_fp req) (sr_nonce req) S) (\<lambda>_ S.
           let (r, M) = store_message (rb_crypto R) (rc_db_ok c) (rc_nonce c) (word_of_int \<lfloor>rc_now c\<rfloor>) req (rs_mail S)
           in (r, S\<lparr>rs_mail := M\<rparr>)))))"

definition handle_relay_store :: "'cert relay_lib \<Rightarrow> relay_call \<Rightarrow> json \<Rightarrow> relay_state \<Rightarrow> relay_out list outcome" where
  "handle_relay_store R c pl S =
     try_then (relay_parse ''invalid store request'' (parse_store_request pl) S) (\<lambda>req S.
     try_then (accept_store R c req S) (\<lambda>_ S. (Inr (send_ok None), S)))"

definition entries_json :: "MailboxEntry list \<Rightarrow> json" where
  "entries_json es =
     JObj [(''entries'', JArr (map (\<lambda>e. JObj [(''signed_blob'', JStr (me_signed_blob e)), (''sender_nid'', JStr (me_sender_nid e)),
                                         (''sender_fp'', JStr (me_sender_fp e)), (''seq'', JInt (me_seq e))]) es)),
           (''count'', JInt (int (length es)))]"

definition fetch_data :: "'cert relay_lib \<Rightarrow> MailboxFetchRequest \<Rightarrow> string" where
  "fetch_data R req =
     ''relay-fetch:'' @ fr_recipient_nid req @ '':'' @ rb_show_f64 R (fr_timestamp req) @ '':'' @ fr_nonce req"

definition handle_relay_fetch :: "'cert relay_lib \<Rightarrow> relay_call \<Rightarrow> json \<Rightarrow> relay_state \<Rightarrow> relay_out list outcome" where
  "handle_relay_fetch R c pl S =
     try_then (relay_parse ''invalid fetch request'' (parse_fetch_request pl) S) (\<lambda>req S.
     try_then (relay_require (fr_sender_sig req \<noteq> [] \<and> fr_requester_fp req \<noteq> []) ''fetch request missing sender signature'' S) (\<lambda>_ S.
     try_then (relay_fresh c (fr_timestamp req) S) (\<lambda>_ S.
     try_then (relay_require (compute_null_id (rb_pgp R) (fr_requester_fp req) = fr_recipient_nid req)
                 ''fetch denied: null_id does not match requester fingerprint'' S) (\<lambda>_ S.
     try_then (relay_verify R c ''fetch denied: GPG signature verification failed'' (fr_sender_sig req) (fetch_data R req)
                 (fr_requester_fp req) (fr_sender_cert req) S) (\<lambda>_ S.
     try_then (relay_check_nonce c (fr_requester_fp req) (fr_requester_fp req @ '':'' @ fr_nonce req) S) (\<lambda>_ S.
     try_then (relay_require (case rs_shared_secret S of None \<Rightarrow> True
                  | Some secret \<Rightarrow> verify_hmac (rb_pgp R) (rb_crypto R) (fr_recipient_nid req) (fr_auth_hmac req) secret)
                 ''HMAC authentication failed'' S) (\<lambda>_ S.
       (Inr (send_ok (Some (entries_json
          (fetch_messages (rc_db_ok c) (word_of_int \<lfloor>rc_now c\<rfloor>) (fr_recipient_nid req) (rs_mail S))))), S))))))))"

text \<open>The remaining handlers read single fields, with a default for a missing one.\<close>

definition field_str :: "json \<Rightarrow> string \<Rightarrow> string" where
  "field_str pl key = opt_or [] (Option.bind (json_get pl key) as_str)"

definition field_f64 :: "json \<Rightarrow> string \<Rightarrow> f64" where
  "field_f64 pl key = opt_or 0 (Option.bind (json_get pl key) as_f64)"

definition field_i64 :: "json \<Rightarrow> string \<Rightarrow> int" where
  "field_i64 pl key = opt_or 0 (Option.bind (json_get pl key) as_i64)"

definition ack_data :: "'cert relay_lib \<Rightarrow> json \<Rightarrow> string" where
  "ack_data R pl = ''relay-ack:'' @ field_str pl ''recipient_nid'' @ '':'' @ show_int (field_i64 pl ''seq'') @ '':'' @
     rb_show_f64 R (field_f64 pl ''timestamp'') @ '':'' @ field_str pl ''nonce''"

definition handle_relay_ack :: "'cert relay_lib \<Rightarrow> relay_call \<Rightarrow> json \<Rightarrow> relay_state \<Rightarrow> relay_out list outcome" where
  "handle_relay_ack R c pl S =
     (let fp = field_str pl ''requester_fp''; sg = field_str pl ''sender_sig''
      in try_then (relay_require (sg \<noteq> [] \<and> fp \<noteq> []) ''ack request missing sender signature'' S) (\<lambda>_ S.
         try_then (relay_fresh c (field_f64 pl ''timestamp'') S) (\<lambda>_ S.
         try_then (relay_require (compute_null_id (rb_pgp R) fp = field_str pl ''recipient_nid'')
                     ''ack denied: null_id does not match requester fingerprint'' S) (\<lambda>_ S.
         try_then (relay_verify R c ''ack denied: GPG signature verification failed'' sg (ack_data R pl) fp
                     (field_str pl ''sender_cert'') S) (\<lambda>_ S.
         try_then (relay_check_nonce c fp (fp @ '':'' @ field_str pl ''nonce'') S) (\<lambda>_ S.
           (Inr (send_ok None),
            S\<lparr>rs_mail := ack_message (rc_db_ok c) (field_str pl ''recipient_nid'') (field_i64 pl ''seq'') (rs_mail S)\<rparr>)))))))"

definition purge_data :: "'cert relay_lib \<Rightarrow> json \<Rightarrow> string" where
  "purge_data R pl = ''relay-purge:'' @ field_str pl ''recipient_nid'' @ '':'' @ rb_show_f64 R (field_f64 pl ''timestamp'') @ '':'' @
     field_str pl ''nonce''"

definition handle_relay_purge :: "'cert relay_lib \<Rightarrow> relay_call \<Rightarrow> json \<Rightarrow> relay_state \<Rightarrow> relay_out list outcome" where
  "handle_relay_purge R c pl S =
     (let recipient = field_str pl ''recipient_nid''; fp = field_str pl ''requester_fp''; sg = field_str pl ''sender_sig''
      in try_then (relay_require (case rs_shared_secret S of None \<Rightarrow> True
             | Some secret \<Rightarrow> verify_hmac (rb_pgp R) (rb_crypto R)
                 (''relay-purge:'' @ recipient @ '':'' @ rb_show_f64 R (field_f64 pl ''timestamp'')) (field_str pl ''auth_hmac'') secret)
             ''purge denied: HMAC verification failed'' S) (\<lambda>_ S.
         try_then (relay_require (fp \<noteq> [] \<and> sg \<noteq> []) ''purge: missing requester fingerprint or signature'' S) (\<lambda>_ S.
         try_then (relay_fresh c (field_f64 pl ''timestamp'') S) (\<lambda>_ S.
         try_then (relay_require (compute_null_id (rb_pgp R) fp = recipient)
                     ''purge denied: null_id does not match requester fingerprint'' S) (\<lambda>_ S.
         try_then (relay_verify R c ''purge denied: GPG signature verification failed'' sg (purge_data R pl) fp [] S) (\<lambda>_ S.
         try_then (relay_check_nonce c fp (''purge:'' @ fp @ '':'' @ field_str pl ''nonce'') S) (\<lambda>_ S.
           (Inr (send_ok None), S\<lparr>rs_mail := purge_all_messages (rc_db_ok c) recipient (rs_mail S)\<rparr>))))))))"

section \<open>Federation messages\<close>

definition on_fed :: "(FederationState \<Rightarrow> FederationState) \<Rightarrow> relay_state \<Rightarrow> relay_state" where
  "on_fed f S = S\<lparr>rs_fed := f (rs_fed S)\<rparr>"

definition our_url :: "relay_state \<Rightarrow> string" where
  "our_url S = opt_or [] (fed_our_url (rs_fed S))"

text \<open>The routes of an advertisement (\<open>null_ids\<close>), each for thirty minutes, and the peer was seen.\<close>

definition learn_routes :: "relay_call \<Rightarrow> json \<Rightarrow> relay_state \<Rightarrow> relay_state" where
  "learn_routes c pl S =
     (let peer_url = field_str pl ''relay_url'';
          nids = json_strings (opt_or [] (Option.bind (json_get pl ''null_ids'') as_array))
      in on_fed (\<lambda>fed. update_peer peer_url (\<lambda>p. p\<lparr>pi_last_seen := rc_instant c\<rparr>)
                   (fold (\<lambda>nid. add_route (rc_instant c) nid peer_url) nids fed)) S)"

text \<open>The advertisement itself must be complete: \<open>relay_url\<close>, \<open>route_count\<close> and \<open>ttl\<close>.\<close>

definition parse_route_advertise :: "json \<Rightarrow> (string \<times> u64 \<times> u64) option" where
  "parse_route_advertise pl =
     Option.bind (json_struct [''relay_url'', ''route_count'', ''ttl''] pl) (\<lambda>f.
     Option.bind (required as_str (f ''relay_url'')) (\<lambda>url.
     Option.bind (required as_u64 (f ''route_count'')) (\<lambda>n.
     Option.bind (required as_u64 (f ''ttl'')) (\<lambda>ttl. Some (url, n, ttl)))))"

definition handle_route_advertise :: "relay_call \<Rightarrow> json \<Rightarrow> relay_state \<Rightarrow> relay_out list outcome" where
  "handle_route_advertise c pl S =
     try_then (relay_parse ''invalid route-advertise'' (parse_route_advertise pl) S) (\<lambda>_ S.
       let S = learn_routes c pl S;
           local_nids = get_local_null_ids (rs_mail S)
       in (Inr (send_env c ''route-advertise-ack''
             (JObj [(''relay_url'', JStr (our_url S)), (''route_count'', JInt (int (length local_nids))),
                    (''null_ids'', JArr (map JStr local_nids))])), S))"

definition handle_route_advertise_ack :: "relay_call \<Rightarrow> json \<Rightarrow> relay_state \<Rightarrow> relay_out list outcome" where
  "handle_route_advertise_ack c pl S = (Inr [], learn_routes c pl S)"

definition handle_who_has :: "relay_call \<Rightarrow> json \<Rightarrow> relay_state \<Rightarrow> relay_out list outcome" where
  "handle_who_has c pl S =
     try_then (relay_parse ''invalid who-has''
         (Option.bind (json_struct [''null_id''] pl) (\<lambda>f. required as_str (f ''null_id''))) S) (\<lambda>null_id S.
       let found = (\<lambda>url. send_env c ''route-found'' (JObj [(''null_id'', JStr null_id), (''relay_url'', JStr url)]))
       in (Inr (if null_id \<in> set (get_local_null_ids (rs_mail S)) then found (our_url S)
                else (case lookup_route null_id (rs_fed S) of None \<Rightarrow> [] | Some url \<Rightarrow> found url)), S))"

definition parse_two :: "string \<Rightarrow> string \<Rightarrow> json \<Rightarrow> (string \<times> string) option" where
  "parse_two a b pl =
     Option.bind (json_struct [a, b] pl) (\<lambda>f.
     Option.bind (required as_str (f a)) (\<lambda>x. Option.bind (required as_str (f b)) (\<lambda>y. Some (x, y))))"

definition handle_peer_auth :: "'cert relay_lib \<Rightarrow> relay_call \<Rightarrow> json \<Rightarrow> relay_state \<Rightarrow> relay_out list outcome" where
  "handle_peer_auth R c pl S =
     try_then (relay_parse ''invalid peer-auth'' (parse_two ''challenge'' ''relay_url'' pl) S) (\<lambda>(challenge, relay_url) S.
       let S = on_fed (\<lambda>fed. fed\<lparr>fed_pending_challenges :=
                 AList.update relay_url (challenge, \<lfloor>rc_now c\<rfloor>) (fed_pending_challenges fed)\<rparr>) S
       in (Inr (case fed_shared_secret (rs_fed S) of
                  None \<Rightarrow> []
                | Some secret \<Rightarrow> send_env c ''peer-auth-reply''
                    (JObj [(''response'', JStr (compute_hmac (rb_pgp R) (rb_crypto R) challenge secret)),
                           (''relay_url'', JStr (our_url S))])), S))"

definition handle_peer_auth_reply :: "'cert relay_lib \<Rightarrow> relay_call \<Rightarrow> json \<Rightarrow> relay_state \<Rightarrow> relay_out list outcome" where
  "handle_peer_auth_reply R c pl S =
     try_then (relay_parse ''invalid peer-auth-reply'' (parse_two ''response'' ''relay_url'' pl) S) (\<lambda>(response, relay_url) S.
       case map_of (fed_pending_challenges (rs_fed S)) relay_url of
         None \<Rightarrow> (Inr [], S)
       | Some (challenge, created_at) \<Rightarrow>
           let S = on_fed (\<lambda>fed. fed\<lparr>fed_pending_challenges := AList.delete relay_url (fed_pending_challenges fed)\<rparr>) S
           in if 300 < \<lfloor>rc_now c\<rfloor> - created_at then (Inl ''challenge expired'', S)
              else (case fed_shared_secret (rs_fed S) of
                      None \<Rightarrow> (Inr [], S)
                    | Some secret \<Rightarrow>
                        if compute_hmac (rb_pgp R) (rb_crypto R) challenge secret = response
                        then (Inr [], on_fed (update_peer relay_url (\<lambda>p. p\<lparr>pi_authenticated := True\<rparr>)) S)
                        else (Inr [], S)))"

definition forward_ack :: "relay_call \<Rightarrow> string option \<Rightarrow> relay_out list" where
  "forward_ack c err =
     send_env c ''relay-forward-ack''
       (JObj [(''accepted'', JBool (err = None)), (''error'', (case err of None \<Rightarrow> JNull | Some e \<Rightarrow> JStr e))])"

definition forwarded_request :: "RelayForward \<Rightarrow> MailboxStoreRequest" where
  "forwarded_request fw =
     \<lparr>sr_recipient_nid = fw_recipient_nid fw, sr_signed_blob = fw_signed_blob fw, sr_sender_nid = fw_sender_nid fw,
      sr_sender_fp = fw_sender_fp fw, sr_seq = fw_seq fw, sr_sender_sig = fw_sender_sig fw,
      sr_timestamp = fw_timestamp fw, sr_nonce = show_int (fw_nonce fw), sr_sender_cert = [], sr_sealed_sender = []\<rparr>"

definition handle_relay_forward :: "'cert relay_lib \<Rightarrow> relay_call \<Rightarrow> json \<Rightarrow> relay_state \<Rightarrow> relay_out list outcome" where
  "handle_relay_forward R c pl S =
     (if \<not> rs_allow_relay S then
        (Inr (forward_ack c (Some ''relay does not accept transit forwarding (edge mode)'')), S)
      else
        try_then (relay_parse ''invalid relay-forward'' (parse_forward pl) S) (\<lambda>fw S.
          if fed_shared_secret (rs_fed S) \<noteq> None
             \<and> (case map_of (fed_peers (rs_fed S)) (fw_source_relay_url fw) of None \<Rightarrow> False | Some p \<Rightarrow> \<not> pi_authenticated p)
          then (Inr (forward_ack c (Some ''peer not authenticated: HMAC challenge-response required'')), S)
          else if our_url S \<in> set (fw_via fw) then (Inr (forward_ack c (Some ''loop detected'')), S)
          else if FEDERATION_MAX_RELAY_HOPS \<le> fw_hop_count fw then
            (Inr (forward_ack c (Some ''max hop count exceeded'')), S)
          else try_then (accept_store R c (forwarded_request fw) S) (\<lambda>_ S. (Inr (forward_ack c None), S))))"

text \<open>The entry relay forwards an onion message without a sender, a signature or a recipient.\<close>

definition onion_forward :: "relay_call \<Rightarrow> string \<Rightarrow> string \<Rightarrow> RelayForward" where
  "onion_forward c ciphertext url =
     \<lparr>fw_recipient_nid = [], fw_signed_blob = ciphertext, fw_sender_nid = ''onion'', fw_sender_fp = [], fw_seq = 0,
      fw_sender_sig = [], fw_timestamp = rc_now c, fw_nonce = \<lfloor>rc_now c\<rfloor>, fw_hop_count = 1, fw_via = [],
      fw_source_relay_url = url, fw_source_relay_cert = [], fw_source_relay_sig = [], fw_source_relay_fp = [],
      fw_sender_cert = []\<rparr>"

definition handle_onion :: "'cert relay_lib \<Rightarrow> relay_call \<Rightarrow> json \<Rightarrow> relay_state \<Rightarrow> relay_out list outcome" where
  "handle_onion R c pl S =
     (let exit_relay_url = field_str pl ''exit_relay_url''; ciphertext = field_str pl ''ciphertext''
      in try_then (relay_require (exit_relay_url \<noteq> [] \<and> ciphertext \<noteq> []) ''onion-v1: missing exit_relay_url or ciphertext'' S) (\<lambda>_ S.
           let env = \<lparr>re_msg_type = ''relay-forward'', re_payload = forward_json (onion_forward c ciphertext (our_url S)),
                      re_msg_id = rc_mid c, re_ts = rc_now c\<rparr>
           in (Inr (send_ok None),
               on_fed (\<lambda>fed. snd (send_to_peer exit_relay_url (json_print (rb_crypto R) (relay_envelope_json env)) fed)) S)))"

section \<open>Dispatch and connections\<close>

definition handle_message :: "'cert relay_lib \<Rightarrow> relay_call \<Rightarrow> RelayEnvelope \<Rightarrow> relay_state \<Rightarrow> relay_out list outcome" where
  "handle_message R c env S =
     (let mt = re_msg_type env; pl = re_payload env
      in if mt = ''relay-store'' then handle_relay_store R c pl S
         else if mt = ''relay-fetch'' then handle_relay_fetch R c pl S
         else if mt = ''relay-ack'' then handle_relay_ack R c pl S
         else if mt = ''relay-ping'' then (Inr (send_env c ''relay-pong'' (JObj [])), S)
         else if mt = ''route-advertise'' then handle_route_advertise c pl S
         else if mt = ''route-advertise-ack'' then handle_route_advertise_ack c pl S
         else if mt = ''who-has'' then handle_who_has c pl S
         else if mt = ''peer-auth'' then handle_peer_auth R c pl S
         else if mt = ''peer-auth-reply'' then handle_peer_auth_reply R c pl S
         else if mt = ''relay-forward'' then handle_relay_forward R c pl S
         else if mt = ''relay-purge'' then handle_relay_purge R c pl S
         else if mt = ''onion-v1'' then handle_onion R c pl S
         else (Inl (''unknown message type: '' @ mt), S))"

definition MAX_CONNECTIONS :: nat where "MAX_CONNECTIONS = 100"

definition relay_overloaded :: "relay_state \<Rightarrow> bool" where
  "relay_overloaded S \<longleftrightarrow>
     MAX_CONNECTIONS * MAX_MAILBOX_SIZE \<le> sum_list (map (\<lambda>(_, mb). length (mb_entries mb)) (ms_mailboxes (rs_mail S)))"

definition handle_ws_text :: "'cert relay_lib \<Rightarrow> relay_call \<Rightarrow> string \<Rightarrow> relay_state \<Rightarrow> relay_out list \<times> relay_state" where
  "handle_ws_text R c text S =
     (case Option.bind (json_parse (rb_crypto R) text) parse_relay_envelope of
        None \<Rightarrow> (send_error ''invalid JSON'', S)
      | Some env \<Rightarrow>
          if of_int STORE_TIMESTAMP_TOLERANCE_SECS < \<bar>rc_now c - re_ts env\<bar>
          then (send_error ''envelope timestamp out of range'', S)
          else (case handle_message R c env S of
                  (Inl e, S) \<Rightarrow> (send_error e, S)
                | (Inr out, S) \<Rightarrow> (out, S)))"

definition MAX_PEER_LIMITERS :: nat where "MAX_PEER_LIMITERS = 10000"
definition PEER_LIMITER_CLEANUP_SECS :: f64 where "PEER_LIMITER_CLEANUP_SECS = 120"

text \<open>The start of \<open>handle_connection\<close>: the limiter of the address decides, then the table is trimmed.\<close>

definition admit_connection :: "f64 \<Rightarrow> string \<Rightarrow> relay_state \<Rightarrow> bool \<times> relay_state" where
  "admit_connection now ip S =
     (let limiter = (case map_of (rs_conn_limiters S) ip of None \<Rightarrow> limiter_new 30 60 | Some (l, _) \<Rightarrow> l);
          (ok, limiter) = allow now ip limiter;
          limiters = AList.update ip (limiter, now) (rs_conn_limiters S);
          trimmed = (if ok \<and> MAX_PEER_LIMITERS < length limiters
                     then (case min_by_key (\<lambda>(_, _, t). t) limiters of
                             None \<Rightarrow> limiters | Some (oldest_ip, _) \<Rightarrow> AList.delete oldest_ip limiters)
                     else limiters)
      in (ok, S\<lparr>rs_conn_limiters := trimmed\<rparr>))"

definition pin_peer_certificate :: "string \<Rightarrow> relay_state \<Rightarrow> relay_state" where
  "pin_peer_certificate cert_fp S =
     (if cert_fp \<in> set (rs_known_peers S) then S else S\<lparr>rs_known_peers := rs_known_peers S @ [cert_fp]\<rparr>)"

definition cleanup_limiters :: "f64 \<Rightarrow> relay_state \<Rightarrow> relay_state" where
  "cleanup_limiters now S =
     S\<lparr>rs_conn_limiters := filter (\<lambda>(_, _, last). now - 2 * PEER_LIMITER_CLEANUP_SECS < last) (rs_conn_limiters S)\<rparr>"

section \<open>Histories\<close>

datatype relay_event =
    RText relay_call string
  | RCleanup bool u64
  | RGossip f64 f64 string
  | RConnect f64 string
  | RPinPeer string
  | RLimiterCleanup f64
  | RPeerUp f64 string
  | RPeerSent bool string
  | RPeerText f64 string string

fun relay_step :: "'cert relay_lib \<Rightarrow> relay_event \<Rightarrow> relay_state \<Rightarrow> relay_state" where
  "relay_step R (RText c text) S = snd (handle_ws_text R c text S)"
| "relay_step R (RCleanup db_ok now) S = S\<lparr>rs_mail := cleanup_expired db_ok now (rs_mail S)\<rparr>"
| "relay_step R (RGossip now inst mid) S =
     on_fed (gossip_round (rb_crypto R) now inst mid (get_local_null_ids (rs_mail S))) S"
| "relay_step R (RConnect now ip) S = snd (admit_connection now ip S)"
| "relay_step R (RPinPeer fp) S = pin_peer_certificate fp S"
| "relay_step R (RLimiterCleanup now) S = cleanup_limiters now S"
| "relay_step R (RPeerUp now url) S = on_fed (peer_connected now url) S"
| "relay_step R (RPeerSent ws_ok url) S = on_fed (snd \<circ> peer_sender_task ws_ok url) S"
| "relay_step R (RPeerText now url text) S = on_fed (peer_receiver_task (rb_crypto R) now url text) S"

section \<open>Reasoning about handlers\<close>

lemma try_then_simps [simp]:
  "try_then (Inl e, S) f = (Inl e, S)"
  "try_then (Inr a, S) f = f a S"
  by (simp_all add: try_then_def)

lemma try_then_Inr [result_simps]:
  "try_then r f = (Inr b, S') \<longleftrightarrow> (\<exists>a S. r = (Inr a, S) \<and> f a S = (Inr b, S'))"
  by (cases r; cases "fst r") (auto simp: try_then_def split: sum.splits)

text \<open>What a failing request leaves behind is what its last step left behind.\<close>

lemma try_then_inv: "P (snd r) \<Longrightarrow> (\<And>a S. P S \<Longrightarrow> P (snd (f a S))) \<Longrightarrow> P (snd (try_then r f))"
  by (cases r; cases "fst r") auto

lemma relay_require_simps [simp]: "snd (relay_require b e S) = S" "relay_require True e S = (Inr (), S)"
  by (simp_all add: relay_require_def)

lemma relay_require_Inr [simp]: "relay_require b e S = (Inr u, S') \<longleftrightarrow> b \<and> S' = S"
  by (auto simp: relay_require_def)

lemma relay_parse_simps [simp]: "snd (relay_parse e x S) = S"
  by (simp add: relay_parse_def)

lemma relay_parse_Inr [simp]: "relay_parse e x S = (Inr a, S') \<longleftrightarrow> x = Some a \<and> S' = S"
  by (auto simp: relay_parse_def)

lemma relay_fresh_simps [simp]: "snd (relay_fresh c t S) = S"
  by (simp add: relay_fresh_def)

lemma relay_fresh_Inr [simp]: "relay_fresh c t S = (Inr u, S') \<longleftrightarrow> \<bar>rc_now c - t\<bar> \<le> 300 \<and> S' = S"
  by (auto simp: relay_fresh_def check_timestamp_freshness_def STORE_TIMESTAMP_TOLERANCE_SECS_def)

lemma relay_verify_Inr [simp]:
  "relay_verify R c e sg data fp cert S = (Inr u, S') \<longleftrightarrow>
     rc_lock_ok c \<and> pin_verifies (rb_pgp R) (remember_cert fp cert (rs_certs S)) fp sg data
     \<and> S' = S\<lparr>rs_certs := remember_cert fp cert (rs_certs S)\<rparr>"
  using verify_gpg_detached_True [of "rb_pgp R" "rc_lock_ok c" sg data fp cert "rs_certs S"]
    snd_verify_gpg_detached [of "rb_pgp R" "rc_lock_ok c" sg data fp cert "rs_certs S"]
  by (auto simp: relay_verify_def case_prod_beta split: if_splits)

lemma relay_check_nonce_Inr [simp]:
  "relay_check_nonce c fp n S = (Inr u, S') \<longleftrightarrow>
     n \<notin> fst ` set (nonces_of fp (rs_nonces S))
     \<and> S' = S\<lparr>rs_nonces := snd (check_and_record_nonce_str \<lfloor>rc_now c\<rfloor> fp n (rs_nonces S))\<rparr>"
  using nonce_fresh [of "\<lfloor>rc_now c\<rfloor>" fp n "rs_nonces S"]
  by (auto simp: relay_check_nonce_def case_prod_beta split: if_splits)

lemmas handler_defs = handle_relay_store_def handle_relay_fetch_def handle_relay_ack_def handle_relay_purge_def
  handle_route_advertise_def handle_route_advertise_ack_def handle_who_has_def handle_peer_auth_def
  handle_peer_auth_reply_def handle_relay_forward_def handle_onion_def

section \<open>Certificates stay pinned\<close>

definition pinned :: "string \<Rightarrow> string \<Rightarrow> relay_state \<Rightarrow> bool" where
  "pinned fp cert S \<longleftrightarrow> map_of (rs_certs S) fp = Some cert"

lemma pinned_simps [simp]:
  "pinned fp cert (S\<lparr>rs_mail := M\<rparr>) = pinned fp cert S"
  "pinned fp cert (S\<lparr>rs_nonces := N\<rparr>) = pinned fp cert S"
  "pinned fp cert (S\<lparr>rs_conn_limiters := l\<rparr>) = pinned fp cert S"
  "pinned fp cert (S\<lparr>rs_known_peers := k\<rparr>) = pinned fp cert S"
  "pinned fp cert (on_fed g S) = pinned fp cert S"
  "pinned fp cert (snd (relay_check_nonce c fp' n S)) = pinned fp cert S"
  by (simp_all add: pinned_def on_fed_def relay_check_nonce_def case_prod_beta)

lemma pinned_verify [simp]: "pinned fp cert S \<Longrightarrow> pinned fp cert (snd (relay_verify R c e sg data fp' cert' S))"
  by (simp add: pinned_def relay_verify_def case_prod_beta verify_gpg_detached_keeps)

lemmas pinned_then = try_then_inv [where P = "pinned fp cert" for fp cert]

lemma pinned_accept_store [simp]: "pinned fp cert S \<Longrightarrow> pinned fp cert (snd (accept_store R c req S))"
  by (auto simp: accept_store_def case_prod_beta intro!: pinned_then)
    (simp add: pinned_def verify_store_signature_keeps)

lemma pinned_handlers:
  assumes "pinned fp cert S"
  shows "pinned fp cert (snd (handle_message R c env S))"
  using assms unfolding handle_message_def Let_def handler_defs learn_routes_def
  by (auto intro!: pinned_then split: option.split prod.split)

lemma pinned_step: "pinned fp cert S \<Longrightarrow> pinned fp cert (relay_step R e S)"
proof (cases e)
  case (RText c tx)
  assume S: "pinned fp cert S"
  have "pinned fp cert (snd (handle_ws_text R c tx S))"
  proof (cases "Option.bind (json_parse (rb_crypto R) tx) parse_relay_envelope")
    case (Some env)
    then show ?thesis
      using S pinned_handlers [OF S, of R c env]
      by (cases "handle_message R c env S"; cases "fst (handle_message R c env S)") (auto simp: handle_ws_text_def)
  qed (simp add: handle_ws_text_def S)
  with RText show ?thesis by simp
qed (simp_all add: admit_connection_def Let_def case_prod_beta pin_peer_certificate_def cleanup_limiters_def)

section \<open>Who can change a mailbox\<close>

lemma try_then_Inl [result_simps]:
  "try_then r f = (Inl e, S') \<longleftrightarrow> r = (Inl e, S') \<or> (\<exists>a S. r = (Inr a, S) \<and> f a S = (Inl e, S'))"
  by (cases r; cases "fst r") (auto simp: try_then_def split: sum.splits)

text \<open>A check that fails leaves the mail alone.\<close>

lemma checks_fail_mail:
  "relay_require b e S = (Inl x, S') \<Longrightarrow> rs_mail S' = rs_mail S"
  "relay_parse e v S = (Inl x, S') \<Longrightarrow> rs_mail S' = rs_mail S"
  "relay_fresh c t S = (Inl x, S') \<Longrightarrow> rs_mail S' = rs_mail S"
  "relay_verify R c e sg data fp cert S = (Inl x, S') \<Longrightarrow> rs_mail S' = rs_mail S"
  "relay_check_nonce c fp n S = (Inl x, S') \<Longrightarrow> rs_mail S' = rs_mail S"
  by (auto simp: relay_require_def relay_parse_def relay_fresh_def relay_verify_def relay_check_nonce_def case_prod_beta)

lemma ack_refused: "handle_relay_ack R c pl S = (Inl e, S') \<Longrightarrow> rs_mail S' = rs_mail S"
  by (auto simp: handle_relay_ack_def Let_def try_then_Inl dest!: checks_fail_mail)

lemma purge_refused: "handle_relay_purge R c pl S = (Inl e, S') \<Longrightarrow> rs_mail S' = rs_mail S"
  by (auto simp: handle_relay_purge_def Let_def try_then_Inl dest!: checks_fail_mail)

text \<open>The request is signed, with a fresh timestamp, under the certificate that is pinned for a
  fingerprint whose Null ID is the mailbox.\<close>

definition owner_signed :: "'cert relay_lib \<Rightarrow> relay_call \<Rightarrow> json \<Rightarrow> string \<Rightarrow> string \<Rightarrow> relay_state \<Rightarrow> bool" where
  "owner_signed R c pl data nid S \<longleftrightarrow>
     compute_null_id (rb_pgp R) (field_str pl ''requester_fp'') = nid
     \<and> \<bar>rc_now c - field_f64 pl ''timestamp''\<bar> \<le> 300
     \<and> pin_verifies (rb_pgp R) (rs_certs S) (field_str pl ''requester_fp'') (field_str pl ''sender_sig'') data"

lemma ack_accepted:
  "handle_relay_ack R c pl S = (Inr out, S') \<Longrightarrow>
     owner_signed R c pl (ack_data R pl) (field_str pl ''recipient_nid'') S'
     \<and> rs_mail S' = ack_message (rc_db_ok c) (field_str pl ''recipient_nid'') (field_i64 pl ''seq'') (rs_mail S)"
  by (auto simp: handle_relay_ack_def Let_def try_then_Inr owner_signed_def)

lemma purge_accepted:
  "handle_relay_purge R c pl S = (Inr out, S') \<Longrightarrow>
     owner_signed R c pl (purge_data R pl) (field_str pl ''recipient_nid'') S'
     \<and> rs_mail S' = purge_all_messages (rc_db_ok c) (field_str pl ''recipient_nid'') (rs_mail S)"
  by (auto simp: handle_relay_purge_def Let_def try_then_Inr owner_signed_def)

definition keeps_pending :: "string \<Rightarrow> MailRow list \<Rightarrow> relay_state \<Rightarrow> bool" where
  "keeps_pending nid rows S \<longleftrightarrow> prefix rows (pending nid (rs_mail S))"

lemma keeps_pending_simps [simp]:
  "keeps_pending nid rows (S\<lparr>rs_certs := C\<rparr>) = keeps_pending nid rows S"
  "keeps_pending nid rows (on_fed g S) = keeps_pending nid rows S"
  "keeps_pending nid rows (snd (relay_check_nonce c fp' n S)) = keeps_pending nid rows S"
  "keeps_pending nid rows (snd (relay_verify R c e sg data fp' cert' S)) = keeps_pending nid rows S"
  by (simp_all add: keeps_pending_def on_fed_def relay_check_nonce_def relay_verify_def case_prod_beta)

lemma pending_store_prefix: "prefix (pending nid M) (pending nid (snd (store_message L db_ok nonce now req M)))"
  by (auto simp: pending_def store_message_def Let_def split: option.split)

lemmas keeps_then = try_then_inv [where P = "keeps_pending nid rows" for nid rows]

lemma keeps_accept_store [simp]: "keeps_pending nid rows S \<Longrightarrow> keeps_pending nid rows (snd (accept_store R c req S))"
proof -
  have store: "keeps_pending nid rows S \<Longrightarrow> keeps_pending nid rows
      (S\<lparr>rs_mail := snd (store_message (rb_crypto R) (rc_db_ok c) (rc_nonce c) (word_of_int \<lfloor>rc_now c\<rfloor>) req (rs_mail S))\<rparr>)" for S
    using pending_store_prefix by (auto simp: keeps_pending_def intro: prefix_order.trans)
  show "keeps_pending nid rows S \<Longrightarrow> ?thesis"
    by (auto simp: accept_store_def case_prod_beta store intro!: keeps_then)
qed

lemma keeps_other_handlers:
  assumes "keeps_pending nid rows S"
    and "re_msg_type env \<noteq> ''relay-ack''" and "re_msg_type env \<noteq> ''relay-purge''"
  shows "keeps_pending nid rows (snd (handle_message R c env S))"
  using assms unfolding handle_message_def Let_def handler_defs learn_routes_def
  by (auto intro!: keeps_then split: option.split prod.split)

lemma handle_message_ack:
  "re_msg_type env = ''relay-ack'' \<Longrightarrow> handle_message R c env S = handle_relay_ack R c (re_payload env) S"
  by (simp add: handle_message_def)

lemma handle_message_purge:
  "re_msg_type env = ''relay-purge'' \<Longrightarrow> handle_message R c env S = handle_relay_purge R c (re_payload env) S"
  by (simp add: handle_message_def)

section \<open>Properties of the relay\<close>

text \<open>A message that takes undelivered mail out of the database is an acknowledgement or a purge of its owner.\<close>

lemma removal_by_owner:
  assumes "handle_message R c env S = (r, S')"
    and "\<not> prefix (pending nid (rs_mail S)) (pending nid (rs_mail S'))"
  shows "field_str (re_payload env) ''recipient_nid'' = nid
    \<and> (re_msg_type env = ''relay-ack'' \<and> owner_signed R c (re_payload env) (ack_data R (re_payload env)) nid S'
       \<or> re_msg_type env = ''relay-purge'' \<and> owner_signed R c (re_payload env) (purge_data R (re_payload env)) nid S')"
proof -
  let ?pl = "re_payload env"
  have "re_msg_type env = ''relay-ack'' \<or> re_msg_type env = ''relay-purge''"
    using keeps_other_handlers [of nid "pending nid (rs_mail S)" S env R c] assms by (auto simp: keeps_pending_def)
  then consider (ack) "handle_relay_ack R c ?pl S = (r, S')" "re_msg_type env = ''relay-ack''"
    | (purge) "handle_relay_purge R c ?pl S = (r, S')" "re_msg_type env = ''relay-purge''"
    using assms(1) handle_message_ack handle_message_purge by metis
  then show ?thesis
  proof cases
    case ack
    then show ?thesis
      using assms(2) ack_refused [of R c ?pl S _ S'] ack_accepted [of R c ?pl S _ S']
      by (cases r) (auto split: if_splits)
  next
    case purge
    then show ?thesis
      using assms(2) purge_refused [of R c ?pl S _ S'] purge_accepted [of R c ?pl S _ S']
      by (cases r) (auto split: if_splits)
  qed
qed


text \<open>
  C12. A fetch answers exactly the authorised requests: the relay returns mail if and only if the request is
  complete and fresh, names the Null ID of the requester's fingerprint, is signed under the certificate pinned for it (the
  request's own certificate if there is none yet), carries a new nonce and, with a shared secret, a valid HMAC; and then it
  returns exactly the messages of that recipient and changes no mail.
\<close>

theorem relay_fetch_exact:
  "((\<exists>S'. handle_relay_fetch R c pl S = (Inr out, S')) \<longleftrightarrow>
     (\<exists>req. parse_fetch_request pl = Some req \<and> fr_sender_sig req \<noteq> [] \<and> fr_requester_fp req \<noteq> []
        \<and> \<bar>rc_now c - fr_timestamp req\<bar> \<le> 300
        \<and> compute_null_id (rb_pgp R) (fr_requester_fp req) = fr_recipient_nid req
        \<and> rc_lock_ok c
        \<and> pin_verifies (rb_pgp R) (remember_cert (fr_requester_fp req) (fr_sender_cert req) (rs_certs S))
             (fr_requester_fp req) (fr_sender_sig req) (fetch_data R req)
        \<and> fr_requester_fp req @ '':'' @ fr_nonce req \<notin> fst ` set (nonces_of (fr_requester_fp req) (rs_nonces S))
        \<and> (case rs_shared_secret S of None \<Rightarrow> True
            | Some secret \<Rightarrow> verify_hmac (rb_pgp R) (rb_crypto R) (fr_recipient_nid req) (fr_auth_hmac req) secret)
        \<and> out = send_ok (Some (entries_json
             (fetch_messages (rc_db_ok c) (word_of_int \<lfloor>rc_now c\<rfloor>) (fr_recipient_nid req) (rs_mail S))))))
   \<and> rs_mail (snd (handle_relay_fetch R c pl S)) = rs_mail S"
proof
  show "rs_mail (snd (handle_relay_fetch R c pl S)) = rs_mail S"
    unfolding handle_relay_fetch_def
    by (intro try_then_inv [where P = "\<lambda>T. rs_mail T = rs_mail S"])
      (simp_all add: relay_verify_def relay_check_nonce_def case_prod_beta)
qed (auto simp: handle_relay_fetch_def try_then_Inr)

lemma verify_store_signature_Inr:
  "verify_store_signature P sf lock req cache = (Inr u, cache') \<longleftrightarrow>
     sr_sender_sig req \<noteq> []
     \<and> (if sr_sealed_sender req \<noteq> [] then sr_sender_nid req = ''anonymous'' \<and> cache' = cache
        else lock \<and> cache' = remember_cert (sr_sender_fp req) (sr_sender_cert req) cache
          \<and> pin_verifies P cache' (sr_sender_fp req) (sr_sender_sig req) (store_signing_data sf req))"
  using verify_gpg_detached_True [of P lock "sr_sender_sig req" "store_signing_data sf req" "sr_sender_fp req" "sr_sender_cert req" cache]
    snd_verify_gpg_detached [of P lock "sr_sender_sig req" "store_signing_data sf req" "sr_sender_fp req" "sr_sender_cert req" cache]
  by (auto simp: verify_store_signature_def Let_def case_prod_beta split: if_splits)

text \<open>
  C17. A store request is accepted exactly if it is signed, fresh and not a replay, and the message can be written. Signed
  means: the signature verifies under the certificate pinned for the claimed fingerprint, or the request has a
  sealed sender and calls itself anonymous, when any non-empty signature will do. After an accepted request the mail is what
  the store operation makes of it.
\<close>

theorem accept_store_exact:
  "(\<exists>S'. accept_store R c req S = (Inr (), S') \<and> rs_mail S' = M') \<longleftrightarrow>
     sr_sender_sig req \<noteq> []
     \<and> (if sr_sealed_sender req \<noteq> [] then sr_sender_nid req = ''anonymous''
        else rc_lock_ok c \<and> pin_verifies (rb_pgp R) (remember_cert (sr_sender_fp req) (sr_sender_cert req) (rs_certs S))
               (sr_sender_fp req) (sr_sender_sig req) (store_signing_data (rb_show_f64 R) req))
     \<and> \<bar>rc_now c - sr_timestamp req\<bar> \<le> 300
     \<and> sr_nonce req \<notin> fst ` set (nonces_of (sr_sender_fp req) (rs_nonces S))
     \<and> store_message (rb_crypto R) (rc_db_ok c) (rc_nonce c) (word_of_int \<lfloor>rc_now c\<rfloor>) req (rs_mail S) = (Inr (), M')"
proof -
  let ?w = "store_message (rb_crypto R) (rc_db_ok c) (rc_nonce c) (word_of_int \<lfloor>rc_now c\<rfloor>) req (rs_mail S)"
  have "(\<exists>S'. accept_store R c req S = (Inr (), S') \<and> rs_mail S' = M') \<longleftrightarrow>
      (\<exists>cs. verify_store_signature (rb_pgp R) (rb_show_f64 R) (rc_lock_ok c) req (rs_certs S) = (Inr (), cs))
      \<and> \<bar>rc_now c - sr_timestamp req\<bar> \<le> 300 \<and> sr_nonce req \<notin> fst ` set (nonces_of (sr_sender_fp req) (rs_nonces S))
      \<and> ?w = (Inr (), M')"
    by (cases ?w; cases "verify_store_signature (rb_pgp R) (rb_show_f64 R) (rc_lock_ok c) req (rs_certs S)")
      (auto simp: accept_store_def try_then_Inr del: imageE)
  then show ?thesis
    unfolding verify_store_signature_Inr by auto
qed

text \<open>
  C18. A forwarded message is taken over exactly if this relay forwards at all, the forwarding relay is not a known but
  unauthenticated peer, this relay is not on the route already, the message has made fewer than five hops, and it would be
  accepted from its sender. A forwarding relay that is not in the peer table needs no authentication.
\<close>

theorem relay_forward_exact:
  "handle_relay_forward R c pl S = (Inr (forward_ack c None), S') \<longleftrightarrow>
     rs_allow_relay S \<and>
     (\<exists>fw. parse_forward pl = Some fw
        \<and> (fed_shared_secret (rs_fed S) = None \<or> map_of (fed_peers (rs_fed S)) (fw_source_relay_url fw) = None
           \<or> (\<exists>p. map_of (fed_peers (rs_fed S)) (fw_source_relay_url fw) = Some p \<and> pi_authenticated p))
        \<and> our_url S \<notin> set (fw_via fw) \<and> fw_hop_count fw < 5
        \<and> accept_store R c (forwarded_request fw) S = (Inr (), S'))"
proof -
  have "forward_ack c (Some e) \<noteq> forward_ack c None" for e by (simp add: forward_ack_def send_env_def)
  then show ?thesis
    by (auto simp: handle_relay_forward_def try_then_Inr FEDERATION_MAX_RELAY_HOPS_def not_le split: option.split if_splits)
qed

text \<open>
  Peer authentication proves nothing: whoever can talk to a relay gets any peer of it marked as authenticated, without knowing
  the shared secret. The relay answers a challenge with the HMAC, keeps that challenge as the pending one of the peer, and
  takes its own answer back as the peer's proof.
\<close>

theorem peer_auth_reflection:
  assumes "fed_shared_secret (rs_fed S) = Some secret" and "map_of (fed_peers (rs_fed S)) url = Some p"
    and "\<lfloor>rc_now c2\<rfloor> - \<lfloor>rc_now c1\<rfloor> \<le> 300"
  shows "\<exists>reply S1 S2 p'.
    handle_message R c1 \<lparr>re_msg_type = ''peer-auth'',
        re_payload = JObj [(''challenge'', JStr ch), (''relay_url'', JStr url)], re_msg_id = i1, re_ts = t1\<rparr> S = (Inr [SendEnv reply], S1)
    \<and> handle_message R c2 \<lparr>re_msg_type = ''peer-auth-reply'',
        re_payload = JObj [(''response'', JStr (field_str (re_payload reply) ''response'')), (''relay_url'', JStr url)],
        re_msg_id = i2, re_ts = t2\<rparr> S1 = (Inr [], S2)
    \<and> map_of (fed_peers (rs_fed S2)) url = Some p' \<and> pi_authenticated p'"
  using assms
  by (simp add: handle_message_def handle_peer_auth_def handle_peer_auth_reply_def parse_two_def json_struct_def
      required_def relay_parse_def on_fed_def send_env_def field_str_def json_get_def update_conv' update_peer_def Let_def)

text \<open>
  Onion messages are never delivered: whatever the state of the exit relay, the message that the entry relay forwards to it
  is not accepted and puts no mail into its mailboxes, because it has no sender signature.
\<close>

theorem onion_never_delivered:
  "rs_mail (snd (handle_relay_forward R c' (forward_json (onion_forward c ciphertext url)) S)) = rs_mail S
   \<and> fst (handle_relay_forward R c' (forward_json (onion_forward c ciphertext url)) S) \<noteq> Inr (forward_ack c' None)"
proof -
  have "forward_ack c' (Some e) \<noteq> forward_ack c' None" for e by (simp add: forward_ack_def send_env_def)
  moreover have "parse_forward (forward_json (onion_forward c ciphertext url)) = Some fw \<Longrightarrow> fw_sender_sig fw = []" for fw
    by (auto simp: parse_forward_def forward_json_def json_struct_def required_def onion_forward_def bind_eq_Some_conv)
  moreover have "fw_sender_sig fw = [] \<Longrightarrow> accept_store R c' (forwarded_request fw) S
      = (Inl ''missing sender signature'', S)" for fw
    by (simp add: accept_store_def verify_store_signature_def forwarded_request_def)
  ultimately show ?thesis
    by (cases "parse_forward (forward_json (onion_forward c ciphertext url))")
      (auto simp: handle_relay_forward_def relay_parse_def)
qed

text \<open>
  Gossip is never understood: every relay refuses the route advertisements that the gossip task of a relay sends,
  because they lack the fields \<open>route_count\<close> and \<open>ttl\<close>, and learns no route from them.
\<close>

theorem gossip_refused:
  "handle_message R c (gossip_envelope now mid url nids) S = (Inl ''invalid route-advertise'', S)"
  by (simp add: handle_message_def gossip_envelope_def handle_route_advertise_def relay_parse_def parse_route_advertise_def
      json_struct_def required_def)

text \<open>
  A mailbox belongs to whoever comes first: as long as the relay has no certificate for a fingerprint, a fetch signed
  with an arbitrary key, whose certificate has another fingerprint, gets all the mail of the fingerprint's Null ID, and that
  certificate is pinned for the owner's fingerprint.
\<close>

theorem foreign_certificate_fetches:
  assumes "parse_fetch_request pl = Some req" and "map_of (rs_certs S) (fr_requester_fp req) = None"
    and "cert_from_bytes (rb_pgp R) (as_bytes (fr_sender_cert req)) = Some cert"
    and "cert_fingerprint (rb_pgp R) cert \<noteq> fr_requester_fp req"
    and "b64_decode (rb_pgp R) (fr_sender_sig req) = Some bs" and "from_utf8 bs = Some sg"
    and "verify_detached (rb_pgp R) sg (fetch_data R req) cert = Inr True"
    and "fr_sender_cert req \<noteq> []" and "fr_sender_sig req \<noteq> []" and "fr_requester_fp req \<noteq> []"
    and "compute_null_id (rb_pgp R) (fr_requester_fp req) = fr_recipient_nid req"
    and "\<bar>rc_now c - fr_timestamp req\<bar> \<le> 300" and "rc_lock_ok c" and "rs_shared_secret S = None" and "rs_nonces S = []"
  shows "\<exists>S'. handle_relay_fetch R c pl S = (Inr (send_ok (Some (entries_json
      (fetch_messages (rc_db_ok c) (word_of_int \<lfloor>rc_now c\<rfloor>) (fr_recipient_nid req) (rs_mail S))))), S')
    \<and> map_of (rs_certs S') (fr_requester_fp req) = Some (fr_sender_cert req)"
proof -
  have "map_of (remember_cert (fr_requester_fp req) (fr_sender_cert req) (rs_certs S)) (fr_requester_fp req) = Some (fr_sender_cert req)"
    using assms by (simp add: remember_cert_def update_conv')
  moreover from this have "pin_verifies (rb_pgp R) (remember_cert (fr_requester_fp req) (fr_sender_cert req) (rs_certs S))
      (fr_requester_fp req) (fr_sender_sig req) (fetch_data R req)"
    using assms unfolding pin_verifies_def by blast
  ultimately show ?thesis
    using assms by (simp add: handle_relay_fetch_def try_then_Inr nonces_of_def)
qed

section \<open>Concrete runs\<close>

definition toy_relay :: "string relay_lib" where
  "toy_relay = \<lparr>rb_pgp = toy_pgp, rb_crypto = toy_crypto, rb_show_f64 = (\<lambda>_. ''0'')\<rparr>"

definition toy_call :: relay_call where
  "toy_call = \<lparr>rc_now = 100, rc_instant = 0, rc_mid = ''id'', rc_nonce = [], rc_lock_ok = True, rc_db_ok = True\<rparr>"

definition toy_nid :: string where "toy_nid = compute_null_id toy_pgp ''AB''"

definition toy_state :: relay_state where
  "toy_state = relay_new (Some ''secret'') [] (Some
     [\<lparr>row_recipient_nid = toy_nid, row_signed_blob = ''blob'', row_sender_nid = ''n'', row_sender_fp = ''F'', row_seq = 1,
       row_stored_at = 5, row_delivered = False, row_sender_encrypted = []\<rparr>]) [] True"

definition toy_ack :: RelayEnvelope where
  "toy_ack = \<lparr>re_msg_type = ''relay-ack'', re_payload = JObj
     [(''recipient_nid'', JStr toy_nid), (''seq'', JInt 1), (''sender_sig'', JStr ''AB''), (''requester_fp'', JStr ''AB''),
      (''timestamp'', JInt 90), (''nonce'', JStr ''x''), (''sender_cert'', JStr ''AB'')], re_msg_id = ''i'', re_ts = 99\<rparr>"

lemma toy_pin_verifies: "pin_verifies toy_pgp [(''AB'', cert)] ''AB'' cert data" if "utf8_valid (as_bytes cert)"
  using that by (simp add: pin_verifies_def toy_pgp_def verify_detached_def from_utf8_as_bytes)

lemma toy_ack_run: "\<exists>S'. handle_message toy_relay toy_call toy_ack toy_state = (Inr (send_ok None), S')"
proof -
  have "pin_verifies toy_pgp [(''AB'', ''AB'')] ''AB'' ''AB'' (ack_data toy_relay (re_payload toy_ack))"
    by (rule toy_pin_verifies) (simp add: as_bytes_def)
  then show ?thesis
    by (simp add: handle_message_def handle_relay_ack_def try_then_Inr toy_ack_def toy_state_def relay_new_def toy_call_def toy_relay_def
        field_str_def field_f64_def field_i64_def json_get_def remember_cert_def nonces_of_def toy_nid_def Let_def)
qed


theorem peer_auth_reflection_witness:
  "\<exists>reply S1 S2 p'.
    handle_message toy_relay toy_call \<lparr>re_msg_type = ''peer-auth'',
        re_payload = JObj [(''challenge'', JStr ''00''), (''relay_url'', JStr ''ws://b'')], re_msg_id = ''i'', re_ts = 1\<rparr>
        (relay_step toy_relay (RPeerUp 3 ''ws://b'') toy_state) = (Inr [SendEnv reply], S1)
    \<and> handle_message toy_relay toy_call \<lparr>re_msg_type = ''peer-auth-reply'',
        re_payload = JObj [(''response'', JStr (field_str (re_payload reply) ''response'')), (''relay_url'', JStr ''ws://b'')],
        re_msg_id = ''j'', re_ts = 2\<rparr> S1 = (Inr [], S2)
    \<and> map_of (fed_peers (rs_fed S2)) ''ws://b'' = Some p' \<and> pi_authenticated p'"
  by (rule peer_auth_reflection)
    (simp_all add: toy_state_def relay_new_def federation_new_def peer_connected_def add_peer_def on_fed_def)

definition toy_fetch :: json where
  "toy_fetch = JObj [(''recipient_nid'', JStr toy_nid), (''auth_hmac'', JStr []), (''sender_sig'', JStr ''evil''),
     (''requester_fp'', JStr ''AB''), (''timestamp'', JInt 90), (''nonce'', JStr ''x''), (''sender_cert'', JStr ''evil'')]"

theorem foreign_certificate_fetches_witness:
  "\<exists>S'. handle_relay_fetch toy_relay toy_call toy_fetch (toy_state\<lparr>rs_shared_secret := None\<rparr>) = (Inr (send_ok (Some (entries_json
      (fetch_messages True 100 toy_nid (rs_mail toy_state))))), S') \<and> map_of (rs_certs S') ''AB'' = Some ''evil''"
proof -
  let ?req = "\<lparr>fr_recipient_nid = toy_nid, fr_auth_hmac = [], fr_sender_sig = ''evil'', fr_requester_fp = ''AB'', fr_timestamp = 90,
     fr_nonce = ''x'', fr_sender_cert = ''evil''\<rparr>"
  have "from_utf8 (as_bytes ''evil'') = Some ''evil''" by (rule from_utf8_as_bytes) (simp add: as_bytes_def)
  then show ?thesis
    using foreign_certificate_fetches [of toy_fetch ?req "toy_state\<lparr>rs_shared_secret := None\<rparr>" toy_relay "''evil''" "as_bytes ''evil''" "''evil''" toy_call]
    by (simp add: toy_fetch_def parse_fetch_request_def json_struct_def required_def defaulted_def toy_relay_def toy_call_def
        toy_state_def relay_new_def toy_nid_def toy_pgp_def verify_detached_def)
qed

end
