(* ===== verification/Endian.thy ===== *)
theory Endian
  imports Prelude
begin

text \<open>
  Big-endian numbers: \<open>from_be_bytes\<close> and \<open>to_be_bytes\<close> of the standard library for 16, 32 and 64 bits, and that
  the encodings lose nothing.
\<close>

unbundle bit_operations_syntax

definition from_be16 :: "u8 \<Rightarrow> u8 \<Rightarrow> u16" where
  "from_be16 a b = push_bit 8 (ucast a) OR ucast b"

definition to_be16 :: "u16 \<Rightarrow> u8 list" where
  "to_be16 w = [ucast (drop_bit 8 w), ucast w]"

definition from_be32 :: "u8 \<Rightarrow> u8 \<Rightarrow> u8 \<Rightarrow> u8 \<Rightarrow> u32" where
  "from_be32 a b c d = push_bit 24 (ucast a) OR push_bit 16 (ucast b) OR push_bit 8 (ucast c) OR ucast d"

definition to_be32 :: "u32 \<Rightarrow> u8 list" where
  "to_be32 w = [ucast (drop_bit 24 w), ucast (drop_bit 16 w), ucast (drop_bit 8 w), ucast w]"

lemma be16_roundtrip: "from_be16 (ucast (drop_bit 8 w)) (ucast w) = w"
  by (rule bit_word_eqI) (auto simp: from_be16_def bit_simps)

lemma be32_roundtrip: "from_be32 (ucast (drop_bit 24 w)) (ucast (drop_bit 16 w)) (ucast (drop_bit 8 w)) (ucast w) = w"
proof (rule bit_word_eqI)
  fix n :: nat
  assume "n < LENGTH(32)"
  then consider "n < 8" | "8 \<le> n" "n < 16" | "16 \<le> n" "n < 24" | "24 \<le> n" "n < 32" by fastforce
  then show "bit (from_be32 (ucast (drop_bit 24 w)) (ucast (drop_bit 16 w)) (ucast (drop_bit 8 w)) (ucast w)) n = bit w n"
    by cases (auto simp: from_be32_def bit_simps)
qed

definition to_be64 :: "u64 \<Rightarrow> u8 list" where
  "to_be64 w = map (\<lambda>i. ucast (drop_bit (8 * (7 - i)) w)) [0..<8]"

lemma length_to_be64 [simp]: "length (to_be64 w) = 8"
  by (simp add: to_be64_def)

lemma to_be64_inject [simp]: "to_be64 v = to_be64 w \<longleftrightarrow> v = w"
proof
  assume eq: "to_be64 v = to_be64 w"
  show "v = w"
  proof (rule bit_word_eqI)
    fix n :: nat
    assume n: "n < LENGTH(64)"
    then have i: "7 - n div 8 < 8" "8 * (7 - (7 - n div 8)) + n mod 8 = n" by auto
    from eq i(1) have "to_be64 v ! (7 - n div 8) = to_be64 w ! (7 - n div 8)" by simp
    then have "bit (ucast (drop_bit (8 * (7 - (7 - n div 8))) v) :: u8) (n mod 8)
        = bit (ucast (drop_bit (8 * (7 - (7 - n div 8))) w) :: u8) (n mod 8)"
      using i(1) by (simp add: to_be64_def)
    with i(2) show "bit v n = bit w n" by (simp add: bit_simps)
  qed
qed simp

end
