(* ===== verification/DeliveryTokens.thy ===== *)
theory DeliveryTokens
  imports Kem Endian
begin

text \<open>
  Delivery tokens (\<open>crypto/src/delivery_tokens.rs\<close>): a master secret gives a key per contact, and the key gives a token per
  message, by HMAC-SHA256. HMAC is the parameter \<open>hmac\<close> (key, message); that its output has 32 bytes is the hypothesis
  \<open>hmac_size\<close>. HMAC accepts keys of any size, so its constructor does not fail.
\<close>

unbundle bit_operations_syntax

definition DELIVERY_TOKEN_SIZE :: nat where "DELIVERY_TOKEN_SIZE = 32"
definition DELIVERY_KEY_SIZE :: nat where "DELIVERY_KEY_SIZE = 32"
definition DELIVERY_SEED_SIZE :: nat where "DELIVERY_SEED_SIZE = 64"

datatype DeliveryMasterSecret = DeliveryMasterSecret (dm_bytes: bytes)
datatype DeliveryKey = DeliveryKey (dk_bytes: bytes)
datatype DeliveryToken = DeliveryToken (dt_bytes: bytes)

record DeliveryTokenMessage =
  tm_token :: string
  tm_sender_key_hash :: string
  tm_timestamp :: u64

definition hmac_size :: "(bytes \<Rightarrow> bytes \<Rightarrow> bytes) \<Rightarrow> bool" where
  "hmac_size hmac \<longleftrightarrow> (\<forall>k m. length (hmac k m) = 32)"

text \<open>\<open>rng\<close> are the 64 random bytes.\<close>

definition secret_generate :: "bytes \<Rightarrow> DeliveryMasterSecret" where
  "secret_generate rng = DeliveryMasterSecret rng"

definition derive_key :: "(bytes \<Rightarrow> bytes \<Rightarrow> bytes) \<Rightarrow> DeliveryMasterSecret \<Rightarrow> string \<Rightarrow> DeliveryKey" where
  "derive_key hmac s contact_id =
     DeliveryKey (take DELIVERY_KEY_SIZE (hmac (dm_bytes s) (as_bytes ''nullnode-delivery-key-v1'' @ as_bytes contact_id)))"

definition derive_token_internal :: "(bytes \<Rightarrow> bytes \<Rightarrow> bytes) \<Rightarrow> DeliveryKey \<Rightarrow> u64 \<Rightarrow> CryptoError + DeliveryToken" where
  "derive_token_internal hmac key message_id =
     (let result = hmac (dk_bytes key) (as_bytes ''nullnode-delivery-token-v1'' @ to_be64 message_id)
      in if length result = DELIVERY_TOKEN_SIZE then Inr (DeliveryToken result) else Inl (Panic ''copy_from_slice''))"

definition secret_derive_token ::
  "(bytes \<Rightarrow> bytes \<Rightarrow> bytes) \<Rightarrow> DeliveryMasterSecret \<Rightarrow> string \<Rightarrow> u64 \<Rightarrow> CryptoError + DeliveryToken" where
  "secret_derive_token hmac s contact_id message_id = derive_token_internal hmac (derive_key hmac s contact_id) message_id"

definition token_diff :: "bytes \<Rightarrow> bytes \<Rightarrow> u8" where
  "token_diff expected given = fold (\<lambda>(a, b) acc. acc OR (a XOR b)) (zip expected given) 0"

definition verify_token ::
  "(bytes \<Rightarrow> bytes \<Rightarrow> bytes) \<Rightarrow> DeliveryMasterSecret \<Rightarrow> string \<Rightarrow> u64 \<Rightarrow> DeliveryToken \<Rightarrow> CryptoError + bool" where
  "verify_token hmac s contact_id message_id token =
     bind_result (secret_derive_token hmac s contact_id message_id) (\<lambda>expected.
       Inr (token_diff (dt_bytes expected) (dt_bytes token) = 0))"

definition key_derive_token :: "(bytes \<Rightarrow> bytes \<Rightarrow> bytes) \<Rightarrow> DeliveryKey \<Rightarrow> u64 \<Rightarrow> CryptoError + DeliveryToken" where
  "key_derive_token hmac key message_id = derive_token_internal hmac key message_id"

definition key_verify :: "(bytes \<Rightarrow> bytes \<Rightarrow> bytes) \<Rightarrow> DeliveryKey \<Rightarrow> u64 \<Rightarrow> DeliveryToken \<Rightarrow> CryptoError + bool" where
  "key_verify hmac key message_id token =
     bind_result (derive_token_internal hmac key message_id) (\<lambda>expected.
       Inr (token_diff (dt_bytes expected) (dt_bytes token) = 0))"

definition token_to_hex :: "crypto_lib \<Rightarrow> DeliveryToken \<Rightarrow> string" where
  "token_to_hex L token = hex_encode L (dt_bytes token)"

definition token_from_hex :: "crypto_lib \<Rightarrow> string \<Rightarrow> CryptoError + DeliveryToken" where
  "token_from_hex L hex_str =
     bind_result (ok_or (DecryptFailed ''hex decode'') (hex_decode L hex_str)) (\<lambda>bs.
       if length bs \<noteq> DELIVERY_TOKEN_SIZE
       then Inl (DecryptFailed (''wrong token size: '' @ show_nat (length bs) @ '' != '' @ show_nat DELIVERY_TOKEN_SIZE))
       else Inr (DeliveryToken bs))"

section \<open>Verification\<close>

lemma or_eq_0_iff: "(a :: u8) OR b = 0 \<longleftrightarrow> a = 0 \<and> b = 0"
  by (auto simp: bit_eq_iff bit_simps)

lemma xor_eq_0_iff: "(a :: u8) XOR b = 0 \<longleftrightarrow> a = b"
  by (auto simp: bit_eq_iff bit_simps)

lemma diff_fold: "fold (\<lambda>(a, b) acc. acc OR (a XOR b)) ps (acc :: u8) = 0 \<longleftrightarrow> acc = 0 \<and> list_all (\<lambda>(a, b). a = b) ps"
proof (induction ps arbitrary: acc)
  case (Cons p ps)
  then show ?case by (cases p) (simp add: or_eq_0_iff xor_eq_0_iff)
qed simp

lemma token_diff_exact: "length a = length b \<Longrightarrow> token_diff a b = 0 \<longleftrightarrow> a = b"
  by (simp add: token_diff_def diff_fold list_all_iff list_all2_eq list_all2_iff)

lemma derived_token:
  "hmac_size hmac \<Longrightarrow> derive_token_internal hmac key message_id
     = Inr (DeliveryToken (hmac (dk_bytes key) (as_bytes ''nullnode-delivery-token-v1'' @ to_be64 message_id)))"
  by (simp add: derive_token_internal_def hmac_size_def DELIVERY_TOKEN_SIZE_def)

text \<open>
  A token is accepted for a message exactly when it is the token that the master secret derives for this contact and this
  message, and the recipient's key verifies the same tokens as the sender's secret.
\<close>

theorem verify_token_exact:
  assumes "hmac_size hmac" and "length (dt_bytes token) = DELIVERY_TOKEN_SIZE"
  shows "\<exists>expected. secret_derive_token hmac s contact_id message_id = Inr expected
           \<and> verify_token hmac s contact_id message_id token = Inr (token = expected)
           \<and> key_verify hmac (derive_key hmac s contact_id) message_id token = Inr (token = expected)"
  using assms
  by (auto simp: verify_token_def key_verify_def secret_derive_token_def derived_token result_simps hmac_size_def
      token_diff_exact DELIVERY_TOKEN_SIZE_def DeliveryToken.expand)

text \<open>
  A token survives its hexadecimal form, and text that does not decode to 32 bytes is refused.
\<close>

theorem token_hex_roundtrip:
  assumes "crypto_laws L" and "length (dt_bytes token) = DELIVERY_TOKEN_SIZE"
  shows "token_from_hex L (token_to_hex L token) = Inr token"
    and "token_from_hex L txt' = Inr token' \<longleftrightarrow>
           hex_decode L txt' = Some (dt_bytes token') \<and> length (dt_bytes token') = DELIVERY_TOKEN_SIZE"
  using assms
  by (auto simp: token_from_hex_def token_to_hex_def crypto_laws_def result_simps ok_or_def split: option.splits if_splits)

section \<open>Witnesses\<close>

theorem verify_token_exact_witness:
  "\<exists>expected. secret_derive_token (\<lambda>k m. replicate 32 1) (DeliveryMasterSecret []) ''a'' 1 = Inr expected
     \<and> verify_token (\<lambda>k m. replicate 32 1) (DeliveryMasterSecret []) ''a'' 1 (DeliveryToken (replicate 32 0))
       = Inr (DeliveryToken (replicate 32 0) = expected)
     \<and> key_verify (\<lambda>k m. replicate 32 1) (derive_key (\<lambda>k m. replicate 32 1) (DeliveryMasterSecret []) ''a'') 1
         (DeliveryToken (replicate 32 0)) = Inr (DeliveryToken (replicate 32 0) = expected)"
  by (rule verify_token_exact) (simp_all add: hmac_size_def DELIVERY_TOKEN_SIZE_def)

theorem token_hex_roundtrip_witness:
  "token_from_hex toy_crypto (token_to_hex toy_crypto (DeliveryToken (replicate 32 7))) = Inr (DeliveryToken (replicate 32 7))"
  by (rule token_hex_roundtrip(1)) (simp_all add: toy_crypto_laws DELIVERY_TOKEN_SIZE_def)

end
