(* ===== verification/Padding.thy ===== *)
theory Padding
  imports Kem "HOL-Library.List_Lexorder" "HOL-Library.Char_ord"
begin

text \<open>
  Padding of messages and safety numbers (the helpers of \<open>client/src/main.rs\<close>, and the unused padding of
  \<open>crypto/src/lib.rs\<close>). Hexadecimal encoding is a parameter (with the laws of \<open>Kem\<close>), random bytes are an argument, and so
  is \<open>from_utf8_lossy\<close>, of which only what it does to valid text is used.
\<close>

definition lossy_laws :: "(bytes \<Rightarrow> string) \<Rightarrow> bool" where
  "lossy_laws lossy \<longleftrightarrow> (\<forall>s. utf8_valid (as_bytes s) \<longrightarrow> lossy (as_bytes s) = s)"

section \<open>The client's buckets\<close>

definition bucket_size :: "nat \<Rightarrow> nat" where
  "bucket_size total_len =
     (if total_len \<le> 256 then 256 else if total_len \<le> 512 then 512 else if total_len \<le> 1024 then 1024
      else if total_len \<le> 2048 then 2048 else if total_len \<le> 4096 then 4096 else if total_len \<le> 8192 then 8192
      else if total_len \<le> 16384 then 16384 else if total_len \<le> 32768 then 32768 else 65536)"

text \<open>The subtraction panics when the message is longer than the largest bucket (in a release build the wrapped length
  makes the allocation panic); a panic is \<open>None\<close>. The header keeps the low byte of the padding length.\<close>

definition padded_bytes :: "bytes \<Rightarrow> string \<Rightarrow> bytes option" where
  "padded_bytes rnd message =
     (let msg_len = length message;
          bucket = bucket_size (msg_len + 1)
      in if bucket < msg_len + 1 then None
         else let pad_len = bucket - msg_len - 1
              in Some (of_nat pad_len # as_bytes message @ take pad_len rnd))"

definition pad_message_bucket :: "crypto_lib \<Rightarrow> bytes \<Rightarrow> string \<Rightarrow> string option" where
  "pad_message_bucket L rnd message = map_option (hex_encode L) (padded_bytes rnd message)"

definition unpad_message_bucket :: "crypto_lib \<Rightarrow> (bytes \<Rightarrow> string) \<Rightarrow> string \<Rightarrow> string + string" where
  "unpad_message_bucket L lossy padded_hex =
     bind_result (ok_or ''hex'' (hex_decode L padded_hex)) (\<lambda>data.
       case data of
         [] \<Rightarrow> Inl ''empty padded message''
       | header # _ \<Rightarrow>
           let pad_len = unat header
           in if length data < pad_len + 1 then Inl ''invalid padding length''
              else Inr (lossy (drop 1 (take (length data - pad_len) data))))"

section \<open>The padding of the crypto crate\<close>

text \<open>Unicode white space, each character as its UTF-8 bytes, and \<open>str::trim\<close>.\<close>

definition whitespace :: "string list" where
  "whitespace =
     [[CHR 0x09], [CHR 0x0A], [CHR 0x0B], [CHR 0x0C], [CHR 0x0D], [CHR 0x20], [CHR 0xC2, CHR 0x85], [CHR 0xC2, CHR 0xA0],
      [CHR 0xE1, CHR 0x9A, CHR 0x80], [CHR 0xE2, CHR 0x80, CHR 0x80], [CHR 0xE2, CHR 0x80, CHR 0x81], [CHR 0xE2, CHR 0x80, CHR 0x82],
      [CHR 0xE2, CHR 0x80, CHR 0x83], [CHR 0xE2, CHR 0x80, CHR 0x84], [CHR 0xE2, CHR 0x80, CHR 0x85], [CHR 0xE2, CHR 0x80, CHR 0x86],
      [CHR 0xE2, CHR 0x80, CHR 0x87], [CHR 0xE2, CHR 0x80, CHR 0x88], [CHR 0xE2, CHR 0x80, CHR 0x89], [CHR 0xE2, CHR 0x80, CHR 0x8A],
      [CHR 0xE2, CHR 0x80, CHR 0xA8], [CHR 0xE2, CHR 0x80, CHR 0xA9], [CHR 0xE2, CHR 0x80, CHR 0xAF], [CHR 0xE2, CHR 0x81, CHR 0x9F],
      [CHR 0xE3, CHR 0x80, CHR 0x80]]"

fun strip_front :: "nat \<Rightarrow> string list \<Rightarrow> string \<Rightarrow> string" where
  "strip_front 0 ws s = s"
| "strip_front (Suc fuel) ws s =
     (case List.find (\<lambda>w. prefix w s) ws of None \<Rightarrow> s | Some w \<Rightarrow> strip_front fuel ws (drop (length w) s))"

definition rust_trim :: "string \<Rightarrow> string" where
  "rust_trim s =
     (let t = strip_front (length s) whitespace s
      in rev (strip_front (length t) (map rev whitespace) (rev t)))"

definition crypto_pad_message_bucket :: "crypto_lib \<Rightarrow> string \<Rightarrow> string" where
  "crypto_pad_message_bucket L message =
     (let armor_len = length message * 8 in hex_encode L (as_bytes (replicate armor_len CHR ''0'')))"

definition crypto_unpad_message_bucket :: "crypto_lib \<Rightarrow> string \<Rightarrow> CryptoError + string" where
  "crypto_unpad_message_bucket L padded_hex =
     bind_result (ok_or (DecryptFailed ''hex decode'') (hex_decode L padded_hex)) (\<lambda>bs.
       case from_utf8 bs of
         Some s \<Rightarrow> Inr (rust_trim (trim_end_matches CHR 0x00 s))
       | None \<Rightarrow> Inr [])"

section \<open>Safety numbers\<close>

definition sha256_hex :: "(bytes \<Rightarrow> bytes) \<Rightarrow> crypto_lib \<Rightarrow> string \<Rightarrow> string" where
  "sha256_hex H L data = hex_encode L (H (as_bytes data))"

definition safety_input :: "string \<Rightarrow> string \<Rightarrow> string" where
  "safety_input fp1 fp2 =
     (let a = to_uppercase fp1; b = to_uppercase fp2
      in (if a \<le> b then a else b) @ ''|'' @ (if a \<le> b then b else a))"

definition slice :: "nat \<Rightarrow> nat \<Rightarrow> string \<Rightarrow> string" where
  "slice i j s = drop i (take j s)"

definition safety_number :: "(bytes \<Rightarrow> bytes) \<Rightarrow> crypto_lib \<Rightarrow> string \<Rightarrow> string \<Rightarrow> string" where
  "safety_number H L fp1 fp2 =
     (let hash = sha256_hex H L (safety_input fp1 fp2)
      in slice 0 8 hash @ '' '' @ slice 8 16 hash @ '' '' @ slice 16 24 hash @ '' '' @ slice 24 32 hash @ '' ''
         @ slice 32 40 hash @ '' '' @ slice 40 48 hash @ '' '' @ slice 48 56 hash @ '' '' @ slice 56 64 hash)"

section \<open>What padding does\<close>

lemma bucket_size_bounds: "n \<le> 65536 \<Longrightarrow> n \<le> bucket_size n"
  by (simp add: bucket_size_def)

definition buckets :: "nat list" where
  "buckets = [256, 512, 1024, 2048, 4096, 8192, 16384, 32768, 65536]"

lemma bucket_size_least:
  "bucket_size n \<in> set buckets" "b \<in> set buckets \<Longrightarrow> n \<le> b \<Longrightarrow> bucket_size n \<le> b"
  by (auto simp: buckets_def bucket_size_def)

lemma of_nat_u8_mod: "unat (of_nat n :: u8) = n mod 256"
  by (simp add: unat_of_nat)

lemma strip_padding:
  "k \<le> length r \<Longrightarrow> drop 1 (take (length (h # m @ r) - k) (h # m @ r)) = m @ take (length r - k) r"
  by (simp add: take_Cons' Suc_diff_le)

lemma unpad_pad:
  assumes "crypto_laws L" and "length message < 65536" and "pad_len = bucket_size (length message + 1) - length message - 1"
    and "length rnd = pad_len"
  shows "map_option (unpad_message_bucket L lossy) (pad_message_bucket L rnd message)
           = Some (Inr (lossy (as_bytes message @ take (256 * (pad_len div 256)) rnd)))"
    and "map_option length (padded_bytes rnd message) = Some (bucket_size (length message + 1))"
proof -
  let ?d = "of_nat pad_len # as_bytes message @ rnd"
  have fits: "length message + 1 \<le> bucket_size (length message + 1)" using assms(2) by (intro bucket_size_bounds) simp
  then have padded: "padded_bytes rnd message = Some ?d"
    using assms(3,4) by (simp add: padded_bytes_def Let_def)
  show "map_option length (padded_bytes rnd message) = Some (bucket_size (length message + 1))"
    using fits assms(3,4) by (simp add: padded)
  have "drop 1 (take (length ?d - pad_len mod 256) ?d) = as_bytes message @ take (256 * (pad_len div 256)) rnd"
    using strip_padding [of "pad_len mod 256" rnd "of_nat pad_len" "as_bytes message"] assms(4)
    by (simp add: minus_mod_eq_mult_div)
  then show "map_option (unpad_message_bucket L lossy) (pad_message_bucket L rnd message)
           = Some (Inr (lossy (as_bytes message @ take (256 * (pad_len div 256)) rnd)))"
    using assms(1,4) by (simp add: pad_message_bucket_def padded unpad_message_bucket_def crypto_laws_def result_simps
        ok_or_def of_nat_u8_mod Let_def)
qed

text \<open>
  C40. Padding gives one of the nine bucket sizes, the smallest that has room for the message and the header byte. Removing it
  gives back the message followed by the first \<open>256 * (pad_len div 256)\<close> padding bytes, because the header byte
  holds the padding length only modulo 256. So the round trip is exact for messages whose padding is below 256 bytes.
\<close>

theorem padding_roundtrip_exact:
  assumes "crypto_laws L" and "lossy_laws lossy" and "length message < 65536" and "utf8_valid (as_bytes message)"
    and "pad_len = bucket_size (length message + 1) - length message - 1" and "length rnd = pad_len"
  shows "map_option length (padded_bytes rnd message) = Some (bucket_size (length message + 1))
    \<and> bucket_size (length message + 1) = Min {b \<in> set buckets. length message + 1 \<le> b}
    \<and> map_option (unpad_message_bucket L lossy) (pad_message_bucket L rnd message)
        = Some (Inr (lossy (as_bytes message @ take (256 * (pad_len div 256)) rnd)))
    \<and> (pad_len < 256 \<longrightarrow> map_option (unpad_message_bucket L lossy) (pad_message_bucket L rnd message) = Some (Inr message))"
proof -
  note pad = unpad_pad [OF assms(1,3,5,6)]
  have "length message + 1 \<le> bucket_size (length message + 1)" using assms(3) by (intro bucket_size_bounds) simp
  then have "bucket_size (length message + 1) = Min {b \<in> set buckets. length message + 1 \<le> b}"
    using bucket_size_least by (intro Min_eqI [symmetric]) auto
  moreover have "map_option (unpad_message_bucket L lossy) (pad_message_bucket L rnd message) = Some (Inr message)" if "pad_len < 256"
    using pad(1) [of lossy] that assms(2,4) by (simp add: lossy_laws_def)
  ultimately show ?thesis using pad(2) pad(1) [of lossy] by blast
qed

text \<open>
  Messages of 512 to 767 bytes are not given back: 256 random bytes follow the message.
\<close>

theorem padding_corrupts:
  assumes "crypto_laws L" and "512 \<le> length message" and "length message < 768" and "length rnd = 1023 - length message"
  shows "map_option (unpad_message_bucket L lossy) (pad_message_bucket L rnd message)
           = Some (Inr (lossy (as_bytes message @ take 256 rnd)))"
proof -
  have "bucket_size (length message + 1) - length message - 1 = 1023 - length message"
    using assms(2,3) by (simp add: bucket_size_def)
  moreover have "(1023 - length message) div 256 = 1"
    by (rule div_nat_eqI) (use assms(2,3) in simp_all)
  ultimately show ?thesis
    using unpad_pad(1) [OF assms(1) _ refl, of message rnd lossy] assms(3,4) by simp
qed

text \<open>A message that does not fit the largest bucket panics.\<close>

lemma oversized_message_panics: "65536 \<le> length message \<Longrightarrow> pad_message_bucket L rnd message = None"
  by (simp add: pad_message_bucket_def padded_bytes_def bucket_size_def)

text \<open>The padding of the crypto crate keeps nothing of the message but its length.\<close>

lemma crypto_padding_forgets:
  "length m = length m' \<Longrightarrow> crypto_pad_message_bucket L m = crypto_pad_message_bucket L m'"
  by (simp add: crypto_pad_message_bucket_def)

section \<open>What safety numbers show\<close>

lemma safety_input_commute: "safety_input a b = safety_input b a"
  by (auto simp: safety_input_def Let_def)

lemma separator_split: "c \<notin> set a \<Longrightarrow> c \<notin> set a' \<Longrightarrow> a @ c # b = a' @ c # b' \<longleftrightarrow> a = a' \<and> b = b'"
  by (induction a arbitrary: a') (case_tac a'; auto)+

lemma no_bar_upper: "CHR ''|'' \<notin> set s \<Longrightarrow> CHR ''|'' \<notin> set (to_uppercase s)"
proof -
  have "ascii_upper c \<noteq> CHR ''|''" if "c \<noteq> CHR ''|''" for c
  proof
    assume eq: "ascii_upper c = CHR ''|''"
    with that have c: "(of_char c :: nat) \<le> 122" "char_of ((of_char c :: nat) - 32) = CHR ''|''"
      by (auto simp: ascii_upper_def Let_def split: if_splits)
    then have "of_char (char_of ((of_char c :: nat) - 32)) = (124 :: nat)" by simp
    with c(1) show False by (simp only: of_char_of)
  qed
  then show "CHR ''|'' \<notin> set s \<Longrightarrow> CHR ''|'' \<notin> set (to_uppercase s)" unfolding to_uppercase_def by (metis imageE list.set_map)
qed

lemma pair_mset: "{#a, b#} = {#c, d#} \<longleftrightarrow> a = c \<and> b = d \<or> a = d \<and> b = c"
  by (auto simp: add_eq_conv_ex)

lemma safety_input_exact:
  assumes "CHR ''|'' \<notin> set a" "CHR ''|'' \<notin> set b" "CHR ''|'' \<notin> set c" "CHR ''|'' \<notin> set d"
  shows "safety_input a b = safety_input c d \<longleftrightarrow>
    {#to_uppercase a, to_uppercase b#} = {#to_uppercase c, to_uppercase d#}"
  using assms [THEN no_bar_upper]
  by (auto simp: safety_input_def Let_def separator_split pair_mset)

lemma slices_inject:
  assumes "length g = 64" and "length h = 64"
    and "slice 0 8 g @ '' '' @ slice 8 16 g @ '' '' @ slice 16 24 g @ '' '' @ slice 24 32 g @ '' ''
         @ slice 32 40 g @ '' '' @ slice 40 48 g @ '' '' @ slice 48 56 g @ '' '' @ slice 56 64 g
       = slice 0 8 h @ '' '' @ slice 8 16 h @ '' '' @ slice 16 24 h @ '' '' @ slice 24 32 h @ '' ''
         @ slice 32 40 h @ '' '' @ slice 40 48 h @ '' '' @ slice 48 56 h @ '' '' @ slice 56 64 h"
  shows "g = h"
proof -
  have all: "s = slice 0 8 s @ slice 8 16 s @ slice 16 24 s @ slice 24 32 s @ slice 32 40 s @ slice 40 48 s @ slice 48 56 s @ slice 56 64 s"
    if "length s = 64" for s
  proof -
    have step: "slice i j s @ drop j s = drop i s" if "i \<le> j" for i j
      using that by (metis append_take_drop_id drop_drop drop_take le_add_diff_inverse2 slice_def)
    have "slice 56 64 s = drop 56 s" using that by (simp add: slice_def)
    then show ?thesis
      by (simp only: step [of 0 8] step [of 8 16] step [of 16 24] step [of 24 32] step [of 32 40] step [of 40 48] step [of 48 56]
          numeral_le_iff semiring_norm le_numeral_extra zero_le_numeral zero_le drop_0 simp_thms order_refl)
  qed
  have len: "length (slice i (i + 8) s) = 8" if "length s = 64" "i + 8 \<le> 64" for i s
    using that by (simp add: slice_def)
  have group: "x = y \<and> u = v" if "x @ '' '' @ u = y @ '' '' @ v" "length x = 8" "length y = 8" for x y u v :: string
    using that by (metis append_eq_append_conv append.assoc append_Cons append_Nil list.inject)
  note e0 = group [OF assms(3) len [OF assms(1), of 0, simplified] len [OF assms(2), of 0, simplified]]
  note e1 = group [OF e0 [THEN conjunct2] len [OF assms(1), of 8, simplified] len [OF assms(2), of 8, simplified]]
  note e2 = group [OF e1 [THEN conjunct2] len [OF assms(1), of 16, simplified] len [OF assms(2), of 16, simplified]]
  note e3 = group [OF e2 [THEN conjunct2] len [OF assms(1), of 24, simplified] len [OF assms(2), of 24, simplified]]
  note e4 = group [OF e3 [THEN conjunct2] len [OF assms(1), of 32, simplified] len [OF assms(2), of 32, simplified]]
  note e5 = group [OF e4 [THEN conjunct2] len [OF assms(1), of 40, simplified] len [OF assms(2), of 40, simplified]]
  note e6 = group [OF e5 [THEN conjunct2] len [OF assms(1), of 48, simplified] len [OF assms(2), of 48, simplified]]
  from e0 e1 e2 e3 e4 e5 e6
  show ?thesis by (subst all [OF assms(1)], subst all [OF assms(2)]) (simp only:)
qed

text \<open>
  Safety numbers: both parties compute the same number; the number shows the whole hash, so two numbers are equal exactly
  when the hashes are; and the hashed text determines the two fingerprints up to their order and the case of their letters.
\<close>

theorem safety_number_exact:
  assumes "\<And>x. length (hex_encode L (H x)) = 64"
    and "CHR ''|'' \<notin> set a" and "CHR ''|'' \<notin> set b" and "CHR ''|'' \<notin> set c" and "CHR ''|'' \<notin> set d"
  shows "safety_number H L a b = safety_number H L b a"
    and "safety_number H L a b = safety_number H L c d \<longleftrightarrow> sha256_hex H L (safety_input a b) = sha256_hex H L (safety_input c d)"
    and "safety_input a b = safety_input c d \<longleftrightarrow> {#to_uppercase a, to_uppercase b#} = {#to_uppercase c, to_uppercase d#}"
proof -
  show "safety_number H L a b = safety_number H L b a" by (simp add: safety_number_def safety_input_commute)
  show "safety_number H L a b = safety_number H L c d \<longleftrightarrow> sha256_hex H L (safety_input a b) = sha256_hex H L (safety_input c d)"
  proof
    assume "safety_number H L a b = safety_number H L c d"
    then show "sha256_hex H L (safety_input a b) = sha256_hex H L (safety_input c d)"
      unfolding safety_number_def Let_def
      by (rule slices_inject [rotated 2]) (simp_all only: sha256_hex_def assms(1))
  qed (simp add: safety_number_def)
  show "safety_input a b = safety_input c d \<longleftrightarrow> {#to_uppercase a, to_uppercase b#} = {#to_uppercase c, to_uppercase d#}"
    by (rule safety_input_exact [OF assms(2-5)])
qed

section \<open>Witnesses\<close>

definition toy_lossy :: "bytes \<Rightarrow> string" where
  "toy_lossy bs = map (\<lambda>b. char_of (unat b)) bs"

lemma toy_lossy_laws: "lossy_laws toy_lossy"
  by (simp add: lossy_laws_def toy_lossy_def as_bytes_def comp_def)

theorem padding_roundtrip_exact_witness:
  "map_option (unpad_message_bucket toy_crypto toy_lossy) (pad_message_bucket toy_crypto (replicate 253 9) ''hi'') = Some (Inr ''hi'')"
proof -
  have "bucket_size (length ''hi'' + 1) - length ''hi'' - 1 = 253" by (simp add: bucket_size_def)
  then show ?thesis
    using padding_roundtrip_exact [OF toy_crypto_laws toy_lossy_laws, of "''hi''" 253 "replicate 253 9"]
    by (simp add: as_bytes_def)
qed

theorem padding_corrupts_witness:
  "map_option (unpad_message_bucket toy_crypto toy_lossy) (pad_message_bucket toy_crypto (replicate 423 9) (replicate 600 CHR ''a''))
     = Some (Inr (toy_lossy (as_bytes (replicate 600 CHR ''a'') @ take 256 (replicate 423 9))))"
  by (rule padding_corrupts [OF toy_crypto_laws]) simp_all

theorem safety_number_exact_witness:
  "safety_number (\<lambda>_. replicate 64 7) toy_crypto ''ab'' ''cd'' = safety_number (\<lambda>_. replicate 64 7) toy_crypto ''cd'' ''ab''"
  by (rule safety_number_exact(1) [of toy_crypto "\<lambda>_. replicate 64 7" "''ab''" "''cd''" "[]" "[]"]) (simp_all add: toy_crypto_def)

end
