(* ===== verification/ClientDb.thy ===== *)
theory ClientDb
  imports RatchetSession Padding
begin

text \<open>
  The client's local database (\<open>client/src/main.rs\<close>, \<open>DbEncryptionKey\<close> and \<open>MessageStore\<close>): the key file, encryption at
  rest, the table of messages and the table of ratchet sessions. Errors are texts, as in the code. Random bytes, time stamps
  and the outcome of a statement are arguments; the file system is the one of \<open>Kem\<close>.
\<close>

section \<open>The database key\<close>

definition DB_KEY_PATH :: string where "DB_KEY_PATH = ''.nullnode/db_key.json''"

definition db_key_load_or_create ::
  "crypto_lib \<Rightarrow> bool \<Rightarrow> bytes \<Rightarrow> file_system \<Rightarrow> (string + bytes) \<times> file_system" where
  "db_key_load_or_create L writable random_key fs =
     (case fs DB_KEY_PATH of
        Some hex_key \<Rightarrow>
          (bind_result (ok_or ''hex'' (hex_decode L (rust_trim hex_key))) (\<lambda>bs.
             if length bs \<noteq> 32 then Inl ''invalid db key length'' else Inr bs), fs)
      | None \<Rightarrow>
          if writable then (Inr random_key, fs(DB_KEY_PATH \<mapsto> hex_encode L random_key)) else (Inl ''write'', fs))"

text \<open>The synchronous variant panics where the other returns an error; a panic is \<open>None\<close>.\<close>

definition db_key_load_or_create_sync :: "crypto_lib \<Rightarrow> bool \<Rightarrow> bytes \<Rightarrow> file_system \<Rightarrow> bytes option \<times> file_system" where
  "db_key_load_or_create_sync L writable random_key fs =
     (case fs DB_KEY_PATH of
        Some hex_key \<Rightarrow>
          (Option.bind (hex_decode L (rust_trim hex_key)) (\<lambda>bs. if length bs = 32 then Some bs else None), fs)
      | None \<Rightarrow>
          if writable then (Some random_key, fs(DB_KEY_PATH \<mapsto> hex_encode L random_key)) else (None, fs))"

definition db_encrypt :: "crypto_lib \<Rightarrow> bytes \<Rightarrow> bytes \<Rightarrow> string \<Rightarrow> string + string" where
  "db_encrypt L key nonce plaintext =
     bind_result (ok_or ''encryption failed'' (aes_encrypt L key nonce (as_bytes plaintext))) (\<lambda>ciphertext.
       Inr (b64enc L (nonce @ ciphertext)))"

definition db_decrypt :: "crypto_lib \<Rightarrow> bytes \<Rightarrow> string \<Rightarrow> string + string" where
  "db_decrypt L key encrypted_b64 =
     bind_result (ok_or ''base64'' (b64dec L encrypted_b64)) (\<lambda>data.
       if length data < 12 + 16 then Inl ''ciphertext too short''
       else
         bind_result (ok_or ''decryption failed'' (aes_decrypt L key (take 12 data) (drop 12 data))) (\<lambda>plaintext.
           ok_or ''utf8'' (from_utf8 plaintext)))"

section \<open>The tables\<close>

record MessageRow =
  mr_id :: int
  mr_from_nid :: string
  mr_to_nid :: string
  mr_ciphertext :: string
  mr_timestamp :: string
  mr_delivered :: int

record StoredMessage =
  sm_id :: int
  sm_from_nid :: string
  sm_to_nid :: string
  sm_ciphertext :: string
  sm_timestamp :: string
  sm_delivered :: bool

record MessageStore =
  ms_messages :: "MessageRow list"
  ms_next_id :: int
  ms_sessions :: "(string \<times> string \<times> string) list"
  ms_db_key :: bytes

definition message_store_new :: "bytes \<Rightarrow> MessageStore" where
  "message_store_new db_key = \<lparr>ms_messages = [], ms_next_id = 1, ms_sessions = [], ms_db_key = db_key\<rparr>"

text \<open>Opening: the tables are created if they are not there (\<open>disk\<close> is what the file holds), then the key is loaded; \<open>sql_ok\<close> is
  whether directory, connection and statements work. The in-memory variant has its own key and other tables.\<close>

definition message_store_open ::
  "crypto_lib \<Rightarrow> bool \<Rightarrow> bool \<Rightarrow> bytes \<Rightarrow> MessageStore option \<Rightarrow> file_system \<Rightarrow> (string + MessageStore) \<times> file_system" where
  "message_store_open L sql_ok writable random_key disk fs =
     (if \<not> sql_ok then (Inl ''sql'', fs)
      else
        (case db_key_load_or_create L writable random_key fs of
           (Inl e, fs') \<Rightarrow> (Inl e, fs')
         | (Inr key, fs') \<Rightarrow> (Inr ((opt_or (message_store_new key) disk)\<lparr>ms_db_key := key\<rparr>), fs')))"

text \<open>Rows are kept in the order of their identifiers; \<open>sql_ok\<close> is whether the statement succeeds.\<close>

definition ms_store_message ::
  "crypto_lib \<Rightarrow> bool \<Rightarrow> bytes \<Rightarrow> string \<Rightarrow> string \<Rightarrow> string \<Rightarrow> string \<Rightarrow> MessageStore \<Rightarrow> (string + int) \<times> MessageStore" where
  "ms_store_message L sql_ok nonce timestamp from_nid to_nid ciphertext S =
     (case db_encrypt L (ms_db_key S) nonce ciphertext of
        Inl e \<Rightarrow> (Inl e, S)
      | Inr encrypted_ct \<Rightarrow>
          if \<not> sql_ok then (Inl ''sql'', S)
          else (Inr (ms_next_id S),
                S\<lparr>ms_messages := ms_messages S @
                    [\<lparr>mr_id = ms_next_id S, mr_from_nid = from_nid, mr_to_nid = to_nid, mr_ciphertext = encrypted_ct,
                      mr_timestamp = timestamp, mr_delivered = 1\<rparr>],
                  ms_next_id := ms_next_id S + 1\<rparr>))"

definition decrypt_row :: "crypto_lib \<Rightarrow> bytes \<Rightarrow> MessageRow \<Rightarrow> StoredMessage option" where
  "decrypt_row L key r =
     (case db_decrypt L key (mr_ciphertext r) of
        Inr pt \<Rightarrow> Some \<lparr>sm_id = mr_id r, sm_from_nid = mr_from_nid r, sm_to_nid = mr_to_nid r, sm_ciphertext = pt,
                      sm_timestamp = mr_timestamp r, sm_delivered = (mr_delivered r \<noteq> 0)\<rparr>
      | Inl _ \<Rightarrow> None)"

text \<open>\<open>LIMIT\<close> with a negative number is no limit.\<close>

definition sql_limit :: "int \<Rightarrow> 'a list \<Rightarrow> 'a list" where
  "sql_limit n xs = (if n < 0 then xs else take (nat n) xs)"

definition get_messages :: "crypto_lib \<Rightarrow> bool \<Rightarrow> int \<Rightarrow> MessageStore \<Rightarrow> string + StoredMessage list" where
  "get_messages L sql_ok limit S =
     (if \<not> sql_ok then Inl ''sql''
      else Inr (List.map_filter (decrypt_row L (ms_db_key S)) (sql_limit limit (rev (ms_messages S)))))"

definition get_messages_from :: "crypto_lib \<Rightarrow> bool \<Rightarrow> string \<Rightarrow> int \<Rightarrow> MessageStore \<Rightarrow> string + StoredMessage list" where
  "get_messages_from L sql_ok from_nid limit S =
     (if \<not> sql_ok then Inl ''sql''
      else Inr (List.map_filter (decrypt_row L (ms_db_key S))
                  (sql_limit limit (filter (\<lambda>r. mr_from_nid r = from_nid) (rev (ms_messages S))))))"

definition save_session ::
  "crypto_lib \<Rightarrow> bool \<Rightarrow> bytes \<Rightarrow> string \<Rightarrow> string \<Rightarrow> string \<Rightarrow> MessageStore \<Rightarrow> (string + unit) \<times> MessageStore" where
  "save_session L sql_ok nonce timestamp peer_nid session_json S =
     (case db_encrypt L (ms_db_key S) nonce session_json of
        Inl e \<Rightarrow> (Inl e, S)
      | Inr encrypted_data \<Rightarrow>
          if \<not> sql_ok then (Inl ''sql'', S)
          else (Inr (), S\<lparr>ms_sessions := AList.update peer_nid (encrypted_data, timestamp) (ms_sessions S)\<rparr>))"

definition load_session :: "crypto_lib \<Rightarrow> bool \<Rightarrow> string \<Rightarrow> MessageStore \<Rightarrow> string + string option" where
  "load_session L sql_ok peer_nid S =
     (if \<not> sql_ok then Inl ''sql''
      else case map_of (ms_sessions S) peer_nid of
             None \<Rightarrow> Inr None
           | Some (data, _) \<Rightarrow> bind_result (db_decrypt L (ms_db_key S) data) (\<lambda>t. Inr (Some t)))"

section \<open>Encryption at rest\<close>

definition db_text :: "string \<Rightarrow> bool" where
  "db_text t \<longleftrightarrow> utf8_valid (as_bytes t) \<and> length t < 2 ^ 36 - 31"

lemma db_roundtrip:
  assumes "crypto_laws L" and "length key = 32" and "length nonce = 12" and "db_text t"
  obtains c where "db_encrypt L key nonce t = Inr c" and "db_decrypt L key c = Inr t"
proof -
  obtain ct where "aes_encrypt L key nonce (as_bytes t) = Some ct" "length ct = length (as_bytes t) + 16"
    "aes_decrypt L key nonce ct = Some (as_bytes t)"
    by (rule crypto_laws_aes [OF assms(1-3), of "as_bytes t"]) (use assms(4) in \<open>simp_all add: db_text_def\<close>)
  then show thesis
    using assms(3,4) crypto_laws_text [OF assms(1)]
    by (intro that [of "b64enc L (nonce @ ct)"])
      (simp_all add: db_encrypt_def db_decrypt_def from_utf8_as_bytes db_text_def)
qed

text \<open>A database that is opened again has the same key, so its contents stay readable.\<close>

definition trims_hex :: "crypto_lib \<Rightarrow> bool" where
  "trims_hex L \<longleftrightarrow> (\<forall>bs. rust_trim (hex_encode L bs) = hex_encode L bs)"

lemma open_twice:
  assumes "crypto_laws L" and "trims_hex L" and "length random_key = 32"
    and "message_store_open L True True random_key disk fs = (Inr S, fs')"
  shows "message_store_open L True writable random_key' (Some S') fs' = (Inr (S'\<lparr>ms_db_key := ms_db_key S\<rparr>), fs')"
  using assms crypto_laws_text [OF assms(1)]
  by (auto simp: message_store_open_def db_key_load_or_create_def trims_hex_def bind_result_Inr ok_or_def opt_or_def split: option.splits sum.splits if_splits prod.splits)

section \<open>The table of messages\<close>

text \<open>What is stored: sender, recipient, time and text; and a history of insertions that work.\<close>

type_synonym stored = "bytes \<times> string \<times> string \<times> string \<times> string"

fun table_step :: "crypto_lib \<Rightarrow> stored \<Rightarrow> MessageStore \<Rightarrow> MessageStore" where
  "table_step L (nonce, timestamp, from_nid, to_nid, t) S = snd (ms_store_message L True nonce timestamp from_nid to_nid t S)"

fun stored_ok :: "stored \<Rightarrow> bool" where
  "stored_ok (nonce, timestamp, from_nid, to_nid, t) \<longleftrightarrow> length nonce = 12 \<and> db_text t"

fun stored_message :: "int \<times> stored \<Rightarrow> StoredMessage" where
  "stored_message (i, nonce, timestamp, from_nid, to_nid, t) =
     \<lparr>sm_id = i, sm_from_nid = from_nid, sm_to_nid = to_nid, sm_ciphertext = t, sm_timestamp = timestamp, sm_delivered = True\<rparr>"

definition numbered :: "stored list \<Rightarrow> (int \<times> stored) list" where
  "numbered es = map (\<lambda>(i, e). (int i, e)) (enumerate 1 es)"

lemma numbered_snoc: "numbered (es @ [e]) = numbered es @ [(int (length es) + 1, e)]"
  by (simp add: numbered_def enumerate_append_eq)

lemma stored_rows:
  assumes "crypto_laws L" and "length key = 32" and "list_all stored_ok es"
  defines "S \<equiv> fold (table_step L) es (message_store_new key)"
  shows "ms_db_key S = key \<and> ms_next_id S = int (length es) + 1
    \<and> list_all2 (\<lambda>r e. decrypt_row L key r = Some (stored_message e) \<and> mr_from_nid r = sm_from_nid (stored_message e))
        (ms_messages S) (numbered es)"
  using assms(3) unfolding S_def
proof (induction es rule: rev_induct)
  case Nil
  show ?case by (simp add: message_store_new_def numbered_def)
next
  case (snoc e es)
  obtain nonce timestamp from_nid to_nid t where e: "e = (nonce, timestamp, from_nid, to_nid, t)" by (cases e)
  with snoc.prems have ok: "length nonce = 12" "db_text t" by simp_all
  obtain c where c: "db_encrypt L key nonce t = Inr c" "db_decrypt L key c = Inr t"
    by (rule db_roundtrip [OF assms(1,2) ok])
  with snoc show ?case
    by (auto simp: e ms_store_message_def numbered_snoc decrypt_row_def intro: list_all2_appendI)
qed

lemma map_filter_list_all2:
  "list_all2 (\<lambda>x y. f x = Some (g y)) xs ys \<Longrightarrow> List.map_filter f xs = map g ys"
  by (induction rule: list_all2_induct) (simp_all add: List.map_filter_def)

text \<open>
  C37. The message table implements a list: after any history of stored messages, reading gives back exactly the texts, senders,
  recipients and times that were stored, newest first, with consecutive numbers, cut to the limit (a negative limit is none).
\<close>

theorem message_store_refines:
  assumes "crypto_laws L" and "length key = 32" and "list_all stored_ok es"
  shows "get_messages L True limit (fold (table_step L) es (message_store_new key))
           = Inr (sql_limit limit (rev (map stored_message (numbered es))))"
proof -
  let ?S = "fold (table_step L) es (message_store_new key)"
  have rows: "list_all2 (\<lambda>r e. decrypt_row L key r = Some (stored_message e)) (rev (ms_messages ?S)) (rev (numbered es))"
    and key: "ms_db_key ?S = key"
    using stored_rows [OF assms] by (auto elim: list_all2_mono)
  have "list_all2 (\<lambda>r e. decrypt_row L key r = Some (stored_message e))
      (sql_limit limit (rev (ms_messages ?S))) (sql_limit limit (rev (numbered es)))"
    using rows by (simp add: sql_limit_def list_all2_takeI)
  from map_filter_list_all2 [OF this] show ?thesis
    by (simp add: get_messages_def key sql_limit_def take_map rev_map)
qed

section \<open>The table of sessions\<close>

lemma save_then_load:
  assumes "crypto_laws L" and "length (ms_db_key S) = 32" and "length nonce = 12" and "db_text session_json"
  obtains S' where "save_session L True nonce timestamp peer_nid session_json S = (Inr (), S')" and "ms_db_key S' = ms_db_key S"
    and "load_session L True peer_nid S' = Inr (Some session_json)"
    and "\<And>p. p \<noteq> peer_nid \<Longrightarrow> load_session L True p S' = load_session L True p S"
proof -
  obtain c where "db_encrypt L (ms_db_key S) nonce session_json = Inr c" "db_decrypt L (ms_db_key S) c = Inr session_json"
    by (rule db_roundtrip [OF assms])
  then show thesis
    by (intro that [of "S\<lparr>ms_sessions := AList.update peer_nid (c, timestamp) (ms_sessions S)\<rparr>"])
      (auto simp: save_session_def load_session_def update_conv' split: option.split)
qed

text \<open>
  A session that was saved is loaded again, until the next session of the same peer is saved; other peers are not affected.
\<close>

theorem session_store_exact:
  assumes "crypto_laws L" and "length (ms_db_key S) = 32" and "length nonce = 12" and "db_text session_json"
  shows "\<exists>S'. save_session L True nonce timestamp peer_nid session_json S = (Inr (), S') \<and> ms_db_key S' = ms_db_key S
    \<and> (\<forall>p. load_session L True p S' = (if p = peer_nid then Inr (Some session_json) else load_session L True p S))"
  by (rule save_then_load [OF assms]) auto

section \<open>Witnesses\<close>

lemma db_text_ascii: "list_all (\<lambda>b. unat b < 128) (as_bytes t) \<Longrightarrow> length t < 2 ^ 36 - 31 \<Longrightarrow> db_text t"
  by (simp add: db_text_def utf8_valid_ascii list_all_iff)

theorem message_store_refines_witness:
  "get_messages toy_crypto True 1
     (fold (table_step toy_crypto) [(replicate 12 0, ''t1'', ''a'', ''b'', ''hi''), (replicate 12 1, ''t2'', ''c'', ''b'', ''ho'')]
       (message_store_new (replicate 32 7)))
   = Inr [\<lparr>sm_id = 2, sm_from_nid = ''c'', sm_to_nid = ''b'', sm_ciphertext = ''ho'', sm_timestamp = ''t2'', sm_delivered = True\<rparr>]"
proof -
  have ok: "db_text ''hi''" "db_text ''ho''" by (rule db_text_ascii; simp add: as_bytes_def)+
  show ?thesis
    by (subst message_store_refines [OF toy_crypto_laws]) (simp_all add: ok numbered_def sql_limit_def)
qed

theorem session_store_exact_witness:
  "\<exists>S'. save_session toy_crypto True (replicate 12 0) ''t'' ''NN-1'' ''state'' (message_store_new (replicate 32 7)) = (Inr (), S')
    \<and> ms_db_key S' = replicate 32 7
    \<and> (\<forall>p. load_session toy_crypto True p S' = (if p = ''NN-1'' then Inr (Some ''state'')
         else load_session toy_crypto True p (message_store_new (replicate 32 7))))"
proof -
  have "db_text ''state''" by (rule db_text_ascii) (simp_all add: as_bytes_def)
  then show ?thesis
    using session_store_exact [OF toy_crypto_laws, of "message_store_new (replicate 32 7)" "replicate 12 0" "''state''" "''t''" "''NN-1''"]
    by (simp add: message_store_new_def)
qed

end
