(* ===== verification/ClientFiles.thy ===== *)
theory ClientFiles
  imports DeliveryTokens Padding ClientDb "HOL-Library.Product_Lexorder"
begin

text \<open>
  The client's small files and the discovery of servers (\<open>client/src/main.rs\<close>): the tables of contacts, aliases and
  delivery secrets, which are JSON objects of strings, delivery tokens, and the choice of a server from DNS SRV records. A
  file operation that fails is part of the argument \<open>file_io\<close>; the pretty printer of serde is the parameter \<open>pretty\<close>.
\<close>

section \<open>Server discovery\<close>

definition FALLBACK_BOOTSTRAP :: string where "FALLBACK_BOOTSTRAP = ''wss://bootstrap-eu.gnoppix.org/ws''"
definition FALLBACK_RELAY :: string where "FALLBACK_RELAY = ''wss://relay-eu.gnoppix.org/ws''"

record srv_record =
  srv_priority :: u16
  srv_weight :: u16
  srv_target :: string
  srv_port :: u16

text \<open>The order of the stable sort: ascending priority, then descending weight.\<close>

definition srv_key :: "srv_record \<Rightarrow> nat \<times> nat" where
  "srv_key r = (unat (srv_priority r), 65535 - unat (srv_weight r))"

definition query_srv :: "srv_record list option \<Rightarrow> string option" where
  "query_srv response =
     (case response of
        None \<Rightarrow> None
      | Some records \<Rightarrow>
          (case sort_key srv_key records of
             [] \<Rightarrow> None
           | best # _ \<Rightarrow>
               Some (''wss://'' @ trim_end_matches CHR ''.'' (srv_target best) @ '':'' @ show_nat (unat (srv_port best)))))"

definition server_url :: "srv_record list option \<Rightarrow> string \<Rightarrow> string" where
  "server_url response fallback =
     (case query_srv response of None \<Rightarrow> fallback | Some url \<Rightarrow> trim_end_matches CHR ''/'' url @ ''/ws'')"

definition discover_servers :: "srv_record list option \<Rightarrow> srv_record list option \<Rightarrow> string \<times> string" where
  "discover_servers bootstrap_answer relay_answer =
     (server_url bootstrap_answer FALLBACK_BOOTSTRAP, server_url relay_answer FALLBACK_RELAY)"

section \<open>Tables in files\<close>

definition CONTACTS_PATH :: string where "CONTACTS_PATH = ''.nullnode/contacts.json''"
definition ALIASES_PATH :: string where "ALIASES_PATH = ''.nullnode/aliases.json''"
definition DELIVERY_SECRETS_PATH :: string where "DELIVERY_SECRETS_PATH = ''.nullnode/delivery_secrets.json''"

text \<open>A \<open>HashMap<String, String>\<close>, in some iteration order. A failed write leaves any content.\<close>

type_synonym string_table = "(string \<times> string) list"

datatype write_outcome = WriteOk | WriteFailed "string option"

record file_io =
  fio_read :: bool
  fio_mkdir :: bool
  fio_write :: write_outcome
  fio_chmod :: bool

text \<open>serde reads a table only from an object of strings.\<close>

fun as_string_table :: "json \<Rightarrow> string_table option" where
  "as_string_table (JObj kvs) =
     (if list_all (\<lambda>(_, v). as_str v \<noteq> None) kvs then Some (map (\<lambda>(k, v). (k, opt_or [] (as_str v))) kvs) else None)"
| "as_string_table _ = None"

definition load_table :: "crypto_lib \<Rightarrow> file_io \<Rightarrow> string \<Rightarrow> file_system \<Rightarrow> string_table" where
  "load_table L io path fs =
     (case fs path of
        None \<Rightarrow> []
      | Some content \<Rightarrow>
          opt_or [] (Option.bind (json_parse L (if fio_read io then content else [])) as_string_table))"

definition save_table :: "(json \<Rightarrow> string) \<Rightarrow> file_io \<Rightarrow> string \<Rightarrow> string_table \<Rightarrow> file_system \<Rightarrow> (string + unit) \<times> file_system" where
  "save_table pretty io path t fs =
     (if \<not> fio_mkdir io then (Inl ''create directory'', fs)
      else (case fio_write io of
              WriteFailed c \<Rightarrow> (Inl ''write'', fs(path := c))
            | WriteOk \<Rightarrow>
                (if fio_chmod io then Inr () else Inl ''permissions'',
                 fs(path \<mapsto> pretty (JObj (map (\<lambda>(k, v). (k, JStr v)) t))))))"

definition load_contacts :: "crypto_lib \<Rightarrow> file_io \<Rightarrow> file_system \<Rightarrow> string_table" where
  "load_contacts L io fs = load_table L io CONTACTS_PATH fs"

definition save_contacts :: "(json \<Rightarrow> string) \<Rightarrow> file_io \<Rightarrow> string_table \<Rightarrow> file_system \<Rightarrow> (string + unit) \<times> file_system" where
  "save_contacts pretty io contacts fs = save_table pretty io CONTACTS_PATH contacts fs"

definition load_aliases :: "crypto_lib \<Rightarrow> file_io \<Rightarrow> file_system \<Rightarrow> string_table" where
  "load_aliases L io fs = load_table L io ALIASES_PATH fs"

definition save_aliases :: "(json \<Rightarrow> string) \<Rightarrow> file_io \<Rightarrow> string_table \<Rightarrow> file_system \<Rightarrow> (string + unit) \<times> file_system" where
  "save_aliases pretty io aliases fs = save_table pretty io ALIASES_PATH aliases fs"

definition resolve_recipient :: "string \<Rightarrow> string_table \<Rightarrow> string" where
  "resolve_recipient input aliases = opt_or input (map_of aliases input)"

definition load_delivery_secrets :: "crypto_lib \<Rightarrow> file_io \<Rightarrow> file_system \<Rightarrow> string_table" where
  "load_delivery_secrets L io fs = load_table L io DELIVERY_SECRETS_PATH fs"

definition save_delivery_secrets :: "(json \<Rightarrow> string) \<Rightarrow> file_io \<Rightarrow> string_table \<Rightarrow> file_system \<Rightarrow> (string + unit) \<times> file_system" where
  "save_delivery_secrets pretty io secrets fs = save_table pretty io DELIVERY_SECRETS_PATH secrets fs"

section \<open>Delivery tokens of a contact\<close>

text \<open>\<open>rng\<close> are the 64 random bytes of a new secret.\<close>

definition get_or_create_delivery_secret ::
  "crypto_lib \<Rightarrow> (json \<Rightarrow> string) \<Rightarrow> file_io \<Rightarrow> bytes \<Rightarrow> string \<Rightarrow> file_system \<Rightarrow> (string + DeliveryMasterSecret) \<times> file_system" where
  "get_or_create_delivery_secret L pretty io rng contact_nid fs =
     (let secrets = load_delivery_secrets L io fs
      in case map_of secrets contact_nid of
           Some hex \<Rightarrow>
             (bind_result (ok_or ''hex'' (hex_decode L hex)) (\<lambda>bs.
                if length bs \<noteq> 64 then Inl ''invalid delivery secret length'' else Inr (DeliveryMasterSecret bs)), fs)
         | None \<Rightarrow>
             let master = secret_generate rng
             in (case save_delivery_secrets pretty io (AList.update contact_nid (hex_encode L (dm_bytes master)) secrets) fs of
                   (Inl e, fs') \<Rightarrow> (Inl e, fs')
                 | (Inr _, fs') \<Rightarrow> (Inr master, fs')))"

text \<open>\<open>fingerprint\<close> is the loaded identity's; the two slices panic on a hash text that is shorter than 32 characters, which a
  SHA-256 text never is.\<close>

definition generate_delivery_token ::
  "(bytes \<Rightarrow> bytes) \<Rightarrow> (bytes \<Rightarrow> bytes \<Rightarrow> bytes) \<Rightarrow> crypto_lib \<Rightarrow> (json \<Rightarrow> string) \<Rightarrow> file_io \<Rightarrow> bytes \<Rightarrow> string + string \<Rightarrow> u64 \<Rightarrow>
    string \<Rightarrow> u64 \<Rightarrow> file_system \<Rightarrow> (string + DeliveryTokenMessage) \<times> file_system" where
  "generate_delivery_token H hmac L pretty io rng fingerprint now recipient_nid message_id fs =
     (case get_or_create_delivery_secret L pretty io rng recipient_nid fs of
        (Inl e, fs') \<Rightarrow> (Inl e, fs')
      | (Inr master, fs') \<Rightarrow>
          (bind_result (map_err (\<lambda>_. ''derive token'') (secret_derive_token hmac master recipient_nid message_id)) (\<lambda>token.
           bind_result fingerprint (\<lambda>fp.
             let pk_hash = sha256_hex H L fp
             in Inr \<lparr>tm_token = token_to_hex L token,
                     tm_sender_key_hash = slice 0 16 pk_hash @ '':'' @ slice 16 32 pk_hash, tm_timestamp = now\<rparr>)), fs'))"

section \<open>The contract of a table\<close>

text \<open>The pretty printer and the parser: an object of strings comes back with the same entries, in some order.\<close>

definition pretty_laws :: "crypto_lib \<Rightarrow> (json \<Rightarrow> string) \<Rightarrow> bool" where
  "pretty_laws L pretty \<longleftrightarrow>
     (\<forall>t. wf_map t \<longrightarrow> (\<exists>j t'. json_parse L (pretty (JObj (map (\<lambda>(k, v). (k, JStr v)) t))) = Some j
        \<and> as_string_table j = Some t' \<and> wf_map t' \<and> map_of t' = map_of t))
     \<and> (\<forall>s kvs. json_parse L s = Some (JObj kvs) \<longrightarrow> wf_map kvs)"

text \<open>A table that is kept in a state: what it holds, replacing it, and which states are well behaved.\<close>

locale stored_table =
  fixes tbl_inv :: "'s \<Rightarrow> bool"
    and tbl_load :: "'s \<Rightarrow> ('k \<times> 'v) list"
    and tbl_save :: "('k \<times> 'v) list \<Rightarrow> 's \<Rightarrow> 's"
  assumes load_wf: "tbl_inv s \<Longrightarrow> wf_map (tbl_load s)"
    and load_save: "tbl_inv s \<Longrightarrow> wf_map t \<Longrightarrow> map_of (tbl_load (tbl_save t s)) = map_of t"
    and save_inv: "tbl_inv s \<Longrightarrow> wf_map t \<Longrightarrow> tbl_inv (tbl_save t s)"
begin

definition tbl_set :: "'k \<Rightarrow> 'v \<Rightarrow> 's \<Rightarrow> 's" where
  "tbl_set k v s = tbl_save (AList.update k v (tbl_load s)) s"

lemma tbl_set_inv: "tbl_inv s \<Longrightarrow> tbl_inv (tbl_set k v s)"
  using load_wf by (simp add: tbl_set_def save_inv distinct_update)

lemma tbl_set_get: "tbl_inv s \<Longrightarrow> map_of (tbl_load (tbl_set k v s)) = (map_of (tbl_load s))(k \<mapsto> v)"
  using load_wf [of s] by (simp add: tbl_set_def load_save distinct_update update_conv')

lemma tbl_history:
  "tbl_inv s \<Longrightarrow> map_of (tbl_load (fold (\<lambda>(k, v). tbl_set k v) es s)) = map_of (tbl_load s) ++ map_of (rev es)"
proof (induction es arbitrary: s)
  case (Cons e es)
  obtain k v where e: "e = (k, v)" by (cases e)
  show ?case using Cons by (simp add: e tbl_set_get tbl_set_inv map_add_def fun_eq_iff split: option.split)
qed simp

end

text \<open>The three files of the client keep this contract when reading and writing work. The state is the libraries and
  the file system.\<close>

definition io_fine :: file_io where
  "io_fine = \<lparr>fio_read = True, fio_mkdir = True, fio_write = WriteOk, fio_chmod = True\<rparr>"

type_synonym client_disk = "crypto_lib \<times> (json \<Rightarrow> string) \<times> file_system"

fun disk_ok :: "client_disk \<Rightarrow> bool" where
  "disk_ok (L, pretty, fs) \<longleftrightarrow> pretty_laws L pretty"

fun disk_load :: "string \<Rightarrow> client_disk \<Rightarrow> string_table" where
  "disk_load path (L, pretty, fs) = load_table L io_fine path fs"

fun disk_save :: "string \<Rightarrow> string_table \<Rightarrow> client_disk \<Rightarrow> client_disk" where
  "disk_save path t (L, pretty, fs) = (L, pretty, snd (save_table pretty io_fine path t fs))"

lemma as_string_table_wf: "wf_map kvs \<Longrightarrow> as_string_table (JObj kvs) = Some t \<Longrightarrow> wf_map t"
  by (auto simp: comp_def case_prod_unfold split: if_splits)

lemma as_string_table_JObj: "as_string_table j = Some t \<Longrightarrow> \<exists>kvs. j = JObj kvs"
  by (cases j) auto

lemma load_table_wf:
  assumes "pretty_laws L pretty"
  shows "wf_map (load_table L io path fs)"
proof (cases "fs path")
  case (Some content)
  let ?j = "json_parse L (if fio_read io then content else [])"
  show ?thesis
  proof (cases "Option.bind ?j as_string_table")
    case (Some t)
    then obtain j where j: "?j = Some j" "as_string_table j = Some t" by (cases ?j) simp_all
    from as_string_table_JObj [OF j(2)] j obtain kvs where "?j = Some (JObj kvs)" "as_string_table (JObj kvs) = Some t" by blast
    then have "wf_map t" using assms as_string_table_wf unfolding pretty_laws_def by blast
    with Some \<open>fs path = Some content\<close> show ?thesis by (simp add: load_table_def)
  qed (simp add: load_table_def Some)
qed (simp add: load_table_def)

lemma save_table_load:
  assumes "pretty_laws L pretty" and "wf_map t"
  shows "fst (save_table pretty io_fine path t fs) = Inr ()"
    and "map_of (load_table L io_fine path (snd (save_table pretty io_fine path t fs))) = map_of t"
proof -
  obtain j t' where "json_parse L (pretty (JObj (map (\<lambda>(k, v). (k, JStr v)) t))) = Some j" "as_string_table j = Some t'"
      "map_of t' = map_of t"
    using assms unfolding pretty_laws_def by blast
  then show "map_of (load_table L io_fine path (snd (save_table pretty io_fine path t fs))) = map_of t"
    by (simp add: save_table_def load_table_def io_fine_def)
qed (simp add: save_table_def io_fine_def)

lemma disk_table: "stored_table disk_ok (disk_load path) (disk_save path)"
proof
  fix s :: client_disk and t :: string_table
  obtain L pretty fs where s: "s = (L, pretty, fs)" by (cases s)
  assume "disk_ok s"
  then have ok: "pretty_laws L pretty" by (simp add: s)
  show "wf_map (disk_load path s)" using load_table_wf [OF ok] by (simp add: s)
  assume t: "wf_map t"
  show "map_of (disk_load path (disk_save path t s)) = map_of t" using save_table_load(2) [OF ok t] by (simp add: s)
  show "disk_ok (disk_save path t s)" using ok by (simp add: s)
qed

interpretation contacts: stored_table disk_ok "disk_load CONTACTS_PATH" "disk_save CONTACTS_PATH"
  by (rule disk_table)

interpretation aliases: stored_table disk_ok "disk_load ALIASES_PATH" "disk_save ALIASES_PATH"
  by (rule disk_table)

interpretation delivery: stored_table disk_ok "disk_load DELIVERY_SECRETS_PATH" "disk_save DELIVERY_SECRETS_PATH"
  by (rule disk_table)

section \<open>What the files hold\<close>

datatype file_event = SetContact string string | SetAlias string string | SetSecret string string

text \<open>What \<open>add-contact\<close>, \<open>alias\<close> and the creation of a secret do: load, insert, save.\<close>

fun file_step :: "crypto_lib \<Rightarrow> (json \<Rightarrow> string) \<Rightarrow> file_event \<Rightarrow> file_system \<Rightarrow> file_system" where
  "file_step L pretty (SetContact k v) fs = snd (save_contacts pretty io_fine (AList.update k v (load_contacts L io_fine fs)) fs)"
| "file_step L pretty (SetAlias k v) fs = snd (save_aliases pretty io_fine (AList.update k v (load_aliases L io_fine fs)) fs)"
| "file_step L pretty (SetSecret k v) fs =
     snd (save_delivery_secrets pretty io_fine (AList.update k v (load_delivery_secrets L io_fine fs)) fs)"

fun entry_for :: "string \<Rightarrow> file_event \<Rightarrow> (string \<times> string) option" where
  "entry_for path (SetContact k v) = (if path = CONTACTS_PATH then Some (k, v) else None)"
| "entry_for path (SetAlias k v) = (if path = ALIASES_PATH then Some (k, v) else None)"
| "entry_for path (SetSecret k v) = (if path = DELIVERY_SECRETS_PATH then Some (k, v) else None)"

lemmas file_defs = load_contacts_def save_contacts_def load_aliases_def save_aliases_def load_delivery_secrets_def
  save_delivery_secrets_def

lemma file_step_frame:
  "entry_for path e = None \<Longrightarrow> load_table L io path (file_step L pretty e fs) = load_table L io path fs"
  by (cases e) (auto simp: file_defs save_table_def io_fine_def load_table_def split: if_splits)

lemma table_set_get:
  assumes "pretty_laws L pretty"
  shows "map_of (load_table L io_fine path (snd (save_table pretty io_fine path (AList.update k v (load_table L io_fine path fs)) fs)))
    = (map_of (load_table L io_fine path fs))(k \<mapsto> v)"
  using stored_table.tbl_set_get [OF disk_table, of "(L, pretty, fs)" path k v] assms
  by (simp add: stored_table.tbl_set_def [OF disk_table])

lemma file_step_table:
  assumes "pretty_laws L pretty" and "entry_for path e = Some (k, v)"
  shows "map_of (load_table L io_fine path (file_step L pretty e fs)) = (map_of (load_table L io_fine path fs))(k \<mapsto> v)"
  using assms by (cases e) (auto simp: file_defs table_set_get split: if_splits)

lemma client_files_history:
  assumes "pretty_laws L pretty"
  shows "map_of (load_table L io_fine path (fold (file_step L pretty) es fs))
    = map_of (load_table L io_fine path fs) ++ map_of (rev (List.map_filter (entry_for path) es))"
proof (induction es arbitrary: fs)
  case Nil
  show ?case by (simp add: List.map_filter_def)
next
  case (Cons e es)
  show ?case
  proof (cases "entry_for path e")
    case None
    then show ?thesis by (simp add: Cons file_step_frame List.map_filter_def)
  next
    case (Some kv)
    obtain k v where kv: "kv = (k, v)" by (cases kv)
    show ?thesis
      using file_step_table [OF assms, of path e k v fs] Some
      by (simp add: Cons kv List.map_filter_def map_add_def fun_eq_iff split: option.split)
  qed
qed

text \<open>
  The client's files are three independent maps: after any interleaved history of additions, each file holds its previous
  entries overwritten by the additions to it, the latest one per key, and an addition to one file does not disturb the others.
\<close>

theorem client_files_refine:
  assumes "pretty_laws L pretty"
  shows "let fs' = fold (file_step L pretty) es fs in
      map_of (load_contacts L io_fine fs') = map_of (load_contacts L io_fine fs) ++ map_of (rev [(k, v). SetContact k v \<leftarrow> es])
    \<and> map_of (load_aliases L io_fine fs') = map_of (load_aliases L io_fine fs) ++ map_of (rev [(k, v). SetAlias k v \<leftarrow> es])
    \<and> map_of (load_delivery_secrets L io_fine fs')
        = map_of (load_delivery_secrets L io_fine fs) ++ map_of (rev [(k, v). SetSecret k v \<leftarrow> es])"
proof -
  have "List.map_filter (entry_for CONTACTS_PATH) es = [(k, v). SetContact k v \<leftarrow> es]"
    "List.map_filter (entry_for ALIASES_PATH) es = [(k, v). SetAlias k v \<leftarrow> es]"
    "List.map_filter (entry_for DELIVERY_SECRETS_PATH) es = [(k, v). SetSecret k v \<leftarrow> es]"
  proof (induction es)
    case (Cons e es)
    { case 1 then show ?case using Cons by (cases e) (simp_all add: List.map_filter_def CONTACTS_PATH_def ALIASES_PATH_def DELIVERY_SECRETS_PATH_def) }
    { case 2 then show ?case using Cons by (cases e) (simp_all add: List.map_filter_def CONTACTS_PATH_def ALIASES_PATH_def DELIVERY_SECRETS_PATH_def) }
    { case 3 then show ?case using Cons by (cases e) (simp_all add: List.map_filter_def CONTACTS_PATH_def ALIASES_PATH_def DELIVERY_SECRETS_PATH_def) }
  qed (simp_all add: List.map_filter_def)
  then show ?thesis
    by (simp add: Let_def load_contacts_def load_aliases_def load_delivery_secrets_def client_files_history [OF assms])
qed

text \<open>
  A file that exists but cannot be read, or that does not parse, counts as empty, and the next addition replaces it: every
  earlier entry is lost.
\<close>

theorem unreadable_table_erased:
  assumes "pretty_laws L pretty" and "fs CONTACTS_PATH = Some content" and "json_parse L [] = None"
  shows "fst (save_contacts pretty io_fine (AList.update k v (load_contacts L (io_fine\<lparr>fio_read := False\<rparr>) fs)) fs) = Inr ()
    \<and> map_of (load_contacts L io_fine
        (snd (save_contacts pretty io_fine (AList.update k v (load_contacts L (io_fine\<lparr>fio_read := False\<rparr>) fs)) fs))) = [k \<mapsto> v]"
  using assms save_table_load [OF assms(1), of "[(k, v)]" CONTACTS_PATH fs]
  by (simp add: file_defs load_table_def [of L "io_fine\<lparr>fio_read := False\<rparr>"])

section \<open>Delivery secrets\<close>

text \<open>
  A contact's delivery secret is stable: the first request creates it, and after that, through any additions to the contact and
  alias files and any creation of other contacts' secrets, every request returns the same 64 bytes.
\<close>

theorem delivery_secret_stable:
  assumes "crypto_laws L" and "pretty_laws L pretty" and "length rng = 64"
    and "map_of (load_delivery_secrets L io_fine fs) nid = None"
    and "list_all (\<lambda>e. \<forall>v. e \<noteq> SetSecret nid v) es"
  shows "\<exists>fs'. get_or_create_delivery_secret L pretty io_fine rng nid fs = (Inr (DeliveryMasterSecret rng), fs')
    \<and> get_or_create_delivery_secret L pretty io_fine rng' nid (fold (file_step L pretty) es fs')
        = (Inr (DeliveryMasterSecret rng), fold (file_step L pretty) es fs')"
proof -
  let ?t = "AList.update nid (hex_encode L rng) (load_delivery_secrets L io_fine fs)"
  have wf: "wf_map ?t" using load_table_wf [OF assms(2)] by (simp add: load_delivery_secrets_def distinct_update)
  obtain fs' where saved: "save_delivery_secrets pretty io_fine ?t fs = (Inr (), fs')"
    "map_of (load_table L io_fine DELIVERY_SECRETS_PATH fs') nid = Some (hex_encode L rng)"
    using save_table_load [OF assms(2) wf, of DELIVERY_SECRETS_PATH fs]
    by (cases "save_delivery_secrets pretty io_fine ?t fs") (simp add: save_delivery_secrets_def update_conv')
  have "nid \<notin> fst ` set (List.map_filter (entry_for DELIVERY_SECRETS_PATH) es)"
    using assms(5)
  proof (induction es)
    case (Cons e es)
    then show ?case
      by (cases e) (auto simp: List.map_filter_def CONTACTS_PATH_def ALIASES_PATH_def DELIVERY_SECRETS_PATH_def)
  qed (simp add: List.map_filter_def)
  then have "map_of (rev (List.map_filter (entry_for DELIVERY_SECRETS_PATH) es)) nid = None"
    by (simp add: map_of_eq_None_iff)
  then have "map_of (load_delivery_secrets L io_fine (fold (file_step L pretty) es fs')) nid = Some (hex_encode L rng)"
    using saved(2) by (simp add: load_delivery_secrets_def client_files_history [OF assms(2)] map_add_def)
  then show ?thesis
    using assms(1,3,4) saved(1)
    by (intro exI [of _ fs']) (simp add: get_or_create_delivery_secret_def Let_def secret_generate_def crypto_laws_text)
qed

section \<open>Server choice\<close>

definition srv_better :: "srv_record \<Rightarrow> srv_record \<Rightarrow> bool" where
  "srv_better r x \<longleftrightarrow> srv_priority r < srv_priority x \<or> srv_priority r = srv_priority x \<and> srv_weight x < srv_weight r"

lemma srv_key_less: "srv_key r < srv_key x \<longleftrightarrow> srv_better r x"
proof -
  have "unat w < 65536" for w :: u16 using unsigned_less [of w] by simp
  from this [of "srv_weight r"] this [of "srv_weight x"] show ?thesis
    by (auto simp: srv_key_def srv_better_def word_less_nat_alt word_unat_eq_iff less_prod_def)
qed

text \<open>
  The chosen server is the first record of the answer to which no other is preferred: no record has a smaller priority, nor
  the same priority and a greater weight, and every earlier record is worse.
\<close>

theorem query_srv_best:
  assumes "records \<noteq> []"
  shows "\<exists>earlier best later. records = earlier @ best # later
    \<and> (\<forall>x \<in> set records. \<not> srv_better x best) \<and> (\<forall>x \<in> set earlier. srv_better best x)
    \<and> query_srv (Some records)
        = Some (''wss://'' @ trim_end_matches CHR ''.'' (srv_target best) @ '':'' @ show_nat (unat (srv_port best)))"
proof -
  from assms obtain best rest where b: "sort_key srv_key records = best # rest" by (cases "sort_key srv_key records") (auto dest: arg_cong [of _ _ length])
  have least: "srv_key best \<le> srv_key x" if "x \<in> set records" for x
  proof -
    have "sorted (map srv_key (best # rest))" using sorted_sort_key [of srv_key records] by (simp only: b)
    moreover have "x \<in> set (best # rest)" using that set_sort [of srv_key records] by (simp only: b)
    ultimately show ?thesis by auto
  qed
  have "filter (\<lambda>x. srv_key x = srv_key best) records = best # filter (\<lambda>x. srv_key x = srv_key best) rest"
    using sort_key_stable [of srv_key "srv_key best" records] by (simp add: b)
  then obtain earlier later where e: "records = earlier @ best # later" "\<forall>x \<in> set earlier. srv_key x \<noteq> srv_key best"
    by (auto simp: filter_eq_Cons_iff)
  have "srv_better best x" if "x \<in> set earlier" for x
    using least [of x] e that by (simp add: srv_key_less [symmetric] le_neq_trans) (metis order.not_eq_order_implies_strict)
  moreover have "\<not> srv_better x best" if "x \<in> set records" for x
    using least [OF that] by (simp add: srv_key_less [symmetric] not_less)
  ultimately show ?thesis using e(1) b by (intro exI [of _ earlier] exI [of _ best] exI [of _ later]) (simp add: query_srv_def)
qed

section \<open>Witnesses\<close>

definition file_print :: "json \<Rightarrow> string" where
  "file_print j = CHR ''{'' # toy_print j"

definition file_parse :: "string \<Rightarrow> json option" where
  "file_parse t = (case t of [] \<Rightarrow> None | _ # r \<Rightarrow> Some (JObj (AList.clearjunk (toy_parse (length r) r))))"

definition file_crypto :: crypto_lib where
  "file_crypto = toy_crypto\<lparr>json_print := file_print, json_parse := file_parse\<rparr>"

lemma clearjunk_wf: "wf_map kvs \<Longrightarrow> AList.clearjunk kvs = kvs"
  by (rule distinct_clearjunk_id)

lemma wf_map_values: "wf_map (map (\<lambda>(k, v). (k, f v)) t) \<longleftrightarrow> wf_map t"
  by (simp add: comp_def case_prod_unfold)

lemma file_crypto_laws: "crypto_laws file_crypto"
proof -
  have "\<exists>j. file_parse (file_print (JObj kvs)) = Some j \<and> (\<forall>k s. map_of kvs k = Some (JStr s) \<longrightarrow> json_get j k = Some (JStr s))
      \<and> (\<forall>k. map_of kvs k = None \<longrightarrow> json_get j k = None)" if "wf_map kvs" for kvs
    using that toy_json [of kvs]
    by (simp add: file_parse_def file_print_def json_get_def map_of_clearjunk del: toy_print.simps)
  then show ?thesis
    using toy_crypto_laws by (simp add: crypto_laws_def file_crypto_def toy_crypto_def)
qed

lemma file_pretty_laws: "pretty_laws file_crypto file_print"
proof -
  have "file_parse (file_print (JObj (map (\<lambda>(k, v). (k, JStr v)) t))) = Some (JObj (map (\<lambda>(k, v). (k, JStr v)) t))
      \<and> as_string_table (JObj (map (\<lambda>(k, v). (k, JStr v)) t)) = Some t" if "wf_map t" for t
    using that by (simp add: file_parse_def file_print_def toy_parse_print clearjunk_wf wf_map_values comp_def case_prod_unfold list_all_iff
        del: toy_print.simps)
  moreover have "wf_map kvs" if "file_parse s = Some (JObj kvs)" for s kvs
    using that by (auto simp: file_parse_def distinct_clearjunk split: list.splits)
  ultimately show ?thesis by (auto simp: pretty_laws_def file_crypto_def)
qed

theorem client_files_refine_witness:
  "map_of (load_aliases file_crypto io_fine
     (fold (file_step file_crypto file_print)
        [SetAlias ''bob'' ''NN-1'', SetContact ''NN-1'' ''FP'', SetAlias ''bob'' ''NN-2''] Map.empty)) ''bob'' = Some ''NN-2''"
  using client_files_refine [OF file_pretty_laws,
      of "[SetAlias ''bob'' ''NN-1'', SetContact ''NN-1'' ''FP'', SetAlias ''bob'' ''NN-2'']" Map.empty]
  by (simp add: Let_def)

theorem delivery_secret_stable_witness:
  "\<exists>fs'. get_or_create_delivery_secret file_crypto file_print io_fine (replicate 64 3) ''NN-1'' Map.empty
      = (Inr (DeliveryMasterSecret (replicate 64 3)), fs')
    \<and> get_or_create_delivery_secret file_crypto file_print io_fine (replicate 64 4) ''NN-1''
        (fold (file_step file_crypto file_print) [SetSecret ''NN-2'' ''00'', SetContact ''NN-1'' ''FP''] fs')
      = (Inr (DeliveryMasterSecret (replicate 64 3)),
         fold (file_step file_crypto file_print) [SetSecret ''NN-2'' ''00'', SetContact ''NN-1'' ''FP''] fs')"
  by (rule delivery_secret_stable [OF file_crypto_laws file_pretty_laws])
    (simp_all add: load_delivery_secrets_def load_table_def)

end
