(* ===== verification/RelayServer.thy ===== *)
theory RelayServer
  imports Relay ClientFiles
begin

text \<open>
  The relay as a server (\<open>main\<close>, \<open>RelayState::new\<close>, \<open>handle_connection\<close> and \<open>handle_ws_connection\<close> in \<open>relay/src/main.rs\<close>): its
  options, the files it reads at the start, the known peers on disk, the loop of a connection, and restarts. What survives
  a restart is the database and the files; the state of the running process is the \<open>relay_state\<close> of theory \<open>Relay\<close>.
\<close>

section \<open>Options and start\<close>

record RelayArgs =
  ra_host :: string
  ra_port :: u16
  ra_peer :: "string list"
  ra_peer_file :: "string option"
  ra_secret :: "string option"
  ra_secret_file :: "string option"
  ra_url :: "string option"
  ra_gpg_home :: "string option"
  ra_tls_cert :: "string option"
  ra_tls_key :: "string option"
  ra_db_path :: "string option"
  ra_cbnp_enabled :: bool
  ra_allow_relay :: bool

definition RelayArgs_default :: RelayArgs where
  "RelayArgs_default =
     \<lparr>ra_host = ''0.0.0.0'', ra_port = 8765, ra_peer = [], ra_peer_file = None, ra_secret = None, ra_secret_file = None, ra_url = None,
      ra_gpg_home = None, ra_tls_cert = None, ra_tls_key = None, ra_db_path = None, ra_cbnp_enabled = True, ra_allow_relay = False\<rparr>"

text \<open>What the start takes from its environment: the home directory and the variable, which files can be read, whether TLS, the
  listener and the database work, and the random key.\<close>

record start_io =
  so_home :: "string option"
  so_env_home :: "string option"
  so_read :: "string \<Rightarrow> bool"
  so_tls :: bool
  so_bind :: bool
  so_db_dir :: bool
  so_db_open :: bool
  so_random_key :: bytes

definition relay_gpg_home :: "start_io \<Rightarrow> RelayArgs \<Rightarrow> string" where
  "relay_gpg_home io args =
     opt_or (case so_home io of
               Some h \<Rightarrow> h @ ''/.nullnode/gnupg''
             | None \<Rightarrow> (case so_env_home io of Some h \<Rightarrow> h @ ''/.nullnode/gnupg'' | None \<Rightarrow> ''/var/lib/nullnode/gnupg''))
       (ra_gpg_home args)"

text \<open>TLS is used exactly if both files are given.\<close>

definition relay_tls :: "start_io \<Rightarrow> RelayArgs \<Rightarrow> string + bool" where
  "relay_tls io args =
     (if ra_tls_cert args \<noteq> None \<and> ra_tls_key args \<noteq> None then (if so_tls io then Inr True else Inl ''TLS config'') else Inr False)"

definition read_text :: "start_io \<Rightarrow> string \<Rightarrow> file_system \<Rightarrow> string option" where
  "read_text io path fs = (if so_read io path then fs path else None)"

definition relay_secret :: "start_io \<Rightarrow> RelayArgs \<Rightarrow> file_system \<Rightarrow> string + string option" where
  "relay_secret io args fs =
     (case ra_secret_file args of
        Some path \<Rightarrow> map_sum id (Some \<circ> rust_trim) (ok_or ''secret file'' (read_text io path fs))
      | None \<Rightarrow> Inr (ra_secret args))"

definition relay_own_url :: "bool \<Rightarrow> RelayArgs \<Rightarrow> string" where
  "relay_own_url tls args =
     opt_or ((if tls then ''wss://'' else ''ws://'') @ ra_host args @ '':'' @ show_nat (unat (ra_port args))) (ra_url args)"

definition relay_db_path :: "RelayArgs \<Rightarrow> string \<Rightarrow> string" where
  "relay_db_path args gpg_home = opt_or (gpg_home @ ''/mailbox.db'') (ra_db_path args)"

text \<open>The peers: the options, then the lines of the file without blanks and comments; an unreadable file is only logged.\<close>

definition relay_peer_urls :: "start_io \<Rightarrow> RelayArgs \<Rightarrow> file_system \<Rightarrow> string list" where
  "relay_peer_urls io args fs =
     ra_peer args @
     (case Option.bind (ra_peer_file args) (\<lambda>path. read_text io path fs) of
        None \<Rightarrow> []
      | Some content \<Rightarrow> filter (\<lambda>l. l \<noteq> [] \<and> hd l \<noteq> CHR ''#'') (map rust_trim (split_on (CHR 0x0A) content)))"

section \<open>Known peers on disk\<close>

definition known_peers_path :: "string \<Rightarrow> string" where
  "known_peers_path gpg_home = gpg_home @ ''/.known_peers.json''"

text \<open>A \<open>HashSet<String>\<close> is an array of strings; whatever cannot be read or parsed counts as empty.\<close>

definition load_known_peers_sync :: "crypto_lib \<Rightarrow> bool \<Rightarrow> string \<Rightarrow> file_system \<Rightarrow> string list" where
  "load_known_peers_sync L readable gpg_home fs =
     (case fs (known_peers_path gpg_home) of
        None \<Rightarrow> []
      | Some content \<Rightarrow> remdups (opt_or [] (Option.bind (json_parse L (if readable then content else [])) as_strings)))"

definition save_known_peers :: "(json \<Rightarrow> string) \<Rightarrow> file_io \<Rightarrow> string \<Rightarrow> string list \<Rightarrow> file_system \<Rightarrow> (string + unit) \<times> file_system" where
  "save_known_peers pretty io gpg_home peers fs =
     (if \<not> fio_mkdir io then (Inl ''create directory'', fs)
      else (case fio_write io of
              WriteFailed c \<Rightarrow> (Inl ''write'', fs(known_peers_path gpg_home := c))
            | WriteOk \<Rightarrow> (if fio_chmod io then Inr () else Inl ''permissions'',
                          fs(known_peers_path gpg_home \<mapsto> pretty (JArr (map JStr peers))))))"

section \<open>A new state\<close>

definition db_url :: "string \<Rightarrow> string" where
  "db_url path = (if take 7 path = ''sqlite:'' then path else ''sqlite://'' @ path @ ''?mode=rwc'')"

text \<open>The key for the metadata comes from the shared secret, otherwise from the generator; \<open>expect\<close> panics if HKDF fails.\<close>

definition metadata_key_for :: "crypto_lib \<Rightarrow> start_io \<Rightarrow> string option \<Rightarrow> bytes option" where
  "metadata_key_for L io shared_secret =
     (case shared_secret of
        Some secret \<Rightarrow> hkdf_expand L (as_bytes secret) (as_bytes ''nullnode-relay-metadata-v1'') 32
      | None \<Rightarrow> Some (so_random_key io))"

text \<open>\<open>dbs\<close> is the mailbox table of each database; a new database has an empty one.\<close>

definition relay_state_new ::
  "crypto_lib \<Rightarrow> start_io \<Rightarrow> string option \<Rightarrow> string \<Rightarrow> string option \<Rightarrow> bool \<Rightarrow> file_system \<Rightarrow> (string \<Rightarrow> MailRow list) \<Rightarrow> string + relay_state" where
  "relay_state_new L io shared_secret gpg_home db_path allow_relay fs dbs =
     (let known_peers = load_known_peers_sync L (so_read io (known_peers_path gpg_home)) gpg_home fs
      in bind_result
           (case db_path of
              None \<Rightarrow> Inr None
            | Some path \<Rightarrow>
                if \<not> so_db_dir io then Inl ''create directory'' else if \<not> so_db_open io then Inl ''sql'' else Inr (Some (dbs (db_url path))))
           (\<lambda>rows. bind_result (ok_or ''panic: HKDF expand failed'' (metadata_key_for L io shared_secret))
              (\<lambda>key. Inr (relay_new shared_secret key rows known_peers allow_relay))))"

text \<open>A running relay: its state, its directory, its database and whether it accepts TLS only. The first part of \<open>main\<close> starts one; the
  rest starts the tasks and the accept loop, whose steps are below.\<close>

record relay_process =
  rp_state :: relay_state
  rp_gpg_home :: string
  rp_db :: string
  rp_tls :: bool

definition relay_main :: "crypto_lib \<Rightarrow> start_io \<Rightarrow> RelayArgs \<Rightarrow> file_system \<Rightarrow> (string \<Rightarrow> MailRow list) \<Rightarrow> string + relay_process" where
  "relay_main L io args fs dbs =
     bind_result (relay_tls io args) (\<lambda>tls.
     if \<not> so_bind io then Inl ''bind''
     else bind_result (relay_secret io args fs) (\<lambda>shared_secret.
       let gpg_home = relay_gpg_home io args;
           db_path = relay_db_path args gpg_home
       in bind_result (relay_state_new L io shared_secret gpg_home (Some db_path) (ra_allow_relay args) fs dbs) (\<lambda>S.
            Inr \<lparr>rp_state = on_fed (\<lambda>fed. fed\<lparr>fed_our_url := Some (relay_own_url tls args)\<rparr>) S, rp_gpg_home = gpg_home,
                 rp_db = db_url db_path, rp_tls = tls\<rparr>)))"

section \<open>Connections\<close>

text \<open>A running relay with the disk; \<open>rh_dbs\<close> holds the databases that it does not use.\<close>

record relay_host =
  rh_run :: relay_process
  rh_fs :: file_system
  rh_dbs :: "string \<Rightarrow> MailRow list"

abbreviation rh_state :: "relay_host \<Rightarrow> relay_state" where
  "rh_state h \<equiv> rp_state (rh_run h)"

definition on_state :: "(relay_state \<Rightarrow> relay_state) \<Rightarrow> relay_host \<Rightarrow> relay_host" where
  "on_state f h = h\<lparr>rh_run := (rh_run h)\<lparr>rp_state := f (rh_state h)\<rparr>\<rparr>"

text \<open>Events of a connection: frames, an error, and ticks of the heartbeat; the end of the list is the end of the stream.\<close>

datatype conn_event =
    WsText relay_call string
  | WsPing
  | WsPong
  | WsClose
  | WsBinary
  | WsFrame
  | WsError
  | WsTick

datatype conn_out = OutRelay relay_out | OutPong | OutPing

fun ws_loop :: "'cert relay_lib \<Rightarrow> conn_event list \<Rightarrow> relay_state \<Rightarrow> conn_out list \<times> relay_state" where
  "ws_loop R [] S = ([], S)"
| "ws_loop R (WsText c t # es) S =
     (let (out, S) = handle_ws_text R c t S; (rest, S) = ws_loop R es S in (map OutRelay out @ rest, S))"
| "ws_loop R (WsPing # es) S = (let (rest, S) = ws_loop R es S in (OutPong # rest, S))"
| "ws_loop R (WsPong # es) S = ws_loop R es S"
| "ws_loop R (WsClose # es) S = ([], S)"
| "ws_loop R (WsBinary # es) S =
     (let (rest, S) = ws_loop R es S in (map OutRelay (send_error ''binary messages not supported'') @ rest, S))"
| "ws_loop R (WsFrame # es) S = ws_loop R es S"
| "ws_loop R (WsError # es) S = ([], S)"
| "ws_loop R (WsTick # es) S = (let (rest, S) = ws_loop R es S in (OutPing # rest, S))"

definition handle_ws_connection ::
  "'cert relay_lib \<Rightarrow> bool \<Rightarrow> bool \<Rightarrow> conn_event list \<Rightarrow> relay_state \<Rightarrow> (string + conn_out list) \<times> relay_state" where
  "handle_ws_connection R send_done close_done events S =
     (if relay_overloaded S
      then (if send_done \<and> close_done then Inr (map OutRelay (send_error ''relay overloaded'')) else Inl ''websocket'', S)
      else let (out, S) = ws_loop R events S in (if close_done then Inr out else Inl ''websocket'', S))"

text \<open>The certificate of a TLS peer is pinned when it is new, and the set is saved; a failure to save is ignored.\<close>

definition tls_peer ::
  "(bytes \<Rightarrow> bytes) \<Rightarrow> crypto_lib \<Rightarrow> (json \<Rightarrow> string) \<Rightarrow> file_io \<Rightarrow> bytes \<Rightarrow> relay_host \<Rightarrow> relay_host" where
  "tls_peer H L pretty io cert h =
     (let fp = hex_encode L (H cert)
      in if fp \<in> set (rs_known_peers (rh_state h)) then h
         else let h = on_state (pin_peer_certificate fp) h
              in h\<lparr>rh_fs := snd (save_known_peers pretty io (rp_gpg_home (rh_run h)) (rs_known_peers (rh_state h)) (rh_fs h))\<rparr>)"

record conn_io =
  co_now :: f64
  co_ip :: string
  co_tls :: bool
  co_cert :: "bytes option"
  co_files :: file_io
  co_ws :: bool
  co_sent :: bool
  co_closed :: bool

definition serve_ws :: "'cert relay_lib \<Rightarrow> conn_io \<Rightarrow> conn_event list \<Rightarrow> relay_host \<Rightarrow> (string + conn_out list) \<times> relay_host" where
  "serve_ws R io events h =
     (if \<not> co_ws io then (Inl ''accept'', h)
      else let (r, S) = handle_ws_connection R (co_sent io) (co_closed io) events (rh_state h) in (r, on_state (\<lambda>_. S) h))"

definition handle_connection_relay ::
  "(bytes \<Rightarrow> bytes) \<Rightarrow> 'cert relay_lib \<Rightarrow> (json \<Rightarrow> string) \<Rightarrow> conn_io \<Rightarrow> conn_event list \<Rightarrow> relay_host \<Rightarrow> (string + conn_out list) \<times> relay_host" where
  "handle_connection_relay H R pretty io events h =
     (let (ok, S) = admit_connection (co_now io) (co_ip io) (rh_state h);
          h = on_state (\<lambda>_. S) h
      in if \<not> ok then (Inr [], h)
         else if rp_tls (rh_run h)
         then (if \<not> co_tls io then (Inl ''tls'', h)
               else serve_ws R io events (case co_cert io of None \<Rightarrow> h | Some cert \<Rightarrow> tls_peer H (rb_crypto R) pretty (co_files io) cert h))
         else serve_ws R io events h)"

text \<open>A peer of the options: the connection, and the registration of the peer.\<close>

definition connect_to_peer :: "bool \<Rightarrow> f64 \<Rightarrow> string \<Rightarrow> relay_state \<Rightarrow> (string + unit) \<times> relay_state" where
  "connect_to_peer connected_ok now url S = (if connected_ok then (Inr (), on_fed (peer_connected now url) S) else (Inl ''connect'', S))"

section \<open>Histories with restarts\<close>

text \<open>The steps of a relay process, the pinning of a TLS peer, and a restart. A restart that fails changes nothing on the disk and is
  tried again.\<close>

datatype server_event =
    SvStep relay_event
  | SvPeerCert file_io bytes
  | SvRestart start_io RelayArgs

definition saved_dbs :: "relay_host \<Rightarrow> string \<Rightarrow> MailRow list" where
  "saved_dbs h = (rh_dbs h)(rp_db (rh_run h) := opt_or [] (ms_db (rs_mail (rh_state h))))"

fun server_step :: "(bytes \<Rightarrow> bytes) \<Rightarrow> 'cert relay_lib \<Rightarrow> (json \<Rightarrow> string) \<Rightarrow> server_event \<Rightarrow> relay_host \<Rightarrow> relay_host" where
  "server_step H R pretty (SvStep e) h = on_state (relay_step R e) h"
| "server_step H R pretty (SvPeerCert io cert) h = tls_peer H (rb_crypto R) pretty io cert h"
| "server_step H R pretty (SvRestart io args) h =
     (case relay_main (rb_crypto R) io args (rh_fs h) (saved_dbs h) of
        Inl _ \<Rightarrow> h
      | Inr p \<Rightarrow> h\<lparr>rh_run := p, rh_dbs := saved_dbs h\<rparr>)"

section \<open>Connections are histories\<close>

text \<open>The texts that a connection handles, up to its end.\<close>

fun served_texts :: "conn_event list \<Rightarrow> server_event list" where
  "served_texts [] = []"
| "served_texts (WsText c t # es) = SvStep (RText c t) # served_texts es"
| "served_texts (WsClose # es) = []"
| "served_texts (WsError # es) = []"
| "served_texts (_ # es) = served_texts es"

definition connection_events :: "conn_io \<Rightarrow> conn_event list \<Rightarrow> relay_host \<Rightarrow> server_event list" where
  "connection_events io events h =
     SvStep (RConnect (co_now io) (co_ip io)) #
     (if \<not> fst (admit_connection (co_now io) (co_ip io) (rh_state h)) \<or> (rp_tls (rh_run h) \<and> \<not> co_tls io) then []
      else (case co_cert io of Some cert \<Rightarrow> if rp_tls (rh_run h) then [SvPeerCert (co_files io) cert] else [] | None \<Rightarrow> [])
        @ (if co_ws io \<and> \<not> relay_overloaded (rh_state h) then served_texts events else []))"

lemma on_state_simps [simp]:
  "rh_state (on_state f h) = f (rh_state h)" "rp_gpg_home (rh_run (on_state f h)) = rp_gpg_home (rh_run h)"
  "rp_db (rh_run (on_state f h)) = rp_db (rh_run h)" "rp_tls (rh_run (on_state f h)) = rp_tls (rh_run h)"
  "rh_fs (on_state f h) = rh_fs h" "rh_dbs (on_state f h) = rh_dbs h"
  "on_state f (on_state g h) = on_state (f \<circ> g) h" "on_state (\<lambda>x. x) h = h" "on_state (\<lambda>_. rh_state h) h = h"
  by (simp_all add: on_state_def)

lemma text_step: "server_step H R pretty (SvStep (RText c t)) h = on_state (\<lambda>_. snd (handle_ws_text R c t (rh_state h))) h"
  by (simp add: on_state_def)

lemma ws_loop_steps: "on_state (\<lambda>_. snd (ws_loop R es (rh_state h))) h = fold (server_step H R pretty) (served_texts es) h"
proof (induction es arbitrary: h rule: served_texts.induct)
  case (2 c t es)
  from 2 [of "on_state (\<lambda>_. snd (handle_ws_text R c t (rh_state h))) h"] show ?case
    by (simp add: case_prod_beta Let_def comp_def text_step del: server_step.simps)
qed (simp_all add: case_prod_beta Let_def)

lemma tls_peer_mail [simp]:
  "rs_mail (rh_state (tls_peer H L pretty io cert h)) = rs_mail (rh_state h)"
  "rp_db (rh_run (tls_peer H L pretty io cert h)) = rp_db (rh_run h)"
  "rh_dbs (tls_peer H L pretty io cert h) = rh_dbs h"
  by (simp_all add: tls_peer_def Let_def pin_peer_certificate_def)

lemma admit_mail [simp]: "rs_mail (snd (admit_connection now ip S)) = rs_mail S"
  by (simp add: admit_connection_def Let_def case_prod_beta)

lemma serve_ws_steps:
  "snd (serve_ws R io events h) =
     fold (server_step H R pretty) (if co_ws io \<and> \<not> relay_overloaded (rh_state h) then served_texts events else []) h"
  by (simp add: serve_ws_def handle_ws_connection_def case_prod_beta Let_def ws_loop_steps [symmetric])

text \<open>
  A connection is a history of steps: whatever a client sends, in whatever order, and however the connection ends, the
  relay and its disk change exactly as by admitting the address, pinning the certificate of a TLS peer and handling
  the texts up to the end of the connection one after the other; a connection that is refused, by the rate limit, by TLS or because
  the relay is overloaded, changes nothing else.
\<close>

theorem connection_refines_steps:
  "snd (handle_connection_relay H R pretty io events h) = fold (server_step H R pretty) (connection_events io events h) h"
proof -
  let ?h = "on_state (\<lambda>_. snd (admit_connection (co_now io) (co_ip io) (rh_state h))) h"
  have admitted: "server_step H R pretty (SvStep (RConnect (co_now io) (co_ip io))) h = ?h"
    by (simp add: on_state_def)
  have "snd (handle_connection_relay H R pretty io events h) = fold (server_step H R pretty) (tl (connection_events io events h)) ?h"
    by (simp add: handle_connection_relay_def connection_events_def case_prod_beta Let_def serve_ws_steps [where H = H and pretty = pretty]
        relay_overloaded_def split: option.split)
  then show ?thesis by (simp add: connection_events_def admitted del: server_step.simps)
qed

section \<open>Mail survives restarts\<close>

text \<open>The undelivered mail of a recipient in a database.\<close>

definition mail_on_disk :: "string \<Rightarrow> string \<Rightarrow> relay_host \<Rightarrow> MailRow list" where
  "mail_on_disk db nid h = filter (\<lambda>r. row_recipient_nid r = nid \<and> \<not> row_delivered r) (saved_dbs h db)"

lemma mail_on_disk_eq:
  "mail_on_disk db nid h = (if db = rp_db (rh_run h) then pending nid (rs_mail (rh_state h))
     else filter (\<lambda>r. row_recipient_nid r = nid \<and> \<not> row_delivered r) (rh_dbs h db))"
  by (simp add: mail_on_disk_def saved_dbs_def pending_def split: option.split)

lemma relay_main_db:
  "relay_main L io args fs dbs = Inr p \<Longrightarrow> ms_db (rs_mail (rp_state p)) = Some (dbs (rp_db p))"
  by (auto simp: relay_main_def relay_state_new_def relay_new_def bind_result_Inr on_fed_def Let_def split: if_splits)

lemma restart_mail: "mail_on_disk db nid (server_step H R pretty (SvRestart io args) h) = mail_on_disk db nid h"
  by (auto simp: mail_on_disk_def saved_dbs_def relay_main_db split: sum.split)

lemma peer_cert_mail: "mail_on_disk db nid (server_step H R pretty (SvPeerCert io cert) h) = mail_on_disk db nid h"
  by (simp add: mail_on_disk_eq)

lemma fold_drop_point:
  assumes "\<not> prefix (f h) (f (fold step es h))"
  shows "\<exists>es1 e es2. es = es1 @ e # es2 \<and> \<not> prefix (f (fold step es1 h)) (f (step e (fold step es1 h)))"
  using assms
proof (induction es arbitrary: h)
  case (Cons e es)
  show ?case
  proof (cases "prefix (f h) (f (step e h))")
    case True
    with Cons.prems have "\<not> prefix (f (step e h)) (f (fold step es (step e h)))" using prefix_order.trans by auto
    from Cons.IH [OF this] obtain es1 e' es2 where "es = es1 @ e' # es2"
      "\<not> prefix (f (fold step es1 (step e h))) (f (step e' (fold step es1 (step e h))))" by blast
    then show ?thesis by (intro exI [of _ "e # es1"]) auto
  next
    case False
    then show ?thesis by (intro exI [of _ "[]"]) auto
  qed
qed simp

lemma step_mail:
  assumes "\<not> prefix (pending nid (rs_mail S)) (pending nid (rs_mail (relay_step R e S)))"
  obtains c t where "e = RText c t"
proof (cases e)
  case (RCleanup db_ok now)
  have "pending nid (cleanup_expired db_ok now M) = pending nid M" for M
    by (auto simp: pending_def cleanup_expired_def update_rows_def Let_def intro!: filter_cong split: option.split)
  with assms RCleanup show ?thesis by simp
qed (use assms that in \<open>simp_all add: on_fed_def pin_peer_certificate_def cleanup_limiters_def split: if_splits\<close>)

lemma text_mail:
  assumes "\<not> prefix (pending nid (rs_mail S)) (pending nid (rs_mail (relay_step R (RText c t) S)))"
  obtains env where "Option.bind (json_parse (rb_crypto R) t) parse_relay_envelope = Some env"
    and "field_str (re_payload env) ''recipient_nid'' = nid"
    and "re_msg_type env = ''relay-ack'' \<and> owner_signed R c (re_payload env) (ack_data R (re_payload env)) nid (relay_step R (RText c t) S)
       \<or> re_msg_type env = ''relay-purge'' \<and> owner_signed R c (re_payload env) (purge_data R (re_payload env)) nid (relay_step R (RText c t) S)"
proof -
  obtain env where env: "Option.bind (json_parse (rb_crypto R) t) parse_relay_envelope = Some env"
      "\<not> of_int STORE_TIMESTAMP_TOLERANCE_SECS < \<bar>rc_now c - re_ts env\<bar>"
    using assms by (auto simp: handle_ws_text_def split: option.splits if_splits)
  obtain r S' where m: "handle_message R c env S = (r, S')" by (cases "handle_message R c env S")
  then have S': "relay_step R (RText c t) S = S'" using env by (cases r) (simp_all add: handle_ws_text_def)
  with removal_by_owner [OF m, of nid] assms env(1) that show ?thesis by blast
qed

section \<open>What a restart forgets\<close>

text \<open>
  The guards of the relay are in memory only: after a restart no certificate is pinned and every nonce is new, so a request that was
  accepted before is not recognised as a replay while its timestamp is fresh, and another certificate can be pinned for a fingerprint.
\<close>

theorem restart_forgets_guards:
  assumes "relay_main (rb_crypto R) io args (rh_fs h) (saved_dbs h) = Inr p"
  shows "let S = rh_state (server_step H R pretty (SvRestart io args) h)
    in map_of (rs_certs S) fp = None \<and> fst (check_and_record_nonce_str now fp nonce (rs_nonces S))
      \<and> ms_mailboxes (rs_mail S) = [] \<and> rs_conn_limiters S = [] \<and> fed_peers (rs_fed S) = []"
  using assms
  by (auto simp: relay_main_def relay_state_new_def relay_new_def bind_result_Inr on_fed_def federation_new_def nonce_fresh nonces_of_def Let_def
      split: if_splits)

text \<open>serde prints an array of strings and reads the same one back.\<close>

definition array_laws :: "crypto_lib \<Rightarrow> (json \<Rightarrow> string) \<Rightarrow> bool" where
  "array_laws L pretty \<longleftrightarrow> (\<forall>xs. json_parse L (pretty (JArr (map JStr xs))) = Some (JArr (map JStr xs)))"

lemma known_peers_roundtrip:
  assumes "array_laws L pretty"
  shows "set (load_known_peers_sync L True gpg_home (snd (save_known_peers pretty io_fine gpg_home peers fs))) = set peers"
  using assms by (simp add: array_laws_def load_known_peers_sync_def save_known_peers_def io_fine_def as_strings_def)

definition peers_saved :: "crypto_lib \<Rightarrow> string \<Rightarrow> relay_host \<Rightarrow> bool" where
  "peers_saved L gpg_home h \<longleftrightarrow> rp_gpg_home (rh_run h) = gpg_home
     \<and> set (load_known_peers_sync L True gpg_home (rh_fs h)) = set (rs_known_peers (rh_state h))"

lemma tls_peer_saved:
  assumes "array_laws L pretty" and "peers_saved L gpg_home h"
  shows "peers_saved L gpg_home (tls_peer H L pretty io_fine cert h)"
proof (cases "hex_encode L (H cert) \<in> set (rs_known_peers (rh_state h))")
  case True
  with assms(2) show ?thesis by (simp add: tls_peer_def)
next
  case False
  with assms(2) known_peers_roundtrip [OF assms(1)] show ?thesis by (simp add: tls_peer_def peers_saved_def Let_def)
qed

lemma relay_main_peers:
  assumes "relay_main L io args fs dbs = Inr p"
  shows "rs_known_peers (rp_state p) = load_known_peers_sync L (so_read io (known_peers_path (rp_gpg_home p))) (rp_gpg_home p) fs"
  using assms by (auto simp: relay_main_def relay_state_new_def relay_new_def bind_result_Inr on_fed_def Let_def split: if_splits)

text \<open>
  The known peers survive restarts: the certificates that a relay pinned from its TLS peers are known after a restart with the same directory,
  and no others.
\<close>

theorem known_peers_survive:
  assumes "array_laws (rb_crypto R) pretty" and "relay_main (rb_crypto R) io args fs dbs = Inr p" and "so_read io (known_peers_path (rp_gpg_home p))"
    and "h = fold (\<lambda>cert. server_step H R pretty (SvPeerCert io_fine cert)) certs \<lparr>rh_run = p, rh_fs = fs, rh_dbs = dbs\<rparr>"
    and "relay_main (rb_crypto R) io' args' (rh_fs h) (saved_dbs h) = Inr p'" and "rp_gpg_home p' = rp_gpg_home p"
    and "so_read io' (known_peers_path (rp_gpg_home p))"
  shows "set (rs_known_peers (rh_state (server_step H R pretty (SvRestart io' args') h))) = set (rs_known_peers (rh_state h))"
proof -
  have "peers_saved (rb_crypto R) (rp_gpg_home p) \<lparr>rh_run = p, rh_fs = fs, rh_dbs = dbs\<rparr>"
    using assms(3) relay_main_peers [OF assms(2)] by (simp add: peers_saved_def)
  then have "peers_saved (rb_crypto R) (rp_gpg_home p) h"
    unfolding assms(4) by (rule fold_invariant [where Q = "\<lambda>_. True", rotated]) (simp_all add: tls_peer_saved [OF assms(1)])
  with assms(5-7) relay_main_peers [OF assms(5)] show ?thesis by (simp add: peers_saved_def)
qed

section \<open>Witnesses\<close>

text \<open>A relay with one stored message, whose owner acknowledges it.\<close>

definition ack_text :: string where "ack_text = ''ack''"

definition toy_server_lib :: "string relay_lib" where
  "toy_server_lib = toy_relay\<lparr>rb_crypto := toy_crypto\<lparr>json_parse := (\<lambda>t. if t = ack_text then Some (relay_envelope_json toy_ack) else None)\<rparr>\<rparr>"

definition toy_host :: relay_host where
  "toy_host = \<lparr>rh_run = \<lparr>rp_state = toy_state, rp_gpg_home = ''g'', rp_db = ''d'', rp_tls = False\<rparr>, rh_fs = Map.empty, rh_dbs = (\<lambda>_. [])\<rparr>"

lemma toy_ack_parsed: "parse_relay_envelope (relay_envelope_json toy_ack) = Some toy_ack"
  by (simp add: parse_relay_envelope_def relay_envelope_json_def json_struct_def required_def toy_ack_def)

lemma toy_ack_same: "handle_message toy_server_lib toy_call toy_ack S = handle_message toy_relay toy_call toy_ack S"
  by (simp add: handle_message_def toy_ack_def handle_relay_ack_def toy_server_lib_def toy_relay_def relay_verify_def ack_data_def)

lemma toy_ack_removes: "mail_on_disk ''d'' toy_nid (server_step H toy_server_lib pretty (SvStep (RText toy_call ack_text)) toy_host) = []"
proof -
  obtain S' where S': "handle_message toy_relay toy_call toy_ack toy_state = (Inr (send_ok None), S')" using toy_ack_run by blast
  have "re_msg_type toy_ack = ''relay-ack''" by (simp add: toy_ack_def)
  with S' have "handle_relay_ack toy_relay toy_call (re_payload toy_ack) toy_state = (Inr (send_ok None), S')"
    by (simp add: handle_message_ack)
  from ack_accepted [OF this] have "rs_mail S' = ack_message True toy_nid 1 (rs_mail toy_state)"
    by (simp add: toy_ack_def toy_call_def field_str_def field_i64_def json_get_def)
  then have "pending toy_nid (rs_mail S') = []"
    by (simp add: toy_state_def relay_new_def pending_def ack_message_def update_rows_def update_mailbox_def)
  moreover have "json_parse (rb_crypto toy_server_lib) ack_text = Some (relay_envelope_json toy_ack)" by (simp add: toy_server_lib_def)
  moreover have "\<not> of_int STORE_TIMESTAMP_TOLERANCE_SECS < \<bar>rc_now toy_call - re_ts toy_ack\<bar>"
    by (simp add: toy_call_def toy_ack_def STORE_TIMESTAMP_TOLERANCE_SECS_def)
  ultimately have "relay_step toy_server_lib (RText toy_call ack_text) toy_state = S'" "pending toy_nid (rs_mail S') = []"
    using S' toy_ack_parsed by (simp_all add: handle_ws_text_def toy_ack_same)
  then show ?thesis by (simp add: mail_on_disk_eq toy_host_def del: relay_step.simps)
qed

end
