(* ===== verification/P2pHandshake.thy ===== *)
theory P2pHandshake
  imports Pow
begin

text \<open>
  The peer-to-peer handshake (\<open>p2p/src/handshake.rs\<close>) and its messages (\<open>p2p/src/protocol.rs\<close>,
  \<open>p2p/src/lib.rs\<close>): the initiator sends a hello with a proof of work, the responder checks it and answers
  with a proof of work over a fresh challenge. What \<open>send_envelope\<close> and \<open>recv_envelope\<close> return, random
  numbers, message identifiers and the clock are arguments.
\<close>

datatype P2pError =
    P2pConnection string
  | P2pInvalidAddress string
  | P2pSerialization string
  | P2pHandshakeFailed string
  | P2pPeer string
  | P2pNat string
  | P2pTimeout
  | P2pIo string

section \<open>Messages\<close>

definition MSG_P2P_MESSAGE :: string where "MSG_P2P_MESSAGE = ''p2p-message''"
definition MSG_P2P_ACK :: string where "MSG_P2P_ACK = ''p2p-ack''"
definition MSG_P2P_PING :: string where "MSG_P2P_PING = ''p2p-ping''"
definition MSG_P2P_PONG :: string where "MSG_P2P_PONG = ''p2p-pong''"
definition MSG_P2P_RECEIPT :: string where "MSG_P2P_RECEIPT = ''p2p-receipt''"

definition p2p_envelope :: "string \<Rightarrow> json \<Rightarrow> string \<Rightarrow> f64 \<Rightarrow> WireEnvelope" where
  "p2p_envelope mt pl mid now = \<lparr>msg_type = mt, payload = pl, msg_id = mid, ts = now, sig = []\<rparr>"

definition build_p2p_hello :: "string \<Rightarrow> u64 \<Rightarrow> u32 \<Rightarrow> string \<Rightarrow> string \<Rightarrow> string \<Rightarrow> f64 \<Rightarrow> WireEnvelope" where
  "build_p2p_hello public_key_b64 nonce pow_bits kyber_enc_key_b64 sealed_identity mid now =
     p2p_envelope MSG_P2P_HELLO
       (JObj [(''public_key'', JStr public_key_b64), (''nonce'', JInt (uint nonce)), (''pow_bits'', JInt (uint pow_bits)),
              (''kyber_enc_key'', JStr kyber_enc_key_b64), (''sealed_identity'', JStr sealed_identity)]) mid now"

definition build_p2p_hello_signed :: "string \<Rightarrow> u64 \<Rightarrow> u32 \<Rightarrow> string \<Rightarrow> string \<Rightarrow> string \<Rightarrow> string \<Rightarrow> f64 \<Rightarrow> WireEnvelope" where
  "build_p2p_hello_signed public_key_b64 nonce pow_bits kyber_enc_key_b64 sealed_identity signature mid now =
     (build_p2p_hello public_key_b64 nonce pow_bits kyber_enc_key_b64 sealed_identity mid now)\<lparr>sig := signature\<rparr>"

definition build_p2p_hello_ack :: "string \<Rightarrow> u64 \<Rightarrow> u32 \<Rightarrow> string \<Rightarrow> string \<Rightarrow> string \<Rightarrow> f64 \<Rightarrow> WireEnvelope" where
  "build_p2p_hello_ack public_key_b64 nonce pow_bits server_challenge kyber_enc_key_b64 mid now =
     p2p_envelope MSG_P2P_HELLO_ACK
       (JObj [(''public_key'', JStr public_key_b64), (''nonce'', JInt (uint nonce)), (''pow_bits'', JInt (uint pow_bits)),
              (''server_challenge'', JStr server_challenge), (''kyber_enc_key'', JStr kyber_enc_key_b64)]) mid now"

definition build_p2p_hello_ack_signed :: "string \<Rightarrow> u64 \<Rightarrow> u32 \<Rightarrow> string \<Rightarrow> string \<Rightarrow> string \<Rightarrow> string \<Rightarrow> f64 \<Rightarrow> WireEnvelope" where
  "build_p2p_hello_ack_signed public_key_b64 nonce pow_bits server_challenge kyber_enc_key_b64 signature mid now =
     (build_p2p_hello_ack public_key_b64 nonce pow_bits server_challenge kyber_enc_key_b64 mid now)\<lparr>sig := signature\<rparr>"

definition build_p2p_message :: "int \<Rightarrow> string \<Rightarrow> string \<Rightarrow> string \<Rightarrow> f64 \<Rightarrow> WireEnvelope" where
  "build_p2p_message seq ciphertext_b64 msg_hash mid now =
     p2p_envelope MSG_P2P_MESSAGE
       (JObj [(''seq'', JInt seq), (''ciphertext'', JStr ciphertext_b64), (''msg_hash'', JStr msg_hash)]) mid now"

definition build_p2p_message_signed :: "int \<Rightarrow> string \<Rightarrow> string \<Rightarrow> string \<Rightarrow> string \<Rightarrow> f64 \<Rightarrow> WireEnvelope" where
  "build_p2p_message_signed seq ciphertext_b64 msg_hash signature mid now =
     (build_p2p_message seq ciphertext_b64 msg_hash mid now)\<lparr>sig := signature\<rparr>"

definition build_p2p_ack :: "int \<Rightarrow> string \<Rightarrow> string \<Rightarrow> f64 \<Rightarrow> WireEnvelope" where
  "build_p2p_ack seq msg_hash mid now =
     p2p_envelope MSG_P2P_ACK (JObj [(''seq'', JInt seq), (''msg_hash'', JStr msg_hash)]) mid now"

definition build_p2p_ack_signed :: "int \<Rightarrow> string \<Rightarrow> string \<Rightarrow> string \<Rightarrow> f64 \<Rightarrow> WireEnvelope" where
  "build_p2p_ack_signed seq msg_hash signature mid now = (build_p2p_ack seq msg_hash mid now)\<lparr>sig := signature\<rparr>"

definition build_p2p_ping :: "string \<Rightarrow> f64 \<Rightarrow> WireEnvelope" where
  "build_p2p_ping mid now = p2p_envelope MSG_P2P_PING (JObj []) mid now"

definition build_p2p_receipt :: "string \<Rightarrow> f64 \<Rightarrow> int \<Rightarrow> string \<Rightarrow> string \<Rightarrow> f64 \<Rightarrow> WireEnvelope" where
  "build_p2p_receipt msg_hash received_at seq signature mid now =
     (p2p_envelope MSG_P2P_RECEIPT
        (JObj [(''msg_hash'', JStr msg_hash), (''received_at'', JFloat received_at), (''seq'', JInt seq)]) mid now)\<lparr>sig := signature\<rparr>"

definition build_p2p_pong :: "string \<Rightarrow> f64 \<Rightarrow> WireEnvelope" where
  "build_p2p_pong mid now = p2p_envelope MSG_P2P_PONG (JObj []) mid now"

section \<open>Proof of work of a hello\<close>

definition HELLO_POW_BITS :: u32 where "HELLO_POW_BITS = 16"

definition hello_pow_ok :: "'p argon2 \<Rightarrow> string \<Rightarrow> string \<Rightarrow> u32 \<Rightarrow> u64 \<Rightarrow> bool" where
  "hello_pow_ok A public_key_b64 challenge difficulty nonce =
     unwrap_or False (pow_check A (public_key_b64 @ show_nat (unat nonce) @ challenge) nonce (unat difficulty) [])"

text \<open>Both searches try a million nonces upwards, wrapping around, and fall back to the first one.\<close>

fun hello_search :: "(u64 \<Rightarrow> bool) \<Rightarrow> u64 \<Rightarrow> nat \<Rightarrow> u64 \<Rightarrow> u64" where
  "hello_search ok nonce 0 base_nonce = base_nonce"
| "hello_search ok nonce (Suc k) base_nonce =
     (if ok nonce then nonce else hello_search ok (nonce + 1) k base_nonce)"

definition solve_hello_pow :: "'p argon2 \<Rightarrow> string \<Rightarrow> u64 \<Rightarrow> u32 \<Rightarrow> u64" where
  "solve_hello_pow A public_key_b64 base_nonce difficulty =
     hello_search (hello_pow_ok A public_key_b64 [] difficulty) base_nonce 1000000 base_nonce"

definition solve_hello_pow_challenged :: "'p argon2 \<Rightarrow> string \<Rightarrow> u64 \<Rightarrow> u32 \<Rightarrow> string \<Rightarrow> u64" where
  "solve_hello_pow_challenged A public_key_b64 base_nonce difficulty challenge =
     hello_search (hello_pow_ok A public_key_b64 challenge difficulty) base_nonce 1000000 base_nonce"

definition verify_hello_pow :: "'p argon2 \<Rightarrow> string \<Rightarrow> u64 \<Rightarrow> u32 \<Rightarrow> bool" where
  "verify_hello_pow A public_key_b64 nonce difficulty = hello_pow_ok A public_key_b64 [] difficulty nonce"

section \<open>The two roles\<close>

text \<open>The fields of a received message; \<open>pow_bits\<close> is cut to 32 bits.\<close>

definition peer_key :: "WireEnvelope \<Rightarrow> string" where
  "peer_key env = opt_or [] (payload_str env ''public_key'')"

definition peer_nonce :: "WireEnvelope \<Rightarrow> u64" where
  "peer_nonce env = opt_or 0 (Option.bind (payload_field env ''nonce'') as_u64)"

definition peer_pow_bits :: "WireEnvelope \<Rightarrow> u32" where
  "peer_pow_bits env = ucast (opt_or 0 (Option.bind (payload_field env ''pow_bits'') as_u64))"

definition pow_fields_ok :: "WireEnvelope \<Rightarrow> bool" where
  "pow_fields_ok env \<longleftrightarrow> \<not> (1000000000 < peer_nonce env \<or> peer_pow_bits env = 0 \<or> 32 < peer_pow_bits env)"

definition check_hello :: "'p argon2 \<Rightarrow> WireEnvelope \<Rightarrow> P2pError + unit" where
  "check_hello A hello =
     (if msg_type hello \<noteq> MSG_P2P_HELLO then Inl (P2pHandshakeFailed (''expected p2p-hello, got '' @ msg_type hello))
      else if \<not> pow_fields_ok hello then Inl (P2pHandshakeFailed ''invalid PoW parameters: nonce out of range or invalid difficulty'')
      else if \<not> hello_pow_ok A (peer_key hello) [] (peer_pow_bits hello) (peer_nonce hello)
        then Inl (P2pHandshakeFailed ''peer PoW verification failed'')
      else Inr ())"

definition check_hello_ack :: "'p argon2 \<Rightarrow> WireEnvelope \<Rightarrow> P2pError + unit" where
  "check_hello_ack A ack =
     (if msg_type ack \<noteq> MSG_P2P_HELLO_ACK then Inl (P2pHandshakeFailed (''expected p2p-hello-ack, got '' @ msg_type ack))
      else if \<not> pow_fields_ok ack then Inl (P2pHandshakeFailed ''invalid PoW parameters: nonce out of range or invalid difficulty'')
      else if peer_pow_bits ack \<noteq> HELLO_POW_BITS then Inl (P2pHandshakeFailed ''peer PoW difficulty mismatch'')
      else if \<not> hello_pow_ok A (peer_key ack) (opt_or [] (payload_str ack ''server_challenge'')) (peer_pow_bits ack) (peer_nonce ack)
        then Inl (P2pHandshakeFailed ''peer PoW verification failed'')
      else Inr ())"

text \<open>What the initiator sends, and how it finishes with what it receives.\<close>

definition initiator_hello :: "'p argon2 \<Rightarrow> u64 \<Rightarrow> string \<Rightarrow> string \<Rightarrow> string \<Rightarrow> f64 \<Rightarrow> WireEnvelope" where
  "initiator_hello A base_nonce public_key_b64 kyber_enc_key_b64 mid now =
     build_p2p_hello public_key_b64 (solve_hello_pow A public_key_b64 base_nonce HELLO_POW_BITS) HELLO_POW_BITS
       kyber_enc_key_b64 [] mid now"

definition handshake_initiator ::
  "'p argon2 \<Rightarrow> (WireEnvelope \<Rightarrow> P2pError + unit) \<Rightarrow> P2pError + WireEnvelope \<Rightarrow> u64 \<Rightarrow> string \<Rightarrow> string \<Rightarrow> string \<Rightarrow> f64
    \<Rightarrow> P2pError + WireEnvelope" where
  "handshake_initiator A send received base_nonce public_key_b64 kyber_enc_key_b64 mid now =
     bind_result (send (initiator_hello A base_nonce public_key_b64 kyber_enc_key_b64 mid now)) (\<lambda>_.
     bind_result received (\<lambda>ack.
     bind_result (check_hello_ack A ack) (\<lambda>_. Inr ack)))"

definition responder_ack :: "'p argon2 \<Rightarrow> u64 \<Rightarrow> string \<Rightarrow> string \<Rightarrow> string \<Rightarrow> string \<Rightarrow> f64 \<Rightarrow> WireEnvelope" where
  "responder_ack A base_nonce challenge public_key_b64 kyber_enc_key_b64 mid now =
     build_p2p_hello_ack public_key_b64 (solve_hello_pow_challenged A public_key_b64 base_nonce HELLO_POW_BITS challenge)
       HELLO_POW_BITS challenge kyber_enc_key_b64 mid now"

definition handshake_responder ::
  "'p argon2 \<Rightarrow> (WireEnvelope \<Rightarrow> P2pError + unit) \<Rightarrow> P2pError + WireEnvelope \<Rightarrow> u64 \<Rightarrow> string \<Rightarrow> string \<Rightarrow> string \<Rightarrow> string \<Rightarrow> f64
    \<Rightarrow> P2pError + WireEnvelope" where
  "handshake_responder A send received base_nonce challenge public_key_b64 kyber_enc_key_b64 mid now =
     bind_result received (\<lambda>hello.
     bind_result (check_hello A hello) (\<lambda>_.
     bind_result (send (responder_ack A base_nonce challenge public_key_b64 kyber_enc_key_b64 mid now)) (\<lambda>_. Inr hello)))"

section \<open>The search\<close>

lemma hello_search_finds:
  assumes "\<exists>j < k. ok (nonce + of_nat j)"
  shows "\<exists>j < k. hello_search ok nonce k base = nonce + of_nat j \<and> ok (nonce + of_nat j) \<and> (\<forall>i < j. \<not> ok (nonce + of_nat i))"
  using assms
proof (induction k arbitrary: nonce)
  case (Suc k)
  show ?case
  proof (cases "ok nonce")
    case False
    obtain j where "j < Suc k" "ok (nonce + of_nat j)" using Suc.prems by blast
    with False obtain j' where "j' < k" "ok (nonce + 1 + of_nat j')"
      by (cases j) (auto simp: algebra_simps)
    then obtain i where i: "i < k" "hello_search ok (nonce + 1) k base = nonce + 1 + of_nat i" "ok (nonce + 1 + of_nat i)"
        "\<forall>l < i. \<not> ok (nonce + 1 + of_nat l)"
      using Suc.IH by blast
    have "\<not> ok (nonce + of_nat l)" if "l < Suc i" for l
      using False i(4) that by (cases l) (auto simp: algebra_simps)
    with i False show ?thesis by (intro exI [of _ "Suc i"]) (simp add: algebra_simps)
  qed auto
qed simp

lemma hello_search_base: "\<not> (\<exists>j < k. ok (nonce + of_nat j)) \<Longrightarrow> hello_search ok nonce k base = base"
proof (induction k arbitrary: nonce)
  case (Suc k)
  then have "\<not> ok nonce" by force
  moreover have "\<not> (\<exists>j < k. ok (nonce + 1 + of_nat j))"
    using Suc.prems by (auto simp: algebra_simps dest: spec [of _ "Suc _"])
  ultimately show ?case using Suc.IH by simp
qed simp

lemma hello_search_range: "\<exists>j \<le> k. hello_search ok base k base = base + of_nat j"
  using hello_search_finds [of k ok base base] hello_search_base [of k ok base base]
  by (cases "\<exists>j < k. ok (base + of_nat j)") (auto intro: less_imp_le)

section \<open>Fields of the messages\<close>

lemma as_u64_uint32 [simp]: "as_u64 (JInt (uint (w :: u32))) = Some (ucast w)"
proof -
  have "uint w < 2 ^ 64" using unsigned_less [of w, where ?'a = int] by simp
  then show ?thesis by (simp add: unsigned_ucast_eq word_eq_iff_unsigned)
qed

lemma ucast_u32_u64 [simp]: "ucast (ucast (w :: u32) :: u64) = w"
  by (rule bit_word_eqI) (simp add: bit_ucast_iff)

lemma hello_fields [simp]:
  "peer_key (build_p2p_hello pk n b ky si mid now) = pk"
  "peer_nonce (build_p2p_hello pk n b ky si mid now) = n"
  "peer_pow_bits (build_p2p_hello pk n b ky si mid now) = b"
  by (simp_all add: build_p2p_hello_def p2p_envelope_def peer_key_def peer_nonce_def peer_pow_bits_def payload_str_def
      payload_field_def del: as_u64.simps)

lemma hello_ack_fields [simp]:
  "peer_key (build_p2p_hello_ack pk n b ch ky mid now) = pk"
  "peer_nonce (build_p2p_hello_ack pk n b ch ky mid now) = n"
  "peer_pow_bits (build_p2p_hello_ack pk n b ch ky mid now) = b"
  "payload_str (build_p2p_hello_ack pk n b ch ky mid now) ''server_challenge'' = Some ch"
  by (simp_all add: build_p2p_hello_ack_def p2p_envelope_def peer_key_def peer_nonce_def peer_pow_bits_def payload_str_def
      payload_field_def del: as_u64.simps)

lemma hello_types [simp]:
  "msg_type (build_p2p_hello pk n b ky si mid now) = MSG_P2P_HELLO"
  "msg_type (build_p2p_hello_ack pk n b ch ky mid now) = MSG_P2P_HELLO_ACK"
  by (simp_all add: build_p2p_hello_def build_p2p_hello_ack_def p2p_envelope_def)

section \<open>Properties\<close>

lemma unat_add_small:
  assumes "unat (base :: u64) + 1000000 < 2 ^ 64" and "j \<le> 1000000"
  shows "unat (base + of_nat j) = unat base + j"
proof -
  have "unat (of_nat j :: u64) = j" using assms(2) by (simp add: unat_of_nat)
  then show ?thesis using assms by (simp add: unat_word_ariths)
qed

lemma search_valid:
  assumes "\<exists>j < 1000000. ok (base + of_nat j)" and "unat (base :: u64) + 1000000 \<le> 1000000000"
  shows "ok (hello_search ok base 1000000 base) \<and> hello_search ok base 1000000 base \<le> 1000000000"
proof -
  obtain j where j: "j < 1000000" "hello_search ok base 1000000 base = base + of_nat j" "ok (base + of_nat j)"
    using hello_search_finds [OF assms(1), of base] by blast
  have "unat (base + of_nat j) \<le> 1000000000" using unat_add_small [of base j] assms(2) j(1) by simp
  with j show ?thesis by (simp add: word_le_nat_alt)
qed


text \<open>
  But the searches start at a random 64-bit number, and for all of them outside the first thousand million (up to the last
  million before the wrap-around) the honest hello is refused as out of range, whatever the proof of work is worth.
\<close>

theorem honest_hello_refused:
  assumes "1000000000 < base" and "unat base + 1000000 < 2 ^ 64"
  shows "handshake_responder A send (Inr (initiator_hello A base pk ky mid now)) b2 ch pk2 ky2 mid2 now2 =
    Inl (P2pHandshakeFailed ''invalid PoW parameters: nonce out of range or invalid difficulty'')"
proof -
  obtain j where j: "j \<le> 1000000" "solve_hello_pow A pk base HELLO_POW_BITS = base + of_nat j"
    using hello_search_range [of 1000000 "hello_pow_ok A pk [] HELLO_POW_BITS" base] by (auto simp: solve_hello_pow_def)
  have "1000000000 < unat (base + of_nat j)"
    using unat_add_small [OF assms(2) j(1)] assms(1) by (simp add: word_less_nat_alt)
  then have "1000000000 < base + of_nat j" by (simp add: word_less_nat_alt)
  then show ?thesis
    by (simp add: handshake_responder_def check_hello_def initiator_hello_def j pow_fields_ok_def)
qed

text \<open>
  What the responder accepts: exactly the hellos with a nonce up to a thousand million and a valid proof of work for the difficulty
  they announce themselves, from 8 to 32 bits; the 16 bits that the initiator demands of the answer are not demanded of the hello.
\<close>

theorem check_hello_exact:
  "check_hello A hello = Inr () \<longleftrightarrow>
     msg_type hello = MSG_P2P_HELLO \<and> peer_nonce hello \<le> 1000000000 \<and> 8 \<le> peer_pow_bits hello \<and> peer_pow_bits hello \<le> 32
     \<and> pow_check A (peer_key hello @ show_nat (unat (peer_nonce hello))) (peer_nonce hello) (unat (peer_pow_bits hello)) [] = Inr True"
proof -
  have "8 \<le> b" if "pow_check A d n (unat b) [] = Inr True" for b :: u32 and d n
    using that by (simp add: pow_check_def MIN_POW_DIFFICULTY_def word_le_nat_alt split: if_splits)
  moreover have "b \<noteq> 0" if "8 \<le> b" for b :: u32
    using that by (auto simp: word_le_nat_alt)
  ultimately show ?thesis
    by (auto simp: check_hello_def pow_fields_ok_def hello_pow_ok_def not_less)
qed

definition easy_argon2 :: "unit argon2" where
  "easy_argon2 = \<lparr>params_new = (\<lambda>_ _ _ _. Inr ()), hash_password_into = (\<lambda>_ _ _. Inr (replicate 32 0))\<rparr>"

lemma leading_zero_bits_zeros [simp]: "leading_zero_bits (replicate n 0) = 8 * n"
  by (induction n) simp_all

lemma easy_pow: "hello_pow_ok easy_argon2 pk ch HELLO_POW_BITS n"
proof -
  have "leading_zero_bits (replicate 32 0) = 256" by simp
  then show ?thesis
    by (simp add: hello_pow_ok_def pow_check_def pow_attempt_def pow_params_def easy_argon2_def HELLO_POW_BITS_def
        MIN_POW_DIFFICULTY_def)
qed


theorem honest_hello_refused_witness:
  "handshake_responder easy_argon2 (\<lambda>_. Inr ()) (Inr (initiator_hello easy_argon2 1000000001 ''A'' ''k'' ''i'' 1)) 9 ''c'' ''B'' ''l'' ''j'' 2 =
    Inl (P2pHandshakeFailed ''invalid PoW parameters: nonce out of range or invalid difficulty'')"
  by (rule honest_hello_refused) simp_all

end
