(* ===== verification/PeerTable.thy ===== *)
theory PeerTable
  imports P2pHandshake
begin

text \<open>
  The peer manager (\<open>p2p/src/peer.rs\<close>): the table of peers with their connection state, and the queue of
  messages that wait for each. Instants are rational seconds; every operation takes the locks for its whole
  duration and is one step.
\<close>

definition MAX_IDLE_SECONDS :: f64 where "MAX_IDLE_SECONDS = 300"
definition MAX_PENDING_MESSAGES :: nat where "MAX_PENDING_MESSAGES = 100"

datatype PeerState = Connecting | Connected | Disconnected

record peer_info =
  p_id :: string
  p_state :: PeerState
  p_connected_at :: f64
  p_last_activity :: f64
  p_sent :: u64
  p_received :: u64
  p_public_key :: "string option"

definition peer_info_new :: "f64 \<Rightarrow> string \<Rightarrow> peer_info" where
  "peer_info_new now peer_id =
     \<lparr>p_id = peer_id, p_state = Connecting, p_connected_at = now, p_last_activity = now, p_sent = 0, p_received = 0,
      p_public_key = None\<rparr>"

definition is_idle :: "f64 \<Rightarrow> peer_info \<Rightarrow> bool" where
  "is_idle now p \<longleftrightarrow> MAX_IDLE_SECONDS < now - p_last_activity p"

definition mark_sent :: "f64 \<Rightarrow> peer_info \<Rightarrow> peer_info" where
  "mark_sent now p = p\<lparr>p_last_activity := now, p_sent := p_sent p + 1\<rparr>"

definition mark_received :: "f64 \<Rightarrow> peer_info \<Rightarrow> peer_info" where
  "mark_received now p = p\<lparr>p_last_activity := now, p_received := p_received p + 1\<rparr>"

record PendingMessage =
  pm_envelope :: WireEnvelope
  pm_queued_at :: f64
  pm_retry_count :: u32

record PeerManager =
  mg_peers :: "(string \<times> peer_info) list"
  mg_pending :: "(string \<times> PendingMessage list) list"
  mg_max_peers :: nat

definition manager_new :: "nat \<Rightarrow> PeerManager" where
  "manager_new max_peers = \<lparr>mg_peers = [], mg_pending = [], mg_max_peers = max_peers\<rparr>"

definition manager_add_peer :: "f64 \<Rightarrow> string \<Rightarrow> PeerManager \<Rightarrow> (P2pError + unit) \<times> PeerManager" where
  "manager_add_peer now peer_id G =
     (if mg_max_peers G \<le> length (mg_peers G) then (Inl (P2pPeer ''max peers reached''), G)
      else (Inr (), G\<lparr>mg_peers := AList.update peer_id (peer_info_new now peer_id) (mg_peers G)\<rparr>))"

definition remove_peer :: "string \<Rightarrow> PeerManager \<Rightarrow> PeerManager" where
  "remove_peer peer_id G =
     G\<lparr>mg_peers := AList.delete peer_id (mg_peers G), mg_pending := AList.delete peer_id (mg_pending G)\<rparr>"

definition change_peer :: "string \<Rightarrow> (peer_info \<Rightarrow> peer_info) \<Rightarrow> PeerManager \<Rightarrow> PeerManager" where
  "change_peer peer_id f G =
     (case map_of (mg_peers G) peer_id of
        None \<Rightarrow> G | Some p \<Rightarrow> G\<lparr>mg_peers := AList.update peer_id (f p) (mg_peers G)\<rparr>)"

definition set_state :: "f64 \<Rightarrow> string \<Rightarrow> PeerState \<Rightarrow> PeerManager \<Rightarrow> PeerManager" where
  "set_state now peer_id st = change_peer peer_id (\<lambda>p. p\<lparr>p_state := st, p_last_activity := now\<rparr>)"

definition set_public_key :: "string \<Rightarrow> string \<Rightarrow> PeerManager \<Rightarrow> PeerManager" where
  "set_public_key peer_id key = change_peer peer_id (\<lambda>p. p\<lparr>p_public_key := Some key\<rparr>)"

definition get_peer :: "string \<Rightarrow> PeerManager \<Rightarrow> peer_info option" where
  "get_peer peer_id G = map_of (mg_peers G) peer_id"

definition list_peers :: "PeerManager \<Rightarrow> peer_info list" where
  "list_peers G = filter (\<lambda>p. p_state p = Connected) (map snd (mg_peers G))"

definition queue_of :: "string \<Rightarrow> PeerManager \<Rightarrow> PendingMessage list" where
  "queue_of peer_id G = opt_or [] (map_of (mg_pending G) peer_id)"

definition queue_message :: "f64 \<Rightarrow> string \<Rightarrow> WireEnvelope \<Rightarrow> PeerManager \<Rightarrow> (P2pError + unit) \<times> PeerManager" where
  "queue_message now peer_id env G =
     (let queue = queue_of peer_id G
      in if MAX_PENDING_MESSAGES \<le> length queue
         then (Inl (P2pPeer (''message queue full for peer '' @ peer_id)),
               G\<lparr>mg_pending := AList.update peer_id queue (mg_pending G)\<rparr>)
         else (Inr (), G\<lparr>mg_pending := AList.update peer_id
                (queue @ [\<lparr>pm_envelope = env, pm_queued_at = now, pm_retry_count = 0\<rparr>]) (mg_pending G)\<rparr>))"

definition drain_pending :: "string \<Rightarrow> PeerManager \<Rightarrow> PendingMessage list \<times> PeerManager" where
  "drain_pending peer_id G =
     (case map_of (mg_pending G) peer_id of
        None \<Rightarrow> ([], G)
      | Some queue \<Rightarrow> (queue, G\<lparr>mg_pending := AList.update peer_id [] (mg_pending G)\<rparr>))"

definition is_connected :: "string \<Rightarrow> PeerManager \<Rightarrow> bool" where
  "is_connected peer_id G \<longleftrightarrow> (case map_of (mg_peers G) peer_id of None \<Rightarrow> False | Some p \<Rightarrow> p_state p = Connected)"

definition connected_count :: "PeerManager \<Rightarrow> nat" where
  "connected_count G = length (filter (\<lambda>p. p_state p = Connected) (map snd (mg_peers G)))"

definition cleanup_idle :: "f64 \<Rightarrow> PeerManager \<Rightarrow> string list \<times> PeerManager" where
  "cleanup_idle now G =
     (let idle_ids = map fst (filter (\<lambda>(_, p). is_idle now p) (mg_peers G))
      in (idle_ids, G\<lparr>mg_peers := fold AList.delete idle_ids (mg_peers G),
                      mg_pending := fold AList.delete idle_ids (mg_pending G)\<rparr>))"

section \<open>Histories\<close>

datatype peer_event =
    AddPeer f64 string
  | RemovePeer string
  | SetState f64 string PeerState
  | SetKey string string
  | QueueMsg f64 string WireEnvelope
  | Drain string
  | CleanupIdle f64

fun peer_step :: "peer_event \<Rightarrow> PeerManager \<Rightarrow> PeerManager" where
  "peer_step (AddPeer now pid) G = snd (manager_add_peer now pid G)"
| "peer_step (RemovePeer pid) G = remove_peer pid G"
| "peer_step (SetState now pid st) G = set_state now pid st G"
| "peer_step (SetKey pid key) G = set_public_key pid key G"
| "peer_step (QueueMsg now pid env) G = snd (queue_message now pid env G)"
| "peer_step (Drain pid) G = snd (drain_pending pid G)"
| "peer_step (CleanupIdle now) G = snd (cleanup_idle now G)"

section \<open>Invariant\<close>

definition manager_ok :: "nat \<Rightarrow> PeerManager \<Rightarrow> bool" where
  "manager_ok n G \<longleftrightarrow> mg_max_peers G = n \<and> wf_map (mg_peers G) \<and> length (mg_peers G) \<le> n
     \<and> (\<forall>pid p. (pid, p) \<in> set (mg_peers G) \<longrightarrow> p_id p = pid)
     \<and> wf_map (mg_pending G) \<and> (\<forall>pid q. (pid, q) \<in> set (mg_pending G) \<longrightarrow> length q \<le> MAX_PENDING_MESSAGES)"

lemma length_AList_update_le: "length (AList.update k v m) \<le> length m + 1"
  by (induction m) auto

lemma length_AList_update_mem: "map_of m k \<noteq> None \<Longrightarrow> length (AList.update k v m) = length m"
  by (induction m) auto

lemma set_AList_delete: "set (AList.delete k m) \<subseteq> set m"
  by (auto simp: AList.delete_eq)

lemma fold_delete_props:
  "wf_map m \<Longrightarrow> wf_map (fold AList.delete ks m) \<and> length (fold AList.delete ks m) \<le> length m \<and> set (fold AList.delete ks m) \<subseteq> set m"
proof (induction ks arbitrary: m)
  case (Cons k ks)
  have "length (AList.delete k m) \<le> length m" by (simp add: AList.delete_eq)
  with Cons.IH [of "AList.delete k m"] Cons.prems set_AList_delete [of k m] show ?case by (auto intro: le_trans)
qed simp

lemma manager_ok_add [invs]: "manager_ok n G \<Longrightarrow> manager_ok n (snd (manager_add_peer now pid G))"
  using length_AList_update_le [of pid "peer_info_new now pid" "mg_peers G"] set_AList_update [of pid "peer_info_new now pid" "mg_peers G"]
  by (auto simp: manager_ok_def manager_add_peer_def peer_info_new_def)

lemma manager_ok_remove [invs]: "manager_ok n G \<Longrightarrow> manager_ok n (remove_peer pid G)"
  using set_AList_delete [of pid "mg_peers G"] set_AList_delete [of pid "mg_pending G"]
  by (auto simp: manager_ok_def remove_peer_def AList.delete_eq intro: le_trans [OF length_filter_le])

lemma manager_ok_change:
  assumes "manager_ok n G" and "\<And>p. p_id (f p) = p_id p"
  shows "manager_ok n (change_peer pid f G)"
proof (cases "map_of (mg_peers G) pid")
  case (Some p)
  then have "length (AList.update pid (f p) (mg_peers G)) = length (mg_peers G)" and "p_id p = pid"
    using assms(1) by (auto simp: length_AList_update_mem manager_ok_def dest: map_of_SomeD)
  then show ?thesis
    using assms Some set_AList_update [of pid "f p" "mg_peers G"] by (auto simp: manager_ok_def change_peer_def)
qed (use assms in \<open>simp add: change_peer_def\<close>)

lemma queue_bound: "manager_ok n G \<Longrightarrow> length (queue_of pid G) \<le> MAX_PENDING_MESSAGES"
  by (cases "map_of (mg_pending G) pid") (auto simp: queue_of_def manager_ok_def dest: map_of_SomeD)

lemma manager_ok_pending:
  assumes "manager_ok n G" and "length q \<le> MAX_PENDING_MESSAGES"
  shows "manager_ok n (G\<lparr>mg_pending := AList.update pid q (mg_pending G)\<rparr>)"
  using assms set_AList_update [of pid q "mg_pending G"] by (auto simp: manager_ok_def)

lemma manager_ok_queue [invs]: "manager_ok n G \<Longrightarrow> manager_ok n (snd (queue_message now pid env G))"
  using queue_bound [of n G pid] by (auto simp: queue_message_def Let_def intro!: manager_ok_pending)

lemma manager_ok_drain [invs]: "manager_ok n G \<Longrightarrow> manager_ok n (snd (drain_pending pid G))"
  by (auto simp: drain_pending_def intro!: manager_ok_pending split: option.split)

lemma manager_ok_cleanup [invs]: "manager_ok n G \<Longrightarrow> manager_ok n (snd (cleanup_idle now G))"
proof -
  assume G: "manager_ok n G"
  let ?ks = "map fst (filter (\<lambda>(_, p). is_idle now p) (mg_peers G))"
  show ?thesis
    using G fold_delete_props [of "mg_peers G" ?ks] fold_delete_props [of "mg_pending G" ?ks]
    by (simp add: manager_ok_def cleanup_idle_def Let_def) (meson le_trans subsetD)
qed

interpretation peers: state_machine "manager_new n" peer_step "manager_ok n" for n
proof
  show "manager_ok n (manager_new n)" by (simp add: manager_ok_def manager_new_def)
  show "manager_ok n (peer_step e G)" if "manager_ok n G" for e G
    using that by (cases e) (simp_all add: invs set_state_def set_public_key_def manager_ok_change)
qed

text \<open>
  The peer table is bounded and consistent after any history: never more peers than allowed, each filed under its own
  identifier, and never more than a hundred messages waiting for one peer.
\<close>

theorem peer_table_bounded:
  "let G = fold peer_step es (manager_new n) in
     length (mg_peers G) \<le> n \<and> length (list_peers G) = connected_count G \<and> connected_count G \<le> n
     \<and> (\<forall>pid p. get_peer pid G = Some p \<longrightarrow> p_id p = pid) \<and> (\<forall>pid. length (queue_of pid G) \<le> 100)"
proof -
  let ?G = "fold peer_step es (manager_new n)"
  have ok: "manager_ok n ?G" by (rule peers.run_init_ok)
  then have "length (mg_peers ?G) \<le> n" by (simp add: manager_ok_def)
  moreover have "connected_count ?G \<le> length (mg_peers ?G)"
    using length_filter_le [of "\<lambda>p. p_state p = Connected" "map snd (mg_peers ?G)"] by (simp add: connected_count_def)
  moreover have "get_peer pid ?G = Some p \<longrightarrow> p_id p = pid" for pid p
    using ok by (auto simp: get_peer_def manager_ok_def dest: map_of_SomeD)
  moreover have "length (queue_of pid ?G) \<le> 100" for pid
    using queue_bound [OF ok, of pid] by (simp add: MAX_PENDING_MESSAGES_def)
  moreover have "length (list_peers ?G) = connected_count ?G" by (simp add: list_peers_def connected_count_def)
  ultimately show ?thesis unfolding Let_def by (meson le_trans)
qed

section \<open>Queues\<close>

text \<open>The specification of one queue: messages accepted for the peer since the last time it was emptied.\<close>

fun queue_spec :: "string \<Rightarrow> peer_event \<Rightarrow> PeerManager \<Rightarrow> PendingMessage list \<Rightarrow> PendingMessage list" where
  "queue_spec pid (QueueMsg now pid' env) G q =
     (if pid' = pid \<and> length q < 100 then q @ [\<lparr>pm_envelope = env, pm_queued_at = now, pm_retry_count = 0\<rparr>] else q)"
| "queue_spec pid (Drain pid') G q = (if pid' = pid then [] else q)"
| "queue_spec pid (RemovePeer pid') G q = (if pid' = pid then [] else q)"
| "queue_spec pid (CleanupIdle now) G q = (if pid \<in> set (fst (cleanup_idle now G)) then [] else q)"
| "queue_spec pid _ G q = q"

lemma drained: "fst (drain_pending pid G) = queue_of pid G"
  by (simp add: drain_pending_def queue_of_def split: option.split)

text \<open>
  C28. Waiting messages are delivered in order, once, and to the right peer: every step of the manager acts on the queue of
  each peer like a first-in first-out queue of a hundred places, a drain returns exactly that queue, and only a drain, a removal
  or an idle clean-up of that peer empties it.
\<close>

theorem queue_refines_fifo:
  "queue_of pid (peer_step e G) = queue_spec pid e G (queue_of pid G) \<and> fst (drain_pending pid G) = queue_of pid G"
proof -
  have "queue_of pid (change_peer pid' f G) = queue_of pid G" for pid' f
    by (simp add: queue_of_def change_peer_def split: option.split)
  then have "queue_of pid (peer_step e G) = queue_spec pid e G (queue_of pid G)"
    by (cases e)
      (auto simp: manager_add_peer_def remove_peer_def set_state_def set_public_key_def queue_message_def drain_pending_def
        cleanup_idle_def Let_def queue_of_def update_conv' delete_conv' map_of_fold_delete MAX_PENDING_MESSAGES_def split: option.split)
  then show ?thesis by (simp add: drained)
qed

text \<open>The queues of unknown peers: a message may be queued for any name, and nothing but a drain or a removal of that
  name takes it away, since the idle clean-up looks at registered peers only.\<close>

lemma queue_for_strangers:
  "map_of (mg_peers G) pid = None \<Longrightarrow> queue_of pid (snd (cleanup_idle now G)) = queue_of pid G"
  by (auto simp: cleanup_idle_def Let_def queue_of_def map_of_fold_delete map_of_eq_None_iff)

end
