(* ===== verification/StunNat.thy ===== *)
theory StunNat
  imports P2pHandshake Endian
begin

text \<open>
  NAT traversal (\<open>p2p/src/nat.rs\<close>): the STUN request, the scan of the response for the mapped address, the search over
  servers and the classification of the NAT. A datagram is its bytes. An index out of range panics in the code;
  here such a read is \<open>None\<close>, so that the absence of panics is a theorem.
\<close>

unbundle bit_operations_syntax

section \<open>Requests and responses\<close>

record StunResult =
  public_ip :: string
  public_port :: u16

definition stun_request :: "u8 list \<Rightarrow> u8 list" where
  "stun_request transaction_id = [0x00, 0x01, 0x00, 0x00, 0x21, 0x12, 0xA4, 0x42] @ take 12 transaction_id"

definition byte_at :: "u8 list \<Rightarrow> nat \<Rightarrow> u8 option" where
  "byte_at bs i = (if i < length bs then Some (bs ! i) else None)"

definition be16_at :: "u8 list \<Rightarrow> nat \<Rightarrow> u16 option" where
  "be16_at bs i = Option.bind (byte_at bs i) (\<lambda>a. map_option (from_be16 a) (byte_at bs (i + 1)))"

definition be32_at :: "u8 list \<Rightarrow> nat \<Rightarrow> u32 option" where
  "be32_at bs i =
     Option.bind (byte_at bs i) (\<lambda>a. Option.bind (byte_at bs (i + 1)) (\<lambda>b. Option.bind (byte_at bs (i + 2)) (\<lambda>c.
       map_option (from_be32 a b c) (byte_at bs (i + 3)))))"

definition ipv4_text :: "u32 \<Rightarrow> string" where
  "ipv4_text ip = join_with CHR ''.'' (map (\<lambda>b. show_nat (unat b)) (to_be32 ip))"

text \<open>\<open>(attr_len + 3) & !3\<close>.\<close>

definition padded_len :: "nat \<Rightarrow> nat" where
  "padded_len n = (n + 3) - (n + 3) mod 4"

text \<open>An XOR-MAPPED-ADDRESS attribute at the offset, if it is there, complete and for IPv4.\<close>

definition mapped_address :: "u8 list \<Rightarrow> nat \<Rightarrow> u16 \<Rightarrow> nat \<Rightarrow> StunResult option option" where
  "mapped_address response offset attr_type attr_len =
     (if attr_type = 0x0020 \<and> offset + 4 + 8 \<le> length response \<and> 8 \<le> attr_len then
        Option.bind (byte_at response (offset + 5)) (\<lambda>family.
        Option.bind (be16_at response (offset + 6)) (\<lambda>xport.
          if family = 0x01 then
            Option.bind (be32_at response (offset + 8)) (\<lambda>xip.
              Some (Some \<lparr>public_ip = ipv4_text (xip XOR 0x2112A442), public_port = xport XOR 0x2112\<rparr>))
          else Some None))
      else Some None)"

function stun_scan :: "u8 list \<Rightarrow> nat \<Rightarrow> (P2pError + StunResult) option" where
  "stun_scan response offset =
     (if offset + 4 \<le> length response then
        Option.bind (be16_at response offset) (\<lambda>attr_type.
        Option.bind (be16_at response (offset + 2)) (\<lambda>len.
        Option.bind (mapped_address response offset attr_type (unat len)) (\<lambda>found.
          case found of
            Some r \<Rightarrow> Some (Inr r)
          | None \<Rightarrow> stun_scan response (offset + (4 + padded_len (unat len))))))
      else Some (Inl (P2pNat ''No XOR-MAPPED-ADDRESS in STUN response'')))"
  by pat_completeness auto

termination stun_scan
  by (relation "measure (\<lambda>(response, offset). length response - offset)") auto

declare stun_scan.simps [simp del]

text \<open>The response is at most 512 bytes, what the buffer takes.\<close>

definition parse_stun :: "u8 list \<Rightarrow> (P2pError + StunResult) option" where
  "parse_stun datagram =
     (let response = take 512 datagram
      in if length response < 20 then Some (Inl (P2pNat ''STUN response too short''))
         else if response ! 0 \<noteq> 0x01 \<or> response ! 1 \<noteq> 0x01 then Some (Inl (P2pNat ''Not a STUN success response''))
         else stun_scan response 20)"

definition query_stun :: "P2pError + u8 list \<Rightarrow> (P2pError + StunResult) option" where
  "query_stun received = (case received of Inl e \<Rightarrow> Some (Inl e) | Inr datagram \<Rightarrow> parse_stun datagram)"

section \<open>The manager\<close>

datatype NatType = FullCone | RestrictedCone | PortRestrictedCone | Symmetric | Open | Unknown

fun discover_public_address :: "(string \<Rightarrow> P2pError + StunResult) \<Rightarrow> string list \<Rightarrow> P2pError + StunResult" where
  "discover_public_address query [] = Inl (P2pNat ''All STUN servers unreachable'')"
| "discover_public_address query (server # servers) =
     (case query server of Inr r \<Rightarrow> Inr r | Inl e \<Rightarrow> discover_public_address query servers)"

definition detect_nat_type :: "(string \<Rightarrow> P2pError + StunResult) \<Rightarrow> string list \<Rightarrow> NatType" where
  "detect_nat_type query servers =
     (case List.map_filter (\<lambda>s. case query s of Inl e \<Rightarrow> None | Inr r \<Rightarrow> Some r) servers of
        [] \<Rightarrow> Unknown
      | [r] \<Rightarrow> Open
      | first # rest \<Rightarrow>
          if list_all (\<lambda>r. public_ip r = public_ip first \<and> public_port r = public_port first) (first # rest)
          then FullCone else Symmetric)"

text \<open>The manager keeps its servers and the last verdict.\<close>

definition STUN_SERVERS :: "string list" where
  "STUN_SERVERS = [''stun.l.google.com:19302'', ''stun1.l.google.com:19302'', ''stun2.l.google.com:19302'', ''stun.stunprotocol.org:3478'']"

record NatManager =
  nm_stun_servers :: "string list"
  nm_nat_type :: NatType

definition nat_with_servers :: "string list \<Rightarrow> NatManager" where
  "nat_with_servers servers = \<lparr>nm_stun_servers = servers, nm_nat_type = Unknown\<rparr>"

definition nat_manager_new :: NatManager where
  "nat_manager_new = nat_with_servers STUN_SERVERS"

definition nat_detect :: "(string \<Rightarrow> P2pError + StunResult) \<Rightarrow> NatManager \<Rightarrow> NatType \<times> NatManager" where
  "nat_detect query m = (let t = detect_nat_type query (nm_stun_servers m) in (t, m\<lparr>nm_nat_type := t\<rparr>))"

text \<open>Hole punching: five rounds of a packet to the public address and, if it is known, one to the local address. The result is an error at the
  first packet that cannot be sent; \<open>sent n\<close> is whether the packet number \<open>n\<close> can be sent. Also the packets that were sent.\<close>

fun punch_sends :: "(nat \<Rightarrow> bool) \<Rightarrow> nat \<Rightarrow> 'addr list \<Rightarrow> (string + unit) \<times> 'addr list" where
  "punch_sends sent n [] = (Inr (), [])"
| "punch_sends sent n (a # as) =
     (if sent n then (let (r, out) = punch_sends sent (Suc n) as in (r, a # out)) else (Inl ''hole punch send'', []))"

definition hole_punch :: "bool \<Rightarrow> (nat \<Rightarrow> bool) \<Rightarrow> 'addr \<Rightarrow> 'addr option \<Rightarrow> (string + unit) \<times> 'addr list" where
  "hole_punch bound sent peer_public peer_local =
     (if \<not> bound then (Inl ''UDP bind'', [])
      else punch_sends sent 0 (concat (replicate 5 (peer_public # (case peer_local of None \<Rightarrow> [] | Some a \<Rightarrow> [a])))))"

lemma punch_sends_prefix:
  "prefix (snd (punch_sends sent n as)) as \<and> (fst (punch_sends sent n as) = Inr () \<longleftrightarrow> snd (punch_sends sent n as) = as)
   \<and> (fst (punch_sends sent n as) = Inr () \<longleftrightarrow> (\<forall>i < length as. sent (n + i)))"
proof (induction sent n as rule: punch_sends.induct)
  case (2 sent n a as)
  have "(\<forall>i < Suc (length as). sent (n + i)) \<longleftrightarrow> sent n \<and> (\<forall>i < length as. sent (Suc n + i))"
    by (metis Suc_less_eq add_Suc_shift add_0_right gr0_conv_Suc not0_implies_Suc zero_less_Suc)
  with 2 show ?case by (auto simp: case_prod_beta Let_def)
qed simp

text \<open>Hole punching reports success exactly if all its packets were sent: five rounds to every known address.\<close>

theorem hole_punch_exact:
  "fst (hole_punch bound sent pub loc) = Inr () \<longleftrightarrow> bound \<and> (\<forall>i < (if loc = None then 5 else 10). sent i)"
  "fst (hole_punch bound sent pub loc) = Inr () \<Longrightarrow>
     snd (hole_punch bound sent pub loc) = concat (replicate 5 (pub # (case loc of None \<Rightarrow> [] | Some a \<Rightarrow> [a])))"
proof -
  let ?as = "concat (replicate 5 (pub # (case loc of None \<Rightarrow> [] | Some a \<Rightarrow> [a])))"
  have l: "length ?as = (if loc = None then 5 else 10)" by (simp add: numeral_eq_Suc split: option.split)
  show "fst (hole_punch bound sent pub loc) = Inr () \<longleftrightarrow> bound \<and> (\<forall>i < (if loc = None then 5 else 10). sent i)"
    using punch_sends_prefix [of sent 0 ?as] unfolding l by (auto simp: hole_punch_def)
  show "fst (hole_punch bound sent pub loc) = Inr () \<Longrightarrow> snd (hole_punch bound sent pub loc) = ?as"
    using punch_sends_prefix [of sent 0 ?as] by (auto simp: hole_punch_def split: if_splits)
qed

section \<open>No panic\<close>

lemma byte_at_ok: "i < length bs \<Longrightarrow> byte_at bs i = Some (bs ! i)"
  by (simp add: byte_at_def)

lemma be16_at_ok: "i + 1 < length bs \<Longrightarrow> be16_at bs i = Some (from_be16 (bs ! i) (bs ! (i + 1)))"
  by (simp add: be16_at_def byte_at_ok)

lemma be32_at_ok:
  "i + 3 < length bs \<Longrightarrow> be32_at bs i = Some (from_be32 (bs ! i) (bs ! (i + 1)) (bs ! (i + 2)) (bs ! (i + 3)))"
  by (simp add: be32_at_def byte_at_ok)

lemma mapped_address_ok: "\<exists>x. mapped_address bs offset t n = Some x"
  by (simp add: mapped_address_def byte_at_ok be16_at_ok be32_at_ok)

lemma stun_scan_ok: "\<exists>r. stun_scan bs offset = Some r"
proof (induction bs offset rule: stun_scan.induct)
  case (1 bs offset)
  show ?case
  proof (cases "offset + 4 \<le> length bs")
    case True
    let ?t = "from_be16 (bs ! offset) (bs ! (offset + 1))" and ?l = "from_be16 (bs ! (offset + 2)) (bs ! (offset + 2 + 1))"
    have t: "be16_at bs offset = Some ?t" using be16_at_ok [of offset bs] True by simp
    have l: "be16_at bs (offset + 2) = Some ?l" using True by (intro be16_at_ok) simp
    obtain f where f: "mapped_address bs offset ?t (unat ?l) = Some f" using mapped_address_ok by blast
    show ?thesis
    proof (cases f)
      case None
      then have "\<exists>r. stun_scan bs (offset + (4 + padded_len (unat ?l))) = Some r" using 1 [OF True t l f] by simp
      with t l f True None show ?thesis by (subst stun_scan.simps) simp
    next
      case (Some r)
      with t l f True show ?thesis by (subst stun_scan.simps) simp
    qed
  next
    case False
    then show ?thesis by (subst stun_scan.simps) simp
  qed
qed

text \<open>
  C29. The parser of STUN responses always returns: for every datagram that a server, or anybody else, sends, the scan
  of the attributes ends and no read is out of range.
\<close>

theorem stun_parser_total: "\<exists>r. parse_stun datagram = Some r"
  using stun_scan_ok by (simp add: parse_stun_def Let_def)

section \<open>Round trip\<close>

definition attribute :: "u16 \<Rightarrow> u8 list \<Rightarrow> u8 list" where
  "attribute t value =
     to_be16 t @ to_be16 (of_nat (length value)) @ value @ replicate (padded_len (length value) - length value) 0"

definition xor_mapped_address :: "u32 \<Rightarrow> u16 \<Rightarrow> u8 list" where
  "xor_mapped_address ip port = [0, 0x01] @ to_be16 (port XOR 0x2112) @ to_be32 (ip XOR 0x2112A442)"

lemma length_attribute: "length (attribute t v) = 4 + padded_len (length v)"
proof -
  have "n \<le> padded_len n" for n unfolding padded_len_def by presburger
  then show ?thesis by (simp add: attribute_def to_be16_def)
qed

lemma attribute_header:
  assumes "length v < 65536"
  shows "be16_at (pre @ attribute t v @ post) (length pre) = Some t"
    and "be16_at (pre @ attribute t v @ post) (length pre + 2) = Some (of_nat (length v))"
  by (simp_all add: be16_at_def byte_at_def attribute_def to_be16_def nth_append be16_roundtrip)

lemma scan_skip:
  assumes "length v < 65536" and "t \<noteq> 0x0020"
  shows "stun_scan (pre @ attribute t v @ post) (length pre) = stun_scan (pre @ attribute t v @ post) (length (pre @ attribute t v))"
proof -
  have "length pre + 4 \<le> length (pre @ attribute t v @ post)" by (simp add: length_attribute)
  moreover have "unat (of_nat (length v) :: u16) = length v" using assms(1) by (simp add: unat_of_nat)
  ultimately show ?thesis
    using attribute_header [OF assms(1), of pre t post] assms(2)
    by (subst stun_scan.simps) (simp add: mapped_address_def length_attribute)
qed

lemma scan_attributes:
  assumes "list_all (\<lambda>(t, v). t \<noteq> 0x0020 \<and> length v < 65536) attrs"
  shows "stun_scan (pre @ concat (map (\<lambda>(t, v). attribute t v) attrs) @ post) (length pre) =
    stun_scan (pre @ concat (map (\<lambda>(t, v). attribute t v) attrs) @ post) (length (pre @ concat (map (\<lambda>(t, v). attribute t v) attrs)))"
  using assms
proof (induction attrs arbitrary: pre)
  case (Cons a attrs)
  obtain t v where a: "a = (t, v)" by fastforce
  let ?rest = "concat (map (\<lambda>(t, v). attribute t v) attrs) @ post"
  have "stun_scan (pre @ attribute t v @ ?rest) (length pre) = stun_scan (pre @ attribute t v @ ?rest) (length (pre @ attribute t v))"
    using Cons.prems a by (intro scan_skip) simp_all
  also have "\<dots> = stun_scan ((pre @ attribute t v) @ ?rest) (length ((pre @ attribute t v) @ concat (map (\<lambda>(t, v). attribute t v) attrs)))"
    using Cons.IH [of "pre @ attribute t v"] Cons.prems by simp
  finally show ?case using a by simp
qed simp

lemma mapped_address_at:
  fixes pre post :: "u8 list" and xport :: u16 and xip :: u32
  defines "bs \<equiv> pre @ attribute 0x0020 ([0, 0x01] @ to_be16 xport @ to_be32 xip) @ post"
  shows "mapped_address bs (length pre) 0x0020 8 =
    Some (Some \<lparr>public_ip = ipv4_text (xip XOR 0x2112A442), public_port = xport XOR 0x2112\<rparr>)"
    and "be16_at bs (length pre) = Some 0x0020" and "be16_at bs (length pre + 2) = Some 8" and "length pre + 4 \<le> length bs"
proof -
  note defs = bs_def attribute_def to_be16_def to_be32_def
  have "byte_at bs (length pre + 5) = Some 0x01" by (simp add: byte_at_def nth_append defs)
  moreover have "be16_at bs (length pre + 6) = Some xport"
    by (simp add: be16_at_def byte_at_def nth_append defs be16_roundtrip)
  moreover have "be32_at bs (length pre + 8) = Some xip"
    by (simp add: be32_at_def byte_at_def nth_append defs be32_roundtrip)
  moreover have "length pre + 4 + 8 \<le> length bs" by (simp add: defs padded_len_def)
  ultimately show "mapped_address bs (length pre) 0x0020 8 =
      Some (Some \<lparr>public_ip = ipv4_text (xip XOR 0x2112A442), public_port = xport XOR 0x2112\<rparr>)"
    by (simp add: mapped_address_def)
  show "be16_at bs (length pre) = Some 0x0020" "be16_at bs (length pre + 2) = Some 8"
    using attribute_header [of "[0, 0x01] @ to_be16 xport @ to_be32 xip" pre "0x0020" post] by (simp_all add: bs_def to_be16_def to_be32_def)
  show "length pre + 4 \<le> length bs" by (simp add: bs_def length_attribute)
qed

lemma scan_found:
  "stun_scan (pre @ attribute 0x0020 (xor_mapped_address ip port) @ post) (length pre) =
     Some (Inr \<lparr>public_ip = ipv4_text ip, public_port = port\<rparr>)"
  using mapped_address_at [where pre = pre and post = post and xport = "port XOR 0x2112" and xip = "ip XOR 0x2112A442"]
  unfolding xor_mapped_address_def
  by (subst stun_scan.simps) (simp add: xor.assoc)

text \<open>
  The mapped address is found: a success response with any other attributes before the address, and anything after it,
  yields exactly the IPv4 address and port that the server put in. The length, the magic cookie and the transaction identifier
  of the header are not looked at, so the answer need not belong to the request.
\<close>

theorem stun_roundtrip:
  assumes "length rest = 18" and "list_all (\<lambda>(t, v). t \<noteq> 0x0020 \<and> length v < 65536) attrs"
    and "length ([1, 1] @ rest @ concat (map (\<lambda>(t, v). attribute t v) attrs) @ attribute 0x0020 (xor_mapped_address ip port) @ post) \<le> 512"
  shows "parse_stun ([1, 1] @ rest @ concat (map (\<lambda>(t, v). attribute t v) attrs) @ attribute 0x0020 (xor_mapped_address ip port) @ post)
    = Some (Inr \<lparr>public_ip = ipv4_text ip, public_port = port\<rparr>)"
proof -
  let ?attrs = "concat (map (\<lambda>(t, v). attribute t v) attrs)" and ?mapped = "attribute 0x0020 (xor_mapped_address ip port)"
  have "stun_scan (([1, 1] @ rest) @ ?attrs @ ?mapped @ post) 20 = stun_scan (([1, 1] @ rest) @ ?attrs @ ?mapped @ post) (length (([1, 1] @ rest) @ ?attrs))"
    using scan_attributes [OF assms(2), of "[1, 1] @ rest" "?mapped @ post"] assms(1) by simp
  also have "\<dots> = Some (Inr \<lparr>public_ip = ipv4_text ip, public_port = port\<rparr>)"
    using scan_found [of "([1, 1] @ rest) @ ?attrs" ip port post] by simp
  finally show ?thesis using assms(1,3) by (simp add: parse_stun_def Let_def)
qed

theorem stun_roundtrip_witness:
  "parse_stun ([1, 1] @ replicate 18 0 @ concat (map (\<lambda>(t, v). attribute t v) [(0x8022, [65, 66])]) @
      attribute 0x0020 (xor_mapped_address 0x01020304 4242) @ [])
    = Some (Inr \<lparr>public_ip = ipv4_text 0x01020304, public_port = 4242\<rparr>)"
  by (rule stun_roundtrip) (simp_all add: length_attribute xor_mapped_address_def to_be16_def to_be32_def padded_len_def)

text \<open>A single answering server is enough for the verdict that there is no NAT.\<close>

lemma one_answer_is_open: "detect_nat_type (\<lambda>s. if s = a then Inr r else Inl P2pTimeout) [a] = Open"
  by (simp add: detect_nat_type_def List.map_filter_simps)

end
