(* ===== verification/SocksTransport.thy ===== *)
theory SocksTransport
  imports P2pHandshake
begin

text \<open>
  The transport layer (\<open>p2p/src/transport.rs\<close>): the choice between a direct connection and Tor, the SOCKS5
  exchange, and addresses. The URL parser and the WebSocket library are parameters: a URL is its scheme, host and port;
  what the proxy sends is a list of reads.
\<close>

unbundle bit_operations_syntax

record TransportConfig =
  use_tor :: bool
  tor_socks_host :: string
  tor_socks_port :: u16

definition TransportConfig_default :: TransportConfig where
  "TransportConfig_default = \<lparr>use_tor = False, tor_socks_host = ''127.0.0.1'', tor_socks_port = 9050\<rparr>"

definition tor_socks_url :: "TransportConfig \<Rightarrow> string" where
  "tor_socks_url cfg = ''socks5://'' @ tor_socks_host cfg @ '':'' @ show_nat (unat (tor_socks_port cfg))"

record url_parts =
  url_scheme :: string
  url_host :: "string option"
  url_port :: "u16 option"

text \<open>The library: the URL parser, a WebSocket connection to a URI, a TCP connection to an address, and the WebSocket
  upgrade on an open stream; an outer \<open>None\<close> is a timeout.\<close>

record 'conn transport_lib =
  url_parse :: "string \<Rightarrow> url_parts option"
  ws_connect :: "string \<Rightarrow> (string + 'conn) option"
  tcp_connect :: "string \<Rightarrow> (string + unit) option"
  ws_upgrade :: "string \<Rightarrow> string + 'conn"

definition connect_direct :: "'conn transport_lib \<Rightarrow> string \<Rightarrow> P2pError + 'conn" where
  "connect_direct T uri =
     (case url_parse T uri of
        None \<Rightarrow> Inl (P2pInvalidAddress ''url'')
      | Some url \<Rightarrow>
          if url_scheme url = ''ws'' \<or> url_scheme url = ''wss'' then
            (case ws_connect T uri of
               Some (Inr ws) \<Rightarrow> Inr ws
             | Some (Inl e) \<Rightarrow> Inl (P2pConnection e)
             | None \<Rightarrow> Inl P2pTimeout)
          else Inl (P2pInvalidAddress (''unsupported scheme: '' @ url_scheme url)))"

section \<open>SOCKS5\<close>

definition socks5_greeting :: bytes where "socks5_greeting = [0x05, 0x01, 0x00]"

text \<open>\<open>host.len() as u8\<close> keeps the low byte.\<close>

definition socks5_request :: "string \<Rightarrow> u16 \<Rightarrow> bytes" where
  "socks5_request host port =
     [0x05, 0x01, 0x00, 0x03] @ [of_nat (length host)] @ as_bytes host @ [ucast (drop_bit 8 port), ucast (port AND 0xFF)]"

text \<open>A read is \<open>None\<close> on a timeout, \<open>Inl\<close> on an I/O error. The greeting reply is read exactly, the answer to the request is
  whatever one read returns, at most 256 bytes.\<close>

type_synonym socks_read = "(string + bytes) option"

definition read_result :: "string \<Rightarrow> socks_read \<Rightarrow> P2pError + bytes" where
  "read_result what rd = (case rd of None \<Rightarrow> Inl P2pTimeout | Some (Inl e) \<Rightarrow> Inl (P2pConnection (what @ e)) | Some (Inr bs) \<Rightarrow> Inr bs)"

definition uri_dummy :: "string \<Rightarrow> u16 \<Rightarrow> string" where
  "uri_dummy host port = ''wss://'' @ host @ '':'' @ show_nat (unat port)"

definition socks5_handshake :: "'conn transport_lib \<Rightarrow> socks_read \<Rightarrow> socks_read \<Rightarrow> string \<Rightarrow> u16 \<Rightarrow> P2pError + 'conn" where
  "socks5_handshake T rd1 rd2 host port =
     bind_result (read_result ''SOCKS5 read greeting: '' rd1) (\<lambda>resp.
       if length resp \<noteq> 2 then Inl (P2pConnection ''SOCKS5 read greeting: unexpected end'')
       else if resp ! 0 \<noteq> 0x05 \<or> resp ! 1 \<noteq> 0x00 then Inl (P2pConnection ''SOCKS5 auth method rejected'')
       else
         bind_result (read_result ''SOCKS5 read response: '' rd2) (\<lambda>buf.
           if length buf < 10 \<or> buf ! 1 \<noteq> 0x00 then Inl (P2pConnection ''SOCKS5 connect failed'')
           else map_err (\<lambda>e. P2pConnection (''WebSocket handshake failed: '' @ e)) (ws_upgrade T (uri_dummy host port))))"

definition connect_through_tor :: "'conn transport_lib \<Rightarrow> TransportConfig \<Rightarrow> socks_read \<Rightarrow> socks_read \<Rightarrow> string \<Rightarrow> P2pError + 'conn" where
  "connect_through_tor T cfg rd1 rd2 uri =
     (case url_parse T uri of
        None \<Rightarrow> Inl (P2pInvalidAddress ''url'')
      | Some url \<Rightarrow>
          (case tcp_connect T (tor_socks_host cfg @ '':'' @ show_nat (unat (tor_socks_port cfg))) of
             None \<Rightarrow> Inl P2pTimeout
           | Some (Inl e) \<Rightarrow> Inl (P2pConnection (''SOCKS5 connect failed: '' @ e))
           | Some (Inr _) \<Rightarrow>
               socks5_handshake T rd1 rd2 (opt_or ''127.0.0.1'' (url_host url)) (opt_or 443 (url_port url))))"

definition transport_connect :: "'conn transport_lib \<Rightarrow> TransportConfig \<Rightarrow> socks_read \<Rightarrow> socks_read \<Rightarrow> string \<Rightarrow> P2pError + 'conn" where
  "transport_connect T cfg rd1 rd2 uri = (if use_tor cfg then connect_through_tor T cfg rd1 rd2 uri else connect_direct T uri)"

section \<open>Addresses and envelopes\<close>

definition get_peer_uri :: "string \<Rightarrow> u16 \<Rightarrow> string" where
  "get_peer_uri host port = ''wss://'' @ host @ '':'' @ show_nat (unat port)"

definition is_onion_address :: "string \<Rightarrow> bool" where
  "is_onion_address addr \<longleftrightarrow> list_ex (\<lambda>i. take 6 (drop i addr) = ''.onion'') [0..<Suc (length addr)]"

text \<open>The result and whether a warning was logged.\<close>

definition normalize_peer_address :: "string \<Rightarrow> string \<times> bool" where
  "normalize_peer_address addr =
     (if addr = [] then (addr, False)
      else if is_onion_address addr then
        (let onion_part = hd (split_on CHR '':'' addr)
         in if suffix ''.onion'' onion_part \<and> length onion_part = 62 then (addr, False) else (addr, True))
      else (addr, False))"

datatype ws_message = WsTextMsg string | WsCloseMsg | WsOtherMsg

definition recv_envelope :: "(string \<Rightarrow> string + WireEnvelope) \<Rightarrow> (string + ws_message) option option \<Rightarrow> P2pError + WireEnvelope" where
  "recv_envelope from_json next_msg =
     (case next_msg of
        None \<Rightarrow> Inl P2pTimeout
      | Some None \<Rightarrow> Inl (P2pConnection ''connection closed'')
      | Some (Some (Inr (WsTextMsg tx))) \<Rightarrow> map_err P2pSerialization (from_json tx)
      | Some (Some (Inr WsCloseMsg)) \<Rightarrow> Inl (P2pConnection ''connection closed'')
      | Some (Some (Inl e)) \<Rightarrow> Inl (P2pConnection e)
      | Some (Some (Inr WsOtherMsg)) \<Rightarrow> Inl (P2pConnection ''unexpected message type''))"

section \<open>What the proxy understands\<close>

text \<open>A SOCKS5 server (RFC 1928) reads the request: version, command, reserved byte, address type 3, a length byte, that
  many bytes of the name, and two bytes of the port.\<close>

definition socks5_server_reads :: "bytes \<Rightarrow> (bytes \<times> u16 \<times> bytes) option" where
  "socks5_server_reads req =
     (case req of
        v # c # r # a # n # rest \<Rightarrow>
          if v = 5 \<and> c = 1 \<and> a = 3 \<and> unat n + 2 \<le> length rest then
            Some (take (unat n) rest,
                  push_bit 8 (ucast (rest ! unat n)) OR ucast (rest ! (unat n + 1)),
                  drop (unat n + 2) rest)
          else None
      | _ \<Rightarrow> None)"

lemma port_bytes: "push_bit 8 (ucast (ucast (drop_bit 8 port) :: u8)) OR ucast (ucast (port AND 0xFF) :: u8) = (port :: u16)"
proof -
  have "(port AND 0xFF) = take_bit 8 port" by (simp add: take_bit_eq_mask mask_eq_exp_minus_1)
  then show ?thesis by (simp only:) (rule bit_word_eqI, auto simp: bit_simps)
qed

text \<open>
  The proxy connects where the caller wanted: the request names exactly the host and port, and nothing more, if and only
  if the host name has at most 255 bytes. For a longer name the length byte wraps around and the proxy reads another name.
\<close>

theorem socks_request_understood:
  "socks5_server_reads (socks5_request host port) = Some (as_bytes host, port, []) \<longleftrightarrow> length host < 256"
proof
  assume "length host < 256"
  then have "unat (of_nat (length host) :: u8) = length host" by (simp add: unat_of_nat)
  then show "socks5_server_reads (socks5_request host port) = Some (as_bytes host, port, [])"
    using port_bytes [of port] by (simp add: socks5_server_reads_def socks5_request_def nth_append)
next
  assume *: "socks5_server_reads (socks5_request host port) = Some (as_bytes host, port, [])"
  let ?rest = "as_bytes host @ [ucast (drop_bit 8 port), ucast (port AND 0xFF)]"
  have "take (unat (of_nat (length host) :: u8)) ?rest = as_bytes host"
    using * by (simp add: socks5_server_reads_def socks5_request_def split: if_splits)
  then have "length (as_bytes host) \<le> unat (of_nat (length host) :: u8)"
    by (metis length_take min.cobounded2)
  then show "length host < 256" using unat_u8_less [of "of_nat (length host)"] by simp
qed

text \<open>The name that the proxy reads for a name of 256 bytes is empty.\<close>

lemma long_host_lost: "length host = 256 \<Longrightarrow> (\<exists>p rest. socks5_server_reads (socks5_request host port) = Some ([], p, rest))"
proof -
  assume l: "length host = 256"
  then have "(of_nat (length host) :: u8) = 0" by simp
  with l show ?thesis by (simp add: socks5_server_reads_def socks5_request_def)
qed

text \<open>Normalisation returns its argument; a malformed onion address is only logged.\<close>

lemma normalize_is_identity: "fst (normalize_peer_address addr) = addr"
  by (simp add: normalize_peer_address_def Let_def)

end
