(* ===== verification/Pir.thy ===== *)
theory Pir
  imports Kem Endian
begin

text \<open>
  Contact discovery by private information retrieval (\<open>crypto/src/pir.rs\<close>): entries of 224 bytes in bins of 18
  slots, the client's queries with their masks, and the server's registry. SHA-256 is the parameter \<open>H\<close>; random bytes are
  arguments. A fixed-size array is a list whose length is a hypothesis where it matters.
\<close>

unbundle bit_operations_syntax

section \<open>Entries\<close>

definition PIR_ENTRY_SIZE :: nat where "PIR_ENTRY_SIZE = 224"
definition PIR_BIN_SIZE :: nat where "PIR_BIN_SIZE = PIR_ENTRY_SIZE * 18"
definition PIR_MAX_ENTRIES_PER_BIN :: nat where "PIR_MAX_ENTRIES_PER_BIN = 18"
definition PIR_CUCKOO_FANOUT :: nat where "PIR_CUCKOO_FANOUT = 2"

record PirQueryToken =
  pq_bin_index :: u32
  pq_xor_mask :: bytes
  pq_client_ephemeral_pk :: bytes

record PirResponse =
  pr_bin_data :: bytes
  pr_dht_ephemeral_pk :: bytes
  pr_nonce :: bytes

record PirContactEntry =
  pe_fingerprint_hash :: bytes
  pe_metadata :: bytes

definition entry_new :: "bytes \<Rightarrow> bytes \<Rightarrow> CryptoError + PirContactEntry" where
  "entry_new fingerprint_hash metadata =
     (let padded = copy_at 0 fingerprint_hash (replicate PIR_ENTRY_SIZE 0);
          meta_len = min (length metadata) (PIR_ENTRY_SIZE - 32)
      in Inr \<lparr>pe_fingerprint_hash = fingerprint_hash, pe_metadata = copy_at 32 (take meta_len metadata) padded\<rparr>)"

definition entry_matches :: "PirContactEntry \<Rightarrow> bytes \<Rightarrow> bool" where
  "entry_matches e hash \<longleftrightarrow> pe_fingerprint_hash e = hash"

definition entry_to_bytes :: "PirContactEntry \<Rightarrow> bytes" where
  "entry_to_bytes e = pe_metadata e"

definition entry_from_bytes :: "bytes \<Rightarrow> PirContactEntry" where
  "entry_from_bytes bs = \<lparr>pe_fingerprint_hash = take 32 bs, pe_metadata = bs\<rparr>"

section \<open>The client\<close>

record PirClient =
  pc_ephemeral_secret :: bytes
  pc_ephemeral_public :: bytes

definition pir_client_new :: "(bytes \<Rightarrow> bytes) \<Rightarrow> bytes \<Rightarrow> PirClient" where
  "pir_client_new H secret =
     \<lparr>pc_ephemeral_secret = secret, pc_ephemeral_public = H (as_bytes ''pir-ephemeral-pk-v1'' @ secret)\<rparr>"

text \<open>The digest has 32 bytes, so its first four exist.\<close>

definition cuckoo_hash_bins :: "(bytes \<Rightarrow> bytes) \<Rightarrow> bytes \<Rightarrow> nat \<Rightarrow> u32 list" where
  "cuckoo_hash_bins H fingerprint_hash fanout =
     map (\<lambda>i. let hash = H (as_bytes ''pir-cuckoo-v1'' @ fingerprint_hash @ to_be32 (of_nat i))
              in from_be32 (hash ! 0) (hash ! 1) (hash ! 2) (hash ! 3)) [0..<fanout]"

definition query_contact :: "(bytes \<Rightarrow> bytes) \<Rightarrow> (nat \<Rightarrow> bytes) \<Rightarrow> PirClient \<Rightarrow> bytes \<Rightarrow> CryptoError + PirQueryToken list" where
  "query_contact H random_mask c fingerprint_hash =
     (let bin_indices = cuckoo_hash_bins H fingerprint_hash PIR_CUCKOO_FANOUT
      in Inr (map (\<lambda>(i, bin_idx). \<lparr>pq_bin_index = bin_idx, pq_xor_mask = random_mask i,
                                    pq_client_ephemeral_pk = pc_ephemeral_public c\<rparr>)
                (enumerate 0 bin_indices)))"

definition xor_apply :: "bytes \<Rightarrow> bytes \<Rightarrow> bytes" where
  "xor_apply data xor_mask =
     (let len = min (length data) (length xor_mask)
      in map (\<lambda>(a, b). a XOR b) (zip (take len data) (take len xor_mask)))"

fun scan_entries :: "bytes \<Rightarrow> bytes list \<Rightarrow> PirContactEntry option" where
  "scan_entries target_hash [] = None"
| "scan_entries target_hash (entry_bytes # rest) =
     (if length entry_bytes \<noteq> PIR_ENTRY_SIZE then scan_entries target_hash rest
      else if take 32 entry_bytes = target_hash then Some (entry_from_bytes entry_bytes)
      else scan_entries target_hash rest)"

definition process_response :: "PirResponse \<Rightarrow> bytes \<Rightarrow> bytes \<Rightarrow> CryptoError + PirContactEntry option" where
  "process_response response xor_mask target_hash =
     Inr (scan_entries target_hash (chunks PIR_ENTRY_SIZE (xor_apply (pr_bin_data response) xor_mask)))"

definition prepare_registration :: "(bytes \<Rightarrow> bytes) \<Rightarrow> bytes \<Rightarrow> CryptoError + (u32 \<times> PirContactEntry)" where
  "prepare_registration H fingerprint_hash =
     (let bin_indices = cuckoo_hash_bins H fingerprint_hash PIR_CUCKOO_FANOUT;
          chosen_bin = bin_indices ! 0
      in bind_result (entry_new fingerprint_hash []) (\<lambda>entry. Inr (chosen_bin, entry)))"

section \<open>The registry\<close>

record PirRegistry =
  bins :: "(u32 \<times> bytes) list"

definition registry_new :: PirRegistry where
  "registry_new = \<lparr>bins = []\<rparr>"

definition all_zero :: "bytes \<Rightarrow> bool" where
  "all_zero slot \<longleftrightarrow> list_all (\<lambda>b. b = 0) slot"

text \<open>The first empty slot takes the entry; \<open>copy_from_slice\<close> panics when the lengths differ.\<close>

fun fill_slot :: "u32 \<Rightarrow> bytes \<Rightarrow> bytes list \<Rightarrow> CryptoError + bytes list" where
  "fill_slot bin_index entry [] = Inl (Pir (''bin '' @ show_nat (unat bin_index) @ '' is full (max 18 entries)''))"
| "fill_slot bin_index entry (slot # slots) =
     (if all_zero slot then
        (if length entry = length slot then Inr (entry # slots) else Inl (Panic ''copy_from_slice''))
      else bind_result (fill_slot bin_index entry slots) (\<lambda>ss. Inr (slot # ss)))"

definition add_entry :: "u32 \<Rightarrow> PirContactEntry \<Rightarrow> PirRegistry \<Rightarrow> (CryptoError + unit) \<times> PirRegistry" where
  "add_entry bin_index entry R =
     (let bin = (case map_of (bins R) bin_index of None \<Rightarrow> replicate PIR_BIN_SIZE 0 | Some b \<Rightarrow> b);
          R' = R\<lparr>bins := AList.update bin_index bin (bins R)\<rparr>
      in case fill_slot bin_index (entry_to_bytes entry) (chunks PIR_ENTRY_SIZE bin) of
           Inl e \<Rightarrow> (Inl e, R')
         | Inr slots \<Rightarrow> (Inr (), R'\<lparr>bins := AList.update bin_index (concat slots) (bins R')\<rparr>))"

definition get_bin :: "u32 \<Rightarrow> PirRegistry \<Rightarrow> bytes option" where
  "get_bin bin_index R = map_of (bins R) bin_index"

definition handle_query :: "bytes \<Rightarrow> bytes \<Rightarrow> PirQueryToken \<Rightarrow> PirRegistry \<Rightarrow> PirResponse option" where
  "handle_query nonce dht_pk query R =
     map_option (\<lambda>bin_data. \<lparr>pr_bin_data = bin_data, pr_dht_ephemeral_pk = dht_pk, pr_nonce = nonce\<rparr>)
       (get_bin (pq_bin_index query) R)"

definition bin_count :: "PirRegistry \<Rightarrow> nat" where
  "bin_count R = length (bins R)"

section \<open>The registry keeps what is registered\<close>

lemma chunks_concat: "0 < n \<Longrightarrow> list_all (\<lambda>x. length x = n) xs \<Longrightarrow> chunks n (concat xs) = xs"
proof (induction xs)
  case (Cons x xs)
  then have "x @ concat xs \<noteq> []" by auto
  with Cons show ?case by (simp add: chunks_unfold)
qed simp

abbreviation empty_slot :: bytes where
  "empty_slot \<equiv> replicate PIR_ENTRY_SIZE 0"

lemma all_zero_empty_slot [simp]: "all_zero empty_slot"
  by (simp add: all_zero_def list_all_iff)

lemma concat_replicate_replicate: "concat (replicate n (replicate k x)) = replicate (n * k) x"
  by (induction n) (simp_all add: replicate_add)

text \<open>What was registered in a bin: the entries of the right size that are not blank, in order. A bin is the first 18 of
  them, filled up with blank slots.\<close>

definition registered :: "u32 \<Rightarrow> (u32 \<times> PirContactEntry) list \<Rightarrow> bytes list" where
  "registered i evs =
     filter (\<lambda>b. length b = PIR_ENTRY_SIZE \<and> \<not> all_zero b) (map (entry_to_bytes \<circ> snd) (filter (\<lambda>(j, _). j = i) evs))"

definition bin_slots :: "bytes list \<Rightarrow> bytes list" where
  "bin_slots es = take PIR_MAX_ENTRIES_PER_BIN es @ replicate (PIR_MAX_ENTRIES_PER_BIN - length es) empty_slot"

abbreviation register :: "(u32 \<times> PirContactEntry) list \<Rightarrow> PirRegistry" where
  "register evs \<equiv> fold (\<lambda>(i, e) R. snd (add_entry i e R)) evs registry_new"

lemma fill_slots:
  "list_all (\<lambda>b. \<not> all_zero b) es \<Longrightarrow>
     fill_slot i e (es @ replicate n empty_slot) =
       (if n = 0 then Inl (Pir (''bin '' @ show_nat (unat i) @ '' is full (max 18 entries)''))
        else if length e = PIR_ENTRY_SIZE then Inr (es @ e # replicate (n - 1) empty_slot)
        else Inl (Panic ''copy_from_slice''))"
  by (induction es) (auto simp: gr0_conv_Suc result_simps split: nat.split)

lemma registered_slots:
  "list_all (\<lambda>b. length b = PIR_ENTRY_SIZE) (bin_slots (registered i evs))"
  "list_all (\<lambda>b. \<not> all_zero b) (take n (registered i evs))"
  by (auto simp: bin_slots_def registered_def list_all_iff dest: in_set_takeD)

lemma chunks_bin: "chunks PIR_ENTRY_SIZE (concat (bin_slots (registered i evs))) = bin_slots (registered i evs)"
  by (rule chunks_concat [OF _ registered_slots(1)]) (simp add: PIR_ENTRY_SIZE_def)

lemma registered_snoc:
  "registered i (evs @ [(j, e)]) =
     registered i evs @ (if j = i \<and> length (entry_to_bytes e) = PIR_ENTRY_SIZE \<and> \<not> all_zero (entry_to_bytes e)
                         then [entry_to_bytes e] else [])"
  by (simp add: registered_def)

lemma blank_entry: "length b = PIR_ENTRY_SIZE \<Longrightarrow> all_zero b \<Longrightarrow> b = empty_slot"
  by (simp add: all_zero_def list_all_iff replicate_eqI)

lemma new_bin: "replicate PIR_BIN_SIZE 0 = concat (bin_slots [])"
  by (simp add: bin_slots_def PIR_BIN_SIZE_def PIR_MAX_ENTRIES_PER_BIN_def concat_replicate_replicate mult.commute)

lemma bin_slots_fill:
  "list_all (\<lambda>b. \<not> all_zero b) es \<Longrightarrow>
     fill_slot i e (bin_slots es) =
       (if PIR_MAX_ENTRIES_PER_BIN \<le> length es
        then Inl (Pir (''bin '' @ show_nat (unat i) @ '' is full (max 18 entries)''))
        else if length e = PIR_ENTRY_SIZE then Inr (bin_slots (es @ (if all_zero e then [] else [e])))
        else Inl (Panic ''copy_from_slice''))"
proof -
  assume nz: "list_all (\<lambda>b. \<not> all_zero b) es"
  then have "list_all (\<lambda>b. \<not> all_zero b) (take PIR_MAX_ENTRIES_PER_BIN es)"
    by (auto simp: list_all_iff dest: in_set_takeD)
  note fill = fill_slots [OF this, of i e "PIR_MAX_ENTRIES_PER_BIN - length es"]
  show ?thesis
  proof (cases "PIR_MAX_ENTRIES_PER_BIN \<le> length es")
    case True
    with fill show ?thesis by (simp add: bin_slots_def)
  next
    case False
    then obtain k where k: "PIR_MAX_ENTRIES_PER_BIN - length es = Suc k"
      by (metis Suc_diff_Suc not_le)
    then have "PIR_MAX_ENTRIES_PER_BIN - Suc (length es) = k" by simp
    with fill False k show ?thesis by (auto simp: bin_slots_def dest: blank_entry)
  qed
qed

lemma bin_slots_full: "PIR_MAX_ENTRIES_PER_BIN \<le> length es \<Longrightarrow> bin_slots (es @ fs) = bin_slots es"
  by (simp add: bin_slots_def)

lemma registered_none: "i \<notin> fst ` set evs \<Longrightarrow> registered i evs = []"
  by (auto simp: registered_def image_iff filter_empty_conv)

lemma add_entry_spec:
  assumes "(case map_of (bins R) i of None \<Rightarrow> replicate PIR_BIN_SIZE 0 | Some b \<Rightarrow> b) = concat (bin_slots (registered i evs))"
  shows "map_of (bins (snd (add_entry i e R))) = (map_of (bins R))(i \<mapsto> concat (bin_slots (registered i (evs @ [(i, e)]))))"
    and "fst (add_entry i e R) =
     (if PIR_MAX_ENTRIES_PER_BIN \<le> length (registered i evs)
      then Inl (Pir (''bin '' @ show_nat (unat i) @ '' is full (max 18 entries)''))
      else if length (entry_to_bytes e) = PIR_ENTRY_SIZE then Inr ()
      else Inl (Panic ''copy_from_slice''))"
proof -
  have nz: "list_all (\<lambda>b. \<not> all_zero b) (registered i evs)"
    using registered_slots(2) [of "length (registered i evs)" i evs] by simp
  show "map_of (bins (snd (add_entry i e R))) = (map_of (bins R))(i \<mapsto> concat (bin_slots (registered i (evs @ [(i, e)]))))"
    by (simp add: add_entry_def Let_def assms chunks_bin bin_slots_fill [OF nz] registered_snoc update_conv' bin_slots_full)
  show "fst (add_entry i e R) =
     (if PIR_MAX_ENTRIES_PER_BIN \<le> length (registered i evs)
      then Inl (Pir (''bin '' @ show_nat (unat i) @ '' is full (max 18 entries)''))
      else if length (entry_to_bytes e) = PIR_ENTRY_SIZE then Inr ()
      else Inl (Panic ''copy_from_slice''))"
    by (simp add: add_entry_def Let_def assms chunks_bin bin_slots_fill [OF nz])
qed

lemma register_bin:
  "map_of (bins (register evs)) = (\<lambda>i. if i \<in> fst ` set evs then Some (concat (bin_slots (registered i evs))) else None)"
proof (induction evs rule: rev_induct)
  case Nil
  show ?case by (simp add: registry_new_def fun_eq_iff)
next
  case (snoc ev evs)
  obtain j e where ev: "ev = (j, e)" by (cases ev)
  have "(case map_of (bins (register evs)) j of None \<Rightarrow> replicate PIR_BIN_SIZE 0 | Some b \<Rightarrow> b)
      = concat (bin_slots (registered j evs))"
    by (simp add: snoc.IH registered_none new_bin)
  from add_entry_spec(1) [OF this, of e] show ?case
    by (auto simp: ev fun_eq_iff registered_snoc snoc.IH)
qed

lemma register_current:
  "(case map_of (bins (register evs)) i of None \<Rightarrow> replicate PIR_BIN_SIZE 0 | Some b \<Rightarrow> b)
      = concat (bin_slots (registered i evs))"
  by (simp add: register_bin registered_none new_bin)

lemma length_bin_slots: "length (bin_slots es) = PIR_MAX_ENTRIES_PER_BIN"
  by (simp add: bin_slots_def)

lemma length_bin: "length (concat (bin_slots (registered i evs))) = PIR_BIN_SIZE"
proof -
  have "length (concat xs) = PIR_ENTRY_SIZE * length xs" if "list_all (\<lambda>b. length b = PIR_ENTRY_SIZE) xs" for xs :: "bytes list"
    using that by (induction xs) auto
  from this [OF registered_slots(1)] show ?thesis
    by (simp add: PIR_BIN_SIZE_def length_bin_slots PIR_MAX_ENTRIES_PER_BIN_def)
qed

text \<open>
  C31. The registry implements its specification after every history of registrations: a bin is there exactly when something
  was sent to it, it always has 4032 bytes, its slots hold the first 18 entries sent to it in their order, and a
  further entry is accepted exactly when fewer than 18 are there and it has 224 bytes.
\<close>

theorem pir_registry_refines:
  fixes evs :: "(u32 \<times> PirContactEntry) list"
  defines "R \<equiv> fold (\<lambda>(i, e) R. snd (add_entry i e R)) evs registry_new"
  shows "map_option length (get_bin i R) = (if i \<in> fst ` set evs then Some PIR_BIN_SIZE else None)
    \<and> filter (\<lambda>b. \<not> all_zero b) (chunks PIR_ENTRY_SIZE (case get_bin i R of None \<Rightarrow> [] | Some b \<Rightarrow> b))
        = take PIR_MAX_ENTRIES_PER_BIN (registered i evs)
    \<and> (fst (add_entry i e R) = Inr () \<longleftrightarrow>
         length (registered i evs) < PIR_MAX_ENTRIES_PER_BIN \<and> length (entry_to_bytes e) = PIR_ENTRY_SIZE)"
proof (intro conjI)
  show "map_option length (get_bin i R) = (if i \<in> fst ` set evs then Some PIR_BIN_SIZE else None)"
    by (simp add: R_def get_bin_def register_bin length_bin)
  have "filter (\<lambda>b. \<not> all_zero b) (bin_slots (registered i evs)) = take PIR_MAX_ENTRIES_PER_BIN (registered i evs)"
    using registered_slots(2) [of PIR_MAX_ENTRIES_PER_BIN i evs]
    by (simp add: bin_slots_def filter_id_conv list_all_iff)
  then show "filter (\<lambda>b. \<not> all_zero b) (chunks PIR_ENTRY_SIZE (case get_bin i R of None \<Rightarrow> [] | Some b \<Rightarrow> b))
           = take PIR_MAX_ENTRIES_PER_BIN (registered i evs)"
    by (simp add: R_def get_bin_def register_bin chunks_bin registered_none)
  show "fst (add_entry i e R) = Inr () \<longleftrightarrow>
           length (registered i evs) < PIR_MAX_ENTRIES_PER_BIN \<and> length (entry_to_bytes e) = PIR_ENTRY_SIZE"
    by (simp add: R_def add_entry_spec(2) [OF register_current])
qed

section \<open>What a lookup finds\<close>

lemma length_xor_apply [simp]: "length (xor_apply data m) = min (length data) (length m)"
  by (simp add: xor_apply_def Let_def)

lemma xor_apply_nth: "i < length data \<Longrightarrow> i < length m \<Longrightarrow> xor_apply data m ! i = data ! i XOR m ! i"
  by (simp add: xor_apply_def Let_def)

lemma scan_entries_found:
  "(\<exists>e. scan_entries h bss = Some e) \<longleftrightarrow> (\<exists>bs \<in> set bss. length bs = PIR_ENTRY_SIZE \<and> take 32 bs = h)"
  by (induction bss) auto

definition slot_start :: "nat \<Rightarrow> bytes \<Rightarrow> bytes" where
  "slot_start k bs = take 32 (drop (PIR_ENTRY_SIZE * k) bs)"

lemma entry_size_pos: "0 < PIR_ENTRY_SIZE"
  by (simp add: PIR_ENTRY_SIZE_def)

lemma bin_chunks:
  assumes "length bs = PIR_BIN_SIZE"
  shows "set (chunks PIR_ENTRY_SIZE bs) = (\<lambda>k. take PIR_ENTRY_SIZE (drop (PIR_ENTRY_SIZE * k) bs)) ` {..<18}"
proof -
  have len: "length (chunks PIR_ENTRY_SIZE bs) = 18"
    using assms by (simp add: length_chunks PIR_BIN_SIZE_def PIR_ENTRY_SIZE_def div_ceil_def)
  have "set (chunks PIR_ENTRY_SIZE bs) = (\<lambda>k. chunks PIR_ENTRY_SIZE bs ! k) ` {..<18}"
    by (simp add: set_conv_nth image_def len) blast
  also have "\<dots> = (\<lambda>k. take PIR_ENTRY_SIZE (drop (PIR_ENTRY_SIZE * k) bs)) ` {..<18}"
    by (rule image_cong) (simp_all add: chunks_nth len entry_size_pos)
  finally show ?thesis .
qed

lemma process_found:
  assumes "length (pr_bin_data r) = PIR_BIN_SIZE" and "length m = PIR_BIN_SIZE"
  shows "(\<exists>e. process_response r m h = Inr (Some e)) \<longleftrightarrow> (\<exists>k < 18. slot_start k (xor_apply (pr_bin_data r) m) = h)"
proof -
  have "length (take PIR_ENTRY_SIZE (drop (PIR_ENTRY_SIZE * k) (xor_apply (pr_bin_data r) m))) = PIR_ENTRY_SIZE" if "k < 18" for k
    using that assms by (simp add: PIR_BIN_SIZE_def PIR_ENTRY_SIZE_def)
  then show ?thesis
    using assms by (simp add: process_response_def scan_entries_found bin_chunks slot_start_def min_def) (simp add: PIR_ENTRY_SIZE_def Bex_def)
qed

lemma slot_start_xor:
  assumes "length d = PIR_BIN_SIZE" and "length m = PIR_BIN_SIZE"
  shows "slot_start k (xor_apply d m) = xor_apply (slot_start k d) (slot_start k m)"
  using assms by (auto simp: slot_start_def xor_apply_nth intro!: nth_equalityI)

lemma xor_eq_iff: "(a :: u8) XOR b = c \<longleftrightarrow> b = a XOR c"
  by (auto simp flip: xor.assoc)

lemma xor_apply_eq:
  "length a = n \<Longrightarrow> length b = n \<Longrightarrow> length c = n \<Longrightarrow> xor_apply a b = c \<longleftrightarrow> b = xor_apply a c"
  by (simp add: list_eq_iff_nth_eq xor_apply_nth xor_eq_iff)

lemma length_slot_start: "length bs = PIR_BIN_SIZE \<Longrightarrow> k < 18 \<Longrightarrow> length (slot_start k bs) = 32"
  by (simp add: slot_start_def PIR_BIN_SIZE_def PIR_ENTRY_SIZE_def)

text \<open>The bin of a registry that holds one contact: the hash, and blank bytes.\<close>

lemma entry_new_bytes:
  "length h = 32 \<Longrightarrow> entry_new h [] = Inr \<lparr>pe_fingerprint_hash = h, pe_metadata = h @ replicate (PIR_ENTRY_SIZE - 32) 0\<rparr>"
  by (simp add: entry_new_def copy_at_def Let_def)

lemma single_registration:
  assumes "length h = 32"
  shows "prepare_registration H h =
           Inr (cuckoo_hash_bins H h PIR_CUCKOO_FANOUT ! 0, \<lparr>pe_fingerprint_hash = h, pe_metadata = h @ replicate (PIR_ENTRY_SIZE - 32) 0\<rparr>)"
    and "get_bin i (snd (add_entry i \<lparr>pe_fingerprint_hash = h, pe_metadata = h @ replicate (PIR_ENTRY_SIZE - 32) 0\<rparr> registry_new))
           = Some (h @ replicate (PIR_BIN_SIZE - 32) 0)"
proof -
  show "prepare_registration H h =
           Inr (cuckoo_hash_bins H h PIR_CUCKOO_FANOUT ! 0, \<lparr>pe_fingerprint_hash = h, pe_metadata = h @ replicate (PIR_ENTRY_SIZE - 32) 0\<rparr>)"
    using assms by (simp add: prepare_registration_def entry_new_bytes result_simps)
  let ?e = "\<lparr>pe_fingerprint_hash = h, pe_metadata = h @ replicate (PIR_ENTRY_SIZE - 32) 0\<rparr>"
  let ?b = "h @ replicate (PIR_ENTRY_SIZE - 32) (0 :: u8)"
  have len: "length ?b = PIR_ENTRY_SIZE" using assms by (simp add: PIR_ENTRY_SIZE_def)
  have "bin_slots (registered i [(i, ?e)]) = ?b # replicate 17 empty_slot"
  proof (cases "all_zero ?b")
    case True
    from blank_entry [OF len True] show ?thesis
      using registered_snoc [of i "[]" i ?e] True
      by (simp add: registered_def bin_slots_def PIR_MAX_ENTRIES_PER_BIN_def entry_to_bytes_def numeral_eq_Suc)
  next
    case False
    then show ?thesis
      using registered_snoc [of i "[]" i ?e] len
      by (simp add: registered_def bin_slots_def PIR_MAX_ENTRIES_PER_BIN_def entry_to_bytes_def)
  qed
  then have "concat (bin_slots (registered i [(i, ?e)])) = h @ replicate (PIR_BIN_SIZE - 32) 0"
    by (simp add: concat_replicate_replicate PIR_BIN_SIZE_def PIR_ENTRY_SIZE_def flip: replicate_add)
  then show "get_bin i (snd (add_entry i ?e registry_new)) = Some (h @ replicate (PIR_BIN_SIZE - 32) 0)"
    using register_bin [of "[(i, ?e)]"] by (simp add: get_bin_def)
qed

lemma query_tokens:
  "query_contact H random_mask c h =
     Inr [\<lparr>pq_bin_index = cuckoo_hash_bins H h 2 ! 0, pq_xor_mask = random_mask 0, pq_client_ephemeral_pk = pc_ephemeral_public c\<rparr>,
          \<lparr>pq_bin_index = cuckoo_hash_bins H h 2 ! 1, pq_xor_mask = random_mask 1, pq_client_ephemeral_pk = pc_ephemeral_public c\<rparr>]"
  by (simp add: query_contact_def cuckoo_hash_bins_def PIR_CUCKOO_FANOUT_def numeral_2_eq_2)

text \<open>
  What a lookup finds. One contact is registered and then looked up by the client that registered it. The first query goes
  to the bin of the contact and the server answers it; the client then removes a mask that nobody applied. So
  the contact is found exactly when the random mask happens to be zero over the first 32 bytes, or to be the
  hash itself at the start of another slot (and then the entry found is not the one registered).
\<close>

theorem pir_lookup_exact:
  assumes "length h = 32" and "length (random_mask 0) = PIR_BIN_SIZE"
    and "prepare_registration H h = Inr (i, entry)"
    and "query_contact H random_mask c h = Inr (query # queries)"
  shows "\<exists>response. handle_query nonce dht_pk query (snd (add_entry i entry registry_new)) = Some response
    \<and> ((\<exists>e. process_response response (pq_xor_mask query) h = Inr (Some e)) \<longleftrightarrow>
         take 32 (random_mask 0) = replicate 32 0 \<or> (\<exists>k \<in> {1..<18}. slot_start k (random_mask 0) = h))"
proof -
  let ?m = "random_mask 0" and ?d = "h @ replicate (PIR_BIN_SIZE - 32) 0"
  have entry: "i = cuckoo_hash_bins H h 2 ! 0"
    "entry = \<lparr>pe_fingerprint_hash = h, pe_metadata = h @ replicate (PIR_ENTRY_SIZE - 32) 0\<rparr>"
    using assms(3) single_registration(1) [OF assms(1), of H] by (simp_all add: PIR_CUCKOO_FANOUT_def)
  have query: "pq_bin_index query = i" "pq_xor_mask query = ?m"
    using assms(4) entry(1) by (auto simp: query_tokens)
  define response where "response = \<lparr>pr_bin_data = ?d, pr_dht_ephemeral_pk = dht_pk, pr_nonce = nonce\<rparr>"
  have answered: "handle_query nonce dht_pk query (snd (add_entry i entry registry_new)) = Some response"
    by (simp add: handle_query_def query entry(2) single_registration(2) [OF assms(1)] response_def)
  have d: "length ?d = PIR_BIN_SIZE"
    using assms(1) by (simp add: PIR_BIN_SIZE_def PIR_ENTRY_SIZE_def)
  have first: "slot_start 0 ?d = h" using assms(1) by (simp add: slot_start_def)
  have other: "slot_start k ?d = replicate 32 0" if "k \<in> {1..<18}" for k
    using that assms(1) by (auto simp: slot_start_def PIR_BIN_SIZE_def PIR_ENTRY_SIZE_def)
  have slot: "slot_start k (xor_apply ?d ?m) = h \<longleftrightarrow> slot_start k ?m = xor_apply (slot_start k ?d) h" if "k < 18" for k
    using that assms(1,2) d
    by (simp add: slot_start_xor xor_apply_eq [of _ 32] length_slot_start)
  have zero: "xor_apply h h = replicate 32 0" "xor_apply (replicate 32 0) h = h"
    using assms(1) by (auto simp: xor_apply_nth intro: nth_equalityI)
  have "(\<exists>e. process_response response ?m h = Inr (Some e)) \<longleftrightarrow> (\<exists>k < 18. slot_start k (xor_apply ?d ?m) = h)"
    using process_found [of response ?m h] assms(2) d by (simp add: response_def)
  also have "\<dots> \<longleftrightarrow> slot_start 0 (xor_apply ?d ?m) = h \<or> (\<exists>k \<in> {1..<18}. slot_start k (xor_apply ?d ?m) = h)"
    by (metis atLeastLessThan_iff less_one not_le zero_less_numeral)
  also have "\<dots> \<longleftrightarrow> slot_start 0 ?m = replicate 32 0 \<or> (\<exists>k \<in> {1..<18}. slot_start k ?m = h)"
    using slot other by (auto simp: first zero)
  finally show ?thesis using answered by (auto simp: query slot_start_def)
qed

text \<open>Which bins are asked for depends on the contact alone: the server sees the same two numbers in every query.\<close>

lemma query_bins_deterministic:
  "query_contact H rnd c h = Inr tokens \<Longrightarrow> map pq_bin_index tokens = cuckoo_hash_bins H h PIR_CUCKOO_FANOUT"
  by (auto simp: query_contact_def comp_def split_beta map_snd_enumerate [unfolded comp_def])

text \<open>An entry survives the trip through its bytes.\<close>

lemma entry_roundtrip: "length h = 32 \<Longrightarrow> entry_new h meta = Inr e \<Longrightarrow> entry_from_bytes (entry_to_bytes e) = e"
  by (auto simp: entry_new_def entry_from_bytes_def entry_to_bytes_def copy_at_def Let_def PIR_ENTRY_SIZE_def)

section \<open>Witness\<close>

theorem pir_lookup_exact_witness:
  "\<exists>response. handle_query [] []
       \<lparr>pq_bin_index = cuckoo_hash_bins (\<lambda>_. replicate 32 7) (replicate 32 5) 2 ! 0, pq_xor_mask = replicate PIR_BIN_SIZE 1,
        pq_client_ephemeral_pk = replicate 32 7\<rparr>
       (snd (add_entry (cuckoo_hash_bins (\<lambda>_. replicate 32 7) (replicate 32 5) 2 ! 0)
          \<lparr>pe_fingerprint_hash = replicate 32 5, pe_metadata = replicate 32 5 @ replicate (PIR_ENTRY_SIZE - 32) 0\<rparr> registry_new))
     = Some response
   \<and> \<not> (\<exists>e. process_response response (replicate PIR_BIN_SIZE 1) (replicate 32 5) = Inr (Some e))"
proof -
  let ?H = "\<lambda>_ :: bytes. replicate 32 (7 :: u8)" and ?h = "replicate 32 (5 :: u8)"
    and ?rnd = "\<lambda>_ :: nat. replicate PIR_BIN_SIZE (1 :: u8)"
  have "slot_start k (replicate PIR_BIN_SIZE 1) \<noteq> ?h" if "k < 18" for k
    using that length_slot_start [of "replicate PIR_BIN_SIZE 1" k]
    by (auto simp: slot_start_def replicate_eq_replicate)
  moreover have "take 32 (replicate PIR_BIN_SIZE 1) \<noteq> replicate 32 (0 :: u8)"
    by (simp add: PIR_BIN_SIZE_def PIR_ENTRY_SIZE_def)
  ultimately show ?thesis
    using pir_lookup_exact [of ?h ?rnd ?H _ _ "pir_client_new ?H []", OF _ _ _ query_tokens, of _ _ "[]" "[]"]
      single_registration(1) [of ?h ?H]
    by (auto simp: PIR_CUCKOO_FANOUT_def pir_client_new_def)
qed

end
