(* ===== verification/CoverTraffic.thy ===== *)
theory CoverTraffic
  imports Kem Endian
begin

text \<open>
  Cover traffic (\<open>crypto/src/cbnp.rs\<close>): packets of constant size from a hash chain, the delay between them, and how a
  recipient tells them from messages. SHA-256 is the parameter \<open>H\<close>, with its output size as the hypothesis \<open>sha_size\<close>; the
  two random numbers of a delay are arguments. Delays are real numbers, because of the logarithm.
\<close>

definition COVER_PACKET_SIZE :: nat where "COVER_PACKET_SIZE = 3200"
definition COVER_TAG_PREFIX :: u8 where "COVER_TAG_PREFIX = 0xC0"
definition MAX_JITTER_SECONDS :: real where "MAX_JITTER_SECONDS = 5"

record CbnpConfig =
  lambda_seconds :: real
  cb_enabled :: bool
  max_burst :: u64

definition CbnpConfig_default :: CbnpConfig where
  "CbnpConfig_default = \<lparr>lambda_seconds = 30, cb_enabled = True, max_burst = 3\<rparr>"

record CbnpSession =
  cb_config :: CbnpConfig
  cb_running :: bool
  cb_cover_count :: u64
  cb_cover_public_key :: bytes
  cb_cover_secret :: bytes

definition sha_size :: "(bytes \<Rightarrow> bytes) \<Rightarrow> bool" where
  "sha_size H \<longleftrightarrow> (\<forall>m. length (H m) = 32)"

definition cbnp_new :: "(bytes \<Rightarrow> bytes) \<Rightarrow> bytes \<Rightarrow> CbnpConfig \<Rightarrow> CbnpSession" where
  "cbnp_new H cover_secret config =
     \<lparr>cb_config = config, cb_running = False, cb_cover_count = 0,
      cb_cover_public_key = H (as_bytes ''cbnp-cover-pk-v1'' @ cover_secret), cb_cover_secret = cover_secret\<rparr>"

text \<open>The loop over the pieces of the packet: each is overwritten by the next digest of the chain.\<close>

fun fill_chain :: "(bytes \<Rightarrow> bytes) \<Rightarrow> bytes \<Rightarrow> bytes list \<Rightarrow> bytes" where
  "fill_chain H fill_seed [] = []"
| "fill_chain H fill_seed (piece # pieces) =
     (let out = H (fill_seed @ as_bytes ''cbnp-fill'');
          len = min (length piece) 32
      in copy_at 0 (take len out) piece @ fill_chain H out pieces)"

definition cover_packet :: "(bytes \<Rightarrow> bytes) \<Rightarrow> bytes \<Rightarrow> u64 \<Rightarrow> bytes" where
  "cover_packet H cover_secret n =
     (let seed_hash = H (as_bytes ''cbnp-cover-packet-v1'' @ cover_secret @ to_be64 n)
      in COVER_TAG_PREFIX # fill_chain H seed_hash (chunks 32 (replicate (COVER_PACKET_SIZE - 1) 0)))"

definition generate_cover_packet :: "(bytes \<Rightarrow> bytes) \<Rightarrow> CbnpSession \<Rightarrow> (CryptoError + bytes) \<times> CbnpSession" where
  "generate_cover_packet H s =
     (Inr (cover_packet H (cb_cover_secret s) (cb_cover_count s)), s\<lparr>cb_cover_count := cb_cover_count s + 1\<rparr>)"

text \<open>In seconds; \<open>u\<close> and \<open>jitter\<close> are the random numbers.\<close>

definition next_delay :: "real \<Rightarrow> real \<Rightarrow> CbnpSession \<Rightarrow> real" where
  "next_delay u jitter s =
     (if \<not> cb_enabled (cb_config s) then 3600
      else let base_delay = - ln (1 - u) / lambda_seconds (cb_config s) in base_delay + jitter)"

definition is_cover_traffic :: "bytes \<Rightarrow> bool" where
  "is_cover_traffic packet \<longleftrightarrow> packet \<noteq> [] \<and> hd packet = COVER_TAG_PREFIX"

definition cbnp_stop :: "CbnpSession \<Rightarrow> CbnpSession" where
  "cbnp_stop s = s\<lparr>cb_running := False\<rparr>"

definition cbnp_start :: "CbnpSession \<Rightarrow> CbnpSession" where
  "cbnp_start s = s\<lparr>cb_running := True\<rparr>"

fun generate_cover_burst :: "(bytes \<Rightarrow> bytes) \<Rightarrow> CbnpSession \<Rightarrow> nat \<Rightarrow> (CryptoError + bytes list) \<times> CbnpSession" where
  "generate_cover_burst H s 0 = (Inr [], s)"
| "generate_cover_burst H s (Suc n) =
     (case generate_cover_packet H s of
        (Inl e, s') \<Rightarrow> (Inl e, s')
      | (Inr packet, s') \<Rightarrow>
          (case generate_cover_burst H s' n of
             (Inl e, s'') \<Rightarrow> (Inl e, s'')
           | (Inr packets, s'') \<Rightarrow> (Inr (packet # packets), s'')))"

section \<open>Packets\<close>

lemma length_fill_chain:
  "sha_size H \<Longrightarrow> list_all (\<lambda>p. length p \<le> 32) pieces \<Longrightarrow> length (fill_chain H fill_seed pieces) = length (concat pieces)"
  by (induction pieces arbitrary: fill_seed) (simp_all add: sha_size_def Let_def)

lemma chunk_sizes: "0 < n \<Longrightarrow> list_all (\<lambda>p. length p \<le> n) (chunks n xs)"
proof (induction n xs rule: chunks.induct)
  case (1 n xs)
  then show ?case by (cases "xs = []") (simp_all add: chunks_unfold)
qed

lemma cover_packet_shape:
  assumes "sha_size H"
  shows "length (cover_packet H secret n) = COVER_PACKET_SIZE" and "is_cover_traffic (cover_packet H secret n)"
proof -
  have "length (fill_chain H sd (chunks 32 (replicate (COVER_PACKET_SIZE - 1) 0))) = COVER_PACKET_SIZE - 1" for sd
    by (subst length_fill_chain [OF assms chunk_sizes]) simp_all
  then show "length (cover_packet H secret n) = COVER_PACKET_SIZE"
    by (simp add: cover_packet_def COVER_PACKET_SIZE_def)
  show "is_cover_traffic (cover_packet H secret n)"
    by (simp add: cover_packet_def is_cover_traffic_def Let_def)
qed

lemma burst_packets:
  "generate_cover_burst H s n =
     (Inr (map (\<lambda>i. cover_packet H (cb_cover_secret s) (cb_cover_count s + of_nat i)) [0..<n]),
      s\<lparr>cb_cover_count := cb_cover_count s + of_nat n\<rparr>)"
proof (induction n arbitrary: s)
  case (Suc n)
  have "map f [0..<Suc n] = f 0 # map (\<lambda>i. f (Suc i)) [0..<n]" for f :: "nat \<Rightarrow> bytes"
    by (simp add: upt_conv_Cons map_Suc_upt [symmetric] comp_def del: upt_Suc)
  with Suc show ?case by (simp add: generate_cover_packet_def add.commute add.left_commute del: upt_Suc)
qed simp

text \<open>
  Every burst succeeds: it has as many packets as asked for, each of 3200 bytes and recognised as cover traffic,
  the packets are those of successive counter values, and the counter advances by their number (modulo \<open>2 ^ 64\<close>).
\<close>

theorem cover_burst_correct:
  assumes "sha_size H"
  shows "\<exists>packets. generate_cover_burst H s n = (Inr packets, s\<lparr>cb_cover_count := cb_cover_count s + of_nat n\<rparr>)
    \<and> length packets = n
    \<and> (\<forall>i < n. packets ! i = cover_packet H (cb_cover_secret s) (cb_cover_count s + of_nat i)
         \<and> length (packets ! i) = COVER_PACKET_SIZE \<and> is_cover_traffic (packets ! i))"
  using cover_packet_shape [OF assms] by (simp add: burst_packets)

section \<open>Delays\<close>

text \<open>
  The delay is not the configured average. With the default configuration, documented as 30 seconds between packets on
  average, every delay is below seven seconds: the sampled exponential is divided by \<open>lambda_seconds\<close>, the
  interval, as if it were a rate. (The largest double below one is \<open>1 - 2 powr -53\<close>.) And the larger the configured
  interval, the shorter the delay.
\<close>

theorem cover_delay_bounded:
  assumes "cb_config s = CbnpConfig_default" and "0 \<le> u" and "u \<le> 1 - 1 / 2 ^ 53" and "0 \<le> jitter" and "jitter < MAX_JITTER_SECONDS"
  shows "0 \<le> next_delay u jitter s" and "next_delay u jitter s < 7"
proof -
  have pos: "0 < 1 - u" "1 / 2 ^ 53 \<le> 1 - u" using assms(3) by (simp_all add: field_simps)
  have "ln (1 / 2 ^ 53 :: real) \<le> ln (1 - u)" using pos by (subst ln_le_cancel_iff) simp_all
  moreover have "ln (1 / 2 ^ 53 :: real) = - (53 * ln 2)"
    using ln_realpow [of 2 53] by (simp add: ln_div)
  ultimately have "- ln (1 - u) \<le> 53 * ln 2" by linarith
  then have "- ln (1 - u) \<le> 53" using ln_2_less_1 by linarith
  moreover have "0 \<le> - ln (1 - u)" using pos assms(2) by simp
  ultimately show "0 \<le> next_delay u jitter s" and "next_delay u jitter s < 7"
    using assms(1,4,5) by (simp_all add: next_delay_def CbnpConfig_default_def MAX_JITTER_SECONDS_def)
qed

lemma longer_interval_shorter_delay:
  "cb_enabled (cb_config s) \<Longrightarrow> cb_enabled (cb_config t) \<Longrightarrow> 0 < u \<Longrightarrow> u < 1 \<Longrightarrow>
     0 < lambda_seconds (cb_config s) \<Longrightarrow> lambda_seconds (cb_config s) < lambda_seconds (cb_config t) \<Longrightarrow>
     next_delay u jitter t < next_delay u jitter s"
  by (simp add: next_delay_def divide_strict_left_mono_neg)

text \<open>Any message that begins with the tag is taken for cover traffic, whatever it is.\<close>

lemma tagged_message_is_cover: "is_cover_traffic (COVER_TAG_PREFIX # message)"
  by (simp add: is_cover_traffic_def)

section \<open>Witnesses\<close>

theorem cover_burst_correct_witness:
  "\<exists>packets. generate_cover_burst (\<lambda>_. replicate 32 7) (cbnp_new (\<lambda>_. replicate 32 7) [] CbnpConfig_default) 2
       = (Inr packets, (cbnp_new (\<lambda>_. replicate 32 7) [] CbnpConfig_default)\<lparr>cb_cover_count := 2\<rparr>)
     \<and> length packets = 2 \<and> is_cover_traffic (packets ! 1)"
  using cover_burst_correct [of "\<lambda>_. replicate 32 7" "cbnp_new (\<lambda>_. replicate 32 7) [] CbnpConfig_default" 2]
  by (auto simp: sha_size_def cbnp_new_def cover_packet_shape)

theorem cover_delay_bounded_witness:
  "next_delay (1 / 2) 4 (cbnp_new (\<lambda>_. []) [] CbnpConfig_default) < 7"
  by (rule cover_delay_bounded(2)) (simp_all add: cbnp_new_def MAX_JITTER_SECONDS_def)

end
