(* ===== verification/PinCache.thy ===== *)
theory PinCache
  imports Kem
begin

text \<open>
  Trust on first use (\<open>dht-core/src/pin_cache.rs\<close>): the file that maps Null IDs to addresses and the file that maps
  bootstrap servers to certificate fingerprints. The JSON printer and parser are parameters. Whether the file can be
  read, and what a write does to it (everything, nothing, or a prefix of the text, because the file is
  truncated before it is written), are arguments. A hash table is an association list.
\<close>

record pin_lib =
  json_pretty :: "json \<Rightarrow> string option"
  json_read :: "string \<Rightarrow> json option"

type_synonym pin_files = "string \<rightharpoonup> string"
type_synonym pin_cache = "(string \<times> json) list"

datatype disk = DiskOk | DiskFails | DiskPartial nat

definition pin_cache_path :: string where "pin_cache_path = ''.nullnode/pin_cache.json''"
definition bootstrap_pin_path :: string where "bootstrap_pin_path = ''.nullnode/bootstrap_pin_cache.json''"

definition read_cache :: "pin_lib \<Rightarrow> bool \<Rightarrow> string \<Rightarrow> pin_files \<Rightarrow> pin_cache" where
  "read_cache L readable path fs =
     (case fs path of
        None \<Rightarrow> []
      | Some content \<Rightarrow>
          if readable then (case json_read L content of Some (JObj kvs) \<Rightarrow> kvs | _ \<Rightarrow> []) else [])"

fun write_disk :: "disk \<Rightarrow> string \<Rightarrow> string \<Rightarrow> pin_files \<Rightarrow> pin_files" where
  "write_disk DiskOk path json fs = fs(path \<mapsto> json)"
| "write_disk DiskFails path json fs = fs"
| "write_disk (DiskPartial n) path json fs = fs(path \<mapsto> take n json)"

definition write_cache :: "pin_lib \<Rightarrow> disk \<Rightarrow> string \<Rightarrow> pin_cache \<Rightarrow> pin_files \<Rightarrow> pin_files" where
  "write_cache L disk path cache fs =
     (case json_pretty L (JObj cache) of None \<Rightarrow> fs | Some json \<Rightarrow> write_disk disk path json fs)"

definition pin_cache_load :: "pin_lib \<Rightarrow> bool \<Rightarrow> pin_files \<Rightarrow> pin_cache" where
  "pin_cache_load L readable fs = read_cache L readable pin_cache_path fs"

definition pin_cache_save :: "pin_lib \<Rightarrow> disk \<Rightarrow> pin_cache \<Rightarrow> pin_files \<Rightarrow> pin_files" where
  "pin_cache_save L disk cache fs = write_cache L disk pin_cache_path cache fs"

definition pin_get :: "pin_lib \<Rightarrow> bool \<Rightarrow> string \<Rightarrow> pin_files \<Rightarrow> json option" where
  "pin_get L readable null_id fs = map_of (pin_cache_load L readable fs) null_id"

definition str_field :: "string \<Rightarrow> json \<Rightarrow> string option" where
  "str_field f obj = Option.bind (json_get obj f) as_str"

fun refresh :: "f64 \<Rightarrow> json \<Rightarrow> json" where
  "refresh now (JObj kvs) = JObj (AList.update ''last_verified'' (JFloat now) kvs)"
| "refresh now j = j"

definition pin_update :: "pin_lib \<Rightarrow> disk \<Rightarrow> bool \<Rightarrow> f64 \<Rightarrow> string \<Rightarrow> string \<Rightarrow> string \<Rightarrow> pin_files \<Rightarrow> pin_files" where
  "pin_update L disk readable now null_id address fingerprint fs =
     (let cache = pin_cache_load L readable fs
      in case map_of cache null_id of
           None \<Rightarrow>
             pin_cache_save L disk
               (AList.update null_id
                  (JObj [(''address'', JStr address), (''fp'', JStr fingerprint),
                         (''first_seen'', JFloat now), (''last_verified'', JFloat now)]) cache) fs
         | Some obj \<Rightarrow>
             if str_field ''address'' obj = Some address
             then pin_cache_save L disk (AList.update null_id (refresh now obj) cache) fs
             else fs)"

definition pin_verify_address :: "pin_lib \<Rightarrow> bool \<Rightarrow> string \<Rightarrow> string \<Rightarrow> pin_files \<Rightarrow> bool" where
  "pin_verify_address L readable null_id address fs =
     (case pin_get L readable null_id fs of None \<Rightarrow> True | Some obj \<Rightarrow> str_field ''address'' obj = Some address)"

definition bootstrap_pin_check ::
  "pin_lib \<Rightarrow> disk \<Rightarrow> bool \<Rightarrow> f64 \<Rightarrow> string \<Rightarrow> string \<Rightarrow> string \<Rightarrow> string \<Rightarrow> pin_files \<Rightarrow> bool \<times> pin_files" where
  "bootstrap_pin_check L disk readable now seed_url cert_fp not_before not_after fs =
     (let cache = read_cache L readable bootstrap_pin_path fs
      in case map_of cache seed_url of
           Some existing \<Rightarrow> (opt_or [] (str_field ''fp'' existing) = cert_fp, fs)
         | None \<Rightarrow>
             (True,
              write_cache L disk bootstrap_pin_path
                (AList.update seed_url
                   (JObj [(''fp'', JStr cert_fp), (''not_before'', JStr not_before), (''not_after'', JStr not_after),
                          (''first_seen'', JFloat now), (''last_verified'', JFloat now)]) cache) fs))"

section \<open>Pins do not change\<close>

text \<open>What serde documents, as far as it is needed: an object can be printed, and the text is read back as an object
  with the same keys and the same text fields. (Numbers may be rounded.)\<close>

definition pin_laws :: "pin_lib \<Rightarrow> bool" where
  "pin_laws L \<longleftrightarrow>
     (\<forall>kvs. \<exists>json kvs'. json_pretty L (JObj kvs) = Some json \<and> json_read L json = Some (JObj kvs')
        \<and> (\<forall>k. map_option (\<lambda>j f. str_field f j) (map_of kvs' k) = map_option (\<lambda>j f. str_field f j) (map_of kvs k)))"

text \<open>The text fields that are pinned under a key of a file.\<close>

definition pinned_fields :: "pin_lib \<Rightarrow> string \<Rightarrow> pin_files \<Rightarrow> string \<Rightarrow> (string \<Rightarrow> string option) option" where
  "pinned_fields L path fs k = map_option (\<lambda>j f. str_field f j) (map_of (read_cache L True path fs) k)"

lemma pinned_write:
  assumes "pin_laws L"
  shows "pinned_fields L path (write_cache L DiskOk path cache fs) k = map_option (\<lambda>j f. str_field f j) (map_of cache k)"
proof -
  from assms obtain json kvs' where "json_pretty L (JObj cache) = Some json" "json_read L json = Some (JObj kvs')"
    "\<forall>k. map_option (\<lambda>j f. str_field f j) (map_of kvs' k) = map_option (\<lambda>j f. str_field f j) (map_of cache k)"
    unfolding pin_laws_def by blast
  then show ?thesis by (simp add: pinned_fields_def write_cache_def read_cache_def)
qed

lemma pinned_write_fails: "pinned_fields L path (write_cache L DiskFails path' cache fs) k = pinned_fields L path fs k"
  by (simp add: write_cache_def split: option.split)

lemma str_field_refresh: "f \<noteq> ''last_verified'' \<Longrightarrow> str_field f (refresh now j) = str_field f j"
  by (cases j) (simp_all add: str_field_def json_get_def update_conv')

text \<open>The address that is pinned for an identity.\<close>

definition pin_address :: "pin_lib \<Rightarrow> string \<Rightarrow> pin_files \<Rightarrow> string option" where
  "pin_address L null_id fs = Option.bind (pinned_fields L pin_cache_path fs null_id) (\<lambda>fields. fields ''address'')"

lemma pin_address_get: "pin_address L null_id fs = Option.bind (pin_get L True null_id fs) (str_field ''address'')"
  by (cases "map_of (read_cache L True pin_cache_path fs) null_id")
    (simp_all add: pin_address_def pin_get_def pinned_fields_def pin_cache_load_def)

text \<open>An event: an update with a write that works, or that leaves the file as it is.\<close>

type_synonym pin_event = "bool \<times> f64 \<times> string \<times> string \<times> string"

fun pin_step :: "pin_lib \<Rightarrow> pin_event \<Rightarrow> pin_files \<Rightarrow> pin_files" where
  "pin_step L (works, now, null_id, address, fingerprint) fs =
     pin_update L (if works then DiskOk else DiskFails) True now null_id address fingerprint fs"

lemma pin_address_save:
  "pin_laws L \<Longrightarrow> pin_address L k (pin_cache_save L DiskOk cache fs) = Option.bind (map_of cache k) (str_field ''address'')"
  "pin_address L k (pin_cache_save L DiskFails cache fs) = pin_address L k fs"
  by (cases "map_of cache k") (simp_all add: pin_address_def pin_cache_save_def pinned_write pinned_write_fails)

lemma pin_step_address:
  assumes "pin_laws L" and "pin_address L k fs = Some a"
  shows "pin_address L k (pin_step L e fs) = Some a"
proof -
  obtain works now null_id address fingerprint where e: "e = (works, now, null_id, address, fingerprint)"
    by (cases e)
  have get: "map_of (pin_cache_load L True fs) k \<noteq> None"
    "Option.bind (map_of (pin_cache_load L True fs) k) (str_field ''address'') = Some a"
    using assms(2) by (auto simp: pin_address_get pin_get_def split: Option.bind_splits)
  show ?thesis
    using assms(2) get
    by (auto simp: e pin_update_def Let_def pin_address_save assms(1) update_conv' str_field_refresh
        split: option.split)
qed

definition keeps_pin :: "pin_lib \<Rightarrow> string \<Rightarrow> pin_files \<Rightarrow> pin_files \<Rightarrow> bool" where
  "keeps_pin L k fs\<^sub>0 fs \<longleftrightarrow> (\<forall>a. pin_laws L \<longrightarrow> pin_address L k fs\<^sub>0 = Some a \<longrightarrow> pin_address L k fs = Some a)"

interpretation pins: state_machine fs\<^sub>0 "pin_step L" "keeps_pin L k fs\<^sub>0" for L k fs\<^sub>0
  by unfold_locales (auto simp: keeps_pin_def pin_step_address)


lemma first_pin:
  assumes "pin_laws L" and "pin_get L True null_id fs = None"
  shows "pin_address L null_id (pin_update L DiskOk True now null_id address fp fs) = Some address"
  using assms
  by (simp add: pin_address_save pin_update_def pin_get_def update_conv' str_field_def json_get_def)

text \<open>
  The certificate of a bootstrap server is trusted on first use: the first check succeeds, and after it, as long as the file
  was written, a check succeeds exactly for the same fingerprint and changes nothing.
\<close>

theorem bootstrap_pin_tofu:
  assumes "pin_laws L" and "map_of (read_cache L True bootstrap_pin_path fs) seed_url = None"
    and "bootstrap_pin_check L DiskOk True now seed_url cert_fp nb na fs = (trusted, fs')"
  shows "trusted" and "bootstrap_pin_check L disk True now' seed_url cert_fp' nb' na' fs' = (cert_fp' = cert_fp, fs')"
proof -
  let ?entry = "JObj [(''fp'', JStr cert_fp), (''not_before'', JStr nb), (''not_after'', JStr na),
                          (''first_seen'', JFloat now), (''last_verified'', JFloat now)]"
  show "trusted" using assms(2,3) by (simp add: bootstrap_pin_check_def)
  have fs': "fs' = write_cache L DiskOk bootstrap_pin_path
      (AList.update seed_url ?entry (read_cache L True bootstrap_pin_path fs)) fs"
    using assms(2,3) by (simp add: bootstrap_pin_check_def)
  have "pinned_fields L bootstrap_pin_path fs' seed_url = Some (\<lambda>f. str_field f ?entry)"
    unfolding fs' pinned_write [OF assms(1)] by (simp add: update_conv')
  then obtain j where "map_of (read_cache L True bootstrap_pin_path fs') seed_url = Some j"
    and fields: "(\<lambda>f. str_field f j) = (\<lambda>f. str_field f ?entry)"
    by (auto simp: pinned_fields_def)
  moreover from fun_cong [OF fields, of "''fp''"] have "str_field ''fp'' j = Some cert_fp"
    by (simp add: str_field_def json_get_def)
  ultimately show "bootstrap_pin_check L disk True now' seed_url cert_fp' nb' na' fs' = (cert_fp' = cert_fp, fs')"
    by (auto simp: bootstrap_pin_check_def opt_or_def)
qed

text \<open>
  A cache that cannot be read counts as empty: while it cannot be read, every address is accepted for every identity, and the
  next update then replaces the whole file, so that the pins of all other identities are lost.
\<close>

theorem unreadable_cache_forgets:
  assumes "pin_laws L" and "k \<noteq> null_id"
  shows "pin_verify_address L False k address fs"
    and "pin_verify_address L True k address (pin_update L DiskOk False now null_id a fp fs)"
proof -
  have empty: "pin_cache_load L False fs = []"
    by (simp add: pin_cache_load_def read_cache_def split: option.split)
  then show "pin_verify_address L False k address fs"
    by (simp add: pin_verify_address_def pin_get_def)
  have "pinned_fields L pin_cache_path (pin_update L DiskOk False now null_id a fp fs) k = None"
    using assms(2) by (simp add: pin_update_def empty pin_cache_save_def pinned_write [OF assms(1)])
  then show "pin_verify_address L True k address (pin_update L DiskOk False now null_id a fp fs)"
    by (simp add: pinned_fields_def pin_verify_address_def pin_get_def pin_cache_load_def)
qed

section \<open>A stand-in printer and witnesses\<close>

text \<open>A printer that keeps the keys and the text fields, in two levels over the printer of objects of strings.\<close>

definition toy_field :: "json \<Rightarrow> string" where
  "toy_field v = (case as_str v of Some s \<Rightarrow> CHR ''S'' # s | None \<Rightarrow> ''N'')"

fun toy_fields :: "json \<Rightarrow> (string \<times> json) list" where
  "toy_fields (JObj kvs) = map (\<lambda>(k, v). (k, JStr (toy_field v))) kvs"
| "toy_fields _ = []"

fun toy_unfield :: "json \<Rightarrow> json" where
  "toy_unfield (JStr (c # s)) = (if c = CHR ''S'' then JStr s else JNull)"
| "toy_unfield _ = JNull"

fun toy_unfields :: "json \<Rightarrow> json" where
  "toy_unfields (JStr t) = JObj (map (\<lambda>(k, v). (k, toy_unfield v)) (toy_parse (length t) t))"
| "toy_unfields _ = JNull"

definition toy_pin :: pin_lib where
  "toy_pin =
     \<lparr>json_pretty = (\<lambda>j. case j of
          JObj kvs \<Rightarrow> Some (toy_print (JObj (map (\<lambda>(k, v). (k, JStr (toy_print (JObj (toy_fields v))))) kvs)))
        | _ \<Rightarrow> None),
      json_read = (\<lambda>t. Some (JObj (map (\<lambda>(k, v). (k, toy_unfields v)) (toy_parse (length t) t))))\<rparr>"

lemma map_of_map_value: "map_of (map (\<lambda>(k, v). (k, g v)) kvs) k = map_option g (map_of kvs k)"
  by (induction kvs) auto

lemma toy_parse_strings:
  "toy_parse (length (toy_print (JObj (map (\<lambda>(k, v). (k, JStr (g v))) kvs)))) (toy_print (JObj (map (\<lambda>(k, v). (k, JStr (g v))) kvs)))
     = map (\<lambda>(k, v). (k, JStr (g v))) kvs"
  by (simp add: toy_parse_print comp_def split_beta del: toy_print.simps)

lemma toy_fields_read:
  "str_field f (toy_unfields (JStr (toy_print (JObj (toy_fields v))))) = str_field f v"
proof (cases v)
  case (JObj kvs)
  then have "toy_parse (length (toy_print (JObj (toy_fields v)))) (toy_print (JObj (toy_fields v))) = toy_fields v"
    using toy_parse_strings [of toy_field kvs] by (simp del: toy_print.simps)
  moreover have "as_str (toy_unfield (JStr (toy_field w))) = as_str w" for w
    by (cases "as_str w") (simp_all add: toy_field_def)
  ultimately show ?thesis
    by (cases "map_of kvs f") (simp_all add: str_field_def json_get_def map_of_map_value [of "\<lambda>w. toy_unfield (JStr (toy_field w))", unfolded split_beta]
        JObj comp_def split_beta del: toy_print.simps)
qed (simp_all add: str_field_def json_get_def)

lemma toy_pin_laws: "pin_laws toy_pin"
  unfolding pin_laws_def
proof (intro allI exI conjI)
  fix kvs k
  let ?enc = "\<lambda>v. toy_print (JObj (toy_fields v))"
  show "json_pretty toy_pin (JObj kvs) = Some (toy_print (JObj (map (\<lambda>(k, v). (k, JStr (?enc v))) kvs)))"
    by (simp add: toy_pin_def del: toy_print.simps)
  show "json_read toy_pin (toy_print (JObj (map (\<lambda>(k, v). (k, JStr (?enc v))) kvs)))
      = Some (JObj (map (\<lambda>(k, v). (k, toy_unfields (JStr (?enc v)))) kvs))"
    using toy_parse_strings [of ?enc kvs]
    by (simp add: toy_pin_def comp_def split_beta del: toy_print.simps toy_unfields.simps)
  show "map_option (\<lambda>j f. str_field f j) (map_of (map (\<lambda>(k, v). (k, toy_unfields (JStr (?enc v)))) kvs) k)
      = map_option (\<lambda>j f. str_field f j) (map_of kvs k)"
    by (cases "map_of kvs k") (simp_all add: map_of_map_value toy_fields_read del: toy_unfields.simps toy_print.simps)
qed


theorem bootstrap_pin_tofu_witness:
  "\<exists>fs'. bootstrap_pin_check toy_pin DiskOk True 1 ''s'' ''f'' [] [] Map.empty = (True, fs')
     \<and> bootstrap_pin_check toy_pin DiskOk True 2 ''s'' ''g'' [] [] fs' = (False, fs')"
proof -
  obtain trusted fs' where c: "bootstrap_pin_check toy_pin DiskOk True 1 ''s'' ''f'' [] [] Map.empty = (trusted, fs')"
    by (cases "bootstrap_pin_check toy_pin DiskOk True 1 ''s'' ''f'' [] [] Map.empty")
  have n: "map_of (read_cache toy_pin True bootstrap_pin_path Map.empty) ''s'' = None" by (simp add: read_cache_def)
  show ?thesis
    using c bootstrap_pin_tofu(1) [OF toy_pin_laws n c]
      bootstrap_pin_tofu(2) [OF toy_pin_laws n c, of DiskOk 2 "''g''" "[]" "[]"] by simp
qed

theorem unreadable_cache_forgets_witness:
  "pin_verify_address toy_pin True ''a'' ''evil''
     (pin_update toy_pin DiskOk False 2 ''b'' ''x'' ''h'' (pin_update toy_pin DiskOk True 1 ''a'' ''home'' ''f'' Map.empty))"
  by (rule unreadable_cache_forgets(2) [OF toy_pin_laws]) simp

end
