(* ===== verification/BootstrapVerify.thy ===== *)
theory BootstrapVerify
  imports PinCache HostPort
begin

text \<open>
  The check of a bootstrap server's certificate (\<open>dht-core/src/bootstrap_verify.rs\<close>): domain patterns, the names in a
  certificate, the issuer, and the whole verification down to the pin. X.509 parsing, TLS and the network are
  parameters in the record \<open>tls_lib\<close>; a parsed certificate is the part of it that the code reads. Names are compared
  in lower case, for ASCII letters.
\<close>

definition TRUSTED_DOMAINS :: "string list" where
  "TRUSTED_DOMAINS = [''*.gnoppix.org'', ''*.gnoppix.com'']"

definition domain_matches :: "string \<Rightarrow> string \<Rightarrow> bool" where
  "domain_matches cert_domain pattern =
     (let cert_domain = to_lowercase cert_domain;
          pattern = to_lowercase pattern
      in if take 2 pattern = ''*.'' then
           let base = drop 2 pattern in cert_domain = base \<or> suffix (CHR ''.'' # base) cert_domain
         else cert_domain = pattern)"

record CertInfo =
  subject_alt_names :: "string list"
  subject_cn :: "string option"
  issuer_cn :: "string option"
  issuer_org :: "string option"
  not_before :: string
  not_after :: string

text \<open>A certificate as the parser gives it: its extensions, the attributes of its subject and issuer (\<open>None\<close> for one that
  is not valid text), and the text of its validity.\<close>

datatype general_name = DNSName string | OtherName
datatype extension = SubjectAlternativeName "general_name list" | OtherExtension

record x509 =
  x_extensions :: "extension list"
  x_subject_cn :: "string option list"
  x_issuer_cn :: "string option list"
  x_issuer_org :: "string option list"
  x_not_before :: string
  x_not_after :: string

fun dns_names :: "general_name list \<Rightarrow> string list" where
  "dns_names [] = []"
| "dns_names (DNSName n # ns) = n # dns_names ns"
| "dns_names (OtherName # ns) = dns_names ns"

fun san_names :: "extension list \<Rightarrow> string list" where
  "san_names [] = []"
| "san_names (SubjectAlternativeName ns # es) = dns_names ns @ san_names es"
| "san_names (OtherExtension # es) = san_names es"

definition first_text :: "string option list \<Rightarrow> string option" where
  "first_text xs = (case xs of [] \<Rightarrow> None | x # _ \<Rightarrow> x)"

definition extract_cert_info :: "(bytes \<Rightarrow> x509 option) \<Rightarrow> bytes \<Rightarrow> string + CertInfo" where
  "extract_cert_info parse cert_der =
     bind_result (ok_or ''failed to parse certificate'' (parse cert_der)) (\<lambda>cert. Inr
       \<lparr>subject_alt_names = san_names (x_extensions cert), subject_cn = first_text (x_subject_cn cert),
        issuer_cn = first_text (x_issuer_cn cert), issuer_org = first_text (x_issuer_org cert),
        not_before = x_not_before cert, not_after = x_not_after cert\<rparr>)"

definition cert_has_trusted_domain :: "CertInfo \<Rightarrow> bool" where
  "cert_has_trusted_domain info \<longleftrightarrow>
     list_ex (\<lambda>san. list_ex (domain_matches san) TRUSTED_DOMAINS) (subject_alt_names info)
     \<or> (case subject_cn info of None \<Rightarrow> False | Some cn \<Rightarrow> list_ex (domain_matches cn) TRUSTED_DOMAINS)"

definition cert_issuer_name_is_trusted :: "CertInfo \<Rightarrow> bool" where
  "cert_issuer_name_is_trusted info =
     (let cn = to_lowercase (opt_or [] (issuer_cn info));
          org = to_lowercase (opt_or [] (issuer_org info))
      in if sublist (''let'' @ [CHR 39] @ ''s encrypt'') org \<or> sublist (''let'' @ [CHR 39] @ ''s encrypt'') cn then True
         else if sublist ''isrg'' org \<or> sublist ''internet security'' org then True
         else False)"

definition cert_issuer_is_trusted :: "CertInfo \<Rightarrow> bool" where
  "cert_issuer_is_trusted info = cert_issuer_name_is_trusted info"

section \<open>The connection\<close>

datatype IpAddr = V4 u8 u8 u8 u8 | V6 "u16 list"

text \<open>\<open>Ipv4Addr::from_str\<close>: four decimal numbers of one to three digits below 256, without leading zeros.\<close>

definition parse_octet :: "string \<Rightarrow> u8 option" where
  "parse_octet s =
     (if s \<noteq> [] \<and> length s \<le> 3 \<and> list_all (\<lambda>c. c \<in> set ''0123456789'') s \<and> (hd s \<noteq> CHR ''0'' \<or> length s = 1)
         \<and> read_nat s < 256
      then Some (of_nat (read_nat s)) else None)"

definition parse_v4 :: "string \<Rightarrow> IpAddr option" where
  "parse_v4 s =
     (case map parse_octet (split_on CHR ''.'' s) of
        [Some a, Some b, Some c, Some d] \<Rightarrow> Some (V4 a b c d)
      | _ \<Rightarrow> None)"

definition LOCALHOST :: IpAddr where "LOCALHOST = V4 127 0 0 1"

text \<open>The result of a connection and handshake: the certificates that the peer presented, if any.\<close>

datatype tls_result = ConnectFailed | HandshakeFailed | Peer "bytes list option"

record tls_lib =
  server_name_ok :: "string \<Rightarrow> bool"
  tls_setup_ok :: "string \<Rightarrow> bool"
  parse_v6 :: "string \<Rightarrow> IpAddr option"
  tls_read :: "IpAddr \<Rightarrow> nat \<Rightarrow> string \<Rightarrow> tls_result"
  parse_x509 :: "bytes \<Rightarrow> x509 option"
  sha256_lower_hex :: "bytes \<Rightarrow> string"

definition seed_host_port :: "string \<Rightarrow> string \<times> nat" where
  "seed_host_port seed_url =
     (let host_port = (if take 6 seed_url = ''wss://'' then drop 6 seed_url
                       else if take 8 seed_url = ''https://'' then drop 8 seed_url else seed_url)
      in case rsplit_colon host_port of
           Some (h, p) \<Rightarrow> (h, opt_or 443 (parse_u16 p))
         | None \<Rightarrow> (host_port, 443))"

definition seed_address :: "tls_lib \<Rightarrow> string \<Rightarrow> IpAddr" where
  "seed_address T host =
     (case parse_v4 host of Some ip \<Rightarrow> ip | None \<Rightarrow> (case parse_v6 T host of Some ip \<Rightarrow> ip | None \<Rightarrow> LOCALHOST))"

definition verify_bootstrap_cert :: "tls_lib \<Rightarrow> pin_lib \<Rightarrow> disk \<Rightarrow> bool \<Rightarrow> f64 \<Rightarrow> string \<Rightarrow> pin_files \<Rightarrow> bool \<times> pin_files" where
  "verify_bootstrap_cert T L disk readable now seed_url fs =
     (let (host, port) = seed_host_port seed_url
      in if \<not> server_name_ok T host then (False, fs)
         else if \<not> tls_setup_ok T host then (False, fs)
         else
           (case tls_read T (seed_address T host) port host of
              ConnectFailed \<Rightarrow> (False, fs)
            | HandshakeFailed \<Rightarrow> (False, fs)
            | Peer certs \<Rightarrow>
                (case certs of
                   None \<Rightarrow> (False, fs)
                 | Some [] \<Rightarrow> (False, fs)
                 | Some (cert # _) \<Rightarrow>
                     (case extract_cert_info (parse_x509 T) cert of
                        Inl e \<Rightarrow> (False, fs)
                      | Inr info \<Rightarrow>
                          if \<not> cert_has_trusted_domain info then (False, fs)
                          else if \<not> cert_issuer_is_trusted info then (False, fs)
                          else bootstrap_pin_check L disk readable now seed_url (sha256_lower_hex T cert)
                                 (not_before info) (not_after info) fs))))"

section \<open>Domain patterns\<close>

lemma split_on_append_sep: "split_on c (a @ c # b) = split_on c a @ split_on c b"
  by (induction a) auto

lemma join_with_append: "xs \<noteq> [] \<Longrightarrow> ys \<noteq> [] \<Longrightarrow> join_with c (xs @ ys) = join_with c xs @ c # join_with c ys"
proof (induction xs)
  case (Cons x xs)
  then show ?case by (cases "xs = []") (simp_all add: join_with_Cons)
qed simp

lemma suffix_labels: "d = b \<or> suffix (c # b) d \<longleftrightarrow> suffix (split_on c b) (split_on c d)"
proof
  assume "d = b \<or> suffix (c # b) d"
  then show "suffix (split_on c b) (split_on c d)" by (auto simp: suffix_def split_on_append_sep)
next
  assume "suffix (split_on c b) (split_on c d)"
  then obtain xs where xs: "split_on c d = xs @ split_on c b" by (auto simp: suffix_def)
  then have "d = join_with c (xs @ split_on c b)" by (metis join_split_on)
  then show "d = b \<or> suffix (c # b) d"
    by (cases "xs = []") (auto simp: suffix_def join_with_append join_split_on)
qed

text \<open>
  A pattern \<open>*.base\<close> matches exactly the domains whose labels end with the labels of the base, whatever the case of
  the letters: the base itself and its subdomains, and no name that merely ends with the same letters.
\<close>

theorem domain_matches_labels:
  "domain_matches d (''*.'' @ base) \<longleftrightarrow>
     suffix (split_on CHR ''.'' (to_lowercase base)) (split_on CHR ''.'' (to_lowercase d))"
proof -
  have "to_lowercase (''*.'' @ base) = ''*.'' @ to_lowercase base"
    by (simp add: to_lowercase_def ascii_lower_def)
  then show ?thesis
    by (simp add: domain_matches_def suffix_labels [where c = "CHR ''.''"])
qed

section \<open>The verification\<close>

text \<open>What the server has to present.\<close>

definition trusted_cert :: "tls_lib \<Rightarrow> string \<Rightarrow> bytes \<Rightarrow> CertInfo \<Rightarrow> bool" where
  "trusted_cert T seed_url cert info \<longleftrightarrow>
     (let (host, port) = seed_host_port seed_url
      in server_name_ok T host \<and> tls_setup_ok T host
         \<and> (\<exists>rest. tls_read T (seed_address T host) port host = Peer (Some (cert # rest)))
         \<and> extract_cert_info (parse_x509 T) cert = Inr info
         \<and> cert_has_trusted_domain info \<and> cert_issuer_is_trusted info)"


section \<open>Host names\<close>

text \<open>Every text form of an IPv6 address contains a colon.\<close>

definition v6_colon :: "tls_lib \<Rightarrow> bool" where
  "v6_colon T \<longleftrightarrow> (\<forall>s ip. parse_v6 T s = Some ip \<longrightarrow> CHR '':'' \<in> set s)"

lemma split_on_covers: "x \<in> set s \<Longrightarrow> x \<noteq> c \<Longrightarrow> \<exists>p \<in> set (split_on c s). x \<in> set p"
proof (induction s)
  case (Cons y ys)
  then show ?case by (cases "split_on c ys") auto
qed simp

lemma name_is_no_v4:
  assumes "x \<in> set host" and "x \<notin> set ''0123456789.''"
  shows "parse_v4 host = None"
proof -
  obtain p where p: "p \<in> set (split_on CHR ''.'' host)" "x \<in> set p"
    using assms split_on_covers [of x host "CHR ''.''"] by auto
  then have "\<not> list_all (\<lambda>c. c \<in> set ''0123456789'') p" using assms(2) by (auto simp: list_all_iff)
  then have "parse_octet p = None" by (simp add: parse_octet_def)
  then have "None \<in> set (map parse_octet (split_on CHR ''.'' host))" using p(1) by force
  then show ?thesis by (auto simp: parse_v4_def split: list.split option.split)
qed

text \<open>
  Host names are never resolved. A seed URL with a host name (a character that is neither a digit nor a dot, and no
  colon) makes the check connect to 127.0.0.1, whatever the name is; so when nothing listens there, every such bootstrap
  server is rejected.
\<close>

theorem host_name_not_resolved:
  assumes "v6_colon T" and "x \<in> set host" and "x \<notin> set ''0123456789.''" and "CHR '':'' \<notin> set host"
  shows "seed_address T host = LOCALHOST"
    and "tls_read T LOCALHOST port host = ConnectFailed \<Longrightarrow> port < 65536 \<Longrightarrow>
           verify_bootstrap_cert T L disk readable now (''wss://'' @ host @ '':'' @ show_nat port) fs = (False, fs)"
proof -
  have "parse_v6 T host = None" using assms(1,4) by (cases "parse_v6 T host") (auto simp: v6_colon_def)
  then show addr: "seed_address T host = LOCALHOST"
    by (simp add: seed_address_def name_is_no_v4 [OF assms(2,3)])
  assume fails: "tls_read T LOCALHOST port host = ConnectFailed" and "port < 65536"
  then have "seed_host_port (''wss://'' @ host @ '':'' @ show_nat port) = (host, port)"
    by (simp add: seed_host_port_def rsplit_colon_app show_nat_no_sep parse_u16_show opt_or_def)
  then show "verify_bootstrap_cert T L disk readable now (''wss://'' @ host @ '':'' @ show_nat port) fs = (False, fs)"
    by (simp add: verify_bootstrap_cert_def addr fails)
qed

section \<open>Witness\<close>

text \<open>A network in which the right server answers at its own address and nothing listens on this machine.\<close>

definition sample_tls :: tls_lib where
  "sample_tls =
     \<lparr>server_name_ok = (\<lambda>_. True), tls_setup_ok = (\<lambda>_. True), parse_v6 = (\<lambda>_. None),
      tls_read = (\<lambda>ip port name. if ip = V4 203 0 113 7 then Peer (Some [[1]]) else ConnectFailed),
      parse_x509 = (\<lambda>_. Some \<lparr>x_extensions = [SubjectAlternativeName [DNSName ''bootstrap.gnoppix.org'']],
          x_subject_cn = [], x_issuer_cn = [], x_issuer_org = [Some ''ISRG''], x_not_before = [], x_not_after = []\<rparr>),
      sha256_lower_hex = (\<lambda>_. ''ab'')\<rparr>"

theorem host_name_not_resolved_witness:
  "verify_bootstrap_cert sample_tls toy_pin DiskOk True 0 (''wss://'' @ ''bootstrap.gnoppix.org'' @ '':'' @ show_nat 443) Map.empty
     = (False, Map.empty)"
  by (rule host_name_not_resolved(2) [where x = "CHR ''b''"]) (simp_all add: sample_tls_def v6_colon_def LOCALHOST_def)

end
