(* ===== verification/BotLog.thy ===== *)
theory BotLog
  imports Prelude
begin

text \<open>
  The log of suspicious connections and its rotation (\<open>dht-core/src/bot_log.rs\<close>). File 0 is the log, files 1 to 3 are the
  rotated ones; a missing file is \<open>None\<close>. Each file operation may fail, as the code ignores their errors: the record
  \<open>log_io\<close> says which ones work.
\<close>

definition MAX_LOG_FILE_SIZE :: nat where "MAX_LOG_FILE_SIZE = 10 * 1024 * 1024"
definition MAX_ROTATED_FILES :: nat where "MAX_ROTATED_FILES = 3"

definition bot_log_path :: "string option \<Rightarrow> string option \<Rightarrow> string" where
  "bot_log_path home log_path = opt_or (opt_or ''.'' home @ ''/.nullnode/bot_connection.log'') log_path"

type_synonym log_files = "nat \<Rightarrow> string option"

record log_io =
  io_metadata :: bool
  io_rename :: "nat \<Rightarrow> bool"
  io_truncate :: bool
  io_append :: bool

definition io_ok :: log_io where
  "io_ok = \<lparr>io_metadata = True, io_rename = (\<lambda>_. True), io_truncate = True, io_append = True\<rparr>"

text \<open>\<open>fs::rename\<close> of file \<open>i - 1\<close> to file \<open>i\<close>; without the source it fails.\<close>

definition rename_to :: "log_io \<Rightarrow> nat \<Rightarrow> log_files \<Rightarrow> log_files" where
  "rename_to io i fs =
     (case fs (i - 1) of
        None \<Rightarrow> fs
      | Some content \<Rightarrow> if io_rename io i then fs(i := Some content, i - 1 := None) else fs)"

definition rotate_if_needed :: "log_io \<Rightarrow> log_files \<Rightarrow> log_files" where
  "rotate_if_needed io fs =
     (case fs 0 of
        None \<Rightarrow> fs
      | Some content \<Rightarrow>
          if \<not> io_metadata io then fs
          else if length content < MAX_LOG_FILE_SIZE then fs
          else let fs' = fold (rename_to io) (rev [1..<Suc MAX_ROTATED_FILES]) fs
               in if io_truncate io then fs'(0 := Some []) else fs')"

text \<open>\<open>stamp\<close> is the formatted time, with an offset such as \<open>+0000\<close>.\<close>

definition bot_log_line :: "string \<Rightarrow> string \<Rightarrow> u16 \<Rightarrow> string \<Rightarrow> string option \<Rightarrow> string" where
  "bot_log_line stamp peer_ip peer_port reason detail =
     (let stamp = (if 5 < length stamp
                   then take (length stamp - 2) stamp @ '':'' @ drop (length stamp - 2) stamp else stamp);
          detail_str = (case detail of None \<Rightarrow> [] | Some d \<Rightarrow> '' ('' @ d @ '')'')
      in stamp @ '' '' @ peer_ip @ '':'' @ show_nat (unat peer_port) @ detail_str @ '' '' @ reason)"

definition append_line :: "log_io \<Rightarrow> string \<Rightarrow> log_files \<Rightarrow> log_files" where
  "append_line io line fs =
     (if io_append io then fs(0 := Some (opt_or [] (fs 0) @ line @ [CHR 0x0A])) else fs)"

definition bot_log_write :: "log_io \<Rightarrow> string \<Rightarrow> string \<Rightarrow> u16 \<Rightarrow> string \<Rightarrow> string option \<Rightarrow> log_files \<Rightarrow> log_files" where
  "bot_log_write io stamp peer_ip peer_port reason detail fs =
     append_line io (bot_log_line stamp peer_ip peer_port reason detail) (rotate_if_needed io fs)"

section \<open>What the files hold\<close>

text \<open>The files from the oldest to the newest, as one text.\<close>

definition log_text :: "log_files \<Rightarrow> string" where
  "log_text fs = opt_or [] (fs 3) @ opt_or [] (fs 2) @ opt_or [] (fs 1) @ opt_or [] (fs 0)"

type_synonym log_event = "string \<times> string \<times> u16 \<times> string \<times> string option"

fun event_line :: "log_event \<Rightarrow> string" where
  "event_line (stamp, ip, port, reason, detail) = bot_log_line stamp ip port reason detail @ [CHR 0x0A]"

fun log_step :: "log_event \<Rightarrow> log_files \<times> string \<Rightarrow> log_files \<times> string" where
  "log_step (stamp, ip, port, reason, detail) (fs, written) =
     (bot_log_write io_ok stamp ip port reason detail fs, written @ event_line (stamp, ip, port, reason, detail))"

text \<open>The invariant of a history without failures: the files hold the end of what was written; the rotated files are full,
  a later one exists only with the earlier ones, and something was dropped only when all three are there.\<close>

definition file_ok :: "string option \<Rightarrow> string option \<Rightarrow> bool" where
  "file_ok newer f \<longleftrightarrow> (case f of None \<Rightarrow> True | Some c \<Rightarrow> MAX_LOG_FILE_SIZE \<le> length c \<and> newer \<noteq> None)"

definition log_ok :: "log_files \<times> string \<Rightarrow> bool" where
  "log_ok s \<longleftrightarrow>
     (case s of (fs, written) \<Rightarrow>
        suffix (log_text fs) written
        \<and> file_ok (fs 0) (fs 1) \<and> file_ok (fs 1) (fs 2) \<and> file_ok (fs 2) (fs 3)
        \<and> (log_text fs = written \<or> fs 3 \<noteq> None))"

lemma rotation_order: "rev [1..<Suc MAX_ROTATED_FILES] = [3, 2, 1]"
  by (simp add: MAX_ROTATED_FILES_def upt_rec)

lemma rotate_unfold:
  "rotate_if_needed io fs =
     (case fs 0 of
        None \<Rightarrow> fs
      | Some content \<Rightarrow>
          if \<not> io_metadata io then fs
          else if length content < MAX_LOG_FILE_SIZE then fs
          else let fs' = rename_to io 1 (rename_to io 2 (rename_to io 3 fs))
               in if io_truncate io then fs'(0 := Some []) else fs')"
  unfolding rotate_if_needed_def rotation_order by (simp split: option.split)

lemma rotate_io_ok:
  assumes "file_ok (fs 0) (fs 1)" and "file_ok (fs 1) (fs 2)" and "file_ok (fs 2) (fs 3)"
  shows "rotate_if_needed io_ok fs =
     (case fs 0 of
        None \<Rightarrow> fs
      | Some c \<Rightarrow> if length c < MAX_LOG_FILE_SIZE then fs else fs(0 := Some [], 1 := fs 0, 2 := fs 1, 3 := fs 2))"
  using assms
  by (auto simp: rotate_unfold io_ok_def rename_to_def file_ok_def fun_eq_iff split: option.splits)

lemma bot_log_text:
  assumes "log_ok (fs, written)"
  shows "log_ok (log_step e (fs, written))"
proof -
  obtain stamp ip port reason detail where e: "e = (stamp, ip, port, reason, detail)" by (cases e)
  have ok: "file_ok (fs 0) (fs 1)" "file_ok (fs 1) (fs 2)" "file_ok (fs 2) (fs 3)" "suffix (log_text fs) written"
    "log_text fs = written \<or> fs 3 \<noteq> None"
    using assms by (simp_all add: log_ok_def)
  have app: "append_line io_ok line f = f(0 := Some (opt_or [] (f 0) @ line @ [CHR 0x0A]))" for line f
    by (simp add: append_line_def io_ok_def)
  have tail: "suffix (b @ l) (w @ l)" if "suffix (a @ b) w" for a b w l :: string
    using that by (auto simp: suffix_def)
  show ?thesis
  proof (cases "\<exists>c. fs 0 = Some c \<and> MAX_LOG_FILE_SIZE \<le> length c")
    case False
    then have "rotate_if_needed io_ok fs = fs" using ok(1-3) by (auto simp: rotate_io_ok split: option.split)
    with ok show ?thesis
      by (auto simp: e bot_log_write_def app log_ok_def log_text_def file_ok_def suffix_def split: option.splits)
  next
    case True
    then obtain c where c: "fs 0 = Some c" "MAX_LOG_FILE_SIZE \<le> length c" by blast
    then have "rotate_if_needed io_ok fs = fs(0 := Some [], 1 := fs 0, 2 := fs 1, 3 := fs 2)"
      using ok(1-3) by (simp add: rotate_io_ok)
    with ok c tail [of "opt_or [] (fs 3)" "opt_or [] (fs 2) @ opt_or [] (fs 1) @ c" written] show ?thesis
      by (cases "fs 3"; cases "fs 2")
        (auto simp: e bot_log_write_def app log_ok_def log_text_def file_ok_def opt_or_def split: option.splits)
  qed
qed

interpretation log: state_machine "(\<lambda>_. None, [])" log_step log_ok
proof
  show "log_ok (\<lambda>_. None, [])" by (simp add: log_ok_def log_text_def file_ok_def opt_or_def)
  show "log_ok (log_step e s)" if "log_ok s" for s e
    using that bot_log_text by (cases s) simp
qed

lemma log_step_written: "snd (fold log_step es s) = snd s @ concat (map event_line es)"
  by (induction es arbitrary: s) (auto split: prod.splits simp: split_beta)

text \<open>
  No recent entry is lost: as long as the file operations work, the rotated files and the log together always hold the end
  of everything that was logged, and they hold all of it until 30 MiB are on disk.
\<close>

theorem log_keeps_recent:
  defines "files \<equiv> (\<lambda>es. fst (fold log_step es (\<lambda>_. None, [])))"
  shows "suffix (log_text (files es)) (concat (map event_line es))
    \<and> (log_text (files es) = concat (map event_line es) \<or> 3 * MAX_LOG_FILE_SIZE \<le> length (log_text (files es)))"
proof
  have "log_ok (fold log_step es (\<lambda>_. None, []))" by (rule log.run_init_ok)
  moreover have "snd (fold log_step es (\<lambda>_. None, [])) = concat (map event_line es)"
    by (simp add: log_step_written)
  ultimately have ok: "log_ok (files es, concat (map event_line es))"
    by (metis files_def prod.collapse)
  then show "suffix (log_text (files es)) (concat (map event_line es))" by (simp add: log_ok_def)
  from ok show "log_text (files es) = concat (map event_line es) \<or> 3 * MAX_LOG_FILE_SIZE \<le> length (log_text (files es))"
    by (auto simp: log_ok_def file_ok_def log_text_def opt_or_def split: option.splits)
qed

text \<open>
  A failed rename loses the log: when the log is full and cannot be moved away, it is emptied all the same, and
  everything in it is gone.
\<close>

theorem failed_rename_loses_log:
  assumes "fs 0 = Some c" and "MAX_LOG_FILE_SIZE \<le> length c"
    and "io = io_ok\<lparr>io_rename := (\<lambda>i. i \<noteq> 1)\<rparr>" and "fs 1 = None" and "fs 2 = None" and "fs 3 = None"
  shows "log_text (bot_log_write io stamp ip port reason detail fs) = event_line (stamp, ip, port, reason, detail)"
  using assms
  by (simp add: bot_log_write_def append_line_def rotate_unfold rename_to_def io_ok_def log_text_def opt_or_def)

theorem failed_rename_loses_log_witness:
  "log_text (bot_log_write (io_ok\<lparr>io_rename := (\<lambda>i. i \<noteq> 1)\<rparr>) ''t'' ''1.2.3.4'' 80 ''r'' None
      ((\<lambda>_. None)(0 := Some (replicate MAX_LOG_FILE_SIZE CHR ''a'')))) = event_line (''t'', ''1.2.3.4'', 80, ''r'', None)"
  by (rule failed_rename_loses_log [where c = "replicate MAX_LOG_FILE_SIZE CHR ''a''", OF _ _ refl])
    (simp_all only: fun_upd_same length_replicate fun_upd_apply order_refl, simp_all)

end
