(* ===== verification/CryptoUtils.thy ===== *)
theory CryptoUtils
  imports Kem Identity
begin

text \<open>
  Identity utilities (\<open>crypto-utils/src/lib.rs\<close>, and \<open>blake2b_8_hex\<close> of \<open>protocol/src/pow.rs\<close>): secure deletion, fingerprints, import of keys, trust levels
  and Null IDs. A file is its contents; which file operations work is an argument, because the code returns or ignores
  their errors. Sequoia is the record of \<open>Gpg\<close>, hexadecimal encoding is a parameter.
\<close>

datatype CryptoUtilsError =
    OpenPgp string
  | Io string
  | UtilsInvalidFingerprint string
  | InvalidTrustLevel string

section \<open>Secure deletion\<close>

text \<open>Which operations work; \<open>del_partial k\<close> bytes of the \<open>k\<close>-th write get to the file when it fails.\<close>

record delete_io =
  del_open :: bool
  del_write :: "nat \<Rightarrow> bool"
  del_partial :: "nat \<Rightarrow> nat"
  del_sync :: bool
  del_remove :: bool

text \<open>The loop: \<open>rnd k\<close> are the random bytes of the \<open>k\<close>-th buffer.\<close>

function overwrite_loop :: "delete_io \<Rightarrow> (nat \<Rightarrow> bytes) \<Rightarrow> nat \<Rightarrow> nat \<Rightarrow> nat \<Rightarrow> bytes \<Rightarrow> (CryptoUtilsError + unit) \<times> bytes" where
  "overwrite_loop io rnd k pos remaining file =
     (if remaining = 0 then (Inr (), file)
      else let chunk = min remaining 8192
           in if del_write io k
              then overwrite_loop io rnd (Suc k) (pos + chunk) (remaining - chunk) (copy_at pos (take chunk (rnd k)) file)
              else (Inl (Io ''write''), copy_at pos (take (min chunk (del_partial io k)) (rnd k)) file))"
  by pat_completeness auto
termination by (relation "measure (\<lambda>(io, rnd, k, pos, remaining, file). remaining)") auto

declare overwrite_loop.simps [simp del]

text \<open>The result, the file afterwards, and what its blocks hold at the end, also when the file is unlinked. The first byte is
  zeroed before the loop; that write may fail silently.\<close>

definition secure_delete ::
  "delete_io \<Rightarrow> bool \<Rightarrow> (nat \<Rightarrow> bytes) \<Rightarrow> bytes option \<Rightarrow> (CryptoUtilsError + unit) \<times> bytes option \<times> bytes" where
  "secure_delete io quick rnd file =
     (case file of
        None \<Rightarrow> (Inr (), None, [])
      | Some content \<Rightarrow>
          if content = [] then (Inr (), if del_remove io then None else file, [])
          else if \<not> del_open io then (Inl (Io ''open''), file, content)
          else
            (case overwrite_loop io rnd 0 0 (length content) (if quick then copy_at 0 [0] content else content) of
               (Inl e, content') \<Rightarrow> (Inl e, Some content', content')
             | (Inr _, content') \<Rightarrow>
                 if \<not> del_sync io then (Inl (Io ''sync''), Some content', content')
                 else (Inr (), if del_remove io then None else Some content', content')))"

section \<open>Fingerprints and certificates\<close>

definition remove_spaces :: "string \<Rightarrow> string" where
  "remove_spaces s = filter (\<lambda>c. c \<noteq> CHR '' '') s"

text \<open>\<open>replace("0x", "")\<close> removes every occurrence, from the left.\<close>

fun remove_0x :: "string \<Rightarrow> string" where
  "remove_0x (a # b # r) = (if a = CHR ''0'' \<and> b = CHR ''x'' then remove_0x r else a # remove_0x (b # r))"
| "remove_0x r = r"

definition utils_validate_fingerprint :: "string \<Rightarrow> bool" where
  "utils_validate_fingerprint fp =
     (let cleaned = remove_0x (remove_spaces fp)
      in 32 \<le> length cleaned \<and> length cleaned \<le> 40 \<and> list_all is_ascii_hexdigit cleaned)"

definition fingerprint_from_cert :: "'cert pgp_lib \<Rightarrow> 'cert \<Rightarrow> string" where
  "fingerprint_from_cert P cert = to_uppercase (cert_fingerprint P cert)"

definition parse_cert_armored :: "'cert pgp_lib \<Rightarrow> string \<Rightarrow> CryptoUtilsError + 'cert" where
  "parse_cert_armored P armored = ok_or (OpenPgp ''parse cert'') (cert_from_bytes P (as_bytes armored))"

definition own_cert_path :: string where "own_cert_path = ''.nullnode/gnupg/own_cert.asc''"

definition export_pubkey :: "file_system \<Rightarrow> CryptoUtilsError + string" where
  "export_pubkey fs = ok_or (Io ''read'') (fs own_cert_path)"

definition get_own_fingerprint :: "'cert pgp_lib \<Rightarrow> file_system \<Rightarrow> CryptoUtilsError + string" where
  "get_own_fingerprint P fs =
     bind_result (ok_or (Io ''read'') (fs own_cert_path)) (\<lambda>armored.
     bind_result (parse_cert_armored P armored) (\<lambda>cert. Inr (fingerprint_from_cert P cert)))"

definition cert_path :: "string \<Rightarrow> string" where
  "cert_path safe_fp = ''.nullnode/gnupg/'' @ safe_fp @ ''.asc''"

definition import_pubkey :: "'cert pgp_lib \<Rightarrow> bool \<Rightarrow> string \<Rightarrow> file_system \<Rightarrow> (CryptoUtilsError + string) \<times> file_system" where
  "import_pubkey P writable armored fs =
     (case parse_cert_armored P armored of
        Inl e \<Rightarrow> (Inl e, fs)
      | Inr cert \<Rightarrow>
          let fp = fingerprint_from_cert P cert
          in if \<not> utils_validate_fingerprint fp then (Inl (UtilsInvalidFingerprint fp), fs)
             else let safe_fp = filter is_ascii_hexdigit fp
                  in if writable then (Inr fp, fs(cert_path safe_fp \<mapsto> armored)) else (Inl (Io ''write''), fs))"

text \<open>A pile is the list of its packets; \<open>Some\<close> is the fingerprint of a public-key packet.\<close>

definition get_fingerprint_from_armored :: "(string \<Rightarrow> string + string option list) \<Rightarrow> string \<Rightarrow> CryptoUtilsError + string" where
  "get_fingerprint_from_armored pile_of armored =
     bind_result (map_err OpenPgp (pile_of armored)) (\<lambda>pile.
       case List.find (\<lambda>p. p \<noteq> None) pile of
         Some (Some fp) \<Rightarrow> Inr (to_uppercase fp)
       | _ \<Rightarrow> Inl (OpenPgp ''no public key found in armored data''))"

section \<open>Trust\<close>

definition valid_trusts :: "string list" where
  "valid_trusts = [''ultimate'', ''marginal'', ''never'', ''unknown'']"

definition trust_path :: string where "trust_path = ''.nullnode/gnupg/trust_map.txt''"

definition trust_entry :: "string \<Rightarrow> string \<Rightarrow> string" where
  "trust_entry fingerprint trust_level = to_uppercase fingerprint @ '': '' @ trust_level @ [CHR 0x0A]"

definition set_key_trust :: "bool \<Rightarrow> string \<Rightarrow> string \<Rightarrow> file_system \<Rightarrow> (CryptoUtilsError + unit) \<times> file_system" where
  "set_key_trust writable fingerprint trust_level fs =
     (if \<not> utils_validate_fingerprint fingerprint then (Inl (UtilsInvalidFingerprint fingerprint), fs)
      else if trust_level \<notin> set valid_trusts then (Inl (InvalidTrustLevel trust_level), fs)
      else if \<not> writable then (Inl (Io ''append''), fs)
      else (Inr (), fs(trust_path \<mapsto> opt_or [] (fs trust_path) @ trust_entry fingerprint trust_level)))"

section \<open>Null IDs\<close>

definition blake2b_8_hex :: "'cert pgp_lib \<Rightarrow> (bytes \<Rightarrow> string) \<Rightarrow> string \<Rightarrow> string" where
  "blake2b_8_hex P hex data = hex (blake2b_8 P (as_bytes data))"

definition null_id_from_fingerprint :: "'cert pgp_lib \<Rightarrow> (bytes \<Rightarrow> string) \<Rightarrow> string \<Rightarrow> string" where
  "null_id_from_fingerprint P hex fp =
     (let cleaned = to_lowercase (remove_spaces fp);
          h = blake2b_8_hex P hex cleaned
      in ''NN-'' @ to_uppercase (take 4 h) @ ''-'' @ to_uppercase (take 4 (drop 4 h)))"

section \<open>Deletion leaves nothing\<close>

lemma overwrite_all:
  assumes "\<And>k. del_write io k" and "\<And>k. 8192 \<le> length (rnd k)" and "length f = pos + remaining" and "length g = pos + remaining"
    and "take pos f = take pos g"
  shows "\<exists>h. overwrite_loop io rnd k pos remaining f = (Inr (), h) \<and> overwrite_loop io rnd k pos remaining g = (Inr (), h)
           \<and> length h = pos + remaining"
  using assms(3-5)
proof (induction remaining arbitrary: k pos f g rule: less_induct)
  case (less remaining)
  show ?case
  proof (cases "remaining = 0")
    case True
    with less.prems show ?thesis by (simp add: overwrite_loop.simps)
  next
    case False
    let ?c = "min remaining 8192"
    let ?f = "copy_at pos (take ?c (rnd k)) f" and ?g = "copy_at pos (take ?c (rnd k)) g"
    have chunk: "length (take ?c (rnd k)) = ?c" using assms(2) [of k] by simp
    with False have len: "length ?f = (pos + ?c) + (remaining - ?c)" "length ?g = (pos + ?c) + (remaining - ?c)"
      using less.prems(1,2) by simp_all
    have "take (pos + ?c) ?f = take (pos + ?c) ?g"
      using less.prems chunk by (simp add: copy_at_def)
    from less.IH [OF _ len this, of "Suc k"] False show ?thesis
      using assms(1) by (simp add: overwrite_loop.simps [of io rnd k] Let_def)
  qed
qed

text \<open>
  Secure deletion overwrites everything. When the file operations work, the loop ends, the file is gone, and what its
  blocks hold does not depend on the contents: two files of the same size leave the same random bytes. Nothing is reported
  as an error.
\<close>

theorem secure_delete_overwrites:
  assumes "\<And>k. del_write io k" and "\<And>k. 8192 \<le> length (rnd k)" and "del_open io" and "del_sync io" and "del_remove io"
    and "length secret = length other"
  shows "\<exists>blocks. secure_delete io quick rnd (Some secret) = (Inr (), None, blocks)
           \<and> secure_delete io quick rnd (Some other) = (Inr (), None, blocks) \<and> length blocks = length secret"
proof (cases "secret = []")
  case True
  with assms(6) have "other = []" by simp
  with True assms show ?thesis by (simp add: secure_delete_def)
next
  case False
  let ?f = "if quick then copy_at 0 [0] secret else secret" and ?g = "if quick then copy_at 0 [0] other else other"
  from False assms(6) have ne: "other \<noteq> []" "0 < length other" by auto
  then have len: "length ?f = 0 + length other" "length ?g = 0 + length other"
    using assms(6) by (simp_all add: copy_at_def)
  obtain h where "overwrite_loop io rnd 0 0 (length other) ?f = (Inr (), h)"
    "overwrite_loop io rnd 0 0 (length other) ?g = (Inr (), h)" "length h = length other"
    using overwrite_all [OF assms(1) assms(2) len, of "\<lambda>k. k" 0] by auto
  with False ne assms show ?thesis by (simp add: secure_delete_def)
qed

text \<open>A file that cannot be unlinked is reported as deleted.\<close>

lemma failed_unlink_is_success:
  "secure_delete (io\<lparr>del_remove := False\<rparr>) quick rnd (Some []) = (Inr (), Some [], [])"
  by (simp add: secure_delete_def)

section \<open>Importing keys\<close>

lemma upper_hexdigit: "is_ascii_hexdigit c \<Longrightarrow> is_ascii_hexdigit (ascii_upper c)"
  by (auto simp: is_ascii_hexdigit_def ascii_upper_def char_of_def bit_0)

lemma hexdigit_harmless:
  "is_ascii_hexdigit c \<Longrightarrow> c \<noteq> CHR ''/'' \<and> c \<noteq> CHR ''.'' \<and> c \<noteq> CHR 0x0A \<and> c \<noteq> CHR '':''"
  by (auto simp: is_ascii_hexdigit_def)

text \<open>
  An import touches one file. Whatever the key data, an import either changes nothing and is an error, or it writes the
  armoured key to a file in the key directory whose name consists of hexadecimal digits, and returns the
  fingerprint; in particular the name contains no path separator and no dot.
\<close>

theorem import_pubkey_path_safe:
  "(\<exists>e. import_pubkey P writable armored fs = (Inl e, fs))
   \<or> (\<exists>cert name. cert_from_bytes P (as_bytes armored) = Some cert \<and> list_all is_ascii_hexdigit name
        \<and> CHR ''/'' \<notin> set name \<and> CHR ''.'' \<notin> set name
        \<and> import_pubkey P writable armored fs = (Inr (fingerprint_from_cert P cert), fs(''.nullnode/gnupg/'' @ name @ ''.asc'' \<mapsto> armored)))"
proof (cases "cert_from_bytes P (as_bytes armored)")
  case None
  then show ?thesis by (simp add: import_pubkey_def parse_cert_armored_def ok_or_def)
next
  case (Some cert)
  let ?name = "filter is_ascii_hexdigit (fingerprint_from_cert P cert)"
  have "list_all is_ascii_hexdigit ?name" "CHR ''/'' \<notin> set ?name" "CHR ''.'' \<notin> set ?name"
    using hexdigit_harmless by (auto simp: list_all_iff)
  with Some show ?thesis
    by (auto simp: import_pubkey_def parse_cert_armored_def ok_or_def cert_path_def Let_def)
qed

section \<open>Trust entries\<close>

lemma remove_0x_subset: "set (remove_0x s) \<subseteq> set s"
  by (induction s rule: remove_0x.induct) auto

lemma remove_0x_chars: "c \<in> set s \<Longrightarrow> c \<notin> set (remove_0x s) \<Longrightarrow> c \<in> set ''0x''"
  by (induction s rule: remove_0x.induct) (auto split: if_splits)

lemma valid_fingerprint_chars:
  assumes "utils_validate_fingerprint fp" and "c \<in> set fp"
  shows "is_ascii_hexdigit c \<or> c = CHR '' '' \<or> c = CHR ''x''"
proof (cases "c \<in> set (remove_0x (remove_spaces fp))")
  case True
  with assms(1) show ?thesis by (simp add: utils_validate_fingerprint_def list_all_iff Let_def)
next
  case False
  then have "c = CHR '' '' \<or> c \<in> set ''0x''"
    using assms(2) remove_0x_chars [of c "remove_spaces fp"] by (auto simp: remove_spaces_def)
  then show ?thesis by (auto simp: is_ascii_hexdigit_def)
qed

lemma trust_entry_line:
  assumes "utils_validate_fingerprint fp"
  shows "CHR 0x0A \<notin> set (to_uppercase fp) \<and> CHR '':'' \<notin> set (to_uppercase fp)"
proof -
  have "ascii_upper c \<noteq> CHR 0x0A \<and> ascii_upper c \<noteq> CHR '':''" if "c \<in> set fp" for c
    using valid_fingerprint_chars [OF assms that] upper_hexdigit [of c] hexdigit_harmless [of "ascii_upper c"]
    by (auto simp: ascii_upper_def char_of_def bit_0)
  then show ?thesis unfolding to_uppercase_def by (simp add: image_iff) metis
qed

text \<open>
  Trust levels: an entry is appended exactly for a valid fingerprint, a known level and a file that can be written, and
  otherwise nothing changes. The entry is one line, in which the first colon separates the fingerprint from the level,
  so entries cannot be forged through the fingerprint.
\<close>

theorem set_key_trust_exact:
  "set_key_trust writable fp level fs =
     (if utils_validate_fingerprint fp \<and> level \<in> {''ultimate'', ''marginal'', ''never'', ''unknown''} \<and> writable
      then (Inr (), fs(trust_path \<mapsto> opt_or [] (fs trust_path) @ to_uppercase fp @ '': '' @ level @ [CHR 0x0A]))
      else (Inl (if \<not> utils_validate_fingerprint fp then UtilsInvalidFingerprint fp
                 else if level \<notin> {''ultimate'', ''marginal'', ''never'', ''unknown''} then InvalidTrustLevel level
                 else Io ''append''), fs))"
  "\<not> utils_validate_fingerprint fp \<or> CHR 0x0A \<notin> set (to_uppercase fp) \<and> CHR '':'' \<notin> set (to_uppercase fp)"
  using trust_entry_line [of fp] by (auto simp: set_key_trust_def valid_trusts_def trust_entry_def)

section \<open>Two kinds of Null IDs\<close>

text \<open>The text that hexadecimal encoding gives: lower-case digits, two for each byte.\<close>

definition hex_digits :: "(bytes \<Rightarrow> string) \<Rightarrow> bool" where
  "hex_digits hex \<longleftrightarrow> (\<forall>b. length (hex b) = 2 * length b \<and> set (hex b) \<subseteq> set ''0123456789abcdef'')"

text \<open>
  The Null ID of this crate is not the one that the DHT and the ratchet derive from the same fingerprint: they can
  agree only if the first eight base64 characters are all upper-case hexadecimal digits.
\<close>

theorem null_ids_disagree:
  assumes "null_id_lib P" and "hex_digits hex" and "c \<in> set (null_id_text P fp)" and "c \<notin> set ''0123456789ABCDEF''"
  shows "null_id_from_fingerprint P hex fp \<noteq> compute_null_id P fp"
proof
  assume eq: "null_id_from_fingerprint P hex fp = compute_null_id P fp"
  let ?h = "blake2b_8_hex P hex (to_lowercase (remove_spaces fp))" and ?b = "null_id_text P fp"
  have h: "length ?h = 16" "set ?h \<subseteq> set ''0123456789abcdef''"
    using assms(1,2) by (simp_all add: blake2b_8_hex_def hex_digits_def null_id_lib_def)
  have b: "length ?b = 8"
    using assms(1) by (rule null_id_slices(1))
  have "to_uppercase (take 4 ?h) = take 4 ?b \<and> to_uppercase (take 4 (drop 4 ?h)) = take 4 (drop 4 ?b)"
    using eq h(1) b by (simp add: null_id_from_fingerprint_def compute_null_id_def to_uppercase_def Let_def)
  then have "?b = to_uppercase (take 8 ?h)"
    using b h(1) by (metis (no_types, lifting) append_take_drop_id map_append to_uppercase_def take_add numeral_Bit0 take_all le_refl)
  then have "c \<in> ascii_upper ` set ''0123456789abcdef''"
    using assms(3) h(2) by (auto simp: to_uppercase_def dest: in_set_takeD)
  then show False using assms(4) by (auto simp: ascii_upper_def char_of_def bit_0)
qed

section \<open>Witnesses\<close>

theorem secure_delete_overwrites_witness:
  "\<exists>blocks. secure_delete \<lparr>del_open = True, del_write = (\<lambda>_. True), del_partial = (\<lambda>_. 0), del_sync = True, del_remove = True\<rparr>
       True (\<lambda>_. replicate 8192 7) (Some [1, 2, 3]) = (Inr (), None, blocks)
     \<and> secure_delete \<lparr>del_open = True, del_write = (\<lambda>_. True), del_partial = (\<lambda>_. 0), del_sync = True, del_remove = True\<rparr>
       True (\<lambda>_. replicate 8192 7) (Some [4, 5, 6]) = (Inr (), None, blocks) \<and> length blocks = length [1 :: u8, 2, 3]"
  by (rule secure_delete_overwrites) simp_all

theorem set_key_trust_exact_witness:
  "set_key_trust True (replicate 40 CHR ''a'') ''never'' Map.empty =
     (Inr (), [trust_path \<mapsto> to_uppercase (replicate 40 CHR ''a'') @ '': '' @ ''never'' @ [CHR 0x0A]])
   \<and> CHR 0x0A \<notin> set (to_uppercase (replicate 40 CHR ''a''))"
proof -
  have "remove_0x (replicate n CHR ''a'') = replicate n CHR ''a''" for n
    by (induction n rule: induct_nat_012) simp_all
  then have "utils_validate_fingerprint (replicate 40 CHR ''a'')"
    by (simp add: utils_validate_fingerprint_def remove_spaces_def list_all_iff is_ascii_hexdigit_def)
  then show ?thesis
    using set_key_trust_exact(1) [of True "replicate 40 CHR ''a''" "''never''" Map.empty]
      set_key_trust_exact(2) [of "replicate 40 CHR ''a''"] by (simp add: opt_or_def)
qed

theorem null_ids_disagree_witness:
  "null_id_from_fingerprint toy_pgp (\<lambda>b. replicate (2 * length b) CHR ''0'') ''F'' \<noteq> compute_null_id toy_pgp ''F''"
  by (rule null_ids_disagree [OF toy_null_id_lib, where c = "CHR ''G''"])
    (auto simp: hex_digits_def toy_pgp_def null_id_text_def trim_end_matches_def)

end
