(* ===== verification/ClientRelay.thy ===== *)
theory ClientRelay
  imports ClientDb CryptoUtils
begin

text \<open>
  Messages through a relay, on the client's side (\<open>client/src/main.rs\<close>): the ML-KEM keys that are derived from Null IDs, sending
  (\<open>send_via_relay\<close>), fetching (\<open>relay_fetch\<close>) and decrypting (\<open>relay_decrypt_message\<close>). SHA-256 is the parameter \<open>H\<close>; signing,
  the armoured certificate, random bytes, time and the outcome of each I/O operation are arguments in the record
  \<open>client_io\<close>; the WebSocket is the list of frames that it delivers. Error texts are abbreviated.
\<close>

section \<open>Keys derived from Null IDs\<close>

definition KYBER_KEY_PATH :: string where "KYBER_KEY_PATH = ''.nullnode/kyber_key.json''"

definition kyber_seed :: "(bytes \<Rightarrow> bytes) \<Rightarrow> crypto_lib \<Rightarrow> string \<Rightarrow> string + bytes" where
  "kyber_seed H L nid =
     ok_or ''HKDF expand failed'' (hkdf_expand L (H (as_bytes nid)) (as_bytes ''nullnode-sealed-sender-kyber-seed'') 64)"

definition derived_keypair :: "(bytes \<Rightarrow> bytes) \<Rightarrow> crypto_lib \<Rightarrow> string \<Rightarrow> string + MlKem1024Keypair" where
  "derived_keypair H L nid =
     bind_result (kyber_seed H L nid) (\<lambda>seed. map_err (\<lambda>_. ''kyber keypair from seed'') (from_seed L seed))"

definition lookup_kyber_for_nid :: "(bytes \<Rightarrow> bytes) \<Rightarrow> crypto_lib \<Rightarrow> string \<Rightarrow> string + bytes" where
  "lookup_kyber_for_nid H L nid = bind_result (derived_keypair H L nid) (\<lambda>kp. Inr (kp_enc kp))"

definition load_or_generate_kyber ::
  "(bytes \<Rightarrow> bytes) \<Rightarrow> crypto_lib \<Rightarrow> bool \<Rightarrow> bytes \<Rightarrow> string \<Rightarrow> MessageStore \<Rightarrow> file_system \<Rightarrow> (string + MlKem1024Keypair) \<times> file_system" where
  "load_or_generate_kyber H L writable nonce nid S fs =
     (if fs KYBER_KEY_PATH \<noteq> None
      then (map_err (\<lambda>_. ''kyber keypair load failed'') (load L KYBER_KEY_PATH (ms_db_key S) fs), fs)
      else
        (case derived_keypair H L nid of
           Inl e \<Rightarrow> (Inl e, fs)
         | Inr kp \<Rightarrow>
             (case save L writable nonce kp KYBER_KEY_PATH (ms_db_key S) fs of
                (Inl _, fs') \<Rightarrow> (Inl ''kyber keypair save failed'', fs')
              | (Inr _, fs') \<Rightarrow> (Inr kp, fs'))))"

section \<open>Sending\<close>

record client_identity =
  id_fingerprint :: string
  id_null_id :: string

text \<open>The codec of sessions (serde), and what the outside world does in one operation.\<close>

record session_codec =
  sess_print :: "RatchetState \<Rightarrow> string option"
  sess_read :: "string \<Rightarrow> RatchetState option"

record client_io =
  io_connect :: bool
  io_kyber_writable :: bool
  io_kyber_nonce :: bytes
  io_kem_rnd :: bytes
  io_msg_rnd :: bytes
  io_msg_nonce :: bytes
  io_pad :: bytes
  io_nonce :: int
  io_ts :: f64
  io_show_ts :: string
  io_uuid :: string
  io_sign :: "string \<Rightarrow> string + string"
  io_cert :: "string + string"
  io_send :: bool
  io_sql_load :: bool
  io_sql_save :: bool
  io_db_nonce :: bytes
  io_db_time :: string

datatype ws_frame = FText string | FPing | FClose | FOther | FError

text \<open>A loaded session, or a new one with the ciphertext and the secret of the key exchange.\<close>

definition sender_session ::
  "crypto_lib \<Rightarrow> session_codec \<Rightarrow> client_io \<Rightarrow> client_identity \<Rightarrow> string \<Rightarrow> string \<Rightarrow> bytes \<Rightarrow> MessageStore
    \<Rightarrow> string + (RatchetState \<times> bytes option)" where
  "sender_session L C io identity recipient_nid recipient_fp recipient_kyber S =
     bind_result (load_session L (io_sql_load io) recipient_nid S) (\<lambda>session_json.
       case session_json of
         Some json \<Rightarrow> bind_result (ok_or ''ratchet load'' (sess_read C json)) (\<lambda>session. Inr (session, None))
       | None \<Rightarrow>
           bind_result (map_err (\<lambda>_. ''kyber encapsulate'') (encapsulate L (io_kem_rnd io) recipient_kyber)) (\<lambda>(ct, shared_secret).
           bind_result (map_err (\<lambda>_. ''ratchet init'')
               (session_new L recipient_fp recipient_nid (id_fingerprint identity) True shared_secret)) (\<lambda>session.
             Inr (session, Some ct))))"

definition seal_message ::
  "crypto_lib \<Rightarrow> client_io \<Rightarrow> bytes \<Rightarrow> string \<Rightarrow> RatchetState \<times> bytes option \<Rightarrow> (string + bytes) \<times> RatchetState" where
  "seal_message L io recipient_kyber padded st =
     (case st of
        (session, Some _) \<Rightarrow>
          (case encrypt_first L (io_msg_nonce io) padded session of (r, s') \<Rightarrow> (map_err (\<lambda>_. ''ratchet encrypt_first'') r, s'))
      | (session, None) \<Rightarrow>
          (case encrypt_message L (io_msg_rnd io) (io_msg_nonce io) padded recipient_kyber session of
             (r, s') \<Rightarrow> (map_err (\<lambda>_. ''ratchet encrypt'') r, s')))"

definition relay_envelope :: "(bytes \<Rightarrow> bytes) \<Rightarrow> crypto_lib \<Rightarrow> bytes \<Rightarrow> bytes option \<Rightarrow> json" where
  "relay_envelope H L ciphertext kyber_ct =
     JObj ([(''type'', JStr ''p2p-message''), (''seq'', JInt 1), (''ciphertext'', JStr (b64enc L ciphertext)),
            (''msg_hash'', JStr (hex_encode L (H ciphertext)))]
           @ (case kyber_ct of None \<Rightarrow> [] | Some ct \<Rightarrow> [(''kyber_ciphertext'', JStr (hex_encode L ct))]))"

definition store_signing_text :: "client_identity \<Rightarrow> string \<Rightarrow> client_io \<Rightarrow> string" where
  "store_signing_text identity recipient_nid io =
     recipient_nid @ ''|'' @ id_null_id identity @ ''|'' @ id_fingerprint identity @ ''|'' @ ''1'' @ ''|'' @ io_show_ts io
       @ ''|'' @ show_int (io_nonce io)"

definition store_request_json :: "client_identity \<Rightarrow> string \<Rightarrow> client_io \<Rightarrow> string \<Rightarrow> string \<Rightarrow> string \<Rightarrow> json" where
  "store_request_json identity recipient_nid io blob signature cert =
     JObj [(''msg_type'', JStr ''relay-store''), (''msg_id'', JStr (io_uuid io)), (''ts'', JFloat (io_ts io)),
           (''payload'', JObj
             [(''recipient_nid'', JStr recipient_nid), (''signed_blob'', JStr blob), (''sender_nid'', JStr (id_null_id identity)),
              (''sender_fp'', JStr (id_fingerprint identity)), (''sender_cert'', JStr cert), (''seq'', JInt 1),
              (''timestamp'', JFloat (io_ts io)), (''nonce'', JStr (show_int (io_nonce io))), (''sender_sig'', JStr signature),
              (''sealed_sender'', JStr [])])]"

text \<open>The wait for the answer: other frames are skipped, the end of the stream is an error.\<close>

fun relay_reply :: "crypto_lib \<Rightarrow> ws_frame list \<Rightarrow> string + unit" where
  "relay_reply L [] = Inl ''no response from relay''"
| "relay_reply L (FText resp # _) =
     bind_result (ok_or ''json'' (json_parse L resp)) (\<lambda>v.
       if json_get v ''ok'' = Some (JBool True) then Inr () else Inl (''relay error: '' @ resp))"
| "relay_reply L (FError # _) = Inl ''relay websocket error''"
| "relay_reply L (FPing # fs) = relay_reply L fs"
| "relay_reply L (FClose # fs) = relay_reply L fs"
| "relay_reply L (FOther # fs) = relay_reply L fs"

text \<open>What is sent, and the session after it, when everything before the answer works.\<close>

definition prepare_relay_message ::
  "(bytes \<Rightarrow> bytes) \<Rightarrow> crypto_lib \<Rightarrow> session_codec \<Rightarrow> client_io \<Rightarrow> client_identity \<Rightarrow> string \<Rightarrow> string \<Rightarrow> string \<Rightarrow> MessageStore
    \<Rightarrow> string + (json \<times> string \<times> RatchetState)" where
  "prepare_relay_message H L C io identity recipient_nid recipient_fp message S =
     bind_result (lookup_kyber_for_nid H L recipient_nid) (\<lambda>recipient_kyber.
     bind_result (sender_session L C io identity recipient_nid recipient_fp recipient_kyber S) (\<lambda>st.
     bind_result (ok_or ''panic'' (pad_message_bucket L (io_pad io) message)) (\<lambda>padded.
       case seal_message L io recipient_kyber padded st of
         (Inl e, _) \<Rightarrow> Inl e
       | (Inr ciphertext, session) \<Rightarrow>
           bind_result (io_sign io (store_signing_text identity recipient_nid io)) (\<lambda>signature.
           bind_result (io_cert io) (\<lambda>cert.
             let blob = json_print L (relay_envelope H L ciphertext (snd st))
             in Inr (store_request_json identity recipient_nid io blob signature cert, blob, session))))))"

definition send_via_relay ::
  "(bytes \<Rightarrow> bytes) \<Rightarrow> crypto_lib \<Rightarrow> session_codec \<Rightarrow> client_io \<Rightarrow> ws_frame list \<Rightarrow> client_identity \<Rightarrow> string \<Rightarrow> string \<Rightarrow> string
    \<Rightarrow> MessageStore \<Rightarrow> file_system \<Rightarrow> (string + unit) \<times> json list \<times> MessageStore \<times> file_system" where
  "send_via_relay H L C io frames identity recipient_nid recipient_fp message S fs =
     (if \<not> io_connect io then (Inl ''Relay connect failed'', [], S, fs)
      else
        (case load_or_generate_kyber H L (io_kyber_writable io) (io_kyber_nonce io) (id_null_id identity) S fs of
           (Inl e, fs') \<Rightarrow> (Inl e, [], S, fs')
         | (Inr _, fs') \<Rightarrow>
             (case prepare_relay_message H L C io identity recipient_nid recipient_fp message S of
                Inl e \<Rightarrow> (Inl e, [], S, fs')
              | Inr (req, blob, session) \<Rightarrow>
                  if \<not> io_send io then (Inl ''relay-store send failed'', [], S, fs')
                  else
                    (case relay_reply L frames of
                       Inl e \<Rightarrow> (Inl e, [req], S, fs')
                     | Inr _ \<Rightarrow>
                         (case sess_print C session of
                            None \<Rightarrow> (Inl ''ratchet serialize'', [req], S, fs')
                          | Some session_json \<Rightarrow>
                              (case save_session L (io_sql_save io) (io_db_nonce io) (io_db_time io) recipient_nid session_json S of
                                 (Inl e, S') \<Rightarrow> (Inl ''ratchet save'', [req], S', fs')
                               | (Inr _, S') \<Rightarrow> (Inr (), [req], S', fs')))))))"

section \<open>Receiving\<close>

definition str_at :: "json \<Rightarrow> string \<Rightarrow> string option" where
  "str_at j k = Option.bind (json_get j k) as_str"

text \<open>The session of the sender, or a new one from the key exchange in the message.\<close>

definition receiver_session ::
  "crypto_lib \<Rightarrow> session_codec \<Rightarrow> bool \<Rightarrow> string \<Rightarrow> string \<Rightarrow> string \<Rightarrow> string option \<Rightarrow> MlKem1024Keypair \<Rightarrow> MessageStore
    \<Rightarrow> string + RatchetState" where
  "receiver_session L C sql_ok nid sender_fp our_fingerprint kyber_ct_hex our_kyber S =
     bind_result (load_session L sql_ok nid S) (\<lambda>session_json.
       case session_json of
         Some json \<Rightarrow> ok_or ''ratchet deserialize'' (sess_read C json)
       | None \<Rightarrow>
           (case kyber_ct_hex of
              None \<Rightarrow> Inl ''no ratchet session for sender''
            | Some kyber_ct \<Rightarrow>
                bind_result (ok_or ''kyber_ct hex decode'' (hex_decode L kyber_ct)) (\<lambda>kyber_ct_bytes.
                  if length kyber_ct_bytes \<noteq> 1568 then Inl ''kyber_ct parse''
                  else
                    bind_result (map_err (\<lambda>_. ''kyber decapsulate'') (decapsulate L our_kyber kyber_ct_bytes)) (\<lambda>shared_secret.
                      map_err (\<lambda>_. ''ratchet init'') (session_new L sender_fp nid our_fingerprint False shared_secret)))))"

text \<open>\<open>sql_load\<close> and \<open>sql_save\<close> are the outcomes of the two statements, \<open>blake\<close> is the hash of Null IDs.\<close>

definition relay_decrypt_message ::
  "(bytes \<Rightarrow> bytes) \<Rightarrow> crypto_lib \<Rightarrow> session_codec \<Rightarrow> (bytes \<Rightarrow> string) \<Rightarrow> bool \<Rightarrow> bool \<Rightarrow> bytes \<Rightarrow> string \<Rightarrow> string \<Rightarrow> string \<Rightarrow> string \<Rightarrow> string
    \<Rightarrow> MlKem1024Keypair \<Rightarrow> MessageStore \<Rightarrow> (string + string) \<times> MessageStore" where
  "relay_decrypt_message blake L C lossy sql_load sql_save db_nonce db_time signed_blob sender_nid sender_fp our_fingerprint our_kyber S =
     (case json_parse L signed_blob of
        None \<Rightarrow> (Inl ''parse signed_blob'', S)
      | Some env \<Rightarrow>
          let nid = (if sender_nid = [] \<and> sender_fp \<noteq> [] then null_id blake L sender_fp else sender_nid)
          in if nid = [] then (Inl ''relay message has no sender identification'', S)
             else
               (case str_at env ''ciphertext'' of
                  None \<Rightarrow> (Inl ''no ciphertext in relay message'', S)
                | Some ciphertext \<Rightarrow>
                    (case receiver_session L C sql_load nid sender_fp our_fingerprint (str_at env ''kyber_ciphertext'') our_kyber S of
                       Inl e \<Rightarrow> (Inl e, S)
                     | Inr session \<Rightarrow>
                         (case decrypt_message L ciphertext our_kyber session of
                            (Inl _, _) \<Rightarrow> (Inl ''ratchet decrypt'', S)
                          | (Inr padded_plaintext, session') \<Rightarrow>
                              (case unpad_message_bucket L lossy padded_plaintext of
                                 Inl e \<Rightarrow> (Inl e, S)
                               | Inr plaintext \<Rightarrow>
                                   (case sess_print C session' of
                                      None \<Rightarrow> (Inl ''ratchet re-serialize'', S)
                                    | Some updated_json \<Rightarrow>
                                        (case save_session L sql_save db_nonce db_time nid updated_json S of
                                           (Inl _, S') \<Rightarrow> (Inl ''ratchet re-save'', S')
                                         | (Inr _, S') \<Rightarrow> (Inr plaintext, S'))))))))"

text \<open>The entries of an answer, one after the other: an entry without a blob is skipped, one that cannot be decrypted is
  reported and skipped. The nonces of the stored sessions are an argument per entry.\<close>

fun decrypt_entries ::
  "(string \<Rightarrow> string \<Rightarrow> string \<Rightarrow> bytes \<Rightarrow> MessageStore \<Rightarrow> (string + string) \<times> MessageStore) \<Rightarrow> json list \<Rightarrow> bytes list \<Rightarrow> MessageStore
    \<Rightarrow> string list \<times> MessageStore" where
  "decrypt_entries decrypt [] nonces S = ([], S)"
| "decrypt_entries decrypt (entry # entries) nonces S =
     (case str_at entry ''signed_blob'' of
        None \<Rightarrow> decrypt_entries decrypt entries nonces S
      | Some blob \<Rightarrow>
          (case decrypt blob (opt_or [] (str_at entry ''sender_nid'')) (opt_or [] (str_at entry ''sender_fp''))
                  (case nonces of [] \<Rightarrow> replicate 12 0 | n # _ \<Rightarrow> n) S of
             (Inl _, S') \<Rightarrow> decrypt_entries decrypt entries (tl nonces) S'
           | (Inr plaintext, S') \<Rightarrow>
               (case decrypt_entries decrypt entries (tl nonces) S' of (ps, S'') \<Rightarrow> (plaintext # ps, S''))))"

fun fetch_reply :: "ws_frame list \<Rightarrow> string + string" where
  "fetch_reply [] = Inl ''Relay closed connection without response''"
| "fetch_reply (FText t # _) = Inr t"
| "fetch_reply (FError # _) = Inl ''Relay websocket error''"
| "fetch_reply (FPing # fs) = fetch_reply fs"
| "fetch_reply (FClose # fs) = fetch_reply fs"
| "fetch_reply (FOther # fs) = fetch_reply fs"

definition fetch_request_json :: "client_identity \<Rightarrow> string \<Rightarrow> client_io \<Rightarrow> string \<Rightarrow> string \<Rightarrow> string \<Rightarrow> json" where
  "fetch_request_json identity our_nid io nonce signature cert =
     JObj [(''msg_type'', JStr ''relay-fetch''), (''msg_id'', JStr (io_uuid io)), (''ts'', JFloat (io_ts io)), (''sig'', JStr []),
           (''payload'', JObj
             [(''recipient_nid'', JStr our_nid), (''requester_fp'', JStr (id_fingerprint identity)), (''sender_sig'', JStr signature),
              (''sender_cert'', JStr cert), (''timestamp'', JFloat (io_ts io)), (''nonce'', JStr nonce), (''auth_hmac'', JStr [])])]"

definition answer_entries :: "json \<Rightarrow> string + json list option" where
  "answer_entries resp =
     (case str_at resp ''error'' of
        Some e \<Rightarrow> Inl (''Relay error: '' @ e)
      | None \<Rightarrow>
          Inr (Option.bind (json_get resp ''data'') (\<lambda>d. Option.bind (as_object d) (\<lambda>m. Option.bind (m ''entries'') as_array))))"

text \<open>The key pair is loaded twice, before and after the request is sent.\<close>

definition relay_fetch ::
  "(bytes \<Rightarrow> bytes) \<Rightarrow> (bytes \<Rightarrow> bytes) \<Rightarrow> crypto_lib \<Rightarrow> session_codec \<Rightarrow> (bytes \<Rightarrow> string) \<Rightarrow> client_io \<Rightarrow> string \<Rightarrow> bytes list
    \<Rightarrow> ws_frame list \<Rightarrow> string + client_identity \<Rightarrow> string \<Rightarrow> MessageStore \<Rightarrow> file_system
    \<Rightarrow> (string + string list) \<times> MessageStore \<times> file_system" where
  "relay_fetch H blake L C lossy io nonce db_nonces frames load_identity our_nid S fs =
     (if \<not> io_connect io then (Inl ''Relay connect failed'', S, fs)
      else
        (case load_identity of
           Inl e \<Rightarrow> (Inl e, S, fs)
         | Inr identity \<Rightarrow>
             (case load_or_generate_kyber H L (io_kyber_writable io) (io_kyber_nonce io) our_nid S fs of
                (Inl e, fs') \<Rightarrow> (Inl e, S, fs')
              | (Inr _, fs') \<Rightarrow>
                  (case bind_result (io_cert io) (\<lambda>cert.
                          bind_result (io_sign io (''relay-fetch:'' @ our_nid @ '':'' @ io_show_ts io @ '':'' @ nonce)) (\<lambda>signature.
                            if io_send io then Inr (fetch_request_json identity our_nid io nonce signature cert)
                            else Inl ''Relay send failed'')) of
                     Inl e \<Rightarrow> (Inl e, S, fs')
                   | Inr request \<Rightarrow>
                       (case load_or_generate_kyber H L (io_kyber_writable io) (io_kyber_nonce io) our_nid S fs' of
                          (Inl e, fs'') \<Rightarrow> (Inl e, S, fs'')
                        | (Inr our_kyber, fs'') \<Rightarrow>
                            (case bind_result (fetch_reply frames) (\<lambda>t.
                                    bind_result (ok_or ''json'' (json_parse L t)) answer_entries) of
                               Inl e \<Rightarrow> (Inl e, S, fs'')
                             | Inr None \<Rightarrow> (Inr [], S, fs'')
                             | Inr (Some entries) \<Rightarrow>
                                 (case decrypt_entries (\<lambda>blob nid fp n S.
                                          relay_decrypt_message blake L C lossy (io_sql_load io) (io_sql_save io) n (io_db_time io)
                                            blob nid fp (id_fingerprint identity) our_kyber S) entries db_nonces S of
                                    (result, S') \<Rightarrow> (Inr result, S', fs''))))))))"

definition purge_request_json :: "client_identity \<Rightarrow> string \<Rightarrow> client_io \<Rightarrow> string \<Rightarrow> string \<Rightarrow> json" where
  "purge_request_json identity our_nid io nonce signature =
     JObj [(''type'', JStr ''relay-purge''), (''recipient_nid'', JStr our_nid), (''requester_fp'', JStr (id_fingerprint identity)),
           (''sender_sig'', JStr signature), (''timestamp'', JFloat (io_ts io)), (''nonce'', JStr nonce), (''auth_hmac'', JStr [])]"

text \<open>The purge: what is sent; an answer that is not JSON is the only error after it.\<close>

definition relay_purge ::
  "crypto_lib \<Rightarrow> client_io \<Rightarrow> string \<Rightarrow> string option \<Rightarrow> string + client_identity \<Rightarrow> string \<Rightarrow> (string + unit) \<times> json list" where
  "relay_purge L io nonce answer load_identity our_nid =
     (if \<not> io_connect io then (Inl ''Relay connect failed for purge'', [])
      else
        (case load_identity of
           Inl e \<Rightarrow> (Inl e, [])
         | Inr identity \<Rightarrow>
             (case io_sign io (''relay-purge:'' @ our_nid @ '':'' @ io_show_ts io @ '':'' @ nonce) of
                Inl e \<Rightarrow> (Inl e, [])
              | Inr signature \<Rightarrow>
                  if \<not> io_send io then (Inl ''Relay purge send failed'', [])
                  else (case answer of
                          None \<Rightarrow> Inr ()
                        | Some t \<Rightarrow> bind_result (ok_or ''json'' (json_parse L t)) (\<lambda>_. Inr ()),
                        [purge_request_json identity our_nid io nonce signature]))))"

end
