(* ===== verification/ClientConversation.thy ===== *)
theory ClientConversation
  imports ClientRelay
begin

text \<open>
  Two clients that write to each other through a relay (the composition of \<open>ClientRelay\<close>, \<open>ClientDb\<close>, \<open>Padding\<close>, \<open>Kem\<close> and
  \<open>RatchetSession\<close>): each client keeps its own database and key file, the relay keeps the order of what it stores. The abstract
  specification is a pair of queues of texts.
\<close>

section \<open>The system\<close>

record relay_world =
  w_sha :: "bytes \<Rightarrow> bytes"
  w_blake :: "bytes \<Rightarrow> bytes"
  w_lib :: crypto_lib
  w_codec :: session_codec
  w_lossy :: "bytes \<Rightarrow> string"
  w_ident :: "bool \<Rightarrow> client_identity"
  w_frames :: "ws_frame list"

abbreviation w_nid :: "relay_world \<Rightarrow> bool \<Rightarrow> string" where "w_nid W p \<equiv> id_null_id (w_ident W p)"
abbreviation w_fp :: "relay_world \<Rightarrow> bool \<Rightarrow> string" where "w_fp W p \<equiv> id_fingerprint (w_ident W p)"

text \<open>What the relay keeps of a request: the blob and the sender's two names.\<close>

definition stored_entry :: "json \<Rightarrow> string \<times> string \<times> string" where
  "stored_entry req =
     (let pl = opt_or JNull (json_get req ''payload'')
      in (opt_or [] (str_at pl ''signed_blob''), opt_or [] (str_at pl ''sender_nid''), opt_or [] (str_at pl ''sender_fp'')))"

datatype client_event = RSend bool client_io string | RRecv bool client_io

type_synonym relay_chat =
  "(bool \<Rightarrow> MessageStore) \<times> (bool \<Rightarrow> file_system) \<times> (bool \<Rightarrow> json list) \<times> (bool \<times> (string + string)) list"

fun relay_chat_step :: "relay_world \<Rightarrow> client_event \<Rightarrow> relay_chat \<Rightarrow> relay_chat" where
  "relay_chat_step W (RSend p io message) (S, fs, q, out) =
     (case send_via_relay (w_sha W) (w_lib W) (w_codec W) io (w_frames W) (w_ident W p) (w_nid W (\<not> p)) (w_fp W (\<not> p)) message
             (S p) (fs p) of
        (_, reqs, S', fs') \<Rightarrow> (S(p := S'), fs(p := fs'), q(p := q p @ reqs), out))"
| "relay_chat_step W (RRecv p io) (S, fs, q, out) =
     (case q (\<not> p) of
        [] \<Rightarrow> (S, fs, q, out)
      | req # rest \<Rightarrow>
          (case load_or_generate_kyber (w_sha W) (w_lib W) (io_kyber_writable io) (io_kyber_nonce io) (w_nid W p) (S p) (fs p) of
             (Inl e, fs') \<Rightarrow> (S, fs(p := fs'), q, out)
           | (Inr our_kyber, fs') \<Rightarrow>
               (case stored_entry req of
                  (blob, nid, fp) \<Rightarrow>
                    (case relay_decrypt_message (w_blake W) (w_lib W) (w_codec W) (w_lossy W) (io_sql_load io) (io_sql_save io)
                            (io_db_nonce io) (io_db_time io) blob nid fp (w_fp W p) our_kyber (S p) of
                       (r, S') \<Rightarrow> (S(p := S'), fs(p := fs'), q(\<not> p := rest), out @ [(p, r)])))))"

text \<open>The specification: a queue of texts for each direction.\<close>

type_synonym text_queues = "(bool \<Rightarrow> string list) \<times> (bool \<times> string) list"

fun queue_step :: "client_event \<Rightarrow> text_queues \<Rightarrow> text_queues" where
  "queue_step (RSend p io message) (q, out) = (q(p := q p @ [message]), out)"
| "queue_step (RRecv p io) (q, out) =
     (case q (\<not> p) of [] \<Rightarrow> (q, out) | m # rest \<Rightarrow> (q(\<not> p := rest), out @ [(p, m)]))"

section \<open>What is assumed\<close>

text \<open>Sessions of Rust strings whose JSON text is within the cipher's limit, and the codec (serde) on them.\<close>

definition session_small :: "RatchetState \<Rightarrow> bool" where
  "session_small s \<longleftrightarrow> length (rs_peer_fp s) + length (rs_peer_nid s) + length (rs_our_fp s) \<le> 2 ^ 20
     \<and> length (rs_root_key s) = 32 \<and> length (rs_send_chain_key s) = 32 \<and> length (rs_recv_chain_key s) = 32
     \<and> list_all (\<lambda>t. utf8_valid (as_bytes t)) [rs_peer_fp s, rs_peer_nid s, rs_our_fp s] \<and> rs_skipped_keys s = Map.empty"

definition codec_laws :: "session_codec \<Rightarrow> bool" where
  "codec_laws C \<longleftrightarrow> (\<forall>s. session_small s \<longrightarrow> (\<exists>t. sess_print C s = Some t \<and> db_text t \<and> sess_read C t = Some s))"

definition hex_laws :: "crypto_lib \<Rightarrow> bool" where
  "hex_laws L \<longleftrightarrow> (\<forall>bs. length (hex_encode L bs) = 2 * length bs \<and> list_all (\<lambda>c. of_char c < (128 :: nat)) (hex_encode L bs))"

definition world_ok :: "relay_world \<Rightarrow> bool" where
  "world_ok W \<longleftrightarrow> crypto_laws (w_lib W) \<and> hex_laws (w_lib W) \<and> codec_laws (w_codec W) \<and> lossy_laws (w_lossy W)
     \<and> relay_reply (w_lib W) (w_frames W) = Inr ()
     \<and> (\<forall>p. w_nid W p \<noteq> []) \<and> (\<forall>p. length (w_nid W p) \<le> 2 ^ 18 \<and> length (w_fp W p) \<le> 2 ^ 18)
     \<and> (\<forall>p. utf8_valid (as_bytes (w_nid W p)) \<and> utf8_valid (as_bytes (w_fp W p)))"

text \<open>An operation in which the network, the disk and the signing key work, with random bytes of the right lengths.\<close>

definition operation_ok :: "client_io \<Rightarrow> bool" where
  "operation_ok io \<longleftrightarrow> io_connect io \<and> io_kyber_writable io \<and> io_send io \<and> io_sql_load io \<and> io_sql_save io
     \<and> length (io_kyber_nonce io) = 12 \<and> length (io_msg_nonce io) = 12 \<and> length (io_db_nonce io) = 12
     \<and> (\<forall>t. \<exists>s. io_sign io t = Inr s) \<and> (\<exists>c. io_cert io = Inr c)"

definition pad_len :: "string \<Rightarrow> nat" where
  "pad_len message = bucket_size (length message + 1) - length message - 1"

text \<open>A message that survives padding: up to 65535 bytes of text, with fewer than 256 bytes of padding.\<close>

fun client_event_ok :: "client_event \<Rightarrow> bool" where
  "client_event_ok (RSend p io message) \<longleftrightarrow>
     operation_ok io \<and> length message < 65536 \<and> utf8_valid (as_bytes message) \<and> pad_len message < 256 \<and> length (io_pad io) = pad_len message"
| "client_event_ok (RRecv p io) \<longleftrightarrow> operation_ok io"

section \<open>Parts of the proof\<close>

lemma hex_text:
  assumes "hex_laws L"
  shows "length (hex_encode L bs) = 2 * length bs" and "utf8_valid (as_bytes (hex_encode L bs))"
proof -
  have h: "length (hex_encode L bs) = 2 * length bs" "list_all (\<lambda>c. of_char c < (128 :: nat)) (hex_encode L bs)"
    using assms by (auto simp: hex_laws_def)
  show "length (hex_encode L bs) = 2 * length bs" by (rule h(1))
  have "unat (of_char c :: u8) < 128" if "of_char c < (128 :: nat)" for c
    using that by simp
  with h(2) show "utf8_valid (as_bytes (hex_encode L bs))"
    by (intro utf8_valid_ascii) (auto simp: as_bytes_def list_all_iff)
qed

lemma pad_message_ok:
  assumes "world_ok W" and "client_event_ok (RSend p io message)"
  obtains padded where "pad_message_bucket (w_lib W) (io_pad io) message = Some padded"
    and "unpad_message_bucket (w_lib W) (w_lossy W) padded = Inr message"
    and "utf8_valid (as_bytes padded)" and "length padded < 2 ^ 36 - 31" and "2 \<le> length padded"
proof -
  have W: "crypto_laws (w_lib W)" "hex_laws (w_lib W)" "lossy_laws (w_lossy W)" using assms(1) by (auto simp: world_ok_def)
  have e: "length message < 65536" "utf8_valid (as_bytes message)" "pad_len message < 256" "length (io_pad io) = pad_len message"
    using assms(2) by auto
  note pad = unpad_pad(1) [OF W(1) e(1) pad_len_def e(4), of "w_lossy W"] unpad_pad(2) [OF W(1) e(1) pad_len_def e(4)]
  from pad(2) obtain bs where bs: "padded_bytes (io_pad io) message = Some bs" "length bs = bucket_size (length message + 1)" by auto
  have "bucket_size (length message + 1) \<le> 65536" "1 \<le> bucket_size (length message + 1)" by (simp_all add: bucket_size_def)
  with bs have len: "1 \<le> length bs" "length bs \<le> 65536" by simp_all
  show thesis
  proof (rule that [of "hex_encode (w_lib W) bs"])
    show "pad_message_bucket (w_lib W) (io_pad io) message = Some (hex_encode (w_lib W) bs)"
      by (simp add: pad_message_bucket_def bs)
    then show "unpad_message_bucket (w_lib W) (w_lossy W) (hex_encode (w_lib W) bs) = Inr message"
      using pad(1) e(2,3) W(3) by (simp add: lossy_laws_def)
  qed (use len hex_text [OF W(2), of bs] in simp_all)
qed

definition nid_seed :: "relay_world \<Rightarrow> bool \<Rightarrow> bytes" where
  "nid_seed W p =
     the (hkdf_expand (w_lib W) (w_sha W (as_bytes (w_nid W p))) (as_bytes ''nullnode-sealed-sender-kyber-seed'') 64)"

definition nid_keys :: "relay_world \<Rightarrow> bool \<Rightarrow> MlKem1024Keypair" where
  "nid_keys W p = \<lparr>kp_enc = kem_public (w_lib W) (nid_seed W p), kp_dec = nid_seed W p\<rparr>"

lemma derived_keys:
  assumes "world_ok W"
  shows "derived_keypair (w_sha W) (w_lib W) (w_nid W p) = Inr (nid_keys W p)" and "length (nid_seed W p) = 64"
    and "lookup_kyber_for_nid (w_sha W) (w_lib W) (w_nid W p) = Inr (kem_public (w_lib W) (nid_seed W p))"
proof -
  obtain okm where "hkdf_expand (w_lib W) (w_sha W (as_bytes (w_nid W p))) (as_bytes ''nullnode-sealed-sender-kyber-seed'') 64 = Some okm"
      "length okm = 64"
    using crypto_laws_hkdf [of "w_lib W" 64] assms by (auto simp: world_ok_def)
  then show "derived_keypair (w_sha W) (w_lib W) (w_nid W p) = Inr (nid_keys W p)" "length (nid_seed W p) = 64"
    "lookup_kyber_for_nid (w_sha W) (w_lib W) (w_nid W p) = Inr (kem_public (w_lib W) (nid_seed W p))"
    by (simp_all add: lookup_kyber_for_nid_def derived_keypair_def kyber_seed_def from_seed_def nid_keys_def nid_seed_def)
qed

definition key_file_ok :: "relay_world \<Rightarrow> bool \<Rightarrow> bytes \<Rightarrow> file_system \<Rightarrow> bool" where
  "key_file_ok W p key fs \<longleftrightarrow> fs KYBER_KEY_PATH = None \<or> load (w_lib W) KYBER_KEY_PATH key fs = Inr (nid_keys W p)"

lemma key_file:
  assumes "world_ok W" and "operation_ok io" and "key_file_ok W p (ms_db_key S) fs"
  obtains fs' where "load_or_generate_kyber (w_sha W) (w_lib W) (io_kyber_writable io) (io_kyber_nonce io) (w_nid W p) S fs
      = (Inr (nid_keys W p), fs')"
    and "key_file_ok W p (ms_db_key S) fs'"
proof (cases "fs KYBER_KEY_PATH")
  case None
  have L: "crypto_laws (w_lib W)" using assms(1) by (simp add: world_ok_def)
  have io: "length (io_kyber_nonce io) = 12" "io_kyber_writable io" using assms(2) by (simp_all add: operation_ok_def)
  obtain fs' where "save (w_lib W) True (io_kyber_nonce io) (nid_keys W p) KYBER_KEY_PATH (ms_db_key S) fs = (Inr (), fs')"
      "load (w_lib W) KYBER_KEY_PATH (ms_db_key S) fs' = Inr (nid_keys W p)"
    by (rule load_save [OF L io(1), of "nid_keys W p" KYBER_KEY_PATH "ms_db_key S" fs])
      (use crypto_laws_public [OF L derived_keys(2) [OF assms(1), of p]] derived_keys(2) [OF assms(1), of p] in \<open>simp_all add: nid_keys_def\<close>)
  with None io(2) show thesis
    by (intro that [of fs']) (simp_all add: load_or_generate_kyber_def derived_keys [OF assms(1)] key_file_ok_def)
next
  case (Some c)
  with assms(3) show thesis by (intro that [of fs]) (simp_all add: load_or_generate_kyber_def key_file_ok_def)
qed

text \<open>The session of a client with its peer, as the database holds it.\<close>

definition has_session :: "relay_world \<Rightarrow> bool \<Rightarrow> MessageStore \<Rightarrow> RatchetState \<Rightarrow> bool" where
  "has_session W p S s \<longleftrightarrow> session_small s
     \<and> (\<exists>json. load_session (w_lib W) True (w_nid W (\<not> p)) S = Inr (Some json) \<and> sess_read (w_codec W) json = Some s)"

lemma save_has_session:
  assumes "world_ok W" and "operation_ok io" and "session_small s" and "length (ms_db_key S) = 32"
  obtains json S' where "sess_print (w_codec W) s = Some json"
    and "save_session (w_lib W) (io_sql_save io) (io_db_nonce io) (io_db_time io) (w_nid W (\<not> p)) json S = (Inr (), S')"
    and "has_session W p S' s" and "ms_db_key S' = ms_db_key S"
proof -
  obtain json where json: "sess_print (w_codec W) s = Some json" "db_text json" "sess_read (w_codec W) json = Some s"
    using assms(1,3) by (auto simp: world_ok_def codec_laws_def)
  have L: "crypto_laws (w_lib W)" and io: "length (io_db_nonce io) = 12" "io_sql_save io"
    using assms(1,2) by (simp_all add: world_ok_def operation_ok_def)
  obtain S' where "save_session (w_lib W) True (io_db_nonce io) (io_db_time io) (w_nid W (\<not> p)) json S = (Inr (), S')"
      "ms_db_key S' = ms_db_key S" "load_session (w_lib W) True (w_nid W (\<not> p)) S' = Inr (Some json)"
    by (rule save_then_load [OF L assms(4) io(1) json(2)])
  with json io(2) assms(3) show thesis by (intro that [of json S']) (auto simp: has_session_def)
qed

lemma relay_envelope_parse:
  assumes "crypto_laws L"
  obtains j where "json_parse L (json_print L (relay_envelope H L ct k)) = Some j" and "str_at j ''ciphertext'' = Some (b64enc L ct)"
    and "str_at j ''kyber_ciphertext'' = map_option (hex_encode L) k"
proof -
  let ?kvs = "[(''type'', JStr ''p2p-message''), (''seq'', JInt 1), (''ciphertext'', JStr (b64enc L ct)),
     (''msg_hash'', JStr (hex_encode L (H ct)))] @ (case k of None \<Rightarrow> [] | Some ct \<Rightarrow> [(''kyber_ciphertext'', JStr (hex_encode L ct))])"
  have "distinct (map fst ?kvs)" "list_all (json_scalar \<circ> snd) ?kvs" by (simp_all split: option.split)
  from crypto_laws_json [OF assms this] obtain j where j: "json_parse L (json_print L (JObj ?kvs)) = Some j"
      "\<And>k s. map_of ?kvs k = Some (JStr s) \<Longrightarrow> json_get j k = Some (JStr s)" "\<And>k. map_of ?kvs k = None \<Longrightarrow> json_get j k = None"
    by blast
  show thesis
    using j(1) j(2) [of "''ciphertext''" "b64enc L ct"] j(2) [of "''kyber_ciphertext''" "hex_encode L (the k)"]
      j(3) [of "''kyber_ciphertext''"]
    by (intro that [of j]) (cases k; simp add: relay_envelope_def str_at_def)+
qed

text \<open>A request whose blob holds a ciphertext of the given padded text, which unpads to the message.\<close>

definition carries :: "relay_world \<Rightarrow> bool \<Rightarrow> json \<Rightarrow> (string \<times> string) \<times> string \<Rightarrow> bool" where
  "carries W p req wm \<longleftrightarrow>
     (\<exists>blob j. stored_entry req = (blob, w_nid W p, w_fp W p) \<and> json_parse (w_lib W) blob = Some j
        \<and> str_at j ''ciphertext'' = Some (fst (fst wm)))
     \<and> unpad_message_bucket (w_lib W) (w_lossy W) (snd (fst wm)) = Inr (snd wm)"

lemma stored_entry_request [simp]:
  "stored_entry (store_request_json identity nid io blob sg cert) = (blob, id_null_id identity, id_fingerprint identity)"
  by (simp add: stored_entry_def store_request_json_def str_at_def json_get_def)

lemma derived_chain_length:
  "crypto_laws L \<Longrightarrow> derive_message_key L k = Inr (mk, ck) \<Longrightarrow> length ck = 32"
  using derive_message_key_total [of L k] by fastforce

lemma session_small_encrypt:
  assumes "crypto_laws L" and "session_small s"
  shows "encrypt_message L rnd nonce pt ek s = (r, s') \<Longrightarrow> session_small s'" and "encrypt_first L nonce pt s = (r, s') \<Longrightarrow> session_small s'"
  using assms(2) by (auto simp: encrypt_message_def encrypt_first_def session_small_def Let_def derived_chain_length [OF assms(1)]
      split: sum.splits prod.splits option.splits)

lemma session_small_decrypt:
  assumes "crypto_laws L" and "session_small s" and "decrypt_message L ct kp s = (r, s')"
  shows "session_small s'"
proof -
  have o: "session_small s'" if "open_with L km nonce c s = (r, s')" for km nonce c s' r
    using that assms(2) by (auto simp: open_with_def session_small_def Let_def derived_chain_length [OF assms(1)]
        split: sum.splits prod.splits option.splits)
  have "session_small s'" if "decrypt_body L nonce body kp s = (r, s')" for nonce body r s'
    using that assms(2) o by (auto simp: decrypt_body_def simple_decrypt_def Let_def split: sum.splits if_splits)
  then show ?thesis using assms(2,3)
    by (auto simp: decrypt_message_def split: option.splits if_splits sum.splits prod.splits)
qed

lemma session_small_new:
  assumes "world_ok W" and "session_new (w_lib W) (w_fp W p) (w_nid W p) (w_fp W q) i secret = Inr s"
  shows "session_small s"
proof -
  have L: "crypto_laws (w_lib W)" using assms(1) by (simp add: world_ok_def)
  have "length (w_nid W p) \<le> 2 ^ 18" "length (w_fp W p) \<le> 2 ^ 18" "length (w_fp W q) \<le> 2 ^ 18"
    and utf8: "utf8_valid (as_bytes (w_nid W p))" "utf8_valid (as_bytes (w_fp W p))" "utf8_valid (as_bytes (w_fp W q))"
    using assms(1) unfolding world_ok_def by blast+
  from this(1-3) have names: "length (w_fp W p) + length (w_nid W p) + length (w_fp W q) \<le> 2 ^ 20" by simp
  obtain rk where rk: "hkdf_expand (w_lib W) secret (as_bytes ''nullnode-double-ratchet-v1-root'') 32 = Some rk" "length rk = 32"
    by (rule crypto_laws_hkdf [OF L, of 32]) simp
  obtain ck where ck: "hkdf_expand (w_lib W) secret (as_bytes ''nullnode-double-ratchet-v1-chains'') 64 = Some ck" "length ck = 64"
    by (rule crypto_laws_hkdf [OF L, of 64]) simp
  show ?thesis using assms(2) rk ck names utf8
    by (auto simp: session_new_def session_small_def Let_def split: if_splits)
qed

section \<open>One message\<close>

text \<open>Everything of a send around the encryption.\<close>

lemma send_around:
  assumes "world_ok W" and "client_event_ok (RSend p io message)" and "length (ms_db_key S) = 32" and "key_file_ok W p (ms_db_key S) fs"
    and "sender_session (w_lib W) (w_codec W) io (w_ident W p) (w_nid W (\<not> p)) (w_fp W (\<not> p))
           (kem_public (w_lib W) (nid_seed W (\<not> p))) S = Inr st"
    and "pad_message_bucket (w_lib W) (io_pad io) message = Some padded"
    and "seal_message (w_lib W) io (kem_public (w_lib W) (nid_seed W (\<not> p))) padded st = (Inr ct, s')" and "session_small s'"
  obtains req S' fs' where "send_via_relay (w_sha W) (w_lib W) (w_codec W) io (w_frames W) (w_ident W p) (w_nid W (\<not> p)) (w_fp W (\<not> p))
      message S fs = (Inr (), [req], S', fs')"
    and "stored_entry req = (json_print (w_lib W) (relay_envelope (w_sha W) (w_lib W) ct (snd st)), w_nid W p, w_fp W p)"
    and "has_session W p S' s'" and "ms_db_key S' = ms_db_key S" and "key_file_ok W p (ms_db_key S) fs'"
proof -
  have io: "operation_ok io" using assms(2) by simp
  obtain sg cert where io': "io_sign io (store_signing_text (w_ident W p) (w_nid W (\<not> p)) io) = Inr sg" "io_cert io = Inr cert"
    "io_connect io" "io_send io"
    using io unfolding operation_ok_def by blast
  obtain fs' where fs': "load_or_generate_kyber (w_sha W) (w_lib W) (io_kyber_writable io) (io_kyber_nonce io) (w_nid W p) S fs
      = (Inr (nid_keys W p), fs')" "key_file_ok W p (ms_db_key S) fs'"
    by (rule key_file [OF assms(1) io assms(4)])
  obtain json S' where S': "sess_print (w_codec W) s' = Some json"
    "save_session (w_lib W) (io_sql_save io) (io_db_nonce io) (io_db_time io) (w_nid W (\<not> p)) json S = (Inr (), S')"
    "has_session W p S' s'" "ms_db_key S' = ms_db_key S"
    by (rule save_has_session [OF assms(1) io assms(8,3)])
  have reply: "relay_reply (w_lib W) (w_frames W) = Inr ()" using assms(1) by (simp add: world_ok_def)
  let ?blob = "json_print (w_lib W) (relay_envelope (w_sha W) (w_lib W) ct (snd st))"
  let ?req = "store_request_json (w_ident W p) (w_nid W (\<not> p)) io ?blob sg cert"
  have "prepare_relay_message (w_sha W) (w_lib W) (w_codec W) io (w_ident W p) (w_nid W (\<not> p)) (w_fp W (\<not> p)) message S
      = Inr (?req, ?blob, s')"
    by (simp add: prepare_relay_message_def derived_keys [OF assms(1)] assms(5,6,7) io' Let_def)
  then show thesis using io' fs' S' reply
    by (intro that [of ?req S' fs']) (simp_all add: send_via_relay_def)
qed

lemma later_send:
  assumes "world_ok W" and "client_event_ok (RSend p io message)" and "length (ms_db_key S) = 32" and "key_file_ok W p (ms_db_key S) fs"
    and "has_session W p S s"
  obtains req wm s' S' fs' where "send_via_relay (w_sha W) (w_lib W) (w_codec W) io (w_frames W) (w_ident W p) (w_nid W (\<not> p))
      (w_fp W (\<not> p)) message S fs = (Inr (), [req], S', fs')"
    and "carries W p req wm" and "snd wm = message"
    and "delivers (w_lib W) (nid_seed W (\<not> p)) (rs_send_chain_key s) (fst wm) (rs_send_chain_key s')"
    and "rs_recv_chain_key s' = rs_recv_chain_key s"
    and "has_session W p S' s'" and "ms_db_key S' = ms_db_key S" and "key_file_ok W p (ms_db_key S) fs'"
proof -
  have L: "crypto_laws (w_lib W)" using assms(1) by (simp add: world_ok_def)
  have io: "length (io_msg_nonce io) = 12" "io_sql_load io" using assms(2) by (simp_all add: operation_ok_def)
  obtain padded where pd: "pad_message_bucket (w_lib W) (io_pad io) message = Some padded"
    "unpad_message_bucket (w_lib W) (w_lossy W) padded = Inr message" "utf8_valid (as_bytes padded)" "length padded < 2 ^ 36 - 31"
    by (rule pad_message_ok [OF assms(1,2)])
  obtain ct s' where e: "encrypt_message (w_lib W) (io_msg_rnd io) (io_msg_nonce io) padded (kem_public (w_lib W) (nid_seed W (\<not> p))) s
        = (Inr ct, s')"
    "delivers (w_lib W) (nid_seed W (\<not> p)) (rs_send_chain_key s) (b64enc (w_lib W) ct, padded) (rs_send_chain_key s')"
    "rs_recv_chain_key s' = rs_recv_chain_key s"
    by (rule encrypt_message_delivers [OF L derived_keys(2) [OF assms(1), of "\<not> p"] io(1) pd(4,3)])
  have small: "session_small s'" using session_small_encrypt(1) [OF L _ e(1)] assms(5) by (simp add: has_session_def)
  have ses: "sender_session (w_lib W) (w_codec W) io (w_ident W p) (w_nid W (\<not> p)) (w_fp W (\<not> p))
      (kem_public (w_lib W) (nid_seed W (\<not> p))) S = Inr (s, None)"
    using assms(5) io(2) by (auto simp: sender_session_def has_session_def)
  have seal: "seal_message (w_lib W) io (kem_public (w_lib W) (nid_seed W (\<not> p))) padded (s, None) = (Inr ct, s')"
    by (simp add: seal_message_def e)
  obtain req S' fs' where r: "send_via_relay (w_sha W) (w_lib W) (w_codec W) io (w_frames W) (w_ident W p) (w_nid W (\<not> p))
      (w_fp W (\<not> p)) message S fs = (Inr (), [req], S', fs')"
    "stored_entry req = (json_print (w_lib W) (relay_envelope (w_sha W) (w_lib W) ct None), w_nid W p, w_fp W p)"
    "has_session W p S' s'" "ms_db_key S' = ms_db_key S" "key_file_ok W p (ms_db_key S) fs'"
    by (rule send_around [OF assms(1-4) ses pd(1) seal small]) (simp only: snd_conv)
  have c: "carries W p req ((b64enc (w_lib W) ct, padded), message)"
    using r(2) pd(2) relay_envelope_parse [OF L, of "w_sha W" ct None] unfolding carries_def by (metis fst_conv snd_conv)
  show thesis by (rule that [OF r(1) c _ _ e(3) r(3-5)]) (simp_all only: fst_conv snd_conv e(2))
qed

text \<open>A message from a sender whose session the client has.\<close>

lemma later_recv:
  assumes "world_ok W" and "operation_ok io" and "length (ms_db_key S) = 32" and "has_session W p S s"
    and "carries W (\<not> p) req wm" and "delivers (w_lib W) (nid_seed W p) (rs_recv_chain_key s) (fst wm) ck"
  obtains blob S' s' where "stored_entry req = (blob, w_nid W (\<not> p), w_fp W (\<not> p))"
    and "relay_decrypt_message (w_blake W) (w_lib W) (w_codec W) (w_lossy W) (io_sql_load io) (io_sql_save io) (io_db_nonce io)
           (io_db_time io) blob (w_nid W (\<not> p)) (w_fp W (\<not> p)) (w_fp W p) (nid_keys W p) S = (Inr (snd wm), S')"
    and "has_session W p S' s'" and "ms_db_key S' = ms_db_key S"
    and "rs_recv_chain_key s' = ck" and "rs_send_chain_key s' = rs_send_chain_key s"
proof -
  have L: "crypto_laws (w_lib W)" and nid: "w_nid W (\<not> p) \<noteq> []" using assms(1) by (auto simp: world_ok_def)
  have io: "io_sql_load io" using assms(2) by (simp add: operation_ok_def)
  obtain blob j where b: "stored_entry req = (blob, w_nid W (\<not> p), w_fp W (\<not> p))" "json_parse (w_lib W) blob = Some j"
      "str_at j ''ciphertext'' = Some (fst (fst wm))" "unpad_message_bucket (w_lib W) (w_lossy W) (snd (fst wm)) = Inr (snd wm)"
    using assms(5) by (auto simp: carries_def)
  let ?s = "s\<lparr>rs_recv_chain_key := ck, rs_recv_message_number := rs_recv_message_number s + 1\<rparr>"
  have dec: "decrypt_message (w_lib W) (fst (fst wm)) (nid_keys W p) s = (Inr (snd (fst wm)), ?s)"
    using assms(6) by (simp add: delivers_def nid_keys_def)
  have small: "session_small ?s" using session_small_decrypt [OF L _ dec] assms(4) by (simp add: has_session_def)
  have ses: "receiver_session (w_lib W) (w_codec W) (io_sql_load io) (w_nid W (\<not> p)) (w_fp W (\<not> p)) (w_fp W p) k (nid_keys W p) S
      = Inr s" for k
    using assms(4) io by (auto simp: receiver_session_def has_session_def)
  obtain json S' where S': "sess_print (w_codec W) ?s = Some json"
    "save_session (w_lib W) (io_sql_save io) (io_db_nonce io) (io_db_time io) (w_nid W (\<not> p)) json S = (Inr (), S')"
    "has_session W p S' ?s" "ms_db_key S' = ms_db_key S"
    by (rule save_has_session [OF assms(1,2) small assms(3)])
  show thesis
    by (rule that [OF b(1) _ S'(3,4)]) (use b nid ses dec S' in \<open>simp_all add: relay_decrypt_message_def\<close>)
qed

section \<open>The first message\<close>

text \<open>Whether the ciphertext of a stored request would be read as a later message.\<close>

definition misread :: "crypto_lib \<Rightarrow> json \<Rightarrow> bool" where
  "misread L req =
     (case Option.bind (json_parse L (fst (stored_entry req))) (\<lambda>j. Option.bind (str_at j ''ciphertext'') (b64dec L)) of
        None \<Rightarrow> False
      | Some raw \<Rightarrow> kyber_format (drop 12 raw))"

lemma first_send:
  assumes "world_ok W" and "client_event_ok (RSend p io message)" and "length (ms_db_key S) = 32" and "key_file_ok W p (ms_db_key S) fs"
    and "load_session (w_lib W) True (w_nid W (\<not> p)) S = Inr None"
  obtains req ct kct ss padded a a' S' fs' where
      "encrypt_first (w_lib W) (io_msg_nonce io) padded a = (Inr ct, a')" and "misread (w_lib W) req \<longleftrightarrow> kyber_format (drop 12 ct)"
    and "send_via_relay (w_sha W) (w_lib W) (w_codec W) io (w_frames W) (w_ident W p) (w_nid W (\<not> p)) (w_fp W (\<not> p)) message S fs
        = (Inr (), [req], S', fs')"
    and "stored_entry req = (json_print (w_lib W) (relay_envelope (w_sha W) (w_lib W) ct (Some kct)), w_nid W p, w_fp W p)"
    and "length kct = 1568" and "length ss = 32" and "kem_decapsulate (w_lib W) (nid_seed W (\<not> p)) kct = ss"
    and "session_new (w_lib W) (w_fp W (\<not> p)) (w_nid W (\<not> p)) (w_fp W p) True ss = Inr a"
    and "unpad_message_bucket (w_lib W) (w_lossy W) padded = Inr message"
    and "\<not> misread (w_lib W) req \<Longrightarrow>
      delivers (w_lib W) (nid_seed W (\<not> p)) (rs_send_chain_key a) (b64enc (w_lib W) ct, padded) (rs_send_chain_key a')"
    and "rs_recv_chain_key a' = rs_recv_chain_key a"
    and "has_session W p S' a'" and "ms_db_key S' = ms_db_key S" and "key_file_ok W p (ms_db_key S) fs'"
proof -
  have L: "crypto_laws (w_lib W)" using assms(1) by (simp add: world_ok_def)
  have io: "length (io_msg_nonce io) = 12" "io_sql_load io" using assms(2) by (simp_all add: operation_ok_def)
  obtain padded where pd: "pad_message_bucket (w_lib W) (io_pad io) message = Some padded"
    "unpad_message_bucket (w_lib W) (w_lossy W) padded = Inr message" "utf8_valid (as_bytes padded)" "length padded < 2 ^ 36 - 31"
    "2 \<le> length padded"
    by (rule pad_message_ok [OF assms(1,2)])
  obtain kct ss where kem: "kem_encapsulate (w_lib W) (io_kem_rnd io) (kem_public (w_lib W) (nid_seed W (\<not> p))) = (kct, ss)"
    "length kct = 1568" "length ss = 32" "kem_decapsulate (w_lib W) (nid_seed W (\<not> p)) kct = ss"
    by (rule crypto_laws_kem [OF L derived_keys(2) [OF assms(1), of "\<not> p"]])
  obtain a where a: "session_new (w_lib W) (w_fp W (\<not> p)) (w_nid W (\<not> p)) (w_fp W p) True ss = Inr a"
    by (rule session_new_total [OF L, of ss]) (use kem(3) in simp_all)
  obtain ct a' where e: "encrypt_first (w_lib W) (io_msg_nonce io) padded a = (Inr ct, a')"
    "\<not> kyber_format (drop 12 ct) \<Longrightarrow>
      delivers (w_lib W) (nid_seed W (\<not> p)) (rs_send_chain_key a) (b64enc (w_lib W) ct, padded) (rs_send_chain_key a')"
    "rs_recv_chain_key a' = rs_recv_chain_key a"
    by (rule encrypt_first_delivers [OF L io(1) pd(4,5,3), of a "nid_seed W (\<not> p)"]) blast
  have small: "session_small a'" by (rule session_small_encrypt(2) [OF L session_small_new [OF assms(1) a] e(1)])
  have ses: "sender_session (w_lib W) (w_codec W) io (w_ident W p) (w_nid W (\<not> p)) (w_fp W (\<not> p))
      (kem_public (w_lib W) (nid_seed W (\<not> p))) S = Inr (a, Some kct)"
    using assms(5) io(2) kem(1) a by (simp add: sender_session_def encapsulate_def)
  have seal: "seal_message (w_lib W) io (kem_public (w_lib W) (nid_seed W (\<not> p))) padded (a, Some kct) = (Inr ct, a')"
    by (simp add: seal_message_def e)
  obtain req S' fs' where r: "send_via_relay (w_sha W) (w_lib W) (w_codec W) io (w_frames W) (w_ident W p) (w_nid W (\<not> p))
      (w_fp W (\<not> p)) message S fs = (Inr (), [req], S', fs')"
    "stored_entry req = (json_print (w_lib W) (relay_envelope (w_sha W) (w_lib W) ct (Some kct)), w_nid W p, w_fp W p)"
    "has_session W p S' a'" "ms_db_key S' = ms_db_key S" "key_file_ok W p (ms_db_key S) fs'"
    by (rule send_around [OF assms(1-4) ses pd(1) seal small]) (simp only: snd_conv)
  have m: "misread (w_lib W) req = kyber_format (drop 12 ct)"
    by (rule relay_envelope_parse [OF L, of "w_sha W" ct "Some kct"]) (simp add: misread_def r(2) crypto_laws_text [OF L])
  then show thesis by (intro that [OF e(1) m r(1,2) kem(2,3,4) a pd(2) _ e(3) r(3-5)] e(2)) simp
qed

text \<open>The recipient's side: a session from the encapsulated secret, whose chains match the sender's.\<close>

lemma first_recv:
  assumes "world_ok W" and "operation_ok io" and "length (ms_db_key S) = 32"
    and "load_session (w_lib W) True (w_nid W (\<not> p)) S = Inr None"
    and "length kct = 1568" and "length ss = 32" and "kem_decapsulate (w_lib W) (nid_seed W p) kct = ss"
    and "session_new (w_lib W) (w_fp W p) (w_nid W p) (w_fp W (\<not> p)) True ss = Inr a"
    and "unpad_message_bucket (w_lib W) (w_lossy W) padded = Inr message"
    and "delivers (w_lib W) (nid_seed W p) (rs_send_chain_key a) (b64enc (w_lib W) ct, padded) ck"
  obtains S' b where "relay_decrypt_message (w_blake W) (w_lib W) (w_codec W) (w_lossy W) (io_sql_load io) (io_sql_save io)
      (io_db_nonce io) (io_db_time io) (json_print (w_lib W) (relay_envelope (w_sha W) (w_lib W) ct (Some kct)))
      (w_nid W (\<not> p)) (w_fp W (\<not> p)) (w_fp W p) (nid_keys W p) S = (Inr message, S')"
    and "has_session W p S' b" and "ms_db_key S' = ms_db_key S"
    and "rs_recv_chain_key b = ck" and "rs_send_chain_key b = rs_recv_chain_key a"
proof -
  have L: "crypto_laws (w_lib W)" and nid: "w_nid W (\<not> p) \<noteq> []" using assms(1) by (auto simp: world_ok_def)
  have io: "io_sql_load io" using assms(2) by (simp add: operation_ok_def)
  obtain r where r: "session_new (w_lib W) (w_fp W (\<not> p)) (w_nid W (\<not> p)) (w_fp W p) False ss = Inr r"
      "rs_recv_chain_key r = rs_send_chain_key a" "rs_send_chain_key r = rs_recv_chain_key a"
    by (rule session_new_total [OF L, of ss "w_fp W p" "w_nid W p" "w_fp W (\<not> p)" "w_fp W (\<not> p)" "w_nid W (\<not> p)" "w_fp W p"])
      (use assms(6,8) in auto)
  let ?r = "r\<lparr>rs_recv_chain_key := ck, rs_recv_message_number := rs_recv_message_number r + 1\<rparr>"
  have dec: "decrypt_message (w_lib W) (b64enc (w_lib W) ct) (nid_keys W p) r = (Inr padded, ?r)"
    using assms(10) r(2) by (simp add: delivers_def nid_keys_def)
  have small: "session_small ?r" by (rule session_small_decrypt [OF L session_small_new [OF assms(1) r(1)] dec])
  have ses: "receiver_session (w_lib W) (w_codec W) (io_sql_load io) (w_nid W (\<not> p)) (w_fp W (\<not> p)) (w_fp W p)
      (Some (hex_encode (w_lib W) kct)) (nid_keys W p) S = Inr r"
    using assms(4,5,7) io r(1) by (simp add: receiver_session_def crypto_laws_text [OF L] decapsulate_def nid_keys_def)
  obtain json S' where S': "sess_print (w_codec W) ?r = Some json"
    "save_session (w_lib W) (io_sql_save io) (io_db_nonce io) (io_db_time io) (w_nid W (\<not> p)) json S = (Inr (), S')"
    "has_session W p S' ?r" "ms_db_key S' = ms_db_key S"
    by (rule save_has_session [OF assms(1,2) small assms(3)])
  show thesis
  proof (rule relay_envelope_parse [OF L, of "w_sha W" ct "Some kct"], rule that [OF _ S'(3,4)])
  qed (use nid ses dec S' assms(9) r(3) in \<open>simp_all add: relay_decrypt_message_def\<close>)
qed

section \<open>The conversation\<close>

definition side_ok :: "relay_world \<Rightarrow> bool \<Rightarrow> MessageStore \<Rightarrow> file_system \<Rightarrow> RatchetState \<Rightarrow> bool" where
  "side_ok W p S fs s \<longleftrightarrow> length (ms_db_key S) = 32 \<and> key_file_ok W p (ms_db_key S) fs \<and> has_session W p S s"

text \<open>The sessions on both sides, the ciphertexts under way and their texts.\<close>

definition linked ::
  "relay_world \<Rightarrow> (bool \<Rightarrow> RatchetState) \<Rightarrow> bool \<Rightarrow> json list \<Rightarrow> ((string \<times> string) \<times> string) list \<Rightarrow> string list \<Rightarrow> bool" where
  "linked W st p reqs ws msgs \<longleftrightarrow>
     chain_link (w_lib W) (nid_seed W (\<not> p)) (rs_recv_chain_key (st (\<not> p))) (map fst ws) (rs_send_chain_key (st p))
     \<and> list_all2 (carries W p) reqs ws \<and> map snd ws = msgs"

fun simulates :: "relay_world \<Rightarrow> relay_chat \<Rightarrow> text_queues \<Rightarrow> bool" where
  "simulates W (S, fs, q, out) (aq, aout) \<longleftrightarrow>
     (\<exists>st ws. (\<forall>p. side_ok W p (S p) (fs p) (st p)) \<and> (\<forall>p. linked W st p (q p) (ws p) (aq p)))
     \<and> out = map (\<lambda>(p, m). (p, Inr m)) aout"

lemma both_sides: "P p \<Longrightarrow> P (\<not> p) \<Longrightarrow> P (x :: bool)"
  by (cases p; cases x) simp_all

lemma simulatesI:
  assumes "side_ok W p (S p) (fs p) (st p)" and "side_ok W (\<not> p) (S (\<not> p)) (fs (\<not> p)) (st (\<not> p))"
    and "linked W st p (q p) (ws p) (aq p)" and "linked W st (\<not> p) (q (\<not> p)) (ws (\<not> p)) (aq (\<not> p))"
    and "out = map (\<lambda>(p, m). (p, Inr m)) aout"
  shows "simulates W (S, fs, q, out) (aq, aout)"
proof -
  have "side_ok W x (S x) (fs x) (st x) \<and> linked W st x (q x) (ws x) (aq x)" for x
    by (rule both_sides [of _ p]) (use assms(1-4) in simp_all)
  with assms(5) show ?thesis by auto
qed

lemma linked_other:
  "linked W st p reqs ws msgs \<Longrightarrow> rs_send_chain_key s' = rs_send_chain_key (st p) \<Longrightarrow> linked W (st(p := s')) p reqs ws msgs"
  "linked W st (\<not> p) reqs ws msgs \<Longrightarrow> rs_recv_chain_key s' = rs_recv_chain_key (st p) \<Longrightarrow> linked W (st(p := s')) (\<not> p) reqs ws msgs"
  by (simp_all add: linked_def)

lemma simulates_send:
  assumes "world_ok W" and "client_event_ok (RSend p io message)" and "simulates W (S, fs, q, out) (aq, aout)"
  shows "simulates W (relay_chat_step W (RSend p io message) (S, fs, q, out)) (queue_step (RSend p io message) (aq, aout))"
proof -
  obtain st ws where sides: "\<And>p. side_ok W p (S p) (fs p) (st p)" and links: "\<And>p. linked W st p (q p) (ws p) (aq p)"
      and out: "out = map (\<lambda>(p, m). (p, Inr m)) aout"
    using assms(3) by auto
  have sp: "length (ms_db_key (S p)) = 32" "key_file_ok W p (ms_db_key (S p)) (fs p)" "has_session W p (S p) (st p)"
    using sides [of p] by (simp_all add: side_ok_def)
  obtain req wm s' S' fs' where r: "send_via_relay (w_sha W) (w_lib W) (w_codec W) io (w_frames W) (w_ident W p) (w_nid W (\<not> p))
        (w_fp W (\<not> p)) message (S p) (fs p) = (Inr (), [req], S', fs')"
      "carries W p req wm" "snd wm = message"
      "delivers (w_lib W) (nid_seed W (\<not> p)) (rs_send_chain_key (st p)) (fst wm) (rs_send_chain_key s')"
      "rs_recv_chain_key s' = rs_recv_chain_key (st p)"
      "has_session W p S' s'" "ms_db_key S' = ms_db_key (S p)" "key_file_ok W p (ms_db_key (S p)) fs'"
    by (rule later_send [OF assms(1,2) sp])
  have "side_ok W p S' fs' s'" using r sp by (simp add: side_ok_def)
  moreover have "linked W (st(p := s')) p (q p @ [req]) (ws p @ [wm]) (aq p @ [message])"
    using links [of p] r(2-4) by (auto simp: linked_def intro: list_all2_appendI chain_link_snoc)
  moreover have "linked W (st(p := s')) (\<not> p) (q (\<not> p)) (ws (\<not> p)) (aq (\<not> p))"
    by (rule linked_other(2) [OF links r(5)])
  ultimately have "simulates W (S(p := S'), fs(p := fs'), q(p := q p @ [req]), out) (aq(p := aq p @ [message]), aout)"
    using sides [of "\<not> p"] out
    by (intro simulatesI [where p = p and st = "st(p := s')" and ws = "ws(p := ws p @ [wm])"]) simp_all
  then show ?thesis by (simp only: relay_chat_step.simps queue_step.simps r(1) prod.case)
qed

lemma simulates_recv:
  assumes "world_ok W" and "operation_ok io" and "simulates W (S, fs, q, out) (aq, aout)"
  shows "simulates W (relay_chat_step W (RRecv p io) (S, fs, q, out)) (queue_step (RRecv p io) (aq, aout))"
proof -
  obtain st ws where sides: "\<And>p. side_ok W p (S p) (fs p) (st p)" and links: "\<And>p. linked W st p (q p) (ws p) (aq p)"
      and out: "out = map (\<lambda>(p, m). (p, Inr m)) aout"
    using assms(3) by auto
  have sp: "length (ms_db_key (S p)) = 32" "key_file_ok W p (ms_db_key (S p)) (fs p)" "has_session W p (S p) (st p)"
    using sides [of p] by (simp_all add: side_ok_def)
  show ?thesis
  proof (cases "q (\<not> p)")
    case Nil
    then have "aq (\<not> p) = []" using links [of "\<not> p"] by (auto simp: linked_def)
    with Nil assms(3) show ?thesis by simp
  next
    case (Cons req rest)
    then obtain wm ws' where ws: "ws (\<not> p) = wm # ws'" "carries W (\<not> p) req wm" "list_all2 (carries W (\<not> p)) rest ws'"
      using links [of "\<not> p"] by (auto simp: linked_def list_all2_Cons1)
    then obtain ck where ck: "delivers (w_lib W) (nid_seed W p) (rs_recv_chain_key (st p)) (fst wm) ck"
        "chain_link (w_lib W) (nid_seed W p) ck (map fst ws') (rs_send_chain_key (st (\<not> p)))"
      using links [of "\<not> p"] by (auto simp: linked_def)
    obtain fs' where k: "load_or_generate_kyber (w_sha W) (w_lib W) (io_kyber_writable io) (io_kyber_nonce io) (w_nid W p) (S p) (fs p)
        = (Inr (nid_keys W p), fs')" "key_file_ok W p (ms_db_key (S p)) fs'"
      by (rule key_file [OF assms(1,2) sp(2)])
    obtain blob S' s' where r: "stored_entry req = (blob, w_nid W (\<not> p), w_fp W (\<not> p))"
        "relay_decrypt_message (w_blake W) (w_lib W) (w_codec W) (w_lossy W) (io_sql_load io) (io_sql_save io) (io_db_nonce io)
           (io_db_time io) blob (w_nid W (\<not> p)) (w_fp W (\<not> p)) (w_fp W p) (nid_keys W p) (S p) = (Inr (snd wm), S')"
        "has_session W p S' s'" "ms_db_key S' = ms_db_key (S p)"
        "rs_recv_chain_key s' = ck" "rs_send_chain_key s' = rs_send_chain_key (st p)"
      by (rule later_recv [OF assms(1,2) sp(1,3) ws(2) ck(1)])
    have aq: "aq (\<not> p) = snd wm # map snd ws'" using links [of "\<not> p"] ws(1) by (auto simp: linked_def)
    have "side_ok W p S' fs' s'" using r k sp by (simp add: side_ok_def)
    moreover have "linked W (st(p := s')) (\<not> p) rest ws' (map snd ws')"
      using ck(2) ws(3) r(5) by (simp add: linked_def)
    moreover have "linked W (st(p := s')) p (q p) (ws p) (aq p)" by (rule linked_other(1) [OF links r(6)])
    ultimately have "simulates W (S(p := S'), fs(p := fs'), q(\<not> p := rest), out @ [(p, Inr (snd wm))])
        (aq(\<not> p := map snd ws'), aout @ [(p, snd wm)])"
      using sides [of "\<not> p"] out
      by (intro simulatesI [where p = p and st = "st(p := s')" and ws = "ws(\<not> p := ws')"]) simp_all
    then show ?thesis
      by (simp only: relay_chat_step.simps queue_step.simps Cons aq k(1) r(1,2) prod.case sum.case list.case)
  qed
qed

text \<open>After the first message has been received, the two sides are linked.\<close>

lemma first_exchange:
  assumes "world_ok W" and "client_event_ok (RSend p io message)" and "client_event_ok (RRecv (\<not> p) io')"
    and "\<And>p. length (ms_db_key (S p)) = 32" and "\<And>p. load_session (w_lib W) True (w_nid W (\<not> p)) (S p) = Inr None"
    and "\<And>p. fs p KYBER_KEY_PATH = None"
    and "relay_chat_step W (RSend p io message) (S, fs, \<lambda>_. [], []) = (S1, fs1, q1, out1)"
    and "list_all (\<lambda>req. \<not> misread (w_lib W) req) (q1 p)"
  shows "simulates W (relay_chat_step W (RRecv (\<not> p) io') (S1, fs1, q1, out1))
    (fold queue_step [RSend p io message, RRecv (\<not> p) io'] (\<lambda>_. [], []))"
proof -
  have key: "key_file_ok W x (ms_db_key (S x)) (fs x)" for x using assms(6) by (simp add: key_file_ok_def)
  have io': "operation_ok io'" using assms(3) by simp
  obtain req ct kct ss padded a a' S' fs' where f:
      "send_via_relay (w_sha W) (w_lib W) (w_codec W) io (w_frames W) (w_ident W p) (w_nid W (\<not> p)) (w_fp W (\<not> p)) message (S p) (fs p)
        = (Inr (), [req], S', fs')"
      "stored_entry req = (json_print (w_lib W) (relay_envelope (w_sha W) (w_lib W) ct (Some kct)), w_nid W p, w_fp W p)"
      "length kct = 1568" "length ss = 32" "kem_decapsulate (w_lib W) (nid_seed W (\<not> p)) kct = ss"
      "session_new (w_lib W) (w_fp W (\<not> p)) (w_nid W (\<not> p)) (w_fp W p) True ss = Inr a"
      "unpad_message_bucket (w_lib W) (w_lossy W) padded = Inr message"
      "\<not> misread (w_lib W) req \<Longrightarrow>
        delivers (w_lib W) (nid_seed W (\<not> p)) (rs_send_chain_key a) (b64enc (w_lib W) ct, padded) (rs_send_chain_key a')"
      "rs_recv_chain_key a' = rs_recv_chain_key a"
      "has_session W p S' a'" "ms_db_key S' = ms_db_key (S p)" "key_file_ok W p (ms_db_key (S p)) fs'"
    by (rule first_send [OF assms(1,2,4) key assms(5)]) blast
  have one: "S1 = S(p := S')" "fs1 = fs(p := fs')" "q1 = (\<lambda>_. [])(p := [req])" "out1 = []" using assms(7) f(1) by simp_all
  then have d: "delivers (w_lib W) (nid_seed W (\<not> p)) (rs_send_chain_key a) (b64enc (w_lib W) ct, padded) (rs_send_chain_key a')"
    using assms(8) by (intro f(8)) simp
  obtain fs'' where k: "load_or_generate_kyber (w_sha W) (w_lib W) (io_kyber_writable io') (io_kyber_nonce io') (w_nid W (\<not> p))
      (S (\<not> p)) (fs (\<not> p)) = (Inr (nid_keys W (\<not> p)), fs'')" "key_file_ok W (\<not> p) (ms_db_key (S (\<not> p))) fs''"
    by (rule key_file [OF assms(1) io' key])
  obtain S'' b where b: "relay_decrypt_message (w_blake W) (w_lib W) (w_codec W) (w_lossy W) (io_sql_load io') (io_sql_save io')
      (io_db_nonce io') (io_db_time io') (json_print (w_lib W) (relay_envelope (w_sha W) (w_lib W) ct (Some kct)))
      (w_nid W p) (w_fp W p) (w_fp W (\<not> p)) (nid_keys W (\<not> p)) (S (\<not> p)) = (Inr message, S'')"
      "has_session W (\<not> p) S'' b" "ms_db_key S'' = ms_db_key (S (\<not> p))"
      "rs_recv_chain_key b = rs_send_chain_key a'" "rs_send_chain_key b = rs_recv_chain_key a"
    using first_recv [of W io' "S (\<not> p)" "\<not> p" kct ss a padded message ct "rs_send_chain_key a'"] assms(1,4) io' assms(5) [of "\<not> p"]
      f(3-7) d by (auto simp: not_not)
  let ?st = "(\<lambda>_. b)(p := a')"
  have "simulates W (S(p := S', \<not> p := S''), fs(p := fs', \<not> p := fs''), \<lambda>_. [], [(\<not> p, Inr message)]) (\<lambda>_. [], [(\<not> p, message)])"
    using f(9-12) k(2) b assms(4)
    by (intro simulatesI [where p = p and st = ?st and ws = "\<lambda>_. []"]) (simp_all add: side_ok_def linked_def)
  moreover have "((\<lambda>_. [])(p := [req]))(p := []) = (\<lambda>_. [])" "((\<lambda>_. [])(p := [message]))(p := []) = (\<lambda>_. [])" by auto
  ultimately show ?thesis by (simp add: one f(2) k(1) b(1))
qed



section \<open>Witnesses\<close>

text \<open>A library with hexadecimal text in ASCII, and a codec that writes the fields of a session in hexadecimal, bits for numbers.\<close>

definition toy_hex_byte :: "u8 \<Rightarrow> string" where
  "toy_hex_byte b = [char_of (97 + unat b div 16), char_of (97 + unat b mod 16)]"

definition toy_hex :: "bytes \<Rightarrow> string" where
  "toy_hex bs = concat (map toy_hex_byte bs)"

fun toy_unhex :: "string \<Rightarrow> bytes" where
  "toy_unhex (x # y # r) = of_nat ((of_char x - 97) * 16 + (of_char y - 97)) # toy_unhex r"
| "toy_unhex _ = []"

lemma toy_hex_byte_range: "c \<in> set (toy_hex_byte b) \<Longrightarrow> (of_char c :: nat) \<in> {97..112}"
proof -
  have "unat b < 256" using unsigned_less [of b] by simp
  then have "unat b div 16 < 16" "unat b mod 16 < 16" by (simp_all add: div_less_iff_less_mult)
  then show "c \<in> set (toy_hex_byte b) \<Longrightarrow> (of_char c :: nat) \<in> {97..112}" by (auto simp: toy_hex_byte_def)
qed

lemma toy_hex_range: "c \<in> set (toy_hex bs) \<Longrightarrow> (of_char c :: nat) \<in> {97..112}"
  using toy_hex_byte_range by (auto simp: toy_hex_def)

lemma toy_hex_simps [simp]: "length (toy_hex bs) = 2 * length bs" "toy_unhex (toy_hex bs) = bs"
proof -
  show "length (toy_hex bs) = 2 * length bs" by (induction bs) (simp_all add: toy_hex_def toy_hex_byte_def)
  have "of_nat ((of_char (char_of (97 + unat b div 16) :: char) - 97) * 16 + (of_char (char_of (97 + unat b mod 16) :: char) - 97)) = b"
    for b :: u8
  proof -
    have "unat b < 256" using unsigned_less [of b] by simp
    then have "unat b div 16 < 16" "unat b mod 16 < 16" by (simp_all add: div_less_iff_less_mult)
    then show ?thesis by simp
  qed
  then show "toy_unhex (toy_hex bs) = bs" by (induction bs) (simp_all add: toy_hex_def toy_hex_byte_def)
qed

definition client_crypto :: crypto_lib where
  "client_crypto = toy_crypto\<lparr>hex_encode := toy_hex, hex_decode := (\<lambda>s. Some (toy_unhex s)),
     json_parse := (\<lambda>t. Some (if t = ''ok'' then JObj [(''ok'', JBool True)] else JObj (toy_parse (length t) t)))\<rparr>"

lemma toy_print_ok: "toy_print j \<noteq> ''ok''"
proof (cases j)
  case (JObj kvs)
  have "toy_str k @ r \<noteq> ''ok''" for k r by (cases k) (simp_all add: toy_str_def)
  with JObj show ?thesis by (cases kvs) (auto split: prod.splits)
qed simp_all

lemma client_crypto_laws: "crypto_laws client_crypto" "hex_laws client_crypto"
proof -
  show "crypto_laws client_crypto"
    using toy_crypto_laws unfolding crypto_laws_def client_crypto_def toy_crypto_def
    by (simp add: toy_print_ok del: toy_print.simps)
  have "(of_char c :: nat) < 128" if "c \<in> set (toy_hex bs)" for c bs using toy_hex_range [OF that] by simp
  then show "hex_laws client_crypto" by (simp add: hex_laws_def client_crypto_def list_all_iff)
qed

definition toy_bits :: "u64 \<Rightarrow> string" where
  "toy_bits w = map (\<lambda>i. if bit w i then CHR ''1'' else CHR ''0'') [0..<64]"

definition toy_unbits :: "string \<Rightarrow> u64" where
  "toy_unbits t = horner_sum of_bool 2 (map (\<lambda>c. c = CHR ''1'') t)"

lemma toy_bits_inverse [simp]: "toy_unbits (toy_bits w) = w"
  by (simp add: toy_bits_def toy_unbits_def o_def horner_sum_bit_eq_take_bit [unfolded o_def] take_bit_word_eq_self cong: map_cong)


definition toy_session_text :: "RatchetState \<Rightarrow> string" where
  "toy_session_text s =
     toy_hex (as_bytes (rs_peer_fp s)) @ CHR ''|'' # toy_hex (as_bytes (rs_peer_nid s)) @ CHR ''|'' # toy_hex (as_bytes (rs_our_fp s))
     @ CHR ''|'' # (if rs_is_initiator s then ''1'' else ''0'') @ CHR ''|'' # toy_hex (rs_root_key s) @ CHR ''|'' # toy_hex (rs_send_chain_key s)
     @ CHR ''|'' # toy_hex (rs_recv_chain_key s) @ CHR ''|'' # toy_bits (rs_send_message_number s)
     @ CHR ''|'' # toy_bits (rs_recv_message_number s)"

definition toy_session_read :: "string \<Rightarrow> RatchetState option" where
  "toy_session_read t =
     (case split_on CHR ''|'' t of
        [a, b, c, d, e, f, g, h, i] \<Rightarrow>
          Some \<lparr>rs_peer_fp = map (\<lambda>b. char_of (unat b)) (toy_unhex a), rs_peer_nid = map (\<lambda>b. char_of (unat b)) (toy_unhex b),
                rs_our_fp = map (\<lambda>b. char_of (unat b)) (toy_unhex c), rs_is_initiator = (d = ''1''), rs_root_key = toy_unhex e,
                rs_send_chain_key = toy_unhex f, rs_recv_chain_key = toy_unhex g, rs_send_message_number = toy_unbits h,
                rs_recv_message_number = toy_unbits i, rs_skipped_keys = Map.empty\<rparr>
      | _ \<Rightarrow> None)"

definition toy_codec :: session_codec where
  "toy_codec = \<lparr>sess_print = \<lambda>s. Some (toy_session_text s), sess_read = toy_session_read\<rparr>"

lemma toy_no_bar: "CHR ''|'' \<notin> set (toy_hex bs)" "CHR ''|'' \<notin> set (toy_bits w)"
proof -
  show "CHR ''|'' \<notin> set (toy_hex bs)" using toy_hex_range [of "CHR ''|''" bs] by auto
qed (auto simp: toy_bits_def)

lemma toy_session_roundtrip: "rs_skipped_keys s = Map.empty \<Longrightarrow> toy_session_read (toy_session_text s) = Some s"
proof -
  have names: "map (\<lambda>b. char_of (unat b)) (as_bytes t) = t" for t by (simp add: as_bytes_def o_def)
  have "split_on CHR ''|'' (toy_session_text s) =
      [toy_hex (as_bytes (rs_peer_fp s)), toy_hex (as_bytes (rs_peer_nid s)), toy_hex (as_bytes (rs_our_fp s)),
       if rs_is_initiator s then ''1'' else ''0'', toy_hex (rs_root_key s), toy_hex (rs_send_chain_key s), toy_hex (rs_recv_chain_key s),
       toy_bits (rs_send_message_number s), toy_bits (rs_recv_message_number s)]"
    by (simp add: toy_session_text_def split_on_append split_on_none toy_no_bar del: split_on.simps(2))
  then show "rs_skipped_keys s = Map.empty \<Longrightarrow> toy_session_read (toy_session_text s) = Some s"
    by (cases s) (simp add: toy_session_read_def names)
qed

lemma toy_codec_laws: "codec_laws toy_codec"
proof -
  have "db_text (toy_session_text s)" if "session_small s" for s
  proof (rule db_text_ascii)
    have small: "length (rs_peer_fp s) + length (rs_peer_nid s) + length (rs_our_fp s) \<le> 2 ^ 20"
      "length (rs_root_key s) = 32" "length (rs_send_chain_key s) = 32" "length (rs_recv_chain_key s) = 32"
      using that by (simp_all add: session_small_def)
    have "length (toy_session_text s) = 2 * (length (rs_peer_fp s) + length (rs_peer_nid s) + length (rs_our_fp s)) + 329"
      using small(2-4) by (simp add: toy_session_text_def toy_bits_def)
    with small(1) show "length (toy_session_text s) < 2 ^ 36 - 31" by simp
    have "(of_char c :: nat) < 128" if "c \<in> set (toy_hex bs)" for c bs using toy_hex_range [OF that] by simp
    moreover have "(of_char c :: nat) < 128" if "c \<in> set (toy_bits w)" for c w using that by (auto simp: toy_bits_def)
    ultimately show "list_all (\<lambda>b. unat b < 128) (as_bytes (toy_session_text s))"
      by (auto simp: toy_session_text_def as_bytes_def list_all_iff)
  qed
  then show ?thesis
    by (auto simp: codec_laws_def toy_codec_def session_small_def intro: toy_session_roundtrip)
qed

definition toy_world :: relay_world where
  "toy_world = \<lparr>w_sha = id, w_blake = id, w_lib = client_crypto, w_codec = toy_codec, w_lossy = map (\<lambda>b. char_of (unat b)),
     w_ident = (\<lambda>p. if p then \<lparr>id_fingerprint = ''AA'', id_null_id = ''NN-A''\<rparr> else \<lparr>id_fingerprint = ''BB'', id_null_id = ''NN-B''\<rparr>),
     w_frames = [FPing, FText ''ok'']\<rparr>"

definition toy_io :: client_io where
  "toy_io = \<lparr>io_connect = True, io_kyber_writable = True, io_kyber_nonce = replicate 12 0, io_kem_rnd = [], io_msg_rnd = [],
     io_msg_nonce = replicate 12 0, io_pad = replicate 250 0, io_nonce = 1, io_ts = 1, io_show_ts = ''1'', io_uuid = ''id'',
     io_sign = (\<lambda>t. Inr ''sig''), io_cert = Inr ''cert'', io_send = True, io_sql_load = True, io_sql_save = True,
     io_db_nonce = replicate 12 0, io_db_time = ''t''\<rparr>"

lemma toy_world_ok: "world_ok toy_world"
  using client_crypto_laws toy_codec_laws
  by (simp add: world_ok_def toy_world_def client_crypto_def [THEN arg_cong [of _ _ json_parse]] json_get_def lossy_laws_def
      as_bytes_def o_def utf8_valid_ascii)

lemma toy_io_ok: "operation_ok toy_io"
  by (simp add: operation_ok_def toy_io_def)

lemma toy_event_ok: "client_event_ok (RSend p toy_io ''hello'')" "client_event_ok (RRecv p toy_io)"
  using toy_io_ok by (simp_all add: pad_len_def bucket_size_def as_bytes_def utf8_valid_ascii toy_io_def)

lemma toy_first_format:
  assumes "encrypt_first client_crypto (replicate 12 0) pt a = (Inr ct, a')"
  shows "\<not> kyber_format (drop 12 ct)"
proof -
  have ct: "drop 12 ct = as_bytes pt @ replicate 16 0"
    using assms by (auto simp: encrypt_first_def derive_message_key_def client_crypto_def toy_crypto_def Let_def)
  have "(as_bytes pt @ replicate 16 0) ! (14 + length pt) = 0" "(as_bytes pt @ replicate 16 0) ! (15 + length pt) = 0"
    by (simp_all add: nth_append)
  then show ?thesis by (simp add: kyber_format_def kyber_len_def ct u16_from_be_def)
qed

definition toy_stores :: "bool \<Rightarrow> MessageStore" where
  "toy_stores p = message_store_new (replicate 32 (if p then 1 else 2))"

lemma toy_stores_simps:
  "length (ms_db_key (toy_stores p)) = 32" "load_session L True nid (toy_stores p) = Inr None"
  by (simp_all add: toy_stores_def message_store_new_def load_session_def)

lemma toy_first_request:
  obtains req S' fs' where "send_via_relay (w_sha toy_world) (w_lib toy_world) (w_codec toy_world) toy_io (w_frames toy_world)
      (w_ident toy_world True) (w_nid toy_world (\<not> True)) (w_fp toy_world (\<not> True)) ''hello'' (toy_stores True) Map.empty = (Inr (), [req], S', fs')"
    and "\<not> misread (w_lib toy_world) req"
proof -
  have key: "key_file_ok toy_world True (ms_db_key (toy_stores True)) Map.empty" by (simp add: key_file_ok_def)
  show thesis
  proof (rule first_send [OF toy_world_ok toy_event_ok(1) toy_stores_simps(1) key toy_stores_simps(2)])
    fix req ct padded a a' S' fs'
    assume e: "encrypt_first (w_lib toy_world) (io_msg_nonce toy_io) padded a = (Inr ct, a')"
      and m: "misread (w_lib toy_world) req = kyber_format (drop 12 ct)"
      and s: "send_via_relay (w_sha toy_world) (w_lib toy_world) (w_codec toy_world) toy_io (w_frames toy_world)
        (w_ident toy_world True) (w_nid toy_world (\<not> True)) (w_fp toy_world (\<not> True)) ''hello'' (toy_stores True) Map.empty = (Inr (), [req], S', fs')"
    have "encrypt_first client_crypto (replicate 12 0) padded a = (Inr ct, a')" using e by (simp add: toy_world_def toy_io_def)
    from toy_first_format [OF this] m s show thesis by (intro that) simp_all
  qed
qed



end
