(* ===== verification/ClientServer.thy ===== *)
theory ClientServer
  imports ClientConversation Relay
begin

text \<open>
  The client's requests at the relay: what \<open>relay/src/main.rs\<close> makes of the JSON that \<open>client/src/main.rs\<close> sends, and what the client makes
  of the relay's answer. serde's parser gives back the value that was printed; this is a hypothesis where text is parsed.
\<close>

text \<open>The relay's \<open>RelayResponse\<close>, as it is sent.\<close>

definition response_json :: "bool \<Rightarrow> string option \<Rightarrow> json option \<Rightarrow> json" where
  "response_json ok err data =
     JObj [(''ok'', JBool ok), (''error'', (case err of None \<Rightarrow> JNull | Some e \<Rightarrow> JStr e)), (''data'', opt_or JNull data)]"

section \<open>Storing and fetching\<close>

lemma show_int_1: "show_int 1 = ''1''"
  by code_simp

text \<open>
  C39. The relay understands a client's store request: it decodes to a request for the recipient, with the client's blob and
  names, it is handled by the signature check, freshness check, replay check and mailbox, and the text whose signature is
  checked is exactly the text that the client signed.
\<close>

theorem store_request_at_relay:
  assumes "io_show_ts io = rb_show_f64 R (io_ts io)"
  shows "\<exists>env req. parse_relay_envelope (store_request_json identity nid io blob sg cert) = Some env
    \<and> handle_message R c env S = try_then (accept_store R c req S) (\<lambda>_ S. (Inr (send_ok None), S))
    \<and> store_signing_data (rb_show_f64 R) req = store_signing_text identity nid io
    \<and> sr_recipient_nid req = nid \<and> sr_signed_blob req = blob \<and> sr_sender_sig req = sg \<and> sr_sender_cert req = cert
    \<and> sr_sender_nid req = id_null_id identity \<and> sr_sender_fp req = id_fingerprint identity \<and> sr_sealed_sender req = []"
proof -
  let ?req = "\<lparr>sr_recipient_nid = nid, sr_signed_blob = blob, sr_sender_nid = id_null_id identity, sr_sender_fp = id_fingerprint identity,
     sr_seq = 1, sr_sender_sig = sg, sr_timestamp = io_ts io, sr_nonce = show_int (io_nonce io), sr_sender_cert = cert, sr_sealed_sender = []\<rparr>"
  let ?pl = "opt_or JNull (json_get (store_request_json identity nid io blob sg cert) ''payload'')"
  have env: "parse_relay_envelope (store_request_json identity nid io blob sg cert)
      = Some \<lparr>re_msg_type = ''relay-store'', re_payload = ?pl, re_msg_id = io_uuid io, re_ts = io_ts io\<rparr>"
    by (simp add: parse_relay_envelope_def store_request_json_def json_struct_def required_def json_get_def)
  have "parse_store_request ?pl = Some ?req"
    by (simp add: parse_store_request_def store_request_json_def json_struct_def required_def defaulted_def json_get_def)
  moreover have "store_signing_data (rb_show_f64 R) ?req = store_signing_text identity nid io"
    using assms by (simp add: store_signing_data_def store_signing_text_def show_int_1)
  ultimately show ?thesis
    by (intro exI [of _ "\<lparr>re_msg_type = ''relay-store'', re_payload = ?pl, re_msg_id = io_uuid io, re_ts = io_ts io\<rparr>"] exI [of _ ?req])
      (simp add: env handle_message_def handle_relay_store_def relay_parse_def)
qed

text \<open>
  The relay understands a client's fetch request and checks the text that the client signed; and the client reads back from the
  relay's answer exactly the blobs and senders of the mailbox entries, in their order.
\<close>

theorem fetch_request_at_relay:
  assumes "io_show_ts io = rb_show_f64 R (io_ts io)"
  shows "\<exists>env req js. parse_relay_envelope (fetch_request_json identity nid io nonce sg cert) = Some env
    \<and> handle_message R c env S = handle_relay_fetch R c (re_payload env) S \<and> parse_fetch_request (re_payload env) = Some req
    \<and> fetch_data R req = ''relay-fetch:'' @ nid @ '':'' @ io_show_ts io @ '':'' @ nonce
    \<and> fr_requester_fp req = id_fingerprint identity \<and> fr_sender_sig req = sg \<and> fr_recipient_nid req = nid
    \<and> answer_entries (response_json True None (Some (entries_json es))) = Inr (Some js)
    \<and> map (\<lambda>j. (str_at j ''signed_blob'', str_at j ''sender_nid'', str_at j ''sender_fp'')) js
        = map (\<lambda>e. (Some (me_signed_blob e), Some (me_sender_nid e), Some (me_sender_fp e))) es"
  using assms
  by (simp add: parse_relay_envelope_def fetch_request_json_def json_struct_def required_def handle_message_def
      parse_fetch_request_def defaulted_def fetch_data_def answer_entries_def response_json_def entries_json_def str_at_def json_get_def)

section \<open>Purging\<close>

text \<open>
  A client's purge request never reaches the mailbox: it has a \<open>type\<close> where the relay expects \<open>msg_type\<close> and no payload, so the
  relay answers that the JSON is invalid and changes nothing; the client takes that answer for a success.
\<close>

theorem purge_request_refused:
  assumes "json_parse (rb_crypto R) text = Some (purge_request_json identity nid io nonce sg)"
    and "json_parse L answer = Some (response_json False (Some e) None)" and "io_connect io" and "io_send io"
    and "io_sign io (''relay-purge:'' @ nid @ '':'' @ io_show_ts io @ '':'' @ nonce) = Inr sg"
  shows "handle_ws_text R c text S = (send_error ''invalid JSON'', S)
    \<and> relay_purge L io nonce (Some answer) (Inr identity) nid = (Inr (), [purge_request_json identity nid io nonce sg])"
  using assms
  by (simp add: handle_ws_text_def purge_request_json_def parse_relay_envelope_def json_struct_def required_def relay_purge_def)

section \<open>Witnesses\<close>

definition purge_lib :: "json \<Rightarrow> crypto_lib" where
  "purge_lib j = toy_crypto\<lparr>json_parse := \<lambda>_. Some j\<rparr>"

definition purge_relay :: "json \<Rightarrow> string relay_lib" where
  "purge_relay j = \<lparr>rb_pgp = toy_pgp, rb_crypto = purge_lib j, rb_show_f64 = \<lambda>_. ''1''\<rparr>"

definition purge_call :: relay_call where
  "purge_call = \<lparr>rc_now = 1, rc_instant = 1, rc_mid = ''id'', rc_nonce = replicate 12 0, rc_lock_ok = True, rc_db_ok = True\<rparr>"

theorem store_request_at_relay_witness:
  "\<exists>env req. parse_relay_envelope (store_request_json (w_ident toy_world True) ''NN-B'' toy_io ''blob'' ''sig'' ''cert'') = Some env
    \<and> handle_message (purge_relay JNull) purge_call env (relay_new None [] None [] True)
        = try_then (accept_store (purge_relay JNull) purge_call req (relay_new None [] None [] True)) (\<lambda>_ S. (Inr (send_ok None), S))
    \<and> store_signing_data (rb_show_f64 (purge_relay JNull)) req = store_signing_text (w_ident toy_world True) ''NN-B'' toy_io"
proof -
  have "io_show_ts toy_io = rb_show_f64 (purge_relay JNull) (io_ts toy_io)" by (simp add: toy_io_def purge_relay_def)
  from store_request_at_relay [OF this, of "w_ident toy_world True" "''NN-B''" "''blob''" "''sig''" "''cert''" purge_call
      "relay_new None [] None [] True"]
  show ?thesis by blast
qed

theorem fetch_request_at_relay_witness:
  "\<exists>env req. parse_relay_envelope (fetch_request_json (w_ident toy_world True) ''NN-A'' toy_io ''n'' ''sig'' ''cert'') = Some env
    \<and> parse_fetch_request (re_payload env) = Some req \<and> fetch_data (purge_relay JNull) req = ''relay-fetch:NN-A:1:n''"
proof -
  have "io_show_ts toy_io = rb_show_f64 (purge_relay JNull) (io_ts toy_io)" by (simp add: toy_io_def purge_relay_def)
  from fetch_request_at_relay [OF this, of "w_ident toy_world True" "''NN-A''" "''n''" "''sig''" "''cert''" purge_call
      "relay_new None [] None [] True" "[]"]
  show ?thesis by (auto simp: toy_io_def)
qed

theorem purge_request_refused_witness:
  "handle_ws_text (purge_relay (purge_request_json (w_ident toy_world True) ''NN-A'' toy_io ''n'' ''sig'')) purge_call ''{}''
       (relay_new None [] None [] True) = (send_error ''invalid JSON'', relay_new None [] None [] True)
   \<and> relay_purge (purge_lib (response_json False (Some ''invalid JSON'') None)) toy_io ''n'' (Some ''{}'') (Inr (w_ident toy_world True)) ''NN-A''
       = (Inr (), [purge_request_json (w_ident toy_world True) ''NN-A'' toy_io ''n'' ''sig''])"
  by (rule purge_request_refused) (simp_all add: purge_relay_def purge_lib_def toy_io_def)

end
