(* ===== verification/ClientIdentity.thy ===== *)
theory ClientIdentity
  imports ClientFiles ClientRelay RelayAuth
begin

text \<open>
  The client's identity (\<open>client/src/main.rs\<close>): the certificate file, encrypted with a passphrase or in clear, the identity
  file, signing, and the creation of an identity. Sequoia's key generation and serialiser and the age library are parameters
  in \<open>key_lib\<close>; the passphrase prompt and the outcome of file operations are arguments.
\<close>

definition IDENTITY_PATH :: string where "IDENTITY_PATH = ''.nullnode/identity.json''"
definition enc_cert_path :: string where "enc_cert_path = ''.nullnode/gnupg/own_cert.age''"
definition plain_cert_path :: string where "plain_cert_path = ''.nullnode/gnupg/own_cert.asc''"

record 'cert key_lib =
  kl_pgp :: "'cert pgp_lib"
  kl_generate :: "string \<Rightarrow> string + 'cert"
  kl_tsk_armored :: "'cert \<Rightarrow> bytes option"
  kl_age_encrypt :: "string \<Rightarrow> string \<Rightarrow> bytes option"
  kl_age_decrypt :: "string \<Rightarrow> string \<Rightarrow> bytes option"

section \<open>The certificate file\<close>

definition encrypt_cert_armored :: "'cert key_lib \<Rightarrow> string \<Rightarrow> string \<Rightarrow> string + string" where
  "encrypt_cert_armored K plaintext password =
     bind_result (ok_or ''age encrypt'' (kl_age_encrypt K plaintext password)) (\<lambda>buf. ok_or ''age output utf8'' (from_utf8 buf))"

definition decrypt_cert_armored :: "'cert key_lib \<Rightarrow> string \<Rightarrow> string \<Rightarrow> string + string" where
  "decrypt_cert_armored K armored password =
     bind_result (ok_or ''age decrypt'' (kl_age_decrypt K armored password)) (\<lambda>plaintext. ok_or ''decrypted cert utf8'' (from_utf8 plaintext))"

text \<open>A file that begins with a replacement character or a zero byte was damaged by an old version.\<close>

definition corrupt_cert :: "string \<Rightarrow> bool" where
  "corrupt_cert armored \<longleftrightarrow>
     armored \<noteq> [] \<and> (take 3 (as_bytes armored) = [0xEF, 0xBF, 0xBD] \<or> hd (as_bytes armored) = 0)"

definition load_cert :: "'cert key_lib \<Rightarrow> bool \<Rightarrow> string + string \<Rightarrow> file_system \<Rightarrow> string + 'cert" where
  "load_cert K readable prompt_passphrase fs =
     (case fs enc_cert_path of
        Some armored \<Rightarrow>
          if \<not> readable then Inl ''read''
          else bind_result prompt_passphrase (\<lambda>password.
            if password = [] then Inl ''encrypted own_cert.age requires a passphrase''
            else bind_result (decrypt_cert_armored K armored password) (\<lambda>plaintext.
              ok_or ''parse decrypted cert'' (cert_from_bytes (kl_pgp K) (as_bytes plaintext))))
      | None \<Rightarrow>
          (case fs plain_cert_path of
             None \<Rightarrow> Inl ''no identity found''
           | Some armored \<Rightarrow>
               if \<not> readable then Inl ''read''
               else if corrupt_cert armored then Inl ''corrupt identity file detected''
               else ok_or ''parse cert'' (cert_from_bytes (kl_pgp K) (as_bytes armored))))"

definition sign_data :: "'cert pgp_lib \<Rightarrow> string \<Rightarrow> 'cert \<Rightarrow> string + string" where
  "sign_data P data cert =
     bind_result (sign_detached P data cert) (\<lambda>sig_armored. Inr (b64_encode P (as_bytes sig_armored)))"

definition sign_for_transport :: "'cert key_lib \<Rightarrow> bool \<Rightarrow> string + string \<Rightarrow> file_system \<Rightarrow> string \<Rightarrow> string + string" where
  "sign_for_transport K readable prompt fs data =
     bind_result (load_cert K readable prompt fs) (\<lambda>cert. map_err (\<lambda>e. ''sign failed: '' @ e) (sign_data (kl_pgp K) data cert))"

definition tsk_text :: "'cert key_lib \<Rightarrow> 'cert \<Rightarrow> string + string" where
  "tsk_text K cert =
     bind_result (ok_or ''cert armored serialize failed'' (kl_tsk_armored K cert)) (\<lambda>buf. ok_or ''cert armored utf8 error'' (from_utf8 buf))"

definition load_armored_cert :: "'cert key_lib \<Rightarrow> bool \<Rightarrow> string + string \<Rightarrow> file_system \<Rightarrow> string + string" where
  "load_armored_cert K readable prompt fs = bind_result (load_cert K readable prompt fs) (tsk_text K)"

section \<open>The identity file\<close>

definition identity_json :: "client_identity \<Rightarrow> json" where
  "identity_json identity = JObj [(''fingerprint'', JStr (id_fingerprint identity)), (''null_id'', JStr (id_null_id identity))]"

definition parse_identity :: "json \<Rightarrow> client_identity option" where
  "parse_identity j =
     Option.bind (json_struct [''fingerprint'', ''null_id''] j) (\<lambda>f.
     Option.bind (required as_str (f ''fingerprint'')) (\<lambda>fingerprint.
     Option.bind (required as_str (f ''null_id'')) (\<lambda>null_id.
       Some \<lparr>id_fingerprint = fingerprint, id_null_id = null_id\<rparr>)))"

definition identity_load :: "crypto_lib \<Rightarrow> bool \<Rightarrow> file_system \<Rightarrow> string + client_identity" where
  "identity_load L readable fs =
     (case fs IDENTITY_PATH of
        None \<Rightarrow> Inl ''no identity found''
      | Some content \<Rightarrow>
          if \<not> readable then Inl ''read'' else ok_or ''json'' (Option.bind (json_parse L content) parse_identity))"

definition identity_save :: "(json \<Rightarrow> string) \<Rightarrow> file_io \<Rightarrow> client_identity \<Rightarrow> file_system \<Rightarrow> (string + unit) \<times> file_system" where
  "identity_save pretty io identity fs =
     (if \<not> fio_mkdir io then (Inl ''create directory'', fs)
      else (case fio_write io of
              WriteFailed c \<Rightarrow> (Inl ''write'', fs(IDENTITY_PATH := c))
            | WriteOk \<Rightarrow>
                (if fio_chmod io then Inr () else Inl ''permissions'', fs(IDENTITY_PATH \<mapsto> pretty (identity_json identity)))))"

section \<open>Creating an identity\<close>

record new_identity_io =
  ni_suffix :: string
  ni_dirs :: bool
  ni_prompt :: "string + string"
  ni_cert_write :: write_outcome
  ni_cert_chmod :: bool
  ni_remove_plain :: bool
  ni_db_writable :: bool
  ni_db_key :: bytes
  ni_kyber_writable :: bool
  ni_kyber_nonce :: bytes
  ni_identity :: file_io

definition identity_uid :: "string \<Rightarrow> string" where
  "identity_uid sfx = ''nn-'' @ sfx @ '' <nn-'' @ sfx @ ''@nullnode.local>''"

text \<open>Writing the certificate: in clear without a passphrase, otherwise encrypted, and then the old clear file is removed.\<close>

definition write_own_cert :: "'cert key_lib \<Rightarrow> new_identity_io \<Rightarrow> string \<Rightarrow> string \<Rightarrow> file_system \<Rightarrow> (string + unit) \<times> file_system" where
  "write_own_cert K io armored password fs =
     (if password = [] then
        (case ni_cert_write io of
           WriteFailed c \<Rightarrow> (Inl ''write'', fs(plain_cert_path := c))
         | WriteOk \<Rightarrow> (if ni_cert_chmod io then Inr () else Inl ''permissions'', fs(plain_cert_path \<mapsto> armored)))
      else
        (case encrypt_cert_armored K armored password of
           Inl e \<Rightarrow> (Inl e, fs)
         | Inr encrypted \<Rightarrow>
             (case ni_cert_write io of
                WriteFailed c \<Rightarrow> (Inl ''write'', fs(enc_cert_path := c))
              | WriteOk \<Rightarrow>
                  if \<not> ni_cert_chmod io then (Inl ''permissions'', fs(enc_cert_path \<mapsto> encrypted))
                  else (Inr (), (fs(enc_cert_path \<mapsto> encrypted))(plain_cert_path :=
                          if ni_remove_plain io then None else fs plain_cert_path)))))"

text \<open>The key pair of the Null ID, stored under the database key; the key file's loader panics on errors.\<close>

definition store_derived_keys ::
  "(bytes \<Rightarrow> bytes) \<Rightarrow> crypto_lib \<Rightarrow> new_identity_io \<Rightarrow> string \<Rightarrow> file_system \<Rightarrow> (string + unit) \<times> file_system" where
  "store_derived_keys H L io nid fs =
     (case derived_keypair H L nid of
        Inl e \<Rightarrow> (Inl e, fs)
      | Inr kp \<Rightarrow>
          (case db_key_load_or_create_sync L (ni_db_writable io) (ni_db_key io) fs of
             (None, fs') \<Rightarrow> (Inl ''panic: db key'', fs')
           | (Some db_key, fs') \<Rightarrow>
               (case save L (ni_kyber_writable io) (ni_kyber_nonce io) kp KYBER_KEY_PATH db_key fs' of
                  (Inl _, fs'') \<Rightarrow> (Inl ''kyber keypair save failed'', fs'')
                | (Inr _, fs'') \<Rightarrow> (Inr (), fs''))))"

definition generate_identity ::
  "(bytes \<Rightarrow> bytes) \<Rightarrow> crypto_lib \<Rightarrow> 'cert key_lib \<Rightarrow> (json \<Rightarrow> string) \<Rightarrow> new_identity_io \<Rightarrow> file_system
    \<Rightarrow> (string + client_identity) \<times> file_system" where
  "generate_identity H L K pretty io fs =
     (case bind_result (map_err (\<lambda>_. ''key generation failed'') (kl_generate K (identity_uid (ni_suffix io)))) (\<lambda>cert.
             bind_result (tsk_text K cert) (\<lambda>armored.
               if \<not> ni_dirs io then Inl ''create directory''
               else bind_result (ni_prompt io) (\<lambda>password. Inr (cert, armored, password)))) of
        Inl e \<Rightarrow> (Inl e, fs)
      | Inr (cert, armored, password) \<Rightarrow>
          let fingerprint = to_uppercase (cert_fingerprint (kl_pgp K) cert);
              nid = compute_null_id (kl_pgp K) fingerprint;
              identity = \<lparr>id_fingerprint = fingerprint, id_null_id = nid\<rparr>
          in (case write_own_cert K io armored password fs of
                (Inl e, fs1) \<Rightarrow> (Inl e, fs1)
              | (Inr _, fs1) \<Rightarrow>
                  (case store_derived_keys H L io nid fs1 of
                     (Inl e, fs2) \<Rightarrow> (Inl e, fs2)
                   | (Inr _, fs2) \<Rightarrow>
                       (case identity_save pretty (ni_identity io) identity fs2 of
                          (Inl e, fs3) \<Rightarrow> (Inl e, fs3)
                        | (Inr _, fs3) \<Rightarrow> (Inr identity, fs3)))))"

section \<open>A new identity can be loaded\<close>

text \<open>What the libraries document: an armoured key is text that is not a damaged file and parses to the same certificate;
  age decrypts with the passphrase what it encrypted, and its armoured output is text.\<close>

definition key_laws :: "'cert key_lib \<Rightarrow> bool" where
  "key_laws K \<longleftrightarrow>
     (\<forall>cert b. kl_tsk_armored K cert = Some b \<longrightarrow>
        cert_from_bytes (kl_pgp K) b = Some cert \<and> take 3 b \<noteq> [0xEF, 0xBF, 0xBD] \<and> b \<noteq> [] \<and> hd b \<noteq> 0)
     \<and> (\<forall>t pw b. kl_age_encrypt K t pw = Some b \<longrightarrow> (\<forall>s. from_utf8 b = Some s \<longrightarrow> kl_age_decrypt K s pw = Some (as_bytes t)))"

lemma from_utf8_Some: "from_utf8 b = Some s \<Longrightarrow> as_bytes s = b \<and> utf8_valid b"
  by (auto simp: from_utf8_def split: if_splits)

lemma tsk_text_Inr:
  assumes "key_laws K" and "tsk_text K cert = Inr armored"
  shows "cert_from_bytes (kl_pgp K) (as_bytes armored) = Some cert" and "\<not> corrupt_cert armored" and "utf8_valid (as_bytes armored)"
proof -
  obtain b where b: "kl_tsk_armored K cert = Some b" "from_utf8 b = Some armored"
    using assms(2) by (auto simp: tsk_text_def bind_result_Inr ok_or_def split: option.splits)
  note u = from_utf8_Some [OF b(2)]
  have k: "cert_from_bytes (kl_pgp K) b = Some cert" "take 3 b \<noteq> [0xEF, 0xBF, 0xBD]" "b \<noteq> []" "hd b \<noteq> 0"
    using assms(1) b(1) unfolding key_laws_def by blast+
  show "cert_from_bytes (kl_pgp K) (as_bytes armored) = Some cert" using u k(1) by simp
  show "\<not> corrupt_cert armored" using u k(2,4) by (simp add: corrupt_cert_def)
  show "utf8_valid (as_bytes armored)" using u by simp
qed

lemma write_own_cert_load:
  assumes "key_laws K" and "tsk_text K cert = Inr armored" and "write_own_cert K io armored password fs = (Inr (), fs')"
    and "password \<noteq> [] \<or> fs enc_cert_path = None"
  shows "load_cert K True (Inr password) fs' = Inr cert"
proof (cases "password = []")
  case True
  with assms(3) have "fs' = fs(plain_cert_path \<mapsto> armored)"
    by (auto simp: write_own_cert_def split: write_outcome.splits if_splits)
  with True assms(4) tsk_text_Inr [OF assms(1,2)] show ?thesis
    by (simp add: load_cert_def enc_cert_path_def plain_cert_path_def)
next
  case False
  then obtain enc where enc: "encrypt_cert_armored K armored password = Inr enc" "fs' enc_cert_path = Some enc"
    using assms(3)
    by (auto simp: write_own_cert_def enc_cert_path_def plain_cert_path_def split: sum.splits write_outcome.splits if_splits)
  then obtain b where "kl_age_encrypt K armored password = Some b" "from_utf8 b = Some enc"
    by (auto simp: encrypt_cert_armored_def bind_result_Inr ok_or_def split: option.splits)
  then have "kl_age_decrypt K enc password = Some (as_bytes armored)" using assms(1) unfolding key_laws_def by blast
  with False enc(2) tsk_text_Inr [OF assms(1,2)] show ?thesis by (simp add: load_cert_def decrypt_cert_armored_def)
qed

lemma cert_paths_distinct [simp]:
  "enc_cert_path \<noteq> IDENTITY_PATH" "enc_cert_path \<noteq> DB_KEY_PATH" "enc_cert_path \<noteq> KYBER_KEY_PATH"
  "plain_cert_path \<noteq> IDENTITY_PATH" "plain_cert_path \<noteq> DB_KEY_PATH" "plain_cert_path \<noteq> KYBER_KEY_PATH"
  "enc_cert_path \<noteq> plain_cert_path" "plain_cert_path \<noteq> enc_cert_path"
  by (simp_all add: IDENTITY_PATH_def enc_cert_path_def plain_cert_path_def DB_KEY_PATH_def KYBER_KEY_PATH_def)

lemma store_derived_keys_frame:
  assumes "store_derived_keys H L io nid fs = (r, fs')" and "path \<noteq> DB_KEY_PATH" and "path \<noteq> KYBER_KEY_PATH"
  shows "fs' path = fs path"
  using assms
  by (auto simp: store_derived_keys_def db_key_load_or_create_sync_def save_def write_file_def
      split: sum.splits option.splits prod.splits if_splits)

lemma identity_save_load:
  assumes "pretty_laws L pretty" and "identity_save pretty io identity fs = (Inr (), fs')"
  shows "identity_load L True fs' = Inr identity" and "path \<noteq> IDENTITY_PATH \<Longrightarrow> fs' path = fs path"
proof -
  let ?t = "[(''fingerprint'', id_fingerprint identity), (''null_id'', id_null_id identity)]"
  have fs': "fs' = fs(IDENTITY_PATH \<mapsto> pretty (identity_json identity))"
    using assms(2) by (auto simp: identity_save_def split: write_outcome.splits if_splits)
  then show "path \<noteq> IDENTITY_PATH \<Longrightarrow> fs' path = fs path" by simp
  have "wf_map ?t" by simp
  then obtain j t where j: "json_parse L (pretty (JObj (map (\<lambda>(k, v). (k, JStr v)) ?t))) = Some j"
      "as_string_table j = Some t" "map_of t = map_of ?t"
    using assms(1) unfolding pretty_laws_def by blast
  from as_string_table_JObj [OF j(2)] obtain kvs where kvs: "j = JObj kvs" by blast
  then have t: "t = map (\<lambda>(k, v). (k, opt_or [] (as_str v))) kvs" and strs: "list_all (\<lambda>(_, v). as_str v \<noteq> None) kvs"
    using j(2) by (simp_all split: if_splits)
  have field: "Option.bind (map_of kvs k) as_str = Some x" if "map_of ?t k = Some x" for k x
  proof -
    have "map_of t k = Some x" using that by (simp only: j(3))
    then have "map_option (\<lambda>v. opt_or [] (as_str v)) (map_of kvs k) = Some x" unfolding t map_of_map by simp
    then obtain v where v: "map_of kvs k = Some v" "opt_or [] (as_str v) = x" by auto
    from strs map_of_SomeD [OF v(1)] have "as_str v \<noteq> None" by (auto simp: list_all_iff)
    with v show ?thesis by auto
  qed
  have "Option.bind (map_of kvs ''fingerprint'') as_str = Some (id_fingerprint identity)"
    "Option.bind (map_of kvs ''null_id'') as_str = Some (id_null_id identity)"
    by (rule field, simp)+
  then show "identity_load L True fs' = Inr identity"
    using j(1) by (auto simp: identity_load_def fs' identity_json_def kvs parse_identity_def json_struct_def required_def bind_eq_Some_conv)
qed

text \<open>
  C38. A new identity can be used: when the creation succeeds, the identity file loads to the created identity, its Null ID is the
  one of its fingerprint, and the certificate file gives the certificate with that fingerprint, under the passphrase
  that was entered, unless the passphrase is empty and an encrypted certificate of an earlier identity is still there.
\<close>

theorem generate_identity_loads:
  assumes "key_laws K" and "pretty_laws L pretty" and "generate_identity H L K pretty io fs = (Inr identity, fs')"
    and "ni_prompt io = Inr password" and "password \<noteq> [] \<or> fs enc_cert_path = None"
  shows "identity_load L True fs' = Inr identity
    \<and> id_null_id identity = compute_null_id (kl_pgp K) (id_fingerprint identity)
    \<and> (\<exists>cert. load_cert K True (Inr password) fs' = Inr cert
        \<and> id_fingerprint identity = to_uppercase (cert_fingerprint (kl_pgp K) cert))"
proof -
  obtain cert armored fs1 fs2 where a: "tsk_text K cert = Inr armored" "write_own_cert K io armored password fs = (Inr (), fs1)"
      "store_derived_keys H L io (id_null_id identity) fs1 = (Inr (), fs2)"
      "identity_save pretty (ni_identity io) identity fs2 = (Inr (), fs')"
      "identity = \<lparr>id_fingerprint = to_uppercase (cert_fingerprint (kl_pgp K) cert),
         id_null_id = compute_null_id (kl_pgp K) (to_uppercase (cert_fingerprint (kl_pgp K) cert))\<rparr>"
    using assms(3,4) by (auto simp: generate_identity_def Let_def bind_result_Inr split: sum.splits prod.splits if_splits)
  have frame: "fs' path = fs1 path" if "path \<noteq> IDENTITY_PATH" "path \<noteq> DB_KEY_PATH" "path \<noteq> KYBER_KEY_PATH" for path
    using identity_save_load(2) [OF assms(2) a(4) that(1)] store_derived_keys_frame [OF a(3) that(2,3)] by simp
  have "fs' enc_cert_path = fs1 enc_cert_path" "fs' plain_cert_path = fs1 plain_cert_path"
    by (rule frame; simp)+
  then have "load_cert K True (Inr password) fs' = load_cert K True (Inr password) fs1" by (simp only: load_cert_def)
  with write_own_cert_load [OF assms(1) a(1,2) assms(5)] identity_save_load(1) [OF assms(2) a(4)] a(5)
  show ?thesis by simp
qed

text \<open>
  In the remaining case the new certificate is never used: it is written in clear, but loading prefers the encrypted file of
  the earlier identity, so the new identity file and the signing key do not belong together.
\<close>

theorem new_identity_shadowed:
  assumes "pretty_laws L pretty" and "generate_identity H L K pretty io fs = (Inr identity, fs')" and "ni_prompt io = Inr []"
    and "fs enc_cert_path = Some old"
  shows "identity_load L True fs' = Inr identity \<and> load_cert K r pr fs' = load_cert K r pr fs"
proof -
  obtain armored fs1 fs2 where a: "write_own_cert K io armored [] fs = (Inr (), fs1)"
      "store_derived_keys H L io (id_null_id identity) fs1 = (Inr (), fs2)"
      "identity_save pretty (ni_identity io) identity fs2 = (Inr (), fs')"
    using assms(2,3) by (auto simp: generate_identity_def Let_def bind_result_Inr split: sum.splits prod.splits if_splits)
  have "fs1 enc_cert_path = Some old"
    using a(1) assms(4) by (auto simp: write_own_cert_def split: write_outcome.splits if_splits)
  then have "fs' enc_cert_path = Some old"
    using identity_save_load(2) [OF assms(1) a(3), of enc_cert_path] store_derived_keys_frame [OF a(2), of enc_cert_path]
    by simp
  then have "load_cert K r pr fs' = load_cert K r pr fs" by (simp only: load_cert_def assms(4) option.case)
  with identity_save_load(1) [OF assms(1) a(3)] show ?thesis by simp
qed

section \<open>Witnesses\<close>

text \<open>Certificates that are their own armour, and a passphrase that is written before the text.\<close>

definition toy_keys :: "string key_lib" where
  "toy_keys =
     \<lparr>kl_pgp = toy_pgp, kl_generate = (\<lambda>_. Inr ''ab12''),
      kl_tsk_armored = (\<lambda>c. if utf8_valid (as_bytes c) \<and> as_bytes c \<noteq> [] \<and> hd (as_bytes c) \<noteq> 0 \<and> take 3 (as_bytes c) \<noteq> [0xEF, 0xBF, 0xBD]
         then Some (as_bytes c) else None),
      kl_age_encrypt = (\<lambda>t pw. Some (as_bytes pw @ as_bytes t)),
      kl_age_decrypt = (\<lambda>s pw. Some (drop (length pw) (as_bytes s)))\<rparr>"

lemma toy_key_laws: "key_laws toy_keys"
  by (auto simp: key_laws_def toy_keys_def toy_pgp_def dest: from_utf8_Some split: if_splits)

definition toy_new_io :: "string \<Rightarrow> new_identity_io" where
  "toy_new_io password =
     \<lparr>ni_suffix = ''00'', ni_dirs = True, ni_prompt = Inr password, ni_cert_write = WriteOk, ni_cert_chmod = True, ni_remove_plain = True,
      ni_db_writable = True, ni_db_key = replicate 32 1, ni_kyber_writable = True, ni_kyber_nonce = replicate 12 0,
      ni_identity = io_fine\<rparr>"

lemma toy_identity_created:
  "\<exists>identity fs'. generate_identity id file_crypto toy_keys file_print (toy_new_io ''pw'') Map.empty = (Inr identity, fs')"
proof -
  have utf8: "utf8_valid (as_bytes ''ab12'')" "utf8_valid (as_bytes ''pw'' @ as_bytes ''ab12'')"
    by (simp_all add: as_bytes_def utf8_valid_ascii)
  have tsk: "tsk_text toy_keys ''ab12'' = Inr ''ab12''"
    using utf8(1) by (simp add: tsk_text_def toy_keys_def from_utf8_as_bytes) (simp add: as_bytes_def)
  have enc: "\<exists>e. encrypt_cert_armored toy_keys ''ab12'' ''pw'' = Inr e"
    using utf8(2) by (simp add: encrypt_cert_armored_def toy_keys_def from_utf8_def)
  have dk: "\<exists>kp. derived_keypair id file_crypto nid = Inr kp" for nid
    by (simp add: derived_keypair_def kyber_seed_def file_crypto_def toy_crypto_def from_seed_def)
  have keys: "\<exists>fs'. store_derived_keys id file_crypto (toy_new_io ''pw'') nid fs = (Inr (), fs')" if "fs DB_KEY_PATH = None" for nid fs
    using dk [of nid] that
    by (auto simp: store_derived_keys_def db_key_load_or_create_sync_def toy_new_io_def save_def file_key_def file_crypto_def toy_crypto_def
        write_file_def)
  have cert: "\<exists>fs'. write_own_cert toy_keys (toy_new_io ''pw'') ''ab12'' ''pw'' Map.empty = (Inr (), fs') \<and> fs' DB_KEY_PATH = None"
    using enc by (auto simp: write_own_cert_def toy_new_io_def enc_cert_path_def plain_cert_path_def DB_KEY_PATH_def)
  from cert obtain fs1 where c: "write_own_cert toy_keys (toy_new_io ''pw'') ''ab12'' ''pw'' Map.empty = (Inr (), fs1)" "fs1 DB_KEY_PATH = None"
    by blast
  from keys [of fs1, OF c(2)] obtain fs2 where
    k: "store_derived_keys id file_crypto (toy_new_io ''pw'') (compute_null_id toy_pgp (to_uppercase ''ab12'')) fs1 = (Inr (), fs2)"
    by blast
  have g: "kl_generate toy_keys u = Inr ''ab12''" "kl_pgp toy_keys = toy_pgp" "cert_fingerprint toy_pgp ''ab12'' = ''ab12''" for u
    by (simp_all add: toy_keys_def toy_pgp_def)
  have io: "ni_prompt (toy_new_io ''pw'') = Inr ''pw''" "ni_dirs (toy_new_io ''pw'')" "ni_identity (toy_new_io ''pw'') = io_fine"
    by (simp_all add: toy_new_io_def)
  show ?thesis by (simp add: generate_identity_def Let_def g io tsk c(1) k identity_save_def io_fine_def)
qed

theorem generate_identity_loads_witness:
  "\<exists>identity fs'. generate_identity id file_crypto toy_keys file_print (toy_new_io ''pw'') Map.empty = (Inr identity, fs')
    \<and> identity_load file_crypto True fs' = Inr identity
    \<and> (\<exists>cert. load_cert toy_keys True (Inr ''pw'') fs' = Inr cert)"
proof -
  obtain identity fs' where g: "generate_identity id file_crypto toy_keys file_print (toy_new_io ''pw'') Map.empty = (Inr identity, fs')"
    using toy_identity_created by blast
  have "ni_prompt (toy_new_io ''pw'') = Inr ''pw''" by (simp add: toy_new_io_def)
  from generate_identity_loads [OF toy_key_laws file_pretty_laws g this] g show ?thesis by auto
qed

end
