(* ===== verification/ClientDht.thy ===== *)
theory ClientDht
  imports ClientIdentity NodeSafety Pir
begin

text \<open>
  The client's side of the DHT (\<open>client/src/main.rs\<close>): lookup, registration and the lookup over private information
  retrieval, and what a node of \<open>dht-core\<close> makes of the requests. The connection is a flag and the list of the frames that
  arrive; serde's reading of an envelope is the parameter \<open>read_env\<close>; signing is \<open>sign_data\<close> over Sequoia.
\<close>

section \<open>Addresses\<close>

text \<open>\<open>str::replace\<close>: every occurrence from the left, without overlaps; the pattern is not empty.\<close>

function str_replace :: "string \<Rightarrow> string \<Rightarrow> string \<Rightarrow> string" where
  "str_replace pat new s =
     (if s = [] \<or> pat = [] then s
      else if prefix pat s then new @ str_replace pat new (drop (length pat) s)
      else hd s # str_replace pat new (tl s))"
  by pat_completeness auto
termination by (relation "measure (\<lambda>(_, _, s). length s)") (auto simp: neq_Nil_conv)

declare str_replace.simps [simp del]

definition ws_url :: "string \<Rightarrow> string" where
  "ws_url url = str_replace ''https://'' ''wss://'' (str_replace ''http://'' ''ws://'' url)"

section \<open>Lookup\<close>

definition dht_get_text :: "crypto_lib \<Rightarrow> string \<Rightarrow> string" where
  "dht_get_text L nid = ''dht-get:'' @ json_print L (JObj [(''key'', JStr nid)]) @ [CHR 0x0A]"

definition dht_get_request :: "string \<Rightarrow> f64 \<Rightarrow> string \<Rightarrow> string \<Rightarrow> WireEnvelope" where
  "dht_get_request mid now sg nid =
     \<lparr>msg_type = ''dht-get'', payload = JObj [(''key'', JStr nid)], msg_id = mid, ts = now, sig = sg\<rparr>"

text \<open>The answer is the next frame; anything but a text is no answer.\<close>

definition lookup_answer :: "(string \<Rightarrow> WireEnvelope option) \<Rightarrow> ws_frame list \<Rightarrow> string + string" where
  "lookup_answer read_env frames =
     (case frames of
        FText resp_text # _ \<Rightarrow>
          bind_result (ok_or ''json'' (read_env resp_text)) (\<lambda>resp.
            let address = opt_or [] (payload_str resp ''value'')
            in if msg_type resp = ''dht-found'' \<and> address \<noteq> [] then Inr address else Inl ''recipient not found in DHT'')
      | _ \<Rightarrow> Inl ''recipient not found in DHT'')"

record dht_io =
  di_connect :: bool
  di_send :: bool
  di_mid :: string
  di_now :: f64

text \<open>The request that is sent, if any, and the result.\<close>

definition dht_lookup ::
  "crypto_lib \<Rightarrow> 'cert pgp_lib \<Rightarrow> (string \<Rightarrow> WireEnvelope option) \<Rightarrow> dht_io \<Rightarrow> string + 'cert \<Rightarrow> ws_frame list \<Rightarrow> string
    \<Rightarrow> (string + string) \<times> WireEnvelope option" where
  "dht_lookup L P read_env io our_cert frames nid =
     (if \<not> di_connect io then (Inl ''DHT connect failed'', None)
      else
        (case bind_result our_cert (\<lambda>cert. map_err (\<lambda>e. ''sign failed: '' @ e) (sign_data P (dht_get_text L nid) cert)) of
           Inl e \<Rightarrow> (Inl e, None)
         | Inr sg \<Rightarrow>
             if \<not> di_send io then (Inl ''DHT send failed'', None)
             else (lookup_answer read_env frames, Some (dht_get_request (di_mid io) (di_now io) sg nid))))"

section \<open>Registration\<close>

text \<open>The check whether the key exists: at most ten frames are read; the rest stays for the answer to the put.\<close>

fun check_registered :: "(string \<Rightarrow> WireEnvelope option) \<Rightarrow> nat \<Rightarrow> ws_frame list \<Rightarrow> bool \<times> ws_frame list" where
  "check_registered read_env 0 frames = (False, frames)"
| "check_registered read_env (Suc n) [] = (False, [])"
| "check_registered read_env (Suc n) (FText t # frames) =
     ((case read_env t of Some resp \<Rightarrow> msg_type resp = ''dht-found'' | None \<Rightarrow> False), frames)"
| "check_registered read_env (Suc n) (FPing # frames) = check_registered read_env n frames"
| "check_registered read_env (Suc n) (FOther # frames) = check_registered read_env n frames"
| "check_registered read_env (Suc n) (FClose # frames) = (False, frames)"
| "check_registered read_env (Suc n) (FError # frames) = (False, frames)"

definition register_difficulty :: "int \<Rightarrow> nat" where
  "register_difficulty seq = (if seq = 0 then 8 else DHT_POW_DIFFICULTY)"

definition register_pow_data :: "client_identity \<Rightarrow> string \<Rightarrow> int \<Rightarrow> string" where
  "register_pow_data identity salt seq = id_null_id identity @ id_fingerprint identity @ salt @ show_int seq"

definition register_text :: "client_identity \<Rightarrow> string \<Rightarrow> int \<Rightarrow> u64 \<Rightarrow> string" where
  "register_text identity salt seq pow_nonce =
     id_null_id identity @ ''|'' @ id_fingerprint identity @ ''|'' @ salt @ ''|'' @ show_int seq @ ''|'' @ show_nat (unat pow_nonce)"

definition register_request ::
  "string \<Rightarrow> f64 \<Rightarrow> client_identity \<Rightarrow> string \<Rightarrow> int \<Rightarrow> u64 \<Rightarrow> string \<Rightarrow> string \<Rightarrow> WireEnvelope" where
  "register_request mid now identity salt seq pow_nonce sg cert_armored =
     \<lparr>msg_type = ''dht-put'',
      payload = JObj [(''key'', JStr (id_null_id identity)), (''value'', JStr (id_fingerprint identity)), (''salt'', JStr salt),
                      (''seq'', JInt seq), (''nonce'', JInt (uint pow_nonce)), (''publisher_fp'', JStr (id_fingerprint identity)),
                      (''publisher_cert'', JStr cert_armored)],
      msg_id = mid, ts = now, sig = sg\<rparr>"

definition register_answer :: "(string \<Rightarrow> WireEnvelope option) \<Rightarrow> ws_frame list \<Rightarrow> string + unit" where
  "register_answer read_env frames =
     (case frames of
        FText resp_text # _ \<Rightarrow>
          bind_result (ok_or ''DHT register: bad response'' (read_env resp_text)) (\<lambda>resp.
            if msg_type resp = ''dht-found'' then Inr () else Inl (''DHT register failed: '' @ msg_type resp))
      | _ \<Rightarrow> Inl ''DHT register failed: server closed connection'')"

record register_io =
  ri_connect :: bool
  ri_check_send :: bool
  ri_check_mid :: string
  ri_check_now :: f64
  ri_now :: int
  ri_salt :: string
  ri_join :: bool
  ri_put_mid :: string
  ri_put_now :: f64
  ri_put_send :: bool

definition MAX_POW_ATTEMPTS :: u64 where "MAX_POW_ATTEMPTS = 10000000"

text \<open>The put that is sent, with the frames that follow; the work is for an empty node secret.\<close>

definition prepare_register ::
  "'p argon2 \<Rightarrow> 'cert key_lib \<Rightarrow> register_io \<Rightarrow> client_identity \<Rightarrow> 'cert \<Rightarrow> bool \<Rightarrow> string + WireEnvelope" where
  "prepare_register A K io identity cert already_registered =
     (let seq = (if already_registered then ri_now io else 0)
      in if \<not> ri_join io then Inl ''DHT register: task join error''
         else bind_result (map_err (\<lambda>_. ''DHT register: PoW error'')
                (pow_solve A (register_pow_data identity (ri_salt io) seq) (register_difficulty seq) MAX_POW_ATTEMPTS [])) (\<lambda>found.
              bind_result (ok_or ''DHT register: could not solve PoW in time'' found) (\<lambda>pow_nonce.
              bind_result (map_err (\<lambda>e. ''sign failed: '' @ e)
                (sign_data (kl_pgp K) (register_text identity (ri_salt io) seq pow_nonce) cert)) (\<lambda>sg.
              bind_result (tsk_text K cert) (\<lambda>cert_armored.
                Inr (register_request (ri_put_mid io) (ri_put_now io) identity (ri_salt io) seq pow_nonce sg cert_armored))))))"

definition dht_register ::
  "'p argon2 \<Rightarrow> 'cert key_lib \<Rightarrow> (string \<Rightarrow> WireEnvelope option) \<Rightarrow> register_io \<Rightarrow> ws_frame list \<Rightarrow> client_identity \<Rightarrow> 'cert
    \<Rightarrow> (string + unit) \<times> WireEnvelope list" where
  "dht_register A K read_env io frames identity cert =
     (if \<not> ri_connect io then (Inl ''DHT connect failed'', [])
      else if \<not> ri_check_send io then (Inl ''DHT check send failed'', [])
      else
        let get = dht_get_request (ri_check_mid io) (ri_check_now io) [] (id_null_id identity);
            (already_registered, rest) = check_registered read_env 10 frames
        in (case prepare_register A K io identity cert already_registered of
              Inl e \<Rightarrow> (Inl e, [get])
            | Inr req \<Rightarrow>
                if \<not> ri_put_send io then (Inl ''DHT send failed'', [get])
                else (register_answer read_env rest, [get, req])))"

section \<open>Private lookup\<close>

definition pir_fp_hash :: "(bytes \<Rightarrow> bytes) \<Rightarrow> string \<Rightarrow> bytes" where
  "pir_fp_hash H nid = H (as_bytes ''pir-fp-hash-v1:'' @ as_bytes nid)"

text \<open>The metadata of a found entry is the whole 224-byte slot, so the address is what follows its 32 hash bytes, less trailing zero bytes.\<close>

definition entry_address :: "(bytes \<Rightarrow> string) \<Rightarrow> PirContactEntry \<Rightarrow> string + string" where
  "entry_address lossy entry =
     (if length (pe_metadata entry) < 32 then Inl ''panic: slice''
      else Inr (trim_end_matches CHR 0x00 (lossy (drop 32 (pe_metadata entry)))))"

definition index_str :: "json \<Rightarrow> string \<Rightarrow> string option" where
  "index_str j k = Option.bind (json_get j k) as_str"

text \<open>The loop over the candidate bins, one request and one frame each: the found address, or \<open>None\<close>.\<close>

fun pir_loop ::
  "crypto_lib \<Rightarrow> (bytes \<Rightarrow> string) \<Rightarrow> bytes \<Rightarrow> (bool list) \<Rightarrow> ws_frame list \<Rightarrow> PirQueryToken list \<Rightarrow> string + string option" where
  "pir_loop L lossy fp_hash sends frames [] = Inr None"
| "pir_loop L lossy fp_hash sends frames (query # queries) =
     (if \<not> (case sends of [] \<Rightarrow> True | ok # _ \<Rightarrow> ok) then Inl ''PIR query send failed''
      else
        (case frames of
           [] \<Rightarrow> Inl ''PIR DHT connection closed''
         | FError # _ \<Rightarrow> Inl ''PIR DHT read failed''
         | FText t # rest \<Rightarrow>
             bind_result (ok_or ''json'' (json_parse L t)) (\<lambda>resp.
               if index_str resp ''type'' \<noteq> Some ''pir-response'' then pir_loop L lossy fp_hash (tl sends) rest queries
               else
                 bind_result (ok_or ''missing bin_data in PIR response'' (index_str resp ''bin_data'')) (\<lambda>b64.
                 bind_result (ok_or ''PIR bin_data decode'' (b64dec L b64)) (\<lambda>bin_data.
                 bind_result (map_err (\<lambda>_. ''pir'') (process_response
                     \<lparr>pr_bin_data = bin_data, pr_dht_ephemeral_pk = replicate 32 0, pr_nonce = replicate 8 0\<rparr>
                     (pq_xor_mask query) fp_hash)) (\<lambda>found.
                   case found of
                     None \<Rightarrow> pir_loop L lossy fp_hash (tl sends) rest queries
                   | Some entry \<Rightarrow>
                       bind_result (entry_address lossy entry) (\<lambda>addr.
                         if addr \<noteq> [] then Inr (Some addr) else pir_loop L lossy fp_hash (tl sends) rest queries)))))
         | _ # rest \<Rightarrow> pir_loop L lossy fp_hash (tl sends) rest queries))"

text \<open>Without a result the ordinary lookup follows, whose result is the argument \<open>fallback\<close>.\<close>

definition pir_dht_lookup ::
  "(bytes \<Rightarrow> bytes) \<Rightarrow> crypto_lib \<Rightarrow> (bytes \<Rightarrow> string) \<Rightarrow> bytes \<Rightarrow> (nat \<Rightarrow> bytes) \<Rightarrow> bool \<Rightarrow> bool list \<Rightarrow> ws_frame list \<Rightarrow> string
    \<Rightarrow> string + string \<Rightarrow> string + string" where
  "pir_dht_lookup H L lossy eph masks conn_ok sends frames nid fallback =
     (let fp_hash = pir_fp_hash H nid
      in bind_result (map_err (\<lambda>_. ''pir'') (query_contact H masks (pir_client_new H eph) fp_hash)) (\<lambda>queries.
           if \<not> conn_ok then Inl ''PIR DHT connect failed''
           else bind_result (pir_loop L lossy fp_hash sends frames queries) (\<lambda>result.
             case result of Some addr \<Rightarrow> Inr addr | None \<Rightarrow> fallback)))"

section \<open>What the libraries promise\<close>

text \<open>Sequoia verifies what it signed, a signature is a text that is not empty, and base64 decodes what it encoded.\<close>

definition signature_laws :: "'cert pgp_lib \<Rightarrow> bool" where
  "signature_laws P \<longleftrightarrow>
     (\<forall>data cert s. sign_detached P data cert = Inr s \<longrightarrow> s \<noteq> [] \<and> verify_detached P s data cert = Inr True)
     \<and> (\<forall>b. b64_decode P (b64_encode P b) = Some b) \<and> (\<forall>b. b \<noteq> [] \<longrightarrow> b64_encode P b \<noteq> [])"

text \<open>An identity as \<open>generate_identity\<close> makes it, for a library that prints fingerprints and Null IDs in their formats.\<close>

definition valid_identity :: "'cert pgp_lib \<Rightarrow> client_identity \<Rightarrow> bool" where
  "valid_identity P identity \<longleftrightarrow>
     validate_fingerprint (id_fingerprint identity) \<and> validate_null_id (id_null_id identity)
     \<and> compute_null_id P (id_fingerprint identity) = id_null_id identity"

lemma sign_data_verifies:
  assumes "signature_laws P" and "sign_data P data cert = Inr sg"
  shows "sg \<noteq> []" and "fst (verify_signature_with_cert P now data sg cert g)"
proof -
  obtain s where s: "sign_detached P data cert = Inr s" "sg = b64_encode P (as_bytes s)"
    using assms(2) by (auto simp: sign_data_def bind_result_Inr)
  then obtain buf where "from_utf8 buf = Some s"
    by (auto simp: sign_detached_def bind_result_Inr ok_or_def split: list.splits option.splits)
  then have u: "from_utf8 (as_bytes s) = Some s" using from_utf8_Some [of buf s] by simp
  have v: "s \<noteq> []" "verify_detached P s data cert = Inr True" using assms(1) s(1) by (auto simp: signature_laws_def)
  have d: "b64_decode P sg = Some (as_bytes s)" using assms(1) s(2) by (simp add: signature_laws_def)
  have "as_bytes s \<noteq> []" using v(1) by (simp add: as_bytes_def)
  then show "sg \<noteq> []" using assms(1) s(2) by (simp add: signature_laws_def)
  show "fst (verify_signature_with_cert P now data sg cert g)"
    by (simp add: verify_signature_with_cert_def decode_signature_def d u v(2))
qed

lemma pow_loop_found:
  "pow_loop A p salt data d m k = Inr (Some n) \<Longrightarrow> n < m \<and> pow_attempt A p salt data d n = Inr True"
proof (induction A p salt data d m k rule: pow_loop.induct)
  case (1 A p salt data d m k)
  from "1.prems" have lt: "k < m" by (subst (asm) pow_loop.simps) (simp split: if_splits)
  with "1.prems" obtain b where b: "pow_attempt A p salt data d k = Inr b"
      "(if b then Inr (Some k) else pow_loop A p salt data d m (k + 1)) = Inr (Some n)"
    by (subst (asm) pow_loop.simps) (auto simp: bind_result_Inr)
  show ?case
  proof (cases b)
    case True
    with b lt show ?thesis by simp
  next
    case False
    with b have r: "pow_loop A p salt data d m (k + 1) = Inr (Some n)" by simp
    show ?thesis by (rule "1.IH" [OF lt False r])
  qed
qed

lemma pow_solve_checks:
  assumes "pow_solve A data d m secret = Inr (Some n)"
  shows "n < m" and "pow_check A data n d secret = Inr True"
proof -
  obtain p where p: "\<not> d < MIN_POW_DIFFICULTY" "pow_params A = Inr p" "pow_loop A p (node_pow_salt secret) data d m 0 = Inr (Some n)"
    using assms by (auto simp: pow_solve_def bind_result_Inr split: if_splits)
  from pow_loop_found [OF p(3)] p(1,2) show "n < m" "pow_check A data n d secret = Inr True"
    by (simp_all add: pow_check_def)
qed

section \<open>A node and the client's registration\<close>

definition register_seq :: "register_io \<Rightarrow> bool \<Rightarrow> int" where
  "register_seq io already_registered = (if already_registered then ri_now io else 0)"

lemma prepare_register_Inr:
  assumes "prepare_register A K io identity cert already = Inr req"
  obtains n sg armored where
    "req = register_request (ri_put_mid io) (ri_put_now io) identity (ri_salt io) (register_seq io already) n sg armored"
    and "n < MAX_POW_ATTEMPTS"
    and "pow_check A (register_pow_data identity (ri_salt io) (register_seq io already)) n
           (register_difficulty (register_seq io already)) [] = Inr True"
    and "sign_data (kl_pgp K) (register_text identity (ri_salt io) (register_seq io already) n) cert = Inr sg"
    and "tsk_text K cert = Inr armored"
proof -
  from assms obtain n sg armored where n:
      "pow_solve A (register_pow_data identity (ri_salt io) (register_seq io already)) (register_difficulty (register_seq io already))
         MAX_POW_ATTEMPTS [] = Inr (Some n)"
      "sign_data (kl_pgp K) (register_text identity (ri_salt io) (register_seq io already) n) cert = Inr sg"
      "tsk_text K cert = Inr armored"
      "req = register_request (ri_put_mid io) (ri_put_now io) identity (ri_salt io) (register_seq io already) n sg armored"
    unfolding prepare_register_def Let_def register_seq_def
    by (auto simp: bind_result_Inr ok_or_def map_err_Inr split: if_splits option.splits)
  from that [OF n(4) pow_solve_checks [OF n(1)] n(2,3)] show thesis .
qed

lemma register_request_fields [simp]:
  "payload_str (register_request mid now identity salt seq n sg armored) ''key'' = Some (id_null_id identity)"
  "payload_str (register_request mid now identity salt seq n sg armored) ''value'' = Some (id_fingerprint identity)"
  "payload_str (register_request mid now identity salt seq n sg armored) ''salt'' = Some salt"
  "payload_str (register_request mid now identity salt seq n sg armored) ''publisher_fp'' = Some (id_fingerprint identity)"
  "payload_str (register_request mid now identity salt seq n sg armored) ''publisher_cert'' = Some armored"
  "payload_i64 (register_request mid now identity salt seq n sg armored) ''ttl'' = None"
  "sig (register_request mid now identity salt seq n sg armored) = sg"
  by (simp_all add: register_request_def payload_str_def payload_i64_def payload_field_def)

lemma register_request_seq:
  "- (2 ^ 63) \<le> seq \<Longrightarrow> seq < 2 ^ 63 \<Longrightarrow> payload_i64 (register_request mid now identity salt seq n sg armored) ''seq'' = Some seq"
  by (simp add: register_request_def payload_i64_def payload_field_def)

lemma register_request_nonce:
  assumes "n < MAX_POW_ATTEMPTS"
  shows "payload_i64 (register_request mid now identity salt seq n sg armored) ''nonce'' = Some (uint n)"
proof -
  have "uint n < 10000000" using assms by (simp add: MAX_POW_ATTEMPTS_def word_less_def)
  moreover have "- (2 ^ 63) \<le> uint n" by (rule order_trans [of _ 0]) simp_all
  ultimately show ?thesis by (simp add: register_request_def payload_i64_def payload_field_def)
qed

lemma show_int_uint [simp]: "show_int (uint (n :: u64)) = show_nat (unat n)"
  by (simp add: show_int_def)

text \<open>What remains for a node without a fingerprint to decide about the client's request: room, the nonce and the store.\<close>

lemma register_guards:
  assumes "signature_laws (nl_pgp L)" and "key_laws K" and "kl_pgp K = nl_pgp L" and "valid_identity (nl_pgp L) identity"
    and "- (2 ^ 63) \<le> ri_now io" and "ri_now io < 2 ^ 63"
    and "prepare_register (nl_argon2 L) K io identity cert already = Inr req"
  shows "put_guards L [] c req N \<longleftrightarrow>
    (has_key (c_io c 0) (id_null_id identity) (ns_store N) = Inr True
       \<or> unwrap_or 0 (count_keys (c_io c 1) (c_now c) (ns_store N)) < 1000000)
    \<and> opt_or 0 (payload_i64 req ''nonce'') \<notin> opt_or {} (map_of (ns_seen N) (id_null_id identity))"
proof -
  let ?seq = "register_seq io already"
  obtain n sg armored where r: "req = register_request (ri_put_mid io) (ri_put_now io) identity (ri_salt io) ?seq n sg armored"
      and n: "n < MAX_POW_ATTEMPTS"
      and w: "pow_check (nl_argon2 L) (register_pow_data identity (ri_salt io) ?seq) n (register_difficulty ?seq) [] = Inr True"
      and sg: "sign_data (kl_pgp K) (register_text identity (ri_salt io) ?seq n) cert = Inr sg"
      and a: "tsk_text K cert = Inr armored"
    using prepare_register_Inr [OF assms(7)] .
  have seq: "- (2 ^ 63) \<le> ?seq" "?seq < 2 ^ 63" using assms(5,6) by (simp_all add: register_seq_def)
  note f = register_request_seq [OF seq] register_request_nonce [OF n]
  note s = sign_data_verifies [OF assms(1) sg [unfolded assms(3)]]
  have v: "fst (verify_dht_put_signature (nl_pgp L) t (register_text identity (ri_salt io) ?seq n) sg fp req g)" for t fp g
    using s(2) tsk_text_Inr(1) [OF assms(2) a] assms(3) by (simp add: verify_dht_put_signature_def r)
  have i: "validate_null_id (id_null_id identity)" "validate_fingerprint (id_fingerprint identity)"
      "length (id_fingerprint identity) \<le> 4096" "compute_null_id (nl_pgp L) (id_fingerprint identity) = id_null_id identity"
    using assms(4) by (auto simp: valid_identity_def validate_fingerprint_def split: if_splits)
  have w': "pow_check (nl_argon2 L) (id_null_id identity @ id_fingerprint identity @ ri_salt io @ show_int ?seq) n
      (if ?seq = 0 then 8 else 16) [] = Inr True"
    using w by (cases "?seq = 0") (simp_all add: register_pow_data_def register_difficulty_def DHT_POW_DIFFICULTY_def)
  have v': "fst (verify_dht_put_signature (nl_pgp L) t (id_null_id identity @ ''|'' @ id_fingerprint identity @ ''|'' @ ri_salt io @ ''|''
      @ show_int ?seq @ ''|'' @ show_nat (unat n)) sg fp req g)" for t fp g
    using v by (simp add: register_text_def)
  show ?thesis
    using i w' v' s(1) by (simp add: put_guards_def Let_def r f as_bytes_def cong: conj_cong)
qed

lemma register_store_accepts:
  assumes "prepare_register A K io identity cert already = Inr req" and "- (2 ^ 63) \<le> ri_now io" and "ri_now io < 2 ^ 63"
    and "c_io c 2 = no_faults" and "validate_fingerprint (id_fingerprint identity)"
  shows "accepted_nonce (put_event c req) S \<noteq> None \<longleftrightarrow>
    map_of (nonce_log S) (id_null_id identity, opt_or 0 (payload_i64 req ''nonce'')) = None
    \<and> (\<forall>s. live_seq S (id_null_id identity) = Some s \<longrightarrow> s < register_seq io already)"
proof -
  let ?seq = "register_seq io already"
  obtain n sg armored where r: "req = register_request (ri_put_mid io) (ri_put_now io) identity (ri_salt io) ?seq n sg armored"
      and n: "n < MAX_POW_ATTEMPTS"
    using prepare_register_Inr [OF assms(1)] by metis
  have seq: "- (2 ^ 63) \<le> ?seq" "?seq < 2 ^ 63" using assms(2,3) by (simp_all add: register_seq_def)
  note f = register_request_seq [OF seq] register_request_nonce [OF n]
  have l: "length (id_fingerprint identity) \<le> MAX_VALUE_SIZE"
    using assms(5) by (auto simp: validate_fingerprint_def MAX_VALUE_SIZE_def split: if_splits)
  have "accepted_nonce (put_event c req) S \<noteq> None \<longleftrightarrow>
      put_check no_faults (id_null_id identity) (id_fingerprint identity) ?seq (uint n) S = Inr True"
    by (cases rule: store_put_cases [of no_faults "c_now c" "id_null_id identity" "id_fingerprint identity" "ri_salt io" ?seq
          "id_fingerprint identity" 86400 sg "uint n" S])
       (simp_all add: put_event_def r f assms(4))
  then show ?thesis using l by (simp add: put_check_True r f)
qed

text \<open>
  C7. The client's registration at a bootstrap node (whose fingerprint is empty), end to end: with Sequoia, base64 and Argon2
  as documented and a working database, the client is told that it is registered exactly if the node already has its key
  or holds fewer than a million live keys, the work's nonce was not used for the key before, and no record of the key has
  a sequence number as high as the new one. The work, the signature, the certificate and the identity are always accepted.
\<close>

theorem registration_exact:
  assumes "signature_laws (nl_pgp L)" and "key_laws K" and "kl_pgp K = nl_pgp L" and "valid_identity (nl_pgp L) identity"
    and "- (2 ^ 63) \<le> ri_now io" and "ri_now io < 2 ^ 63" and "c_io c = (\<lambda>_. no_faults)"
    and "prepare_register (nl_argon2 L) K io identity cert already = Inr req"
  shows "\<exists>reply. fst (handle_put L [] c req N) = Envelope reply \<and>
    (register_answer (\<lambda>_. Some reply) (FText t # rest) = Inr () \<longleftrightarrow>
       (map_of (kv_store (ns_store N)) (id_null_id identity) \<noteq> None
          \<or> length (filter (\<lambda>(_, r). c_now c < kv_expires_at r) (kv_store (ns_store N))) < 1000000)
       \<and> opt_or 0 (payload_i64 req ''nonce'') \<notin> opt_or {} (map_of (ns_seen N) (id_null_id identity))
       \<and> map_of (nonce_log (ns_store N)) (id_null_id identity, opt_or 0 (payload_i64 req ''nonce'')) = None
       \<and> (\<forall>s. live_seq (ns_store N) (id_null_id identity) = Some s \<longrightarrow> s < (if already then ri_now io else 0)))"
    (is "\<exists>reply. _ \<and> (_ \<longleftrightarrow> ?C)")
proof -
  have fp: "validate_fingerprint (id_fingerprint identity)" using assms(4) by (simp add: valid_identity_def)
  have room: "has_key no_faults k S = Inr True \<longleftrightarrow> map_of (kv_store S) k \<noteq> None"
      "unwrap_or 0 (count_keys no_faults (c_now c) S) = int (length (filter (\<lambda>(_, r). c_now c < kv_expires_at r) (kv_store S)))" for k S
    by (simp_all add: has_key_def count_keys_def exec_def)
  have io: "c_io c i = no_faults" for i using assms(7) by simp
  have C: "put_guards L [] c req N \<and> accepted_nonce (put_event c req) (ns_store N) \<noteq> None \<longleftrightarrow> ?C"
    unfolding register_guards [OF assms(1-6,8)] register_store_accepts [OF assms(8,5,6) io fp] io room register_seq_def
    by (simp only: of_nat_less_numeral_iff conj_assoc)
  show ?thesis
  proof (cases rule: handle_put_cases [of L "[]" c req N])
    case (refused m certs)
    with C show ?thesis by (simp add: register_answer_def reply_error_def)
  next
    case (accepted certs)
    then have ?C using C by simp
    with accepted(3) show ?thesis by (simp add: register_answer_def reply_found_def)
  qed
qed

text \<open>
  The value that is registered is the fingerprint: a lookup during the next day answers with it, although
  \<open>dht_lookup\<close> is documented to find the recipient's address and \<open>send_message\<close> connects to the result.
\<close>

theorem registered_fingerprint_looked_up:
  assumes "prepare_register A K io identity cert already = Inr req" and "id_fingerprint identity \<noteq> []"
    and "handle_put L fp c req N = (Envelope r, N')" and "msg_type r = ''dht-found''"
    and "c_now c' < c_now c + 86400" and "c_io c' 0 = no_faults"
  shows "\<exists>reply. handle_get stealth c' (dht_get_request mid now sg (id_null_id identity)) N' = Envelope reply
    \<and> lookup_answer (\<lambda>_. Some reply) (FText t # rest) = Inr (id_fingerprint identity)"
proof -
  obtain n s armored where r: "req = register_request (ri_put_mid io) (ri_put_now io) identity (ri_salt io) (register_seq io already) n s armored"
    using prepare_register_Inr [OF assms(1)] by metis
  have k: "payload_str (dht_get_request mid now sg (id_null_id identity)) ''key'' = payload_str req ''key''"
    unfolding r register_request_fields by (simp add: dht_get_request_def payload_str_def payload_field_def)
  have t: "c_now c' < c_now c + of_int (min (opt_or 86400 (payload_i64 req ''ttl'')) 86400)" using assms(5) by (simp add: r)
  from get_after_put [OF assms(3,4) k t assms(6), of stealth] show ?thesis
    using assms(2) by (simp add: r reply_found_def lookup_answer_def)
qed

text \<open>Whoever receives the registration can sign for the identity: the request carries the certificate with its secret key.\<close>

theorem registration_sends_secret_key:
  assumes "key_laws K" and "prepare_register A K io identity cert already = Inr req"
  shows "\<exists>armored cert'. payload_str req ''publisher_cert'' = Some armored \<and> cert_from_bytes (kl_pgp K) (as_bytes armored) = Some cert'
    \<and> sign_data (kl_pgp K) data cert' = sign_data (kl_pgp K) data cert"
proof -
  obtain n s armored where r: "req = register_request (ri_put_mid io) (ri_put_now io) identity (ri_salt io) (register_seq io already) n s armored"
      and a: "tsk_text K cert = Inr armored"
    using prepare_register_Inr [OF assms(2)] by metis
  from tsk_text_Inr(1) [OF assms(1) a] show ?thesis by (simp add: r)
qed

text \<open>No step of a node removes a row or lowers its sequence number: \<open>delete_expired\<close> has no caller.\<close>

lemma live_seq_node_step:
  assumes "live_seq (ns_store N) k = Some s"
  shows "\<exists>s'. live_seq (ns_store (node_step L fp stealth e N)) k = Some s' \<and> s \<le> s'"
proof (cases "store_request L fp e N")
  case None
  with assms show ?thesis by (simp add: node_step_store)
next
  case (Some se)
  obtain io now key val salt seq pfp ttl sg nonce where se: "se = SPut io now key val salt seq pfp ttl sg nonce"
    using store_request_cases [OF Some] by metis
  have "s < seq" if "key = k" "fst (store_put io now k val salt seq pfp ttl sg nonce (ns_store N)) = Inr True"
    using store_versions.accepts_newer [of k se "ns_store N" seq s] that assms se by simp
  then show ?thesis
    using Some assms by (auto simp: node_step_store se live_seq_put)
qed

lemma live_seq_node_run:
  "live_seq (ns_store N) k = Some s \<Longrightarrow> \<exists>s'. live_seq (ns_store (fold (node_step L fp stealth) es N)) k = Some s' \<and> s \<le> s'"
proof (induction es arbitrary: N s)
  case (Cons e es)
  from live_seq_node_step [OF Cons.prems, of L fp stealth e] obtain s1 where
    s1: "live_seq (ns_store (node_step L fp stealth e N)) k = Some s1" "s \<le> s1" by blast
  from Cons.IH [OF s1(1)] s1(2) show ?case by auto
qed auto

text \<open>
  C26. An identity whose record expired is locked out of its node: the lookup before a registration finds nothing, so the
  client registers with sequence number 0; the expired row is still in the table, and whatever happened at the node since
  the row was written, the registration is refused.
\<close>

theorem expired_identity_locked_out:
  assumes "map_of (kv_store (ns_store N)) (id_null_id identity) = Some r" and "0 \<le> kv_seq r"
    and "N' = fold (node_step L fp stealth) es N"
    and "map_of (kv_store (ns_store N')) (id_null_id identity) = Some r'" and "kv_expires_at r' \<le> c_now c"
    and "handle_get False c (dht_get_request mid now [] (id_null_id identity)) N' = Envelope reply"
    and "prepare_register A K io identity cert (fst (check_registered (\<lambda>_. Some reply) 10 (FText t # rest))) = Inr req"
  shows "\<exists>m. fst (handle_put L fp c' req N') = reply_error c' (id_null_id identity) m"
proof -
  have "msg_type reply = ''dht-error''"
    using assms(4-6)
    by (auto simp: handle_get_def dht_get_request_def payload_str_def payload_field_def Let_def store_get_def exec_def reply_error_def
        bind_result_def split: if_splits sum.splits option.splits)
  then have no: "\<not> fst (check_registered (\<lambda>_. Some reply) 10 (FText t # rest))"
    by (simp add: numeral_eq_Suc)
  with assms(7) have p: "prepare_register A K io identity cert False = Inr req" by simp
  then obtain n sg armored where rq: "req = register_request (ri_put_mid io) (ri_put_now io) identity (ri_salt io) 0 n sg armored"
    using prepare_register_Inr [OF p] unfolding register_seq_def by (metis (full_types))
  have z: "opt_or 0 (payload_i64 req ''seq'') = 0" unfolding rq by (subst register_request_seq) simp_all
  obtain s' where s': "live_seq (ns_store N') (id_null_id identity) = Some s'" "0 \<le> s'"
    using live_seq_node_run [of N "id_null_id identity" "kv_seq r" L fp stealth es] assms(1-3) by (auto simp: live_seq_def)
  have "accepted_nonce (put_event c' req) (ns_store N') = None"
  proof (rule ccontr)
    assume "accepted_nonce (put_event c' req) (ns_store N') \<noteq> None"
    then have "accepted_seq (id_null_id identity) (put_event c' req) (ns_store N') = Some 0"
      using z by (simp add: put_event_def rq split: if_splits)
    from store_versions.accepts_newer [OF this s'(1)] s'(2) show False by simp
  qed
  then show ?thesis
    by (cases rule: handle_put_cases [of L fp c' req N']) (auto simp: rq)
qed

section \<open>Witnesses\<close>

text \<open>Signatures that are the signing key, base64 as the identity on bytes, and an empty node.\<close>

definition reg_pgp :: "string pgp_lib" where
  "reg_pgp = toy_pgp\<lparr>blake2b_8 := (\<lambda>_. as_bytes ''ABCDEFGH''), b64_encode := map (\<lambda>b. char_of (unat b)),
     b64_decode := (\<lambda>s. Some (as_bytes s)), cert_keys := (\<lambda>c. if c = [] then [] else [as_bytes c])\<rparr>"

definition reg_keys :: "string key_lib" where
  "reg_keys = toy_keys\<lparr>kl_pgp := reg_pgp\<rparr>"

definition reg_argon2 :: "unit argon2" where
  "reg_argon2 = \<lparr>params_new = (\<lambda>_ _ _ _. Inr ()), hash_password_into = (\<lambda>_ _ _. Inr (replicate 32 0))\<rparr>"

definition reg_lib :: "(string, unit) node_lib" where
  "reg_lib = \<lparr>nl_pgp = reg_pgp, nl_argon2 = reg_argon2, nl_from_json = (\<lambda>_. Inl [])\<rparr>"

definition reg_identity :: client_identity where
  "reg_identity = \<lparr>id_fingerprint = replicate 40 (CHR ''A''), id_null_id = ''NN-ABCD-EFGH''\<rparr>"

definition reg_io :: register_io where
  "reg_io = \<lparr>ri_connect = True, ri_check_send = True, ri_check_mid = ''c'', ri_check_now = 0, ri_now = 50, ri_salt = ''s'', ri_join = True,
     ri_put_mid = ''p'', ri_put_now = 0, ri_put_send = True\<rparr>"

definition reg_call :: call where
  "reg_call = \<lparr>c_now = 10, c_instant = 0, c_mid = ''m'', c_rand = 0, c_io = (\<lambda>_. no_faults)\<rparr>"

definition reg_node :: node_state where
  "reg_node = snd (node_new id NodeConfig_default init_tables)"

lemma reg_signature_laws: "signature_laws reg_pgp"
proof -
  have "as_bytes (map (\<lambda>b. char_of (unat b)) b) = b" for b :: bytes by simp
  then show ?thesis
    by (auto simp: signature_laws_def reg_pgp_def toy_pgp_def sign_detached_def verify_detached_def
        dest: from_utf8_Some split: if_splits)
qed

lemma reg_key_laws: "key_laws reg_keys"
  by (auto simp: key_laws_def reg_keys_def toy_keys_def reg_pgp_def toy_pgp_def dest: from_utf8_Some split: if_splits)

lemma reg_identity_valid: "valid_identity reg_pgp reg_identity"
  by (simp add: valid_identity_def reg_identity_def reg_pgp_def validate_fingerprint_def validate_null_id_def is_ascii_hexdigit_def
      compute_null_id_def null_id_text_def trim_end_matches_def as_bytes_def Let_def) code_simp

lemma reg_prepare: "\<exists>req. prepare_register reg_argon2 reg_keys reg_io reg_identity ''ab12'' already = Inr req"
proof -
  have "leading_zero_bits (replicate 32 0) = 256" by code_simp
  then have "pow_attempt reg_argon2 () salt data (register_difficulty seq) 0 = Inr True" for salt data seq
    by (simp add: pow_attempt_def reg_argon2_def register_difficulty_def DHT_POW_DIFFICULTY_def)
  then have w: "pow_solve reg_argon2 data (register_difficulty seq) MAX_POW_ATTEMPTS [] = Inr (Some 0)" for data seq
    by (simp add: pow_solve_def pow_params_def reg_argon2_def register_difficulty_def MIN_POW_DIFFICULTY_def DHT_POW_DIFFICULTY_def
        pow_loop.simps [of _ _ _ _ _ _ 0] MAX_POW_ATTEMPTS_def)
  have u: "utf8_valid (as_bytes ''ab12'')" by (simp add: as_bytes_def utf8_valid_ascii)
  have t: "tsk_text reg_keys ''ab12'' = Inr ''ab12''"
    using u by (simp add: tsk_text_def reg_keys_def toy_keys_def from_utf8_as_bytes) (simp add: as_bytes_def)
  have s: "sign_data (kl_pgp reg_keys) data ''ab12'' = Inr (b64_encode reg_pgp (as_bytes ''ab12''))" for data
    using u by (simp add: sign_data_def sign_detached_def reg_keys_def reg_pgp_def toy_pgp_def from_utf8_as_bytes)
  show ?thesis by (simp add: prepare_register_def Let_def w t s reg_io_def)
qed

theorem registration_exact_witness:
  "\<exists>req reply. prepare_register reg_argon2 reg_keys reg_io reg_identity ''ab12'' False = Inr req
     \<and> fst (handle_put reg_lib [] reg_call req reg_node) = Envelope reply
     \<and> register_answer (\<lambda>_. Some reply) [FText []] = Inr ()"
proof -
  obtain req where p: "prepare_register (nl_argon2 reg_lib) reg_keys reg_io reg_identity ''ab12'' False = Inr req"
    using reg_prepare by (auto simp: reg_lib_def)
  have l: "signature_laws (nl_pgp reg_lib)" "kl_pgp reg_keys = nl_pgp reg_lib" "valid_identity (nl_pgp reg_lib) reg_identity"
    using reg_signature_laws reg_identity_valid by (simp_all add: reg_lib_def reg_keys_def)
  have io: "- (2 ^ 63) \<le> ri_now reg_io" "ri_now reg_io < 2 ^ 63" "c_io reg_call = (\<lambda>_. no_faults)" by (simp_all add: reg_io_def reg_call_def)
  have n: "kv_store (ns_store reg_node) = []" "nonce_log (ns_store reg_node) = []" "ns_seen reg_node = []"
    by (simp_all add: reg_node_def node_new_def init_tables_def)
  from registration_exact [OF l(1) reg_key_laws l(2,3) io p, of reg_node "[]" "[]"] p show ?thesis
    by (auto simp: n live_seq_def reg_lib_def)
qed

definition old_row :: KvRecord where
  "old_row = \<lparr>kv_value = ''v'', kv_salt = ''s'', kv_seq = 0, kv_publisher_fp = replicate 40 (CHR ''A''), kv_stored_at = 0, kv_expires_at = 5,
     kv_sig = ''g''\<rparr>"

definition old_node :: node_state where
  "old_node = reg_node\<lparr>ns_store := init_tables\<lparr>kv_store := [(''NN-ABCD-EFGH'', old_row)]\<rparr>\<rparr>"

theorem expired_identity_locked_out_witness:
  "\<exists>req m. prepare_register reg_argon2 reg_keys reg_io reg_identity ''ab12'' False = Inr req
     \<and> fst (handle_put reg_lib [] reg_call req old_node) = reply_error reg_call ''NN-ABCD-EFGH'' m"
proof -
  obtain req where p: "prepare_register reg_argon2 reg_keys reg_io reg_identity ''ab12'' False = Inr req" using reg_prepare by blast
  let ?reply = "build_dht_error ''m'' 10 ''NN-ABCD-EFGH'' ''not found''"
  have v: "validate_null_id ''NN-ABCD-EFGH''" using reg_identity_valid by (simp add: valid_identity_def reg_identity_def)
  have row: "map_of (kv_store (ns_store old_node)) (id_null_id reg_identity) = Some old_row" "0 \<le> kv_seq old_row"
      "kv_expires_at old_row \<le> c_now reg_call"
    by (simp_all add: old_node_def old_row_def reg_identity_def reg_call_def)
  have get: "handle_get False reg_call (dht_get_request ''c'' 0 [] (id_null_id reg_identity)) old_node = Envelope ?reply"
    using v by (simp add: handle_get_def dht_get_request_def payload_str_def payload_field_def reg_identity_def reg_call_def store_get_def exec_def
        old_node_def old_row_def reply_error_def)
  have "\<not> fst (check_registered (\<lambda>_. Some ?reply) 10 (FText [] # []))" by (simp add: numeral_eq_Suc)
  with p have p': "prepare_register reg_argon2 reg_keys reg_io reg_identity ''ab12'' (fst (check_registered (\<lambda>_. Some ?reply) 10 (FText [] # []))) = Inr req"
    by simp
  have "old_node = fold (node_step reg_lib [] False) [] old_node" by simp
  from expired_identity_locked_out [OF row(1,2) this row(1,3) get p', of reg_call] p show ?thesis by (simp add: reg_identity_def)
qed

end
