(* ===== verification/ClientP2p.thy ===== *)
theory ClientP2p
  imports ClientDht P2pHandshake
begin

text \<open>
  Direct messages of the client (\<open>client/src/main.rs\<close>): \<open>send_message\<close> with its fall-back to the relay, the listener's
  \<open>handle_incoming_connection\<close>, and receipts. The libraries are in \<open>direct_lib\<close>; the state is the message store, the files,
  the process's certificate cache and the texts that were sent. The frames of a connection are lists; signing
  (\<open>sign_for_transport\<close>), randomness, clocks and outcomes of the outside world are in \<open>direct_io\<close>.
\<close>

section \<open>State and steps\<close>

record 'cert direct_lib =
  dl_sha256 :: "bytes \<Rightarrow> bytes"
  dl_blake :: "bytes \<Rightarrow> bytes"
  dl_hmac :: "bytes \<Rightarrow> bytes \<Rightarrow> bytes"
  dl_crypto :: crypto_lib
  dl_pgp :: "'cert pgp_lib"
  dl_codec :: session_codec
  dl_pretty :: "json \<Rightarrow> string"
  dl_show_f64 :: "f64 \<Rightarrow> string"
  dl_lossy :: "bytes \<Rightarrow> string"

record direct_io =
  pi_contacts :: file_io
  pi_connect :: "string \<Rightarrow> bool"
  pi_accept :: bool
  pi_kyber_writable :: bool
  pi_kyber_nonce :: bytes
  pi_sign :: "string \<Rightarrow> string + string"
  pi_send :: "nat \<Rightarrow> bool"
  pi_mid :: "nat \<Rightarrow> string"
  pi_now :: "nat \<Rightarrow> f64"
  pi_instant :: nat
  pi_challenge :: string
  pi_kem_rnd :: bytes
  pi_sql_session :: bool
  pi_session_nonce :: bytes
  pi_session_time :: string
  pi_pad :: bytes
  pi_msg_rnd :: bytes
  pi_msg_nonce :: bytes
  pi_token_files :: file_io
  pi_token_rng :: bytes
  pi_token_fp :: "string + string"
  pi_token_now :: u64
  pi_sql_store :: bool
  pi_store_nonce :: bytes
  pi_store_time :: string

record direct_state =
  ps_store :: MessageStore
  ps_fs :: file_system
  ps_certs :: cert_cache
  ps_sent :: "string list"

type_synonym 'a direct_result = "(string + 'a) \<times> direct_state"

text \<open>The operator \<open>?\<close> on a step with state.\<close>

definition and_then :: "('e + 'a) \<times> 's \<Rightarrow> ('a \<Rightarrow> 's \<Rightarrow> ('e + 'b) \<times> 's) \<Rightarrow> ('e + 'b) \<times> 's" where
  "and_then r f = (case r of (Inl e, s) \<Rightarrow> (Inl e, s) | (Inr a, s) \<Rightarrow> f a s)"

lemma and_then_simps [simp]:
  "and_then (Inl e, s) f = (Inl e, s)"
  "and_then (Inr a, s) f = f a s"
  by (simp_all add: and_then_def)

text \<open>An envelope as serde writes it.\<close>

definition wire_json :: "WireEnvelope \<Rightarrow> json" where
  "wire_json env =
     JObj [(''type'', JStr (msg_type env)), (''payload'', payload env), (''msg_id'', JStr (msg_id env)), (''ts'', JFloat (ts env)),
           (''sig'', JStr (sig env))]"

definition parse_wire_envelope :: "json \<Rightarrow> WireEnvelope option" where
  "parse_wire_envelope j =
     Option.bind (json_struct [''type'', ''payload'', ''msg_id'', ''ts'', ''sig''] j) (\<lambda>f.
     Option.bind (required as_str (f ''type'')) (\<lambda>mt.
     Option.bind (f ''payload'') (\<lambda>pl.
     Option.bind (required as_str (f ''msg_id'')) (\<lambda>mid.
     Option.bind (required as_f64 (f ''ts'')) (\<lambda>t.
     Option.bind (required as_str (f ''sig'')) (\<lambda>sg.
       Some \<lparr>msg_type = mt, payload = pl, msg_id = mid, ts = t, sig = sg\<rparr>))))))"

definition to_json :: "crypto_lib \<Rightarrow> WireEnvelope \<Rightarrow> string" where
  "to_json L env = json_print L (wire_json env)"

definition from_json :: "crypto_lib \<Rightarrow> string \<Rightarrow> WireEnvelope option" where
  "from_json L raw = Option.bind (json_parse L raw) parse_wire_envelope"

text \<open>
  Envelopes survive the wire: when the JSON library reads back the text that it wrote for an envelope, whatever its payload,
  the received envelope is the sent one.
\<close>

theorem envelope_roundtrip:
  assumes "json_parse L (json_print L (wire_json env)) = Some (wire_json env)"
  shows "from_json L (to_json L env) = Some env"
  using assms by (simp add: from_json_def to_json_def parse_wire_envelope_def wire_json_def json_struct_def required_def)

definition token_json :: "DeliveryTokenMessage \<Rightarrow> json" where
  "token_json t =
     JObj [(''token'', JStr (tm_token t)), (''sender_key_hash'', JStr (tm_sender_key_hash t)), (''timestamp'', JInt (uint (tm_timestamp t)))]"

definition ws_send :: "bool \<Rightarrow> string \<Rightarrow> string \<Rightarrow> direct_state \<Rightarrow> unit direct_result" where
  "ws_send ok e t s = (if ok then (Inr (), s\<lparr>ps_sent := ps_sent s @ [t]\<rparr>) else (Inl e, s))"

text \<open>The text from the first opening brace, or all of it.\<close>

definition from_brace :: "string \<Rightarrow> string" where
  "from_brace t = (if CHR 0x7B \<in> set t then dropWhile (\<lambda>c. c \<noteq> CHR 0x7B) t else t)"

definition direct_verify :: "'cert direct_lib \<Rightarrow> direct_io \<Rightarrow> string \<Rightarrow> string \<Rightarrow> string \<Rightarrow> direct_state \<Rightarrow> bool \<times> direct_state" where
  "direct_verify D io data sg fp s =
     (let (ok, certs) = verify_signature (dl_pgp D) (pi_instant io) data sg fp (ps_certs s) in (ok, s\<lparr>ps_certs := certs\<rparr>))"

definition our_keypair :: "'cert direct_lib \<Rightarrow> direct_io \<Rightarrow> client_identity \<Rightarrow> direct_state \<Rightarrow> MlKem1024Keypair direct_result" where
  "our_keypair D io identity s =
     (let (r, fs) = load_or_generate_kyber (dl_sha256 D) (dl_crypto D) (pi_kyber_writable io) (pi_kyber_nonce io) (id_null_id identity)
                      (ps_store s) (ps_fs s)
      in (r, s\<lparr>ps_fs := fs\<rparr>))"

text \<open>The key of the peer, if its text decodes.\<close>

definition peer_key_of :: "crypto_lib \<Rightarrow> json \<Rightarrow> bytes option" where
  "peer_key_of L msg =
     Option.bind (str_at msg ''kyber_enc_key'') (\<lambda>k. case decode_enc_key L k of Inr bs \<Rightarrow> Some bs | Inl _ \<Rightarrow> None)"

text \<open>A new session from an own encapsulation; its ciphertext is dropped. The session is saved before it is used.\<close>

definition new_direct_session ::
  "'cert direct_lib \<Rightarrow> direct_io \<Rightarrow> client_identity \<Rightarrow> string \<Rightarrow> bool \<Rightarrow> bytes option \<Rightarrow> string + (bytes \<times> RatchetState)" where
  "new_direct_session D io identity peer_fp is_initiator peer_kyber_enc =
     bind_result (ok_or ''no peer Kyber key'' peer_kyber_enc) (\<lambda>peer_kyber.
     bind_result (map_err (\<lambda>_. ''kyber encapsulate'') (encapsulate (dl_crypto D) (pi_kem_rnd io) peer_kyber)) (\<lambda>(_, init_shared_secret).
     bind_result (map_err (\<lambda>_. ''ratchet init'')
         (session_new (dl_crypto D) peer_fp (null_id (dl_blake D) (dl_crypto D) peer_fp) (id_fingerprint identity) is_initiator
            init_shared_secret)) (\<lambda>session.
       Inr (peer_kyber, session))))"

definition store_direct_session :: "'cert direct_lib \<Rightarrow> direct_io \<Rightarrow> string \<Rightarrow> RatchetState \<Rightarrow> direct_state \<Rightarrow> unit direct_result" where
  "store_direct_session D io peer_nid session s =
     (case sess_print (dl_codec D) session of
        None \<Rightarrow> (Inl ''ratchet serialize'', s)
      | Some session_json \<Rightarrow>
          let (r, S) = save_session (dl_crypto D) (pi_sql_session io) (pi_session_nonce io) (pi_session_time io) peer_nid session_json (ps_store s)
          in (map_err (\<lambda>_. ''ratchet save'') r, s\<lparr>ps_store := S\<rparr>))"

section \<open>Sending\<close>

definition hello_signing_text :: "'cert direct_lib \<Rightarrow> WireEnvelope \<Rightarrow> string" where
  "hello_signing_text D hello = ''p2p-hello:'' @ json_print (dl_crypto D) (payload hello) @ [CHR 0x0A]"

text \<open>The answer to the hello: the peer's key.\<close>

definition read_hello_ack :: "'cert direct_lib \<Rightarrow> direct_io \<Rightarrow> ws_frame list \<Rightarrow> direct_state \<Rightarrow> bytes option direct_result" where
  "read_hello_ack D io frames s =
     (case frames of
        FText resp # _ \<Rightarrow>
          and_then (ok_or ''json'' (json_parse (dl_crypto D) resp), s) (\<lambda>ack s.
            if str_at ack ''type'' \<noteq> Some ''p2p-hello-ack'' then (Inl (''Unexpected response: '' @ resp), s)
            else
              let ack_sig = opt_or [] (str_at ack ''sig'');
                  ack_fp = opt_or ''unknown'' (str_at ack ''public_key'')
              in if ack_sig = [] then (Inl ''p2p-hello-ack has no signature'', s)
                 else
                   let (ok, s) = direct_verify D io (''p2p-hello-ack:'' @ [CHR 0x0A] @ from_brace resp) ack_sig ack_fp s
                   in if \<not> ok then (Inl (''p2p-hello-ack signature verification failed for '' @ ack_fp), s)
                      else (Inr (peer_key_of (dl_crypto D) ack), s))
      | _ \<Rightarrow> (Inl ''No hello-ack received'', s))"

definition message_signing_text :: "'cert direct_lib \<Rightarrow> string \<Rightarrow> string \<Rightarrow> string" where
  "message_signing_text D encrypted_msg_b64 msg_hash =
     ''p2p-message:'' @ json_print (dl_crypto D)
       (JObj [(''seq'', JInt 1), (''ciphertext'', JStr encrypted_msg_b64), (''msg_hash'', JStr msg_hash)])"

text \<open>Encrypting, signing and sending; the delivery token goes first, and whether it could be sent is ignored.\<close>

definition send_direct_message ::
  "'cert direct_lib \<Rightarrow> direct_io \<Rightarrow> string \<Rightarrow> bytes \<Rightarrow> RatchetState \<Rightarrow> string \<Rightarrow> direct_state \<Rightarrow> (string \<times> string) direct_result" where
  "send_direct_message D io recipient_nid peer_kyber session message s =
     and_then (ok_or ''panic'' (pad_message_bucket (dl_crypto D) (pi_pad io) message), s) (\<lambda>padded s.
     and_then (map_err (\<lambda>_. ''encrypt'') (fst (encrypt_message (dl_crypto D) (pi_msg_rnd io) (pi_msg_nonce io) padded peer_kyber session)), s)
       (\<lambda>encrypted_msg s.
        let encrypted_msg_b64 = b64enc (dl_crypto D) encrypted_msg;
            msg_hash = hex_encode (dl_crypto D) (dl_sha256 D encrypted_msg)
        in and_then (pi_sign io (message_signing_text D encrypted_msg_b64 msg_hash), s) (\<lambda>msg_sig s.
           let p2p_msg = build_p2p_message_signed 1 encrypted_msg_b64 msg_hash msg_sig (pi_mid io 2) (pi_now io 2);
               (token, fs) = generate_delivery_token (dl_sha256 D) (dl_hmac D) (dl_crypto D) (dl_pretty D) (pi_token_files io) (pi_token_rng io)
                               (pi_token_fp io) (pi_token_now io) recipient_nid 1 (ps_fs s)
           in and_then (token, s\<lparr>ps_fs := fs\<rparr>) (\<lambda>delivery_token s.
              let s = snd (ws_send (pi_send io 1) [] (json_print (dl_crypto D) (token_json delivery_token)) s)
              in and_then (ws_send (pi_send io 2) ''P2P send failed'' (json_print (dl_crypto D) (wire_json p2p_msg)) s) (\<lambda>_ s.
                   (Inr (encrypted_msg_b64, msg_hash), s))))))"

section \<open>Receipts\<close>

definition receipt_text :: "'cert direct_lib \<Rightarrow> string \<Rightarrow> f64 \<Rightarrow> string" where
  "receipt_text D hash received_at = ''p2p-receipt:'' @ hash @ '':'' @ dl_show_f64 D received_at @ '':'' @ ''1''"

definition verify_receipt_signature ::
  "'cert direct_lib \<Rightarrow> direct_io \<Rightarrow> string \<Rightarrow> f64 \<Rightarrow> string \<Rightarrow> string \<Rightarrow> direct_state \<Rightarrow> bool \<times> direct_state" where
  "verify_receipt_signature D io hash received_at signature recipient_fp s =
     (if signature = [] then (False, s)
      else direct_verify D io (receipt_text D hash received_at) signature recipient_fp s)"

text \<open>What arrives while the sender waits: a frame, the end of the connection, or nothing for ten seconds.\<close>

datatype wait_event = WText string | WOther | WClosed | WTimeout | WError

text \<open>The two flags of the loop, and whether a receipt confirmed that the message was read. The warning about another hash prints
  its first sixteen bytes, which panics on a shorter text.\<close>

record wait_flags =
  wf_ack :: bool
  wf_receipt :: bool
  wf_read :: bool

definition take_receipt ::
  "'cert direct_lib \<Rightarrow> direct_io \<Rightarrow> string \<Rightarrow> string \<Rightarrow> json \<Rightarrow> wait_flags \<Rightarrow> direct_state \<Rightarrow> wait_flags direct_result" where
  "take_receipt D io recipient_fp msg_hash msg w s =
     (let pl = opt_or JNull (json_get msg ''payload'');
          receipt_msg_hash = opt_or [] (str_at pl ''msg_hash'');
          received_at = opt_or 0 (Option.bind (json_get pl ''received_at'') as_f64);
          receipt_sig = opt_or [] (str_at msg ''sig'');
          (ok, s) = verify_receipt_signature D io receipt_msg_hash received_at receipt_sig recipient_fp s
      in if ok \<and> receipt_msg_hash = msg_hash then (Inr (w\<lparr>wf_receipt := True, wf_read := True\<rparr>), s)
         else if ok \<and> length receipt_msg_hash < 16 then (Inl ''panic: slice'', s)
         else (Inr (w\<lparr>wf_receipt := True\<rparr>), s))"

fun wait_loop ::
  "'cert direct_lib \<Rightarrow> direct_io \<Rightarrow> string \<Rightarrow> string \<Rightarrow> wait_event list \<Rightarrow> wait_flags \<Rightarrow> direct_state \<Rightarrow> wait_flags direct_result" where
  "wait_loop D io fp hash [] w s = (Inr w, s)"
| "wait_loop D io fp hash (WText resp # es) w s =
     and_then (ok_or ''json'' (json_parse (dl_crypto D) resp), s) (\<lambda>msg s.
       let mt = opt_or [] (str_at msg ''type'')
       in and_then (if mt = ''p2p-ack'' then (Inr (w\<lparr>wf_ack := True\<rparr>), s)
                    else if mt = ''p2p-receipt'' then take_receipt D io fp hash msg w s
                    else (Inr w, s)) (\<lambda>w s.
            if wf_ack w \<and> wf_receipt w then (Inr w, s) else wait_loop D io fp hash es w s))"
| "wait_loop D io fp hash (WOther # es) w s = wait_loop D io fp hash es w s"
| "wait_loop D io fp hash (WClosed # es) w s = (Inr w, s)"
| "wait_loop D io fp hash (WTimeout # es) w s = (Inr w, s)"
| "wait_loop D io fp hash (WError # es) w s = (Inr w, s)"

text \<open>The part of \<open>send_message\<close> after the connection to the peer.\<close>

definition send_direct ::
  "'cert direct_lib \<Rightarrow> direct_io \<Rightarrow> ws_frame list \<Rightarrow> wait_event list \<Rightarrow> client_identity \<Rightarrow> string \<Rightarrow> string \<Rightarrow> string \<Rightarrow> direct_state
    \<Rightarrow> wait_flags direct_result" where
  "send_direct D io frames events identity recipient_nid recipient_fp message s =
     and_then (our_keypair D io identity s) (\<lambda>our_kyber s.
       let our_key = encode_enc_key (dl_crypto D) (kp_enc our_kyber);
           hello = build_p2p_hello (id_fingerprint identity) 1 16 our_key [] (pi_mid io 0) (pi_now io 0)
       in and_then (pi_sign io (hello_signing_text D hello), s) (\<lambda>hello_sig s.
          let hello = build_p2p_hello_signed (id_fingerprint identity) 1 16 our_key [] hello_sig (pi_mid io 1) (pi_now io 1)
          in and_then (ws_send (pi_send io 0) ''P2P hello failed'' (json_print (dl_crypto D) (wire_json hello)) s) (\<lambda>_ s.
             and_then (read_hello_ack D io frames s) (\<lambda>peer_kyber_enc s.
             and_then (new_direct_session D io identity recipient_fp True peer_kyber_enc, s) (\<lambda>(peer_kyber, session) s.
             and_then (store_direct_session D io (null_id (dl_blake D) (dl_crypto D) recipient_fp) session s) (\<lambda>_ s.
             and_then (send_direct_message D io recipient_nid peer_kyber session message s) (\<lambda>(encrypted_msg_b64, msg_hash) s.
             and_then (wait_loop D io recipient_fp msg_hash events \<lparr>wf_ack = False, wf_receipt = False, wf_read = False\<rparr> s) (\<lambda>w s.
               (Inr w, s\<lparr>ps_store := snd (ms_store_message (dl_crypto D) (pi_sql_store io) (pi_store_nonce io) (pi_store_time io)
                          (id_null_id identity) recipient_nid encrypted_msg_b64 (ps_store s))\<rparr>)))))))))"

text \<open>\<open>lookup\<close> is the result of the lookup, private or not; \<open>relay_io\<close> and \<open>relay_frames\<close> belong to the connection to the relay. The
  result is \<open>None\<close> for a delivery by the relay.\<close>

definition deliver_by_relay ::
  "'cert direct_lib \<Rightarrow> client_io \<Rightarrow> ws_frame list \<Rightarrow> client_identity \<Rightarrow> string \<Rightarrow> string \<Rightarrow> string \<Rightarrow> direct_state
    \<Rightarrow> wait_flags option direct_result" where
  "deliver_by_relay D relay_io relay_frames identity recipient_nid recipient_fp message s =
     (let (r, reqs, S, fs) = send_via_relay (dl_sha256 D) (dl_crypto D) (dl_codec D) relay_io relay_frames identity recipient_nid recipient_fp
                               message (ps_store s) (ps_fs s)
      in (bind_result r (\<lambda>_. Inr None),
          s\<lparr>ps_store := S, ps_fs := fs, ps_sent := ps_sent s @ map (json_print (dl_crypto D)) reqs\<rparr>))"

definition send_message ::
  "'cert direct_lib \<Rightarrow> direct_io \<Rightarrow> client_io \<Rightarrow> (bool \<Rightarrow> string + string) \<Rightarrow> ws_frame list \<Rightarrow> wait_event list \<Rightarrow> ws_frame list
    \<Rightarrow> client_identity \<Rightarrow> string \<Rightarrow> string \<Rightarrow> bool \<Rightarrow> direct_state \<Rightarrow> wait_flags option direct_result" where
  "send_message D io relay_io lookup frames events relay_frames identity recipient_nid message use_pir s =
     (case map_of (load_contacts (dl_crypto D) (pi_contacts io) (ps_fs s)) recipient_nid of
        None \<Rightarrow> (Inl ''unknown contact'', s)
      | Some recipient_fp \<Rightarrow>
          (case lookup use_pir of
             Inl _ \<Rightarrow> deliver_by_relay D relay_io relay_frames identity recipient_nid recipient_fp message s
           | Inr addr \<Rightarrow>
               if \<not> pi_connect io (ws_url addr)
               then deliver_by_relay D relay_io relay_frames identity recipient_nid recipient_fp message s
               else and_then (send_direct D io frames events identity recipient_nid recipient_fp message s) (\<lambda>w s. (Inr (Some w), s))))"

section \<open>The listener\<close>

definition hello_ack_signing_text :: "'cert direct_lib \<Rightarrow> client_identity \<Rightarrow> string \<Rightarrow> string \<Rightarrow> string" where
  "hello_ack_signing_text D identity server_challenge our_key =
     ''p2p-hello-ack:'' @ json_print (dl_crypto D)
       (JObj [(''public_key'', JStr (id_fingerprint identity)), (''nonce'', JInt 1), (''pow_bits'', JInt 16),
              (''server_challenge'', JStr server_challenge), (''kyber_enc_key'', JStr our_key)]) @ [CHR 0x0A]"

text \<open>A signature of a message is checked, but the result is only printed.\<close>

definition warn_message_signature ::
  "'cert direct_lib \<Rightarrow> direct_io \<Rightarrow> string \<Rightarrow> string \<Rightarrow> json \<Rightarrow> direct_state \<Rightarrow> direct_state" where
  "warn_message_signature D io peer_fp msg_text msg s =
     (let msg_sig = opt_or [] (str_at msg ''sig'')
      in if msg_sig = [] then s
         else snd (direct_verify D io (''p2p-message:'' @ from_brace msg_text @ [CHR 0x0A]) msg_sig peer_fp s))"

definition ack_signing_text :: "'cert direct_lib \<Rightarrow> string \<Rightarrow> string" where
  "ack_signing_text D plaintext =
     ''p2p-ack:'' @ json_print (dl_crypto D)
       (JObj [(''seq'', JInt 1), (''msg_hash'', JStr (sha256_hex (dl_sha256 D) (dl_crypto D) plaintext))]) @ [CHR 0x0A]"

text \<open>Decrypting, storing, and the two answers; \<open>pi_now io 3\<close> and \<open>pi_now io 4\<close> are the two readings of the clock for the receipt. The
  result is the text that is shown.\<close>

definition receive_direct ::
  "'cert direct_lib \<Rightarrow> direct_io \<Rightarrow> client_identity \<Rightarrow> string \<Rightarrow> MlKem1024Keypair \<Rightarrow> RatchetState \<Rightarrow> json \<Rightarrow> direct_state \<Rightarrow> string direct_result" where
  "receive_direct D io identity peer_fp our_kyber session msg s =
     (let ciphertext = opt_or [] (str_at msg ''ciphertext'')
      in and_then (map_err (\<lambda>_. ''decrypt failed'') (fst (decrypt_message (dl_crypto D) ciphertext our_kyber session)), s) (\<lambda>padded s.
         and_then (unpad_message_bucket (dl_crypto D) (dl_lossy D) padded, s) (\<lambda>plaintext s.
         let s = s\<lparr>ps_store := snd (ms_store_message (dl_crypto D) (pi_sql_store io) (pi_store_nonce io) (pi_store_time io)
                     peer_fp (id_null_id identity) ciphertext (ps_store s))\<rparr>;
             plain_hash = sha256_hex (dl_sha256 D) (dl_crypto D) plaintext
         in and_then (pi_sign io (ack_signing_text D plaintext), s) (\<lambda>ack_sig s.
            and_then (ws_send (pi_send io 1) ''send'' (json_print (dl_crypto D)
                (wire_json (build_p2p_ack_signed 1 plain_hash ack_sig (pi_mid io 1) (pi_now io 1)))) s) (\<lambda>_ s.
            and_then (pi_sign io (receipt_text D (sha256_hex (dl_sha256 D) (dl_crypto D) ciphertext) (pi_now io 3)), s) (\<lambda>receipt_sig s.
            and_then (ws_send (pi_send io 2) ''send'' (json_print (dl_crypto D)
                (wire_json (build_p2p_receipt plain_hash (pi_now io 4) 1 receipt_sig (pi_mid io 2) (pi_now io 2)))) s) (\<lambda>_ s.
              (Inr plaintext, s))))))))"

definition answer_hello ::
  "'cert direct_lib \<Rightarrow> direct_io \<Rightarrow> client_identity \<Rightarrow> json \<Rightarrow> string \<Rightarrow> direct_state \<Rightarrow> (string \<times> MlKem1024Keypair \<times> RatchetState) direct_result" where
  "answer_hello D io identity hello hello_text s =
     (if str_at hello ''type'' \<noteq> Some ''p2p-hello'' then (Inl ''expected p2p-hello'', s)
      else
        let peer_sig = opt_or [] (str_at hello ''sig'');
            peer_fp = opt_or ''unknown'' (str_at hello ''public_key'')
        in if peer_sig = [] then (Inl ''p2p-hello has no signature'', s)
           else
             let (ok, s) = direct_verify D io (''p2p-hello:'' @ from_brace hello_text @ [CHR 0x0A]) peer_sig peer_fp s
             in if \<not> ok then (Inl (''p2p-hello signature verification failed for '' @ peer_fp), s)
                else
                  and_then (our_keypair D io identity s) (\<lambda>our_kyber s.
                    let our_key = encode_enc_key (dl_crypto D) (kp_enc our_kyber)
                    in and_then (pi_sign io (hello_ack_signing_text D identity (pi_challenge io) our_key), s) (\<lambda>ack_sig s.
                       and_then (ws_send (pi_send io 0) ''send'' (json_print (dl_crypto D) (wire_json (build_p2p_hello_ack_signed
                           (id_fingerprint identity) 1 16 (pi_challenge io) our_key ack_sig (pi_mid io 0) (pi_now io 0)))) s) (\<lambda>_ s.
                       and_then (new_direct_session D io identity peer_fp False (peer_key_of (dl_crypto D) hello), s) (\<lambda>(_, session) s.
                       and_then (store_direct_session D io (null_id (dl_blake D) (dl_crypto D) peer_fp) session s) (\<lambda>_ s.
                         (Inr (peer_fp, our_kyber, session), s)))))))"

text \<open>The result is the text of the message, if one was received.\<close>

definition handle_incoming_connection ::
  "'cert direct_lib \<Rightarrow> direct_io \<Rightarrow> ws_frame list \<Rightarrow> client_identity \<Rightarrow> direct_state \<Rightarrow> string option direct_result" where
  "handle_incoming_connection D io frames identity s =
     (if \<not> pi_accept io then (Inl ''accept'', s)
      else
        (case frames of
           FText hello_text # rest \<Rightarrow>
             and_then (ok_or ''json'' (json_parse (dl_crypto D) hello_text), s) (\<lambda>hello s.
             and_then (answer_hello D io identity hello hello_text s) (\<lambda>(peer_fp, our_kyber, session) s.
               (case rest of
                  FText msg_text # _ \<Rightarrow>
                    and_then (ok_or ''json'' (json_parse (dl_crypto D) msg_text), s) (\<lambda>msg s.
                      if str_at msg ''type'' = Some ''p2p-message''
                      then and_then (receive_direct D io identity peer_fp our_kyber session msg
                             (warn_message_signature D io peer_fp msg_text msg s)) (\<lambda>plaintext s. (Inr (Some plaintext), s))
                      else (Inr None, s))
                | _ \<Rightarrow> (Inr None, s))))
         | _ \<Rightarrow> (Inr None, s)))"

text \<open>A connection of the listener: the task reads the key file for itself and gives up if it is not usable. Errors are logged.\<close>

definition listener_task ::
  "'cert direct_lib \<Rightarrow> direct_io \<Rightarrow> bool \<Rightarrow> ws_frame list \<Rightarrow> client_identity \<Rightarrow> direct_state \<Rightarrow> string option direct_result" where
  "listener_task D io readable frames identity s =
     (case (if readable then ps_fs s DB_KEY_PATH else None) of
        None \<Rightarrow> (Inl ''Failed to read db key'', s)
      | Some hex_key \<Rightarrow>
          (case hex_decode (dl_crypto D) (rust_trim hex_key) of
             None \<Rightarrow> (Inl ''Invalid db key file'', s)
           | Some key \<Rightarrow>
               if length key \<noteq> 32 then (Inl ''Invalid db key file'', s)
               else handle_incoming_connection D io frames identity (s\<lparr>ps_store := (ps_store s)\<lparr>ms_db_key := key\<rparr>\<rparr>)))"

text \<open>The listener: a task for every connection, until accepting one fails; the tasks share the database, and each runs as one step
  in the order of \<open>conns\<close>. The loop has no other exit, so the result is always an error.\<close>

definition run_listener ::
  "'cert direct_lib \<Rightarrow> bool \<Rightarrow> (direct_io \<times> bool \<times> ws_frame list) list \<Rightarrow> client_identity \<Rightarrow> direct_state \<Rightarrow> unit direct_result" where
  "run_listener D bound conns identity s =
     (if \<not> bound then (Inl ''bind'', s)
      else (Inl ''accept'', fold (\<lambda>(io, readable, frames) s. snd (listener_task D io readable frames identity s)) conns s))"

section \<open>No direct message is ever delivered\<close>

text \<open>Every envelope keeps the public key in its payload, and both sides look for it beside the payload.\<close>

lemma str_at_wire_json [simp]:
  "str_at (wire_json env) ''type'' = Some (msg_type env)"
  "str_at (wire_json env) ''sig'' = Some (sig env)"
  "str_at (wire_json env) ''public_key'' = None"
  by (simp_all add: str_at_def wire_json_def json_get_def)

lemma verify_unknown: "direct_verify D io data sg ''unknown'' s = (False, s)"
  by (simp add: direct_verify_def verify_signature_def validate_fingerprint_def)

text \<open>
  A client's listener refuses every message of the wire protocol as a hello, whoever signed it, and a sender refuses every such
  message as the answer: the fingerprint is searched at the wrong place, and without one the signature check fails.
\<close>

theorem listener_refuses_envelopes:
  assumes "json_parse (dl_crypto D) t = Some (wire_json env)"
  shows "\<exists>e. handle_incoming_connection D io (FText t # rest) identity s = (Inl e, s)"
    and "\<exists>e. read_hello_ack D io (FText t # rest) s = (Inl e, s)"
  using assms
  by (auto simp: handle_incoming_connection_def answer_hello_def read_hello_ack_def verify_unknown Let_def)

text \<open>No certificate is ever put into the client's cache, so no signature is ever accepted.\<close>

lemma verify_without_certs: "ps_certs s = None \<Longrightarrow> direct_verify D io data sg fp s = (False, s)"
  by (auto simp: direct_verify_def verify_signature_def get_cached_cert_def Let_def split: option.split)

lemma answer_hello_without_certs:
  "ps_certs s = None \<Longrightarrow> \<exists>e. answer_hello D io identity hello t s = (Inl e, s)"
  by (auto simp: answer_hello_def verify_without_certs Let_def)

lemma incoming_without_certs:
  assumes "ps_certs s = None"
  shows "snd (handle_incoming_connection D io frames identity s) = s"
    and "fst (handle_incoming_connection D io frames identity s) \<noteq> Inr (Some plaintext)"
proof -
  have "handle_incoming_connection D io frames identity s = (Inr None, s)
      \<or> (\<exists>e. handle_incoming_connection D io frames identity s = (Inl e, s))"
  proof (cases "pi_accept io \<and> (\<exists>t rest. frames = FText t # rest)")
    case True
    then obtain t rest where f: "frames = FText t # rest" by blast
    show ?thesis
    proof (cases "json_parse (dl_crypto D) t")
      case None
      with True f show ?thesis by (simp add: handle_incoming_connection_def)
    next
      case (Some hello)
      obtain e where "answer_hello D io identity hello t s = (Inl e, s)" using answer_hello_without_certs [OF assms] by blast
      with True f Some show ?thesis by (simp add: handle_incoming_connection_def)
    qed
  next
    case False
    then show ?thesis by (auto simp: handle_incoming_connection_def split: list.splits ws_frame.splits)
  qed
  then show "snd (handle_incoming_connection D io frames identity s) = s"
    "fst (handle_incoming_connection D io frames identity s) \<noteq> Inr (Some plaintext)" by auto
qed

lemma read_hello_ack_without_certs:
  assumes "ps_certs s = None"
  shows "\<exists>e. read_hello_ack D io frames s = (Inl e, s)"
proof (cases "\<exists>t rest. frames = FText t # rest")
  case True
  then obtain t rest where f: "frames = FText t # rest" by blast
  with assms show ?thesis
    by (cases "json_parse (dl_crypto D) t") (auto simp: read_hello_ack_def verify_without_certs Let_def)
next
  case False
  then show ?thesis by (auto simp: read_hello_ack_def split: list.splits ws_frame.splits)
qed

lemma load_or_generate_kyber_frame:
  "load_or_generate_kyber H L w n nid S fs = (r, fs') \<Longrightarrow> p \<noteq> KYBER_KEY_PATH \<Longrightarrow> fs' p = fs p"
  by (auto simp: load_or_generate_kyber_def save_def write_file_def split: if_splits sum.splits prod.splits)

lemma send_direct_without_certs:
  assumes "ps_certs s = None"
  shows "\<exists>e s'. send_direct D io frames events identity nid fp message s = (Inl e, s')
    \<and> ps_store s' = ps_store s \<and> ps_certs s' = None \<and> length (ps_sent s') \<le> Suc (length (ps_sent s))
    \<and> (\<forall>p. p \<noteq> KYBER_KEY_PATH \<longrightarrow> ps_fs s' p = ps_fs s p)"
proof -
  obtain r fs where k: "our_keypair D io identity s = (r, s\<lparr>ps_fs := fs\<rparr>)"
      and frame: "\<forall>p. p \<noteq> KYBER_KEY_PATH \<longrightarrow> fs p = ps_fs s p"
    using load_or_generate_kyber_frame
    by (cases "load_or_generate_kyber (dl_sha256 D) (dl_crypto D) (pi_kyber_writable io) (pi_kyber_nonce io) (id_null_id identity)
        (ps_store s) (ps_fs s)") (auto simp: our_keypair_def)
  show ?thesis
  proof (cases r)
    case (Inl e)
    with k assms frame show ?thesis by (simp add: send_direct_def)
  next
    case (Inr kp)
    let ?key = "encode_enc_key (dl_crypto D) (kp_enc kp)"
    let ?hello = "build_p2p_hello (id_fingerprint identity) 1 16 ?key [] (pi_mid io 0) (pi_now io 0)"
    show ?thesis
    proof (cases "pi_sign io (hello_signing_text D ?hello)")
      case (Inl e)
      with k Inr assms frame show ?thesis by (simp add: send_direct_def Let_def)
    next
      case sg: (Inr sg)
      let ?t = "json_print (dl_crypto D) (wire_json (build_p2p_hello_signed (id_fingerprint identity) 1 16 ?key [] sg (pi_mid io 1) (pi_now io 1)))"
      let ?s = "s\<lparr>ps_fs := fs, ps_sent := ps_sent s @ [?t]\<rparr>"
      obtain e where "read_hello_ack D io frames ?s = (Inl e, ?s)"
        using read_hello_ack_without_certs [of ?s D io frames] assms by auto
      then show ?thesis
        using k Inr sg assms frame by (simp add: send_direct_def ws_send_def Let_def)
    qed
  qed
qed

text \<open>The operations of a client process.\<close>

datatype direct_op =
    DSend direct_io client_io "bool \<Rightarrow> string + string" "ws_frame list" "wait_event list" "ws_frame list" client_identity string string bool
  | DListen direct_io bool "ws_frame list" client_identity

fun direct_step :: "'cert direct_lib \<Rightarrow> direct_op \<Rightarrow> direct_state \<Rightarrow> direct_state" where
  "direct_step D (DSend io relay_io lookup frames events relay_frames identity nid message use_pir) s =
     snd (send_message D io relay_io lookup frames events relay_frames identity nid message use_pir s)"
| "direct_step D (DListen io readable frames identity) s = snd (listener_task D io readable frames identity s)"

fun direct_delivery :: "'cert direct_lib \<Rightarrow> direct_op \<Rightarrow> direct_state \<Rightarrow> bool" where
  "direct_delivery D (DSend io relay_io lookup frames events relay_frames identity nid message use_pir) s \<longleftrightarrow>
     (case send_message D io relay_io lookup frames events relay_frames identity nid message use_pir s of
        (Inr (Some _), _) \<Rightarrow> True | _ \<Rightarrow> False)"
| "direct_delivery D (DListen io readable frames identity) s \<longleftrightarrow>
     (case listener_task D io readable frames identity s of (Inr (Some _), _) \<Rightarrow> True | _ \<Rightarrow> False)"

lemma send_message_without_certs:
  assumes "ps_certs s = None"
  shows "ps_certs (snd (send_message D io rio lookup frames events rframes identity nid message use_pir s)) = None"
    and "fst (send_message D io rio lookup frames events rframes identity nid message use_pir s) \<noteq> Inr (Some w)"
proof -
  have relay: "ps_certs (snd (deliver_by_relay D rio rframes identity nid fp message s)) = None"
      "fst (deliver_by_relay D rio rframes identity nid fp message s) \<noteq> Inr (Some w)" for fp
    using assms by (auto simp: deliver_by_relay_def bind_result_Inr Let_def split: prod.split)
  have direct: "ps_certs (snd (and_then (send_direct D io frames events identity nid fp message s) (\<lambda>w s. (Inr (Some w), s)))) = None"
      "fst (and_then (send_direct D io frames events identity nid fp message s) (\<lambda>w s. (Inr (Some w), s))) \<noteq> Inr (Some w)" for fp
    using send_direct_without_certs [OF assms, of D io frames events identity nid fp message] by auto
  show "ps_certs (snd (send_message D io rio lookup frames events rframes identity nid message use_pir s)) = None"
    using assms relay(1) direct(1) by (simp add: send_message_def split: option.split sum.split)
  show "fst (send_message D io rio lookup frames events rframes identity nid message use_pir s) \<noteq> Inr (Some w)"
    using relay(2) direct(2) by (simp add: send_message_def split: option.split sum.split)
qed

lemma listener_without_certs:
  assumes "ps_certs s = None"
  shows "ps_certs (snd (listener_task D io readable frames identity s)) = None"
    and "fst (listener_task D io readable frames identity s) \<noteq> Inr (Some t)"
  using assms by (simp_all add: listener_task_def incoming_without_certs split: option.split)

lemma run_listener_frame:
  assumes "ps_certs s = None"
  shows "ps_fs (snd (run_listener D bound conns identity s)) = ps_fs s"
proof -
  have task: "ps_fs (snd (listener_task D io readable frames identity s)) = ps_fs s" if "ps_certs s = None" for io readable frames s
    using that by (simp add: listener_task_def incoming_without_certs split: option.split)
  have "ps_fs (fold (\<lambda>(io, readable, frames) s. snd (listener_task D io readable frames identity s)) conns s) = ps_fs s"
    using assms by (induction conns arbitrary: s) (auto simp: task listener_without_certs(1))
  then show ?thesis by (simp add: run_listener_def)
qed

lemma direct_step_certs: "ps_certs s = None \<Longrightarrow> ps_certs (direct_step D e s) = None"
  by (cases e) (simp_all add: send_message_without_certs(1) listener_without_certs(1))

interpretation direct: state_machine "\<lparr>ps_store = S, ps_fs = fs, ps_certs = None, ps_sent = []\<rparr>" "direct_step D" "\<lambda>s. ps_certs s = None"
  for S fs D
  by unfold_locales (simp_all add: direct_step_certs)

text \<open>
  C10. Direct delivery never works: a client process starts with an empty certificate cache and no operation fills it, so in every
  history of sending and of incoming connections, whatever the peers send, no message is delivered directly; a
  message whose recipient is reachable directly is lost with an error instead of being handed to the relay.
\<close>

theorem no_direct_delivery:
  "\<not> direct_delivery D op (fold (direct_step D) ops \<lparr>ps_store = S, ps_fs = fs, ps_certs = None, ps_sent = []\<rparr>)"
proof -
  let ?s = "fold (direct_step D) ops \<lparr>ps_store = S, ps_fs = fs, ps_certs = None, ps_sent = []\<rparr>"
  have c: "ps_certs ?s = None" by (rule direct.run_init_ok)
  have sum: "(case r of (Inr (Some _), _) \<Rightarrow> True | _ \<Rightarrow> False) \<longleftrightarrow> (\<exists>a. fst r = Inr (Some a))" for r :: "(string + 'b option) \<times> direct_state"
    by (auto split: prod.splits sum.splits option.splits)
  show ?thesis
    by (cases op) (simp_all add: sum send_message_without_certs(2) [OF c] listener_without_certs(2) [OF c])
qed

section \<open>What a receipt proves\<close>

text \<open>
  The receipt of a message cannot confirm it: the recipient signs the text with the hash of the ciphertext and sends the hash of the
  plaintext, and the signed text is the one that the sender checks only if the two hashes are the same.
\<close>

theorem receipt_texts_differ:
  assumes "\<forall>b. hex_decode (dl_crypto D) (hex_encode (dl_crypto D) b) = Some b"
    and "\<forall>b. length (hex_encode (dl_crypto D) b) = 2 * length b" and "\<forall>b. length (dl_sha256 D b) = 32"
    and "receipt_text D (sha256_hex (dl_sha256 D) (dl_crypto D) plaintext) t1
       = receipt_text D (sha256_hex (dl_sha256 D) (dl_crypto D) ciphertext) t2"
  shows "dl_sha256 D (as_bytes plaintext) = dl_sha256 D (as_bytes ciphertext)"
proof -
  have "hex_encode (dl_crypto D) (dl_sha256 D (as_bytes plaintext)) = hex_encode (dl_crypto D) (dl_sha256 D (as_bytes ciphertext))"
    using assms(2-4) by (simp add: receipt_text_def sha256_hex_def)
  then show ?thesis using assms(1) by (metis option.inject)
qed

end
