(* ===== verification/ClientMain.thy ===== *)
theory ClientMain
  imports ClientP2p
begin

text \<open>
  The commands of the client (\<open>main\<close> in \<open>client/src/main.rs\<close>): the PID file, the choice of the servers and every subcommand,
  composed from the operations of the other client theories. The state is the file system and the message database on disk;
  what a command prints is its result. Confirmation, passphrase, network and clock are in \<open>cli_io\<close>.
\<close>

section \<open>One instance at a time\<close>

definition PID_PATH :: string where "PID_PATH = ''.nullnode/nullnode.pid''"

text \<open>\<open>str::parse::<i32>\<close>: an optional sign and digits, within the range of 32 bits.\<close>

definition parse_i32 :: "string \<Rightarrow> int option" where
  "parse_i32 s =
     (let neg = (case s of c # _ \<Rightarrow> c = CHR ''-'' | [] \<Rightarrow> False);
          d = (case s of c # cs \<Rightarrow> if c = CHR ''+'' \<or> c = CHR ''-'' then cs else s | [] \<Rightarrow> s);
          v = (if neg then - int (read_nat d) else int (read_nat d))
      in if d \<noteq> [] \<and> list_all (\<lambda>c. c \<in> set ''0123456789'') d \<and> - (2 ^ 31) \<le> v \<and> v < 2 ^ 31 then Some v else None)"

text \<open>The check and the write are separate steps; \<open>alive\<close> is the answer of \<open>kill(pid, 0)\<close>. A file that cannot be read counts as stale.\<close>

definition pid_check :: "(int \<Rightarrow> bool) \<Rightarrow> bool \<Rightarrow> file_system \<Rightarrow> string + unit" where
  "pid_check alive readable fs =
     (case fs PID_PATH of
        None \<Rightarrow> Inr ()
      | Some content \<Rightarrow>
          if \<not> readable then Inr ()
          else let old_pid = opt_or 0 (parse_i32 (rust_trim content))
               in if 0 < old_pid \<and> alive old_pid then Inl ''Another nullnode instance is already running'' else Inr ())"

definition pid_write :: "write_outcome \<Rightarrow> nat \<Rightarrow> file_system \<Rightarrow> (string + unit) \<times> file_system" where
  "pid_write w current_pid fs =
     (case w of
        WriteOk \<Rightarrow> (Inr (), fs(PID_PATH \<mapsto> show_nat current_pid @ [CHR 0x0A]))
      | WriteFailed c \<Rightarrow> (Inl ''Cannot write PID file'', fs(PID_PATH := c)))"

definition pid_drop :: "bool \<Rightarrow> file_system \<Rightarrow> file_system" where
  "pid_drop ok fs = (if ok then fs(PID_PATH := None) else fs)"

section \<open>Commands\<close>

datatype Commands =
    CmdInit
  | CmdId
  | CmdSend string string bool
  | CmdRead
  | CmdContacts
  | CmdAddContact string string
  | CmdListen
  | CmdStatus
  | CmdVerify string
  | CmdSafetyNumber string
  | CmdAlias string string
  | CmdAliases
  | CmdRegister

text \<open>The files, the database, and the purge requests that were sent to the relay.\<close>

record cli_state =
  cl_fs :: file_system
  cl_db :: "MessageStore option"
  cl_purges :: "json list"

record cli_io =
  ci_confirm :: "string option"
  ci_new :: new_identity_io
  ci_readable :: bool
  ci_prompt :: "string + string"
  ci_files :: file_io
  ci_sql_open :: bool
  ci_db_writable :: bool
  ci_db_key :: bytes
  ci_direct :: direct_io
  ci_relay :: client_io
  ci_lookup :: "bool \<Rightarrow> string + string"
  ci_frames :: "ws_frame list"
  ci_events :: "wait_event list"
  ci_relay_frames :: "ws_frame list"
  ci_fetch_nonce :: string
  ci_fetch_nonces :: "bytes list"
  ci_purge :: client_io
  ci_purge_nonce :: string
  ci_purge_answer :: "string option"
  ci_store :: "nat \<Rightarrow> bool \<times> bytes \<times> string"
  ci_sql_read :: bool
  ci_dial :: "string \<Rightarrow> bool"
  ci_seed_option :: "string option"
  ci_relay_option :: "string option"
  ci_discovered :: "string \<times> string"
  ci_register :: register_io
  ci_register_frames :: "ws_frame list"
  ci_read_env :: "string \<Rightarrow> WireEnvelope option"
  ci_bound :: bool
  ci_conns :: "(direct_io \<times> bool \<times> ws_frame list) list"

text \<open>What a command prints.\<close>

datatype cli_output =
    OutIdentity client_identity
  | OutAborted
  | OutSent "wait_flags option"
  | OutRead "string list" "string list"
  | OutTable string_table
  | OutNumber string string
  | OutStatus "client_identity option" nat bool string string
  | OutDone

text \<open>The libraries: those of direct messages, Sequoia's keys, and Argon2.\<close>

record ('cert, 'p) cli_lib =
  cb_direct :: "'cert direct_lib"
  cb_keys :: "'cert key_lib"
  cb_argon2 :: "'p argon2"

abbreviation cb_crypto :: "('cert, 'p) cli_lib \<Rightarrow> crypto_lib" where
  "cb_crypto B \<equiv> dl_crypto (cb_direct B)"

definition cli_identity :: "('cert, 'p) cli_lib \<Rightarrow> cli_io \<Rightarrow> cli_state \<Rightarrow> (string + client_identity) \<times> cli_state" where
  "cli_identity B io st = (identity_load (cb_crypto B) (ci_readable io) (cl_fs st), st)"

definition cli_open :: "('cert, 'p) cli_lib \<Rightarrow> cli_io \<Rightarrow> cli_state \<Rightarrow> (string + MessageStore) \<times> cli_state" where
  "cli_open B io st =
     (let (r, fs) = message_store_open (cb_crypto B) (ci_sql_open io) (ci_db_writable io) (ci_db_key io) (cl_db st) (cl_fs st)
      in (r, st\<lparr>cl_fs := fs, cl_db := (case r of Inr S \<Rightarrow> Some S | Inl _ \<Rightarrow> cl_db st)\<rparr>))"

text \<open>An existing identity is replaced only after a confirmation; one that cannot be loaded is replaced without.\<close>

definition cmd_init :: "('cert, 'p) cli_lib \<Rightarrow> cli_io \<Rightarrow> cli_state \<Rightarrow> (string + cli_output) \<times> cli_state" where
  "cmd_init B io st =
     (let (r, fs) = generate_identity (dl_sha256 (cb_direct B)) (cb_crypto B) (cb_keys B) (dl_pretty (cb_direct B)) (ci_new io) (cl_fs st);
          created = (bind_result r (\<lambda>identity. Inr (OutIdentity identity)), st\<lparr>cl_fs := fs\<rparr>)
      in if cl_fs st IDENTITY_PATH = None then created
         else (case identity_load (cb_crypto B) (ci_readable io) (cl_fs st) of
                 Inl _ \<Rightarrow> created
               | Inr _ \<Rightarrow>
                   (case ci_confirm io of
                      None \<Rightarrow> (Inl ''read_line'', st)
                    | Some confirm \<Rightarrow> if rust_trim confirm \<noteq> ''yes'' then (Inr OutAborted, st) else created)))"

definition cmd_id :: "('cert, 'p) cli_lib \<Rightarrow> cli_io \<Rightarrow> cli_state \<Rightarrow> (string + cli_output) \<times> cli_state" where
  "cmd_id B io st = and_then (cli_identity B io st) (\<lambda>identity st. (Inr (OutIdentity identity), st))"

definition cmd_contacts :: "('cert, 'p) cli_lib \<Rightarrow> cli_io \<Rightarrow> cli_state \<Rightarrow> (string + cli_output) \<times> cli_state" where
  "cmd_contacts B io st = (Inr (OutTable (load_contacts (cb_crypto B) (ci_files io) (cl_fs st))), st)"

definition cmd_aliases :: "('cert, 'p) cli_lib \<Rightarrow> cli_io \<Rightarrow> cli_state \<Rightarrow> (string + cli_output) \<times> cli_state" where
  "cmd_aliases B io st = (Inr (OutTable (load_aliases (cb_crypto B) (ci_files io) (cl_fs st))), st)"

definition cmd_send :: "('cert, 'p) cli_lib \<Rightarrow> cli_io \<Rightarrow> string \<Rightarrow> string \<Rightarrow> bool \<Rightarrow> cli_state \<Rightarrow> (string + cli_output) \<times> cli_state" where
  "cmd_send B io to message pir st =
     and_then (cli_open B io st) (\<lambda>S st.
     and_then (cli_identity B io st) (\<lambda>identity st.
       let resolved_to = resolve_recipient to (load_aliases (cb_crypto B) (ci_files io) (cl_fs st));
           (r, s) = send_message (cb_direct B) (ci_direct io) (ci_relay io) (ci_lookup io) (ci_frames io) (ci_events io) (ci_relay_frames io)
                      identity resolved_to message pir \<lparr>ps_store = S, ps_fs = cl_fs st, ps_certs = None, ps_sent = []\<rparr>
       in (bind_result r (\<lambda>w. Inr (OutSent w)), st\<lparr>cl_fs := ps_fs s, cl_db := Some (ps_store s)\<rparr>)))"

text \<open>The fetched texts are stored one by one; failures are ignored.\<close>

definition store_fetched :: "crypto_lib \<Rightarrow> cli_io \<Rightarrow> string \<Rightarrow> string list \<Rightarrow> MessageStore \<Rightarrow> MessageStore" where
  "store_fetched L io nid messages S =
     fold (\<lambda>(i, msg) S. let (ok, nonce, time) = ci_store io i in snd (ms_store_message L ok nonce time ''relay'' nid msg S))
       (enumerate 0 messages) S"

text \<open>A preview of a stored message: the slice \<open>[..40]\<close> panics unless it ends at the border of a character.\<close>

definition is_char_boundary :: "nat \<Rightarrow> string \<Rightarrow> bool" where
  "is_char_boundary i t \<longleftrightarrow> i = length t \<or> (i < length t \<and> \<not> (128 \<le> (of_char (t ! i) :: nat) \<and> (of_char (t ! i) :: nat) < 192))"

definition preview :: "string \<Rightarrow> string option" where
  "preview t = (if 40 < length t then (if is_char_boundary 40 t then Some (take 40 t @ ''...'') else None) else Some t)"

text \<open>The request that asks the relay to delete the mail after a successful read; its outcome is only printed.\<close>

definition read_purge :: "('cert, 'p) cli_lib \<Rightarrow> cli_io \<Rightarrow> client_identity \<Rightarrow> string list \<Rightarrow> file_system \<Rightarrow> json list" where
  "read_purge B io identity messages fs =
     (if messages = [] then []
      else snd (relay_purge (cb_crypto B) (ci_purge io) (ci_purge_nonce io) (ci_purge_answer io)
                  (identity_load (cb_crypto B) (ci_readable io) fs) (id_null_id identity)))"

definition cmd_read :: "('cert, 'p) cli_lib \<Rightarrow> cli_io \<Rightarrow> cli_state \<Rightarrow> (string + cli_output) \<times> cli_state" where
  "cmd_read B io st =
     and_then (cli_open B io st) (\<lambda>S st.
     and_then (cli_identity B io st) (\<lambda>identity st.
       let (r, S, fs) = relay_fetch (dl_sha256 (cb_direct B)) (dl_blake (cb_direct B)) (cb_crypto B) (dl_codec (cb_direct B)) (dl_lossy (cb_direct B))
             (ci_relay io) (ci_fetch_nonce io) (ci_fetch_nonces io) (ci_relay_frames io)
             (identity_load (cb_crypto B) (ci_readable io) (cl_fs st)) (id_null_id identity) S (cl_fs st)
       in and_then (r, st\<lparr>cl_fs := fs, cl_db := Some S\<rparr>) (\<lambda>messages st.
            let S = store_fetched (cb_crypto B) io (id_null_id identity) messages S
            in and_then (get_messages (cb_crypto B) (ci_sql_read io) 20 S,
                   st\<lparr>cl_db := Some S, cl_purges := cl_purges st @ read_purge B io identity messages (cl_fs st)\<rparr>) (\<lambda>stored st.
               and_then (ok_or ''panic: slice'' (those (map (preview \<circ> sm_ciphertext) stored)), st) (\<lambda>previews st.
                 (Inr (OutRead messages previews), st))))))"

definition cmd_add_contact :: "('cert, 'p) cli_lib \<Rightarrow> cli_io \<Rightarrow> string \<Rightarrow> string \<Rightarrow> cli_state \<Rightarrow> (string + cli_output) \<times> cli_state" where
  "cmd_add_contact B io nid fingerprint st =
     (if length fingerprint < 32 \<or> \<not> list_all is_ascii_hexdigit fingerprint then (Inl ''invalid fingerprint format'', st)
      else
        let contacts = AList.update nid (to_uppercase fingerprint) (load_contacts (cb_crypto B) (ci_files io) (cl_fs st));
            (r, fs) = save_contacts (dl_pretty (cb_direct B)) (ci_files io) contacts (cl_fs st)
        in (bind_result r (\<lambda>_. Inr OutDone), st\<lparr>cl_fs := fs\<rparr>))"

definition cmd_alias :: "('cert, 'p) cli_lib \<Rightarrow> cli_io \<Rightarrow> string \<Rightarrow> string \<Rightarrow> cli_state \<Rightarrow> (string + cli_output) \<times> cli_state" where
  "cmd_alias B io alias nid st =
     (if map_of (load_contacts (cb_crypto B) (ci_files io) (cl_fs st)) nid = None then (Inl ''unknown Null ID'', st)
      else
        let aliases = AList.update alias nid (load_aliases (cb_crypto B) (ci_files io) (cl_fs st));
            (r, fs) = save_aliases (dl_pretty (cb_direct B)) (ci_files io) aliases (cl_fs st)
        in (bind_result r (\<lambda>_. Inr OutDone), st\<lparr>cl_fs := fs\<rparr>))"

text \<open>\<open>verify\<close> and \<open>safety-number\<close> compute the same.\<close>

definition cmd_verify :: "('cert, 'p) cli_lib \<Rightarrow> cli_io \<Rightarrow> string \<Rightarrow> cli_state \<Rightarrow> (string + cli_output) \<times> cli_state" where
  "cmd_verify B io nid st =
     (let resolved_nid = resolve_recipient nid (load_aliases (cb_crypto B) (ci_files io) (cl_fs st))
      in and_then (ok_or ''unknown contact'' (map_of (load_contacts (cb_crypto B) (ci_files io) (cl_fs st)) resolved_nid), st) (\<lambda>fp st.
         and_then (cli_identity B io st) (\<lambda>identity st.
           (Inr (OutNumber resolved_nid (safety_number (dl_sha256 (cb_direct B)) (cb_crypto B) (id_fingerprint identity) fp)), st))))"

definition cmd_listen :: "('cert, 'p) cli_lib \<Rightarrow> cli_io \<Rightarrow> cli_state \<Rightarrow> (string + cli_output) \<times> cli_state" where
  "cmd_listen B io st =
     and_then (cli_open B io st) (\<lambda>S st.
     and_then (cli_identity B io st) (\<lambda>identity st.
       let (r, s) = run_listener (cb_direct B) (ci_bound io) (ci_conns io) identity \<lparr>ps_store = S, ps_fs = cl_fs st, ps_certs = None, ps_sent = []\<rparr>
       in (bind_result r (\<lambda>_. Inr OutDone), st\<lparr>cl_fs := ps_fs s, cl_db := Some (ps_store s)\<rparr>)))"

definition BOOTSTRAP_PATH :: string where "BOOTSTRAP_PATH = ''.nullnode/bootstrap_pin_cache.json''"

text \<open>The servers: the option, otherwise the discovered one; the default of the code is never reached, because discovery always has
  a result.\<close>

definition chosen_servers :: "cli_io \<Rightarrow> string \<times> string" where
  "chosen_servers io =
     (opt_or (fst (ci_discovered io)) (ci_seed_option io), opt_or (snd (ci_discovered io)) (ci_relay_option io))"

definition cmd_status :: "('cert, 'p) cli_lib \<Rightarrow> cli_io \<Rightarrow> cli_state \<Rightarrow> (string + cli_output) \<times> cli_state" where
  "cmd_status B io st =
     (Inr (OutStatus (case identity_load (cb_crypto B) (ci_readable io) (cl_fs st) of Inr identity \<Rightarrow> Some identity | Inl _ \<Rightarrow> None)
        (length (load_contacts (cb_crypto B) (ci_files io) (cl_fs st))) (cl_fs st BOOTSTRAP_PATH \<noteq> None)
        (fst (chosen_servers io)) (snd (chosen_servers io))), st)"

text \<open>Registration uses the discovered server, not the one of the option.\<close>

definition cmd_register :: "('cert, 'p) cli_lib \<Rightarrow> cli_io \<Rightarrow> cli_state \<Rightarrow> (string + cli_output) \<times> cli_state" where
  "cmd_register B io st =
     and_then (cli_identity B io st) (\<lambda>identity st.
     and_then (load_cert (cb_keys B) (ci_readable io) (ci_prompt io) (cl_fs st), st) (\<lambda>cert st.
       let seed_url = fst (ci_discovered io);
           (r, _) = dht_register (cb_argon2 B) (cb_keys B) (ci_read_env io) ((ci_register io)\<lparr>ri_connect := ci_dial io (ws_url seed_url)\<rparr>)
                      (ci_register_frames io) identity cert
       in (bind_result r (\<lambda>_. Inr OutDone), st)))"

fun run_command :: "('cert, 'p) cli_lib \<Rightarrow> cli_io \<Rightarrow> Commands \<Rightarrow> cli_state \<Rightarrow> (string + cli_output) \<times> cli_state" where
  "run_command B io CmdInit st = cmd_init B io st"
| "run_command B io CmdId st = cmd_id B io st"
| "run_command B io (CmdSend to message pir) st = cmd_send B io to message pir st"
| "run_command B io CmdRead st = cmd_read B io st"
| "run_command B io CmdContacts st = cmd_contacts B io st"
| "run_command B io (CmdAddContact nid fingerprint) st = cmd_add_contact B io nid fingerprint st"
| "run_command B io CmdListen st = cmd_listen B io st"
| "run_command B io CmdStatus st = cmd_status B io st"
| "run_command B io (CmdVerify nid) st = cmd_verify B io nid st"
| "run_command B io (CmdSafetyNumber nid) st = cmd_verify B io nid st"
| "run_command B io (CmdAlias alias nid) st = cmd_alias B io alias nid st"
| "run_command B io CmdAliases st = cmd_aliases B io st"
| "run_command B io CmdRegister st = cmd_register B io st"

text \<open>The program: the PID file around the command.\<close>

definition client_main ::
  "('cert, 'p) cli_lib \<Rightarrow> (int \<Rightarrow> bool) \<Rightarrow> bool \<Rightarrow> write_outcome \<Rightarrow> nat \<Rightarrow> bool \<Rightarrow> cli_io \<Rightarrow> Commands \<Rightarrow> cli_state
    \<Rightarrow> (string + cli_output) \<times> cli_state" where
  "client_main B alive pid_readable pid_w pid removable io cmd st =
     and_then (pid_check alive pid_readable (cl_fs st), st) (\<lambda>_ st.
       let (w, fs) = pid_write pid_w pid (cl_fs st)
       in and_then (w, st\<lparr>cl_fs := fs\<rparr>) (\<lambda>_ st.
            let (r, st) = run_command B io cmd st in (r, st\<lparr>cl_fs := pid_drop removable (cl_fs st)\<rparr>)))"

section \<open>Which files a command changes\<close>

lemma send_via_relay_frame:
  assumes "send_via_relay H L C io frames identity nid fp message S fs = (r, reqs, S', fs')" and "p \<noteq> KYBER_KEY_PATH"
  shows "fs' p = fs p"
proof (cases "io_connect io")
  case True
  obtain r1 fs1 where k: "load_or_generate_kyber H L (io_kyber_writable io) (io_kyber_nonce io) (id_null_id identity) S fs = (r1, fs1)"
    by (cases "load_or_generate_kyber H L (io_kyber_writable io) (io_kyber_nonce io) (id_null_id identity) S fs")
  have "fs' = fs1" using assms(1) True by (auto simp: send_via_relay_def k split: sum.splits prod.splits option.splits if_splits)
  with load_or_generate_kyber_frame [OF k assms(2)] show ?thesis by simp
qed (use assms(1) in \<open>simp add: send_via_relay_def\<close>)

lemma relay_fetch_frame:
  assumes "relay_fetch H blake L C lossy io nonce ns frames loaded nid S fs = (r, S', fs')" and "p \<noteq> KYBER_KEY_PATH"
  shows "fs' p = fs p"
proof (cases "io_connect io \<and> (\<exists>i. loaded = Inr i)")
  case True
  let ?k = "load_or_generate_kyber H L (io_kyber_writable io) (io_kyber_nonce io) nid S"
  obtain r1 fs1 where k: "?k fs = (r1, fs1)" by (cases "?k fs")
  obtain r2 fs2 where k2: "?k fs1 = (r2, fs2)" by (cases "?k fs1")
  have "fs' = fs1 \<or> fs' = fs2"
    using assms(1) True by (auto simp: relay_fetch_def k k2 split: sum.splits prod.splits option.splits if_splits)
  with load_or_generate_kyber_frame [OF k assms(2)] load_or_generate_kyber_frame [OF k2 assms(2)] show ?thesis by auto
qed (use assms(1) in \<open>auto simp: relay_fetch_def split: sum.splits if_splits\<close>)

lemma cli_open_frame: "p \<noteq> DB_KEY_PATH \<Longrightarrow> cl_fs (snd (cli_open B io st)) p = cl_fs st p"
  by (auto simp: cli_open_def message_store_open_def db_key_load_or_create_def Let_def split: option.splits prod.splits sum.splits if_splits)

lemma generate_identity_frame:
  assumes "generate_identity H L K pretty io fs = (r, fs')"
    and "p \<notin> {enc_cert_path, plain_cert_path, DB_KEY_PATH, KYBER_KEY_PATH, IDENTITY_PATH}"
  shows "fs' p = fs p"
proof -
  have w: "fs2 p = fs1 p" if "write_own_cert K io a pw fs1 = (r1, fs2)" for a pw fs1 fs2 r1
    using that assms(2) by (auto simp: write_own_cert_def split: write_outcome.splits sum.splits if_splits)
  have d: "fs2 p = fs1 p" if "store_derived_keys H L io nid fs1 = (r1, fs2)" for nid fs1 fs2 r1
    using store_derived_keys_frame [OF that, of p] assms(2) by simp
  have i: "fs2 p = fs1 p" if "identity_save pretty (ni_identity io) identity fs1 = (r1, fs2)" for identity fs1 fs2 r1
    using that assms(2) by (auto simp: identity_save_def split: write_outcome.splits if_splits)
  show ?thesis
    using assms(1) by (auto simp: generate_identity_def Let_def dest!: w d i split: sum.splits prod.splits)
qed

lemma send_message_frame:
  assumes "send_message D io rio lookup frames events rframes identity nid message pir s = (r, s')" and "ps_certs s = None"
    and "p \<noteq> KYBER_KEY_PATH"
  shows "ps_fs s' p = ps_fs s p"
proof -
  have relay: "ps_fs (snd (deliver_by_relay D rio rframes identity nid fp message s)) p = ps_fs s p" for fp
    using send_via_relay_frame [OF _ assms(3)] by (auto simp: deliver_by_relay_def split: prod.split)
  have direct: "ps_fs (snd (and_then (send_direct D io frames events identity nid fp message s) (\<lambda>w s. (Inr (Some w), s)))) p = ps_fs s p" for fp
    using send_direct_without_certs [OF assms(2), of D io frames events identity nid fp message] assms(3) by auto
  have "ps_fs (snd (send_message D io rio lookup frames events rframes identity nid message pir s)) p = ps_fs s p"
    using relay direct by (simp add: send_message_def split: option.split sum.split)
  with assms(1) show ?thesis by simp
qed

text \<open>The tables of contacts and aliases are only changed by their own commands.\<close>

definition other_paths :: "string set" where
  "other_paths = {enc_cert_path, plain_cert_path, DB_KEY_PATH, KYBER_KEY_PATH, IDENTITY_PATH}"

lemma table_paths: "CONTACTS_PATH \<notin> other_paths" "ALIASES_PATH \<notin> other_paths" "CONTACTS_PATH \<noteq> ALIASES_PATH"
  by (simp_all add: other_paths_def CONTACTS_PATH_def ALIASES_PATH_def enc_cert_path_def plain_cert_path_def DB_KEY_PATH_def KYBER_KEY_PATH_def
      IDENTITY_PATH_def)

lemma cmd_init_frame: "p \<notin> other_paths \<Longrightarrow> cl_fs (snd (cmd_init B io st)) p = cl_fs st p"
  by (auto simp: cmd_init_def other_paths_def Let_def dest: generate_identity_frame split: prod.splits sum.splits option.splits)

lemma cmd_send_frame: "p \<notin> other_paths \<Longrightarrow> cl_fs (snd (cmd_send B io to message pir st)) p = cl_fs st p"
proof -
  assume p: "p \<notin> other_paths"
  obtain r st1 where o1: "cli_open B io st = (r, st1)" by (cases "cli_open B io st")
  have f: "cl_fs st1 p = cl_fs st p" using cli_open_frame [of p B io st] p o1 by (simp add: other_paths_def)
  have k: "p \<noteq> KYBER_KEY_PATH" using p by (simp add: other_paths_def)
  show ?thesis
  proof (cases r)
    case (Inr S)
    show ?thesis
    proof (cases "identity_load (cb_crypto B) (ci_readable io) (cl_fs st1)")
      case (Inr identity)
      let ?s = "\<lparr>ps_store = S, ps_fs = cl_fs st1, ps_certs = None, ps_sent = []\<rparr>"
      let ?to = "resolve_recipient to (load_aliases (cb_crypto B) (ci_files io) (cl_fs st1))"
      obtain r2 s2 where s2: "send_message (cb_direct B) (ci_direct io) (ci_relay io) (ci_lookup io) (ci_frames io) (ci_events io)
          (ci_relay_frames io) identity ?to message pir ?s = (r2, s2)"
        by (cases "send_message (cb_direct B) (ci_direct io) (ci_relay io) (ci_lookup io) (ci_frames io) (ci_events io)
          (ci_relay_frames io) identity ?to message pir ?s")
      have "ps_fs s2 p = cl_fs st1 p" using send_message_frame [OF s2 _ k] by simp
      with \<open>r = Inr S\<close> Inr o1 f s2 show ?thesis by (simp add: cmd_send_def cli_identity_def Let_def)
    qed (simp add: cmd_send_def o1 \<open>r = Inr S\<close> cli_identity_def f)
  qed (simp add: cmd_send_def o1 f)
qed

lemma cmd_read_frame: "p \<notin> other_paths \<Longrightarrow> cl_fs (snd (cmd_read B io st)) p = cl_fs st p"
proof -
  assume p: "p \<notin> other_paths"
  obtain r st1 where o1: "cli_open B io st = (r, st1)" by (cases "cli_open B io st")
  have f: "cl_fs st1 p = cl_fs st p" using cli_open_frame [of p B io st] p o1 by (simp add: other_paths_def)
  have k: "p \<noteq> KYBER_KEY_PATH" using p by (simp add: other_paths_def)
  show ?thesis
  proof (cases r)
    case (Inr S)
    show ?thesis
    proof (cases "identity_load (cb_crypto B) (ci_readable io) (cl_fs st1)")
      case (Inr identity)
      let ?f = "relay_fetch (dl_sha256 (cb_direct B)) (dl_blake (cb_direct B)) (cb_crypto B) (dl_codec (cb_direct B)) (dl_lossy (cb_direct B))
             (ci_relay io) (ci_fetch_nonce io) (ci_fetch_nonces io) (ci_relay_frames io)
             (identity_load (cb_crypto B) (ci_readable io) (cl_fs st1)) (id_null_id identity) S (cl_fs st1)"
      obtain r2 S2 fs2 where r2: "?f = (r2, S2, fs2)" by (cases ?f)
      have "fs2 p = cl_fs st1 p" by (rule relay_fetch_frame [OF r2 k])
      moreover have "cl_fs (snd (cmd_read B io st)) = fs2"
        using r2 by (simp add: cmd_read_def o1 \<open>r = Inr S\<close> cli_identity_def Inr Let_def and_then_def split: sum.split option.split)
      ultimately show ?thesis using f by simp
    qed (simp add: cmd_read_def o1 \<open>r = Inr S\<close> cli_identity_def f)
  qed (simp add: cmd_read_def o1 f)
qed

lemma cmd_listen_frame: "p \<notin> other_paths \<Longrightarrow> cl_fs (snd (cmd_listen B io st)) p = cl_fs st p"
  using cli_open_frame [of p B io st]
  by (auto simp: cmd_listen_def cli_identity_def and_then_def other_paths_def run_listener_frame case_prod_beta Let_def split: prod.split sum.split)

lemma run_command_frame:
  assumes "p \<notin> other_paths" and "p = CONTACTS_PATH \<Longrightarrow> \<forall>n f. cmd \<noteq> CmdAddContact n f" and "p = ALIASES_PATH \<Longrightarrow> \<forall>a n. cmd \<noteq> CmdAlias a n"
  shows "cl_fs (snd (run_command B io cmd st)) p = cl_fs st p"
proof (cases cmd)
  case (CmdAddContact n f)
  with assms(2) show ?thesis
    by (auto simp: cmd_add_contact_def save_contacts_def save_table_def Let_def split: write_outcome.splits if_splits)
next
  case (CmdAlias a n)
  with assms(3) show ?thesis
    by (auto simp: cmd_alias_def save_aliases_def save_table_def Let_def split: write_outcome.splits if_splits)
next
  case CmdListen
  with cmd_listen_frame assms(1) show ?thesis by simp
qed (use assms(1) in \<open>simp_all add: cmd_init_frame cmd_send_frame cmd_read_frame cmd_status_def cmd_verify_def cmd_register_def cli_identity_def
      cmd_id_def cmd_contacts_def cmd_aliases_def       and_then_def Let_def split: sum.split prod.split\<close>)

section \<open>The address book\<close>

text \<open>What the commands mean for contacts and aliases.\<close>

type_synonym address_book = "(string \<rightharpoonup> string) \<times> (string \<rightharpoonup> string)"

fun book_step :: "Commands \<Rightarrow> address_book \<Rightarrow> address_book" where
  "book_step (CmdAddContact nid fingerprint) (c, a) =
     (if 32 \<le> length fingerprint \<and> list_all is_ascii_hexdigit fingerprint then c(nid \<mapsto> to_uppercase fingerprint) else c, a)"
| "book_step (CmdAlias alias nid) (c, a) = (c, if c nid = None then a else a(alias \<mapsto> nid))"
| "book_step _ book = book"

definition book_of :: "('cert, 'p) cli_lib \<Rightarrow> cli_state \<Rightarrow> address_book" where
  "book_of B st = (map_of (load_contacts (cb_crypto B) io_fine (cl_fs st)), map_of (load_aliases (cb_crypto B) io_fine (cl_fs st)))"

definition cli_step :: "('cert, 'p) cli_lib \<Rightarrow> cli_io \<times> Commands \<Rightarrow> cli_state \<Rightarrow> cli_state" where
  "cli_step B e st = snd (run_command B (fst e) (snd e) st)"

lemma load_table_cong: "fs path = fs' path \<Longrightarrow> load_table L io path fs = load_table L io path fs'"
  by (simp add: load_table_def)

lemma book_step_refines:
  assumes "pretty_laws (cb_crypto B) (dl_pretty (cb_direct B))" and "ci_files io = io_fine"
  shows "book_of B (snd (run_command B io cmd st)) = book_step cmd (book_of B st)"
proof -
  let ?fs' = "cl_fs (snd (run_command B io cmd st))"
  have c: "load_table (cb_crypto B) io_fine CONTACTS_PATH ?fs' = load_table (cb_crypto B) io_fine CONTACTS_PATH (cl_fs st)"
    if "\<forall>n f. cmd \<noteq> CmdAddContact n f"
    using that table_paths by (intro load_table_cong run_command_frame) simp_all
  have a: "load_table (cb_crypto B) io_fine ALIASES_PATH ?fs' = load_table (cb_crypto B) io_fine ALIASES_PATH (cl_fs st)"
    if "\<forall>n f. cmd \<noteq> CmdAlias n f"
    using that table_paths by (intro load_table_cong run_command_frame) simp_all
  show ?thesis
  proof (cases cmd)
    case (CmdAddContact nid fp)
    with a have "load_table (cb_crypto B) io_fine ALIASES_PATH ?fs' = load_table (cb_crypto B) io_fine ALIASES_PATH (cl_fs st)" by simp
    with CmdAddContact table_set_get [OF assms(1), of CONTACTS_PATH nid "to_uppercase fp" "cl_fs st"] show ?thesis
      by (auto simp: book_of_def file_defs cmd_add_contact_def assms(2) Let_def case_prod_beta)
  next
    case (CmdAlias al nid)
    with c have "load_table (cb_crypto B) io_fine CONTACTS_PATH ?fs' = load_table (cb_crypto B) io_fine CONTACTS_PATH (cl_fs st)" by simp
    with CmdAlias table_set_get [OF assms(1), of ALIASES_PATH al nid "cl_fs st"] show ?thesis
      by (auto simp: book_of_def file_defs cmd_alias_def assms(2) Let_def case_prod_beta)
  qed (use c a in \<open>simp_all add: book_of_def file_defs\<close>)
qed

text \<open>
  C9. The client's address book: whatever commands run, in whatever order and with whatever answers from the network, the
  contacts and aliases on disk are exactly those that the \<open>add-contact\<close> and \<open>alias\<close> commands entered, the latest per name; all other
  commands, creating an identity, sending, reading, listening and registering, leave them alone.
\<close>

theorem address_book_refines:
  assumes "pretty_laws (cb_crypto B) (dl_pretty (cb_direct B))" and "list_all (\<lambda>e. ci_files (fst e) = io_fine) es"
  shows "book_of B (fold (cli_step B) es st) = fold book_step (map snd es) (book_of B st)"
  using assms(2)
  by (induction es arbitrary: st) (simp_all add: book_step_refines [OF assms(1)] cli_step_def)

definition aliases_ok :: "address_book \<Rightarrow> bool" where
  "aliases_ok book \<longleftrightarrow> (\<forall>a n. snd book a = Some n \<longrightarrow> fst book n \<noteq> None)"

lemma aliases_ok_step: "aliases_ok book \<Longrightarrow> aliases_ok (book_step cmd book)"
  by (cases "(cmd, book)" rule: book_step.cases) (auto simp: aliases_ok_def)

interpretation book: state_machine "(Map.empty, Map.empty)" book_step aliases_ok
  by unfold_locales (auto simp: aliases_ok_step aliases_ok_def [of "(Map.empty, Map.empty)"])

text \<open>
  Every alias names a contact: starting without the two files, no history of commands leads to an alias whose Null ID is not
  in the contacts, so a resolved alias is never an unknown contact.
\<close>

theorem aliases_name_contacts:
  assumes "pretty_laws (cb_crypto B) (dl_pretty (cb_direct B))" and "list_all (\<lambda>e. ci_files (fst e) = io_fine) es"
    and "cl_fs st CONTACTS_PATH = None" and "cl_fs st ALIASES_PATH = None"
    and "map_of (load_aliases (cb_crypto B) io_fine (cl_fs (fold (cli_step B) es st))) alias = Some nid"
  shows "map_of (load_contacts (cb_crypto B) io_fine (cl_fs (fold (cli_step B) es st))) nid \<noteq> None"
proof -
  have "book_of B (fold (cli_step B) es st) = fold book_step (map snd es) (book_of B st)"
    using assms(2) by (induction es arbitrary: st) (simp_all add: book_step_refines [OF assms(1)] cli_step_def)
  moreover have "book_of B st = (Map.empty, Map.empty)" using assms(3,4) by (simp add: book_of_def file_defs load_table_def)
  ultimately have "aliases_ok (book_of B (fold (cli_step B) es st))" using book.run_init_ok [of "map snd es"] by simp
  with assms(5) show ?thesis by (auto simp: aliases_ok_def book_of_def)
qed

section \<open>Crashes and races\<close>

text \<open>The option for the bootstrap server has no influence on a registration.\<close>

theorem register_ignores_seed: "run_command B (io\<lparr>ci_seed_option := seed\<rparr>) CmdRegister st = run_command B io CmdRegister st"
  by (simp add: cmd_register_def cli_identity_def)

text \<open>
  Reading fails for good after a long message that is not plain ASCII: the text is stored, and every later \<open>read\<close> slices it at byte 40,
  which panics when that is inside a character.
\<close>

theorem long_message_breaks_read:
  assumes "cli_open B io st = (Inr S, st')" and "identity_load (cb_crypto B) (ci_readable io) (cl_fs st') = Inr identity"
    and "relay_fetch (dl_sha256 (cb_direct B)) (dl_blake (cb_direct B)) (cb_crypto B) (dl_codec (cb_direct B)) (dl_lossy (cb_direct B))
             (ci_relay io) (ci_fetch_nonce io) (ci_fetch_nonces io) (ci_relay_frames io) (Inr identity) (id_null_id identity) S (cl_fs st')
           = (Inr messages, S', fs')"
    and "get_messages (cb_crypto B) (ci_sql_read io) 20 (store_fetched (cb_crypto B) io (id_null_id identity) messages S') = Inr stored"
    and "m \<in> set stored" and "40 < length (sm_ciphertext m)" and "\<not> is_char_boundary 40 (sm_ciphertext m)"
  shows "fst (cmd_read B io st) = Inl ''panic: slice''"
proof -
  have "those (map (preview \<circ> sm_ciphertext) stored) = None"
    using assms(5-7) by (induction stored) (auto simp: preview_def split: option.split)
  then show ?thesis using assms(1-4) by (simp add: cmd_read_def cli_identity_def)
qed

text \<open>A start in two steps, as the scheduler may interleave them: whether the process passed the check, and whether it is running.\<close>

datatype pid_event = PidCheck nat | PidWrite nat

record pid_state =
  pd_fs :: file_system
  pd_passed :: "nat set"
  pd_running :: "nat set"

fun pid_step :: "pid_event \<Rightarrow> pid_state \<Rightarrow> pid_state" where
  "pid_step (PidCheck pid) s =
     (if pid_check (\<lambda>p. nat p \<in> pd_running s) True (pd_fs s) = Inr () then s\<lparr>pd_passed := insert pid (pd_passed s)\<rparr> else s)"
| "pid_step (PidWrite pid) s =
     (if pid \<in> pd_passed s then s\<lparr>pd_fs := snd (pid_write WriteOk pid (pd_fs s)), pd_running := insert pid (pd_running s)\<rparr> else s)"

text \<open>
  The PID file does not exclude a second instance: when two processes check before either writes, both run. If the first has written,
  the second is refused.
\<close>

theorem two_instances_run:
  "pd_running (fold pid_step [PidCheck 7, PidCheck 8, PidWrite 7, PidWrite 8] \<lparr>pd_fs = Map.empty, pd_passed = {}, pd_running = {}\<rparr>) = {7, 8}
   \<and> pd_running (fold pid_step [PidCheck 7, PidWrite 7, PidCheck 8, PidWrite 8] \<lparr>pd_fs = Map.empty, pd_passed = {}, pd_running = {}\<rparr>) = {7}"
proof -
  have "parse_i32 (rust_trim (show_nat 7 @ [CHR 0x0A])) = Some 7" by code_simp
  then show ?thesis by (auto simp: pid_check_def pid_write_def)
qed

section \<open>Witnesses\<close>

definition demo_client_io :: client_io where
  "demo_client_io =
     \<lparr>io_connect = False, io_kyber_writable = True, io_kyber_nonce = replicate 12 0, io_kem_rnd = [], io_msg_rnd = [], io_msg_nonce = replicate 12 0,
      io_pad = [], io_nonce = 1, io_ts = 1, io_show_ts = ''1'', io_uuid = ''u'', io_sign = \<lambda>_. Inr ''s'', io_cert = Inr ''c'', io_send = True,
      io_sql_load = True, io_sql_save = True, io_db_nonce = replicate 12 0, io_db_time = ''t''\<rparr>"

definition demo_direct_io :: direct_io where
  "demo_direct_io =
     \<lparr>pi_contacts = io_fine, pi_connect = \<lambda>_. False, pi_accept = True, pi_kyber_writable = True, pi_kyber_nonce = replicate 12 0,
      pi_sign = \<lambda>_. Inr ''s'', pi_send = \<lambda>_. True, pi_mid = \<lambda>_. ''m'', pi_now = \<lambda>_. 1, pi_instant = 0, pi_challenge = ''ch'', pi_kem_rnd = [],
      pi_sql_session = True, pi_session_nonce = replicate 12 0, pi_session_time = ''t'', pi_pad = [], pi_msg_rnd = [], pi_msg_nonce = replicate 12 0,
      pi_token_files = io_fine, pi_token_rng = replicate 64 0, pi_token_fp = Inr ''f'', pi_token_now = 1, pi_sql_store = True,
      pi_store_nonce = replicate 12 0, pi_store_time = ''t''\<rparr>"

definition demo_cli_io :: cli_io where
  "demo_cli_io =
     \<lparr>ci_confirm = None, ci_new = toy_new_io ''pw'', ci_readable = True, ci_prompt = Inr ''pw'', ci_files = io_fine, ci_sql_open = True,
      ci_db_writable = True, ci_db_key = replicate 32 1, ci_direct = demo_direct_io, ci_relay = demo_client_io, ci_lookup = \<lambda>_. Inl ''no'',
      ci_frames = [], ci_events = [], ci_relay_frames = [], ci_fetch_nonce = ''n'', ci_fetch_nonces = [], ci_purge = demo_client_io,
      ci_purge_nonce = ''n'', ci_purge_answer = None, ci_store = \<lambda>_. (True, replicate 12 0, ''t''), ci_sql_read = True, ci_dial = \<lambda>_. False,
      ci_seed_option = None, ci_relay_option = None, ci_discovered = discover_servers None None, ci_register = reg_io, ci_register_frames = [], ci_read_env = \<lambda>_. None,
      ci_bound = False, ci_conns = []\<rparr>"

definition demo_cli_lib :: "(string, unit) cli_lib" where
  "demo_cli_lib =
     \<lparr>cb_direct = \<lparr>dl_sha256 = id, dl_blake = id, dl_hmac = \<lambda>_ x. x, dl_crypto = file_crypto, dl_pgp = toy_pgp,
        dl_codec = \<lparr>sess_print = \<lambda>_. None, sess_read = \<lambda>_. None\<rparr>, dl_pretty = file_print, dl_show_f64 = \<lambda>_. ''1'', dl_lossy = map (\<lambda>b. char_of (unat b))\<rparr>,
      cb_keys = toy_keys, cb_argon2 = reg_argon2\<rparr>"

theorem address_book_refines_witness:
  "book_of demo_cli_lib (fold (cli_step demo_cli_lib)
      [(demo_cli_io, CmdAddContact ''NN-ABCD-EFGH'' (replicate 32 (CHR ''a''))), (demo_cli_io, CmdAlias ''bob'' ''NN-ABCD-EFGH''),
       (demo_cli_io, CmdAlias ''eve'' ''NN-WXYZ-WXYZ''), (demo_cli_io, CmdSend ''bob'' ''hi'' False)]
      \<lparr>cl_fs = Map.empty, cl_db = None, cl_purges = []\<rparr>)
   = ([''NN-ABCD-EFGH'' \<mapsto> replicate 32 (CHR ''A'')], [''bob'' \<mapsto> ''NN-ABCD-EFGH''])"
proof -
  have "pretty_laws (cb_crypto demo_cli_lib) (dl_pretty (cb_direct demo_cli_lib))" using file_pretty_laws by (simp add: demo_cli_lib_def)
  moreover have "ci_files demo_cli_io = io_fine" by (simp add: demo_cli_io_def)
  moreover have "list_all is_ascii_hexdigit (replicate 32 (CHR ''a''))" "to_uppercase (replicate 32 (CHR ''a'')) = replicate 32 (CHR ''A'')"
    by code_simp+
  moreover have "book_of demo_cli_lib \<lparr>cl_fs = Map.empty, cl_db = None, cl_purges = []\<rparr> = (Map.empty, Map.empty)"
    by (simp add: book_of_def file_defs load_table_def)
  ultimately show ?thesis
    using address_book_refines [of demo_cli_lib "[(demo_cli_io, CmdAddContact ''NN-ABCD-EFGH'' (replicate 32 (CHR ''a''))),
        (demo_cli_io, CmdAlias ''bob'' ''NN-ABCD-EFGH''), (demo_cli_io, CmdAlias ''eve'' ''NN-WXYZ-WXYZ''), (demo_cli_io, CmdSend ''bob'' ''hi'' False)]"]
    by simp
qed

end
