(* ===== verification/ClientOnion.thy ===== *)
theory ClientOnion
  imports ClientServer ClientFiles ClientDht
begin

text \<open>
  Two parts of the client (\<open>client/src/main.rs\<close>) that the commands do not use yet: sending through two relays
  (\<open>send_via_onion\<close>) and the local contact cache over private information retrieval (\<open>PirContactCache\<close>).
\<close>

section \<open>Sending through two relays\<close>

record onion_io =
  oi_kyber_writable :: bool
  oi_kyber_nonce :: bytes
  oi_sql_load :: "bool \<Rightarrow> bool"
  oi_kem_rnd :: "bool \<Rightarrow> bytes"
  oi_msg_rnd :: "bool \<Rightarrow> bytes"
  oi_msg_nonce :: "bool \<Rightarrow> bytes"
  oi_pad :: bytes
  oi_connect :: bool
  oi_send :: bool
  oi_sql_save :: "bool \<Rightarrow> bool"
  oi_db_nonce :: "bool \<Rightarrow> bytes"
  oi_db_time :: "bool \<Rightarrow> string"

text \<open>Both layers do the same; the flag says whether it is the layer of the exit relay.\<close>

definition onion_peer :: "bool \<Rightarrow> string" where
  "onion_peer exit = (if exit then ''__onion_exit__'' else ''__onion_entry__'')"

definition onion_session ::
  "crypto_lib \<Rightarrow> session_codec \<Rightarrow> onion_io \<Rightarrow> bool \<Rightarrow> client_identity \<Rightarrow> bytes \<Rightarrow> MessageStore \<Rightarrow> string + RatchetState" where
  "onion_session L C io exit identity kyber S =
     bind_result (load_session L (oi_sql_load io exit) (onion_peer exit) S) (\<lambda>session_json.
       case session_json of
         Some json \<Rightarrow> ok_or ''ratchet load'' (sess_read C json)
       | None \<Rightarrow>
           bind_result (map_err (\<lambda>_. ''onion kyber encapsulate'') (encapsulate L (oi_kem_rnd io exit) kyber)) (\<lambda>(_, shared_secret).
             map_err (\<lambda>_. ''onion ratchet init'')
               (session_new L (id_fingerprint identity) (onion_peer exit) (id_fingerprint identity) True shared_secret)))"

text \<open>The layer's ciphertext and the session after it.\<close>

definition onion_layer ::
  "(bytes \<Rightarrow> bytes) \<Rightarrow> crypto_lib \<Rightarrow> session_codec \<Rightarrow> onion_io \<Rightarrow> bool \<Rightarrow> client_identity \<Rightarrow> string \<Rightarrow> string \<Rightarrow> MessageStore
    \<Rightarrow> string + (bytes \<times> RatchetState)" where
  "onion_layer H L C io exit identity url plaintext S =
     bind_result (lookup_kyber_for_nid H L url) (\<lambda>kyber.
     bind_result (onion_session L C io exit identity kyber S) (\<lambda>session.
       let (r, session) = encrypt_message L (oi_msg_rnd io exit) (oi_msg_nonce io exit) plaintext kyber session
       in bind_result (map_err (\<lambda>_. ''onion encrypt'') r) (\<lambda>ciphertext. Inr (ciphertext, session))))"

definition inner_payload :: "crypto_lib \<Rightarrow> client_identity \<Rightarrow> string \<Rightarrow> bytes \<Rightarrow> json" where
  "inner_payload L identity recipient_nid inner_ciphertext =
     JObj [(''type'', JStr ''relay-store''), (''recipient_nid'', JStr recipient_nid), (''signed_blob'', bytes_json inner_ciphertext),
           (''sender_nid'', JStr ''anonymous''), (''sender_fp'', JStr []), (''sender_sig'', JStr []), (''sender_cert'', JStr []),
           (''sealed_sender'', JStr (b64enc L (as_bytes (id_null_id identity))))]"

definition outer_payload :: "string \<Rightarrow> bytes \<Rightarrow> json" where
  "outer_payload exit_relay_url outer_ciphertext =
     JObj [(''type'', JStr ''onion-v1''), (''exit_relay_url'', JStr exit_relay_url), (''ciphertext'', bytes_json outer_ciphertext)]"

text \<open>What is sent to the entry relay, with the sessions of the entry and of the exit relay.\<close>

definition prepare_onion ::
  "(bytes \<Rightarrow> bytes) \<Rightarrow> crypto_lib \<Rightarrow> session_codec \<Rightarrow> onion_io \<Rightarrow> client_identity \<Rightarrow> string \<Rightarrow> string \<Rightarrow> string \<Rightarrow> string \<Rightarrow> MessageStore
    \<Rightarrow> string + (json \<times> RatchetState \<times> RatchetState)" where
  "prepare_onion H L C io identity recipient_nid message entry_relay_url exit_relay_url S =
     bind_result (onion_layer H L C io True identity exit_relay_url message S) (\<lambda>(inner_ciphertext, exit_session).
     bind_result (ok_or ''panic'' (pad_message_bucket L (oi_pad io) (json_print L (inner_payload L identity recipient_nid inner_ciphertext))))
       (\<lambda>padded.
     bind_result (onion_layer H L C io False identity entry_relay_url (b64enc L (as_bytes padded)) S) (\<lambda>(outer_ciphertext, entry_session).
       Inr (outer_payload exit_relay_url outer_ciphertext, entry_session, exit_session))))"

definition save_onion_session ::
  "crypto_lib \<Rightarrow> session_codec \<Rightarrow> onion_io \<Rightarrow> bool \<Rightarrow> RatchetState \<Rightarrow> MessageStore \<Rightarrow> (string + unit) \<times> MessageStore" where
  "save_onion_session L C io exit session S =
     (case sess_print C session of
        None \<Rightarrow> (Inl ''ratchet serialize'', S)
      | Some json \<Rightarrow>
          let (r, S') = save_session L (oi_sql_save io exit) (oi_db_nonce io exit) (oi_db_time io exit) (onion_peer exit) json S
          in (map_err (\<lambda>_. ''ratchet save'') r, S'))"

definition onion_answer ::
  "crypto_lib \<Rightarrow> session_codec \<Rightarrow> onion_io \<Rightarrow> ws_frame list \<Rightarrow> RatchetState \<Rightarrow> RatchetState \<Rightarrow> MessageStore \<Rightarrow> (string + unit) \<times> MessageStore" where
  "onion_answer L C io frames entry_session exit_session S =
     (case frames of
        FText resp # _ \<Rightarrow>
          (case json_parse L resp of
             None \<Rightarrow> (Inl ''json'', S)
           | Some resp_val \<Rightarrow>
               if str_at resp_val ''type'' \<noteq> Some ''relay-ok'' then (Inl (''onion entry relay error: '' @ resp), S)
               else
                 (case save_onion_session L C io False entry_session S of
                    (Inl e, S') \<Rightarrow> (Inl e, S')
                  | (Inr _, S') \<Rightarrow> save_onion_session L C io True exit_session S'))
      | _ \<Rightarrow> (Inl ''no response from entry relay'', S))"

definition send_via_onion ::
  "(bytes \<Rightarrow> bytes) \<Rightarrow> crypto_lib \<Rightarrow> session_codec \<Rightarrow> onion_io \<Rightarrow> ws_frame list \<Rightarrow> client_identity \<Rightarrow> string \<Rightarrow> string \<Rightarrow> string \<Rightarrow> string
    \<Rightarrow> MessageStore \<Rightarrow> file_system \<Rightarrow> (string + unit) \<times> json list \<times> MessageStore \<times> file_system" where
  "send_via_onion H L C io frames identity recipient_nid message entry_relay_url exit_relay_url S fs =
     (case load_or_generate_kyber H L (oi_kyber_writable io) (oi_kyber_nonce io) (id_null_id identity) S fs of
        (Inl e, fs') \<Rightarrow> (Inl e, [], S, fs')
      | (Inr _, fs') \<Rightarrow>
          (case prepare_onion H L C io identity recipient_nid message entry_relay_url exit_relay_url S of
             Inl e \<Rightarrow> (Inl e, [], S, fs')
           | Inr (req, entry_session, exit_session) \<Rightarrow>
               if \<not> oi_connect io then (Inl ''onion entry relay connect failed'', [], S, fs')
               else if \<not> oi_send io then (Inl ''onion entry relay send failed'', [], S, fs')
               else (case onion_answer L C io frames entry_session exit_session S of (r, S') \<Rightarrow> (r, [req], S', fs'))))"

section \<open>The contact cache\<close>

text \<open>The hash of a fingerprint goes through its hexadecimal text; a result of another length than 32 bytes would panic.\<close>

definition contact_hash :: "(bytes \<Rightarrow> bytes) \<Rightarrow> crypto_lib \<Rightarrow> string \<Rightarrow> string + bytes" where
  "contact_hash H L fingerprint =
     bind_result (ok_or ''hex'' (hex_decode L (sha256_hex H L fingerprint))) (\<lambda>hash_bytes.
       if length hash_bytes = 32 then Inr hash_bytes else Inl ''panic: copy_from_slice'')"

definition add_contact :: "(bytes \<Rightarrow> bytes) \<Rightarrow> crypto_lib \<Rightarrow> string \<times> string \<Rightarrow> PirRegistry \<Rightarrow> string + PirRegistry" where
  "add_contact H L contact registry =
     (let (nid, fingerprint) = contact
      in bind_result (contact_hash H L fingerprint) (\<lambda>hash.
         bind_result (map_err (\<lambda>_. ''pir'') (entry_new hash (as_bytes nid))) (\<lambda>entry.
         bind_result (map_err (\<lambda>_. ''pir'') (prepare_registration H hash)) (\<lambda>(bin_idx, _).
           let (r, registry') = add_entry bin_idx entry registry in bind_result (map_err (\<lambda>_. ''pir'') r) (\<lambda>_. Inr registry')))))"

fun build_cache :: "(bytes \<Rightarrow> bytes) \<Rightarrow> crypto_lib \<Rightarrow> string_table \<Rightarrow> PirRegistry \<Rightarrow> string + PirRegistry" where
  "build_cache H L [] registry = Inr registry"
| "build_cache H L (contact # contacts) registry =
     bind_result (add_contact H L contact registry) (build_cache H L contacts)"

definition pir_cache_build :: "(bytes \<Rightarrow> bytes) \<Rightarrow> crypto_lib \<Rightarrow> file_io \<Rightarrow> file_system \<Rightarrow> string + PirRegistry" where
  "pir_cache_build H L io fs = build_cache H L (load_contacts L io fs) registry_new"

text \<open>The loop over the candidate bins; \<open>rnd\<close> are the nonce and key of the response, which the client does not use.\<close>

fun scan_bins :: "(bytes \<Rightarrow> string) \<Rightarrow> bytes \<times> bytes \<Rightarrow> bytes \<Rightarrow> PirRegistry \<Rightarrow> PirQueryToken list \<Rightarrow> string + string option" where
  "scan_bins lossy rnd hash registry [] = Inr None"
| "scan_bins lossy rnd hash registry (token # tokens) =
     (case handle_query (fst rnd) (snd rnd) token registry of
        None \<Rightarrow> scan_bins lossy rnd hash registry tokens
      | Some response \<Rightarrow>
          bind_result (map_err (\<lambda>_. ''pir'') (process_response response (pq_xor_mask token) hash)) (\<lambda>found.
            case found of
              None \<Rightarrow> scan_bins lossy rnd hash registry tokens
            | Some entry \<Rightarrow>
                let nid = trim_end_matches CHR 0x00 (lossy (drop 32 (entry_to_bytes entry)))
                in if nid \<noteq> [] then Inr (Some nid) else scan_bins lossy rnd hash registry tokens))"

definition pir_cache_lookup ::
  "(bytes \<Rightarrow> bytes) \<Rightarrow> crypto_lib \<Rightarrow> (bytes \<Rightarrow> string) \<Rightarrow> bytes \<Rightarrow> (nat \<Rightarrow> bytes) \<Rightarrow> bytes \<times> bytes \<Rightarrow> string \<Rightarrow> PirRegistry \<Rightarrow> string + string option" where
  "pir_cache_lookup H L lossy eph masks rnd fingerprint registry =
     bind_result (contact_hash H L fingerprint) (\<lambda>hash.
     bind_result (map_err (\<lambda>_. ''pir'') (query_contact H masks (pir_client_new H eph) hash)) (\<lambda>tokens.
       scan_bins lossy rnd hash registry tokens))"

section \<open>What the relays answer\<close>

text \<open>
  C36. A message sent through two relays never arrives and is always reported as failed: the entry relay answers every text that
  \<open>send_via_onion\<close> sends with "invalid JSON" and changes nothing, and no answer of a relay is the one that the
  client waits for, so the sessions are never saved.
\<close>

theorem onion_send_fails:
  assumes "json_parse (rb_crypto R) request_text = Some (outer_payload exit_relay_url ciphertext)"
    and "json_parse L answer = Some (response_json ok err data)"
  shows "handle_ws_text R c request_text W = (send_error ''invalid JSON'', W)
    \<and> (\<exists>e sent fs'. send_via_onion H L C io (FText answer # rest) identity nid message entry_url exit_url S fs = (Inl e, sent, S, fs'))"
proof
  show "handle_ws_text R c request_text W = (send_error ''invalid JSON'', W)"
    using assms(1) by (simp add: handle_ws_text_def outer_payload_def parse_relay_envelope_def json_struct_def required_def)
  have "\<exists>e. onion_answer L C io (FText answer # rest) s1 s2 S = (Inl e, S)" for s1 s2
    using assms(2) by (simp add: onion_answer_def response_json_def str_at_def json_get_def)
  then show "\<exists>e sent fs'. send_via_onion H L C io (FText answer # rest) identity nid message entry_url exit_url S fs = (Inl e, sent, S, fs')"
    by (auto simp: send_via_onion_def split: prod.splits sum.splits) (metis prod.inject)+
qed

section \<open>What the contact cache holds\<close>

definition contact_entry :: "(bytes \<Rightarrow> bytes) \<Rightarrow> crypto_lib \<Rightarrow> string \<times> string \<Rightarrow> u32 \<times> PirContactEntry" where
  "contact_entry H L contact =
     (let hash = H (as_bytes (snd contact))
      in (cuckoo_hash_bins H hash PIR_CUCKOO_FANOUT ! 0,
          \<lparr>pe_fingerprint_hash = hash,
           pe_metadata = copy_at 32 (take (min (length (as_bytes (fst contact))) (PIR_ENTRY_SIZE - 32)) (as_bytes (fst contact)))
             (copy_at 0 hash (replicate PIR_ENTRY_SIZE 0))\<rparr>))"

lemma contact_hash_exact:
  assumes "\<forall>b. hex_decode L (hex_encode L b) = Some b" and "\<forall>b. length (H b) = 32"
  shows "contact_hash H L fp = Inr (H (as_bytes fp))"
  using assms by (simp add: contact_hash_def sha256_hex_def)

lemma build_cache_registers:
  assumes "\<forall>b. hex_decode L (hex_encode L b) = Some b" and "\<forall>b. length (H b) = 32"
    and "build_cache H L contacts registry = Inr R"
  shows "R = fold (\<lambda>(i, e) R. snd (add_entry i e R)) (map (contact_entry H L) contacts) registry"
  using assms(3)
proof (induction contacts arbitrary: registry)
  case (Cons contact contacts)
  obtain registry' where "add_contact H L contact registry = Inr registry'" "build_cache H L contacts registry' = Inr R"
    using Cons.prems by (auto simp: bind_result_Inr)
  moreover from this(1) have "registry' = snd (case contact_entry H L contact of (i, e) \<Rightarrow> add_entry i e registry)"
    by (auto simp: add_contact_def contact_hash_exact [OF assms(1,2)] entry_new_def prepare_registration_def contact_entry_def Let_def
        bind_result_Inr case_prod_beta)
  ultimately show ?case using Cons.IH by (simp add: case_prod_beta)
qed simp

lemma length_contact_entry: "length (H (as_bytes (snd contact))) = 32 \<Longrightarrow> length (entry_to_bytes (snd (contact_entry H L contact))) = PIR_ENTRY_SIZE"
  by (simp add: contact_entry_def entry_to_bytes_def copy_at_def PIR_ENTRY_SIZE_def Let_def)

lemma add_contact_exact:
  assumes "\<forall>b. hex_decode L (hex_encode L b) = Some b" and "\<forall>b. length (H b) = 32"
  shows "add_contact H L contact (register evs) =
    (if length (registered (fst (contact_entry H L contact)) evs) < 18 then Inr (register (evs @ [contact_entry H L contact])) else Inl ''pir'')"
proof -
  let ?i = "fst (contact_entry H L contact)" and ?e = "snd (contact_entry H L contact)"
  have "add_contact H L contact (register evs) =
      (case fst (add_entry ?i ?e (register evs)) of Inl _ \<Rightarrow> Inl ''pir'' | Inr _ \<Rightarrow> Inr (snd (add_entry ?i ?e (register evs))))"
    by (auto simp: add_contact_def contact_hash_exact [OF assms] entry_new_def prepare_registration_def contact_entry_def Let_def case_prod_beta
        split: sum.split)
  then show ?thesis
    using add_entry_spec(2) [OF register_current [of evs ?i], of ?e] length_contact_entry [of H contact L] assms(2)
    by (simp add: PIR_MAX_ENTRIES_PER_BIN_def case_prod_beta split: if_splits)
qed

lemma build_cache_exact:
  assumes "\<forall>b. hex_decode L (hex_encode L b) = Some b" and "\<forall>b. length (H b) = 32"
    and "list_all (\<lambda>c. \<not> all_zero (entry_to_bytes (snd (contact_entry H L c)))) contacts"
    and "\<forall>i. length (registered i evs) \<le> 18"
  shows "build_cache H L contacts (register evs) =
    (if \<forall>i. length (registered i (evs @ map (contact_entry H L) contacts)) \<le> 18
     then Inr (register (evs @ map (contact_entry H L) contacts)) else Inl ''pir'')"
  using assms(3,4)
proof (induction contacts arbitrary: evs)
  case (Cons c contacts)
  let ?ce = "contact_entry H L c"
  have reg: "registered i (evs @ [?ce]) = registered i evs @ (if fst ?ce = i then [entry_to_bytes (snd ?ce)] else [])" for i
    using Cons.prems(1) length_contact_entry [of H c L] assms(2) registered_snoc [of i evs "fst ?ce" "snd ?ce"] by simp
  show ?case
  proof (cases "length (registered (fst ?ce) evs) < 18")
    case True
    then have "\<forall>i. length (registered i (evs @ [?ce])) \<le> 18" using Cons.prems(2) by (simp add: reg)
    with Cons.IH [of "evs @ [?ce]"] Cons.prems(1) True show ?thesis by (simp add: add_contact_exact [OF assms(1,2)])
  next
    case False
    have "length (registered (fst ?ce) (evs @ [?ce])) \<le> length (registered (fst ?ce) ((evs @ [?ce]) @ map (contact_entry H L) contacts))"
      by (simp add: registered_def)
    with False have "\<not> length (registered (fst ?ce) (evs @ ?ce # map (contact_entry H L) contacts)) \<le> 18"
      using reg [of "fst ?ce"] by (simp add: not_less)
    with False show ?thesis by (auto simp: add_contact_exact [OF assms(1,2)])
  qed
qed simp

text \<open>
  The contact cache, exactly: building it succeeds if and only if no bin gets more than 18 contacts, and then every bin holds
  the entries of its contacts in the order of the table, filled up with blank slots.
\<close>

theorem contact_cache_exact:
  assumes "\<forall>b. hex_decode L (hex_encode L b) = Some b" and "\<forall>b. length (H b) = 32"
    and "list_all (\<lambda>c. \<not> all_zero (entry_to_bytes (snd (contact_entry H L c)))) (load_contacts L io fs)"
  shows "pir_cache_build H L io fs =
    (let entries = map (contact_entry H L) (load_contacts L io fs)
     in if \<forall>i. length (registered i entries) \<le> 18 then Inr (register entries) else Inl ''pir'')"
  using build_cache_exact [OF assms, of "[]"] by (simp add: pir_cache_build_def registered_def)

section \<open>Witnesses\<close>

theorem onion_send_fails_witness:
  "\<exists>e sent fs'. send_via_onion id (purge_lib (response_json True None None)) toy_codec
     \<lparr>oi_kyber_writable = True, oi_kyber_nonce = replicate 12 0, oi_sql_load = \<lambda>_. True, oi_kem_rnd = \<lambda>_. replicate 32 0,
      oi_msg_rnd = \<lambda>_. replicate 32 0, oi_msg_nonce = \<lambda>_. replicate 12 0, oi_pad = replicate 256 0, oi_connect = True, oi_send = True,
      oi_sql_save = \<lambda>_. True, oi_db_nonce = \<lambda>_. replicate 12 0, oi_db_time = \<lambda>_. ''t''\<rparr>
     [FText ''{}''] (w_ident toy_world True) ''NN-B'' ''hi'' ''ws://a'' ''ws://b'' (toy_stores True) Map.empty = (Inl e, sent, toy_stores True, fs')"
proof -
  have "json_parse (rb_crypto (purge_relay (outer_payload ''ws://b'' [1]))) ''x'' = Some (outer_payload ''ws://b'' [1])"
    by (simp add: purge_relay_def purge_lib_def)
  moreover have "json_parse (purge_lib (response_json True None None)) ''{}'' = Some (response_json True None None)"
    by (simp add: purge_lib_def)
  ultimately show ?thesis by (rule onion_send_fails [THEN conjunct2])
qed

end
