(* ===== verification/Bootstrap.thy ===== *)
theory Bootstrap
  imports ClientDht
begin

text \<open>
  The bootstrap server (\<open>bootstrap/src/main.rs\<close>): its arguments, the choice of its Null ID, and the DHT node that it starts. The
  home directory may be unknown; files are those of \<open>Kem\<close>. The packets of a certificate file are the parameter
  \<open>key_packets\<close>: for every packet the fingerprint if it is a public key packet. The theory includes the opening of the database
  (\<open>DhtStore::open\<close> in \<open>dht-core/src/sqlite_store.rs\<close>) and the choice of the transport; the node itself is in \<open>DhtNode\<close>.
\<close>

record Args =
  ar_host :: string
  ar_port :: u16
  ar_id :: "string option"
  ar_db :: "string option"
  ar_advertised_url :: "string option"
  ar_allow_no_key :: bool
  ar_tls_cert :: "string option"
  ar_tls_key :: "string option"

definition Args_default :: Args where
  "Args_default =
     \<lparr>ar_host = ''0.0.0.0'', ar_port = 9001, ar_id = None, ar_db = None, ar_advertised_url = None, ar_allow_no_key = False,
      ar_tls_cert = None, ar_tls_key = None\<rparr>"

record boot_io =
  bo_home :: bool
  bo_readable :: bool
  bo_random_id :: bytes
  bo_key_writable :: bool
  bo_key_seed :: bytes
  bo_db_dir :: bool
  bo_tls :: bool
  bo_bind :: bool

definition BOOT_KEY_PATH :: string where "BOOT_KEY_PATH = ''.nullnode/kyber_keypair.json''"

definition gpg_home :: "boot_io \<Rightarrow> string" where
  "gpg_home io = (if bo_home io then ''.nullnode/gnupg'' else ''~/.nullnode/gnupg'')"

definition get_gpg_fingerprint ::
  "(string \<Rightarrow> string option list option) \<Rightarrow> boot_io \<Rightarrow> string \<Rightarrow> file_system \<Rightarrow> string option" where
  "get_gpg_fingerprint key_packets io home fs =
     Option.bind (fs (home @ ''/own_cert.asc'')) (\<lambda>armored.
       if \<not> bo_readable io then None
       else Option.bind (key_packets armored) (\<lambda>pile.
              case List.map_filter id pile of [] \<Rightarrow> None | fp # _ \<Rightarrow> Some (to_uppercase fp)))"

definition load_or_generate_kyber_id ::
  "crypto_lib \<Rightarrow> 'cert pgp_lib \<Rightarrow> boot_io \<Rightarrow> file_system \<Rightarrow> string option \<times> file_system" where
  "load_or_generate_kyber_id L P io fs =
     (if \<not> bo_home io then (None, fs)
      else (case load_or_generate_unencrypted L (bo_key_writable io) (bo_key_seed io) BOOT_KEY_PATH fs of
              (Inr kp, fs') \<Rightarrow> (Some (compute_null_id P (hex_encode L (kp_enc kp))), fs')
            | (Inl e, fs') \<Rightarrow> (None, fs')))"

text \<open>The choice of the Null ID; \<open>None\<close> is the exit with code 1.\<close>

definition boot_null_id ::
  "crypto_lib \<Rightarrow> 'cert pgp_lib \<Rightarrow> (string \<Rightarrow> string option list option) \<Rightarrow> boot_io \<Rightarrow> Args \<Rightarrow> file_system \<Rightarrow> string option \<times> file_system" where
  "boot_null_id L P key_packets io args fs =
     (case ar_id args of
        Some i \<Rightarrow> (Some i, fs)
      | None \<Rightarrow>
          (case get_gpg_fingerprint key_packets io (gpg_home io) fs of
             Some fp \<Rightarrow> (Some (compute_null_id P fp), fs)
           | None \<Rightarrow>
               if ar_allow_no_key args then (Some (compute_null_id P (hex_encode L (bo_random_id io))), fs)
               else load_or_generate_kyber_id L P io fs))"

definition boot_db_path :: "boot_io \<Rightarrow> Args \<Rightarrow> string" where
  "boot_db_path io args =
     opt_or (if bo_home io then ''.nullnode/bootstrap_dht.db'' else ''bootstrap_dht.db'') (ar_db args)"

definition boot_config :: "boot_io \<Rightarrow> Args \<Rightarrow> string \<Rightarrow> NodeConfig" where
  "boot_config io args nid =
     NodeConfig_default\<lparr>cfg_null_id := nid, cfg_fingerprint := [], cfg_host := ar_host args, cfg_port := ar_port args,
       cfg_db_path := Some (boot_db_path io args), cfg_advertised_url := ar_advertised_url args,
       cfg_ssl_certfile := opt_or [] (ar_tls_cert args), cfg_ssl_keyfile := opt_or [] (ar_tls_key args)\<rparr>"

section \<open>Opening the database and starting the node\<close>

text \<open>\<open>DhtStore::open\<close>: \<open>disk\<close> is the content of each database that exists, by its URL, and \<open>creates\<close> is whether sqlx creates the file of
  a URL when it does not exist. A database that exists gets the tables that it lacks.\<close>

definition dht_store_path :: "bool \<Rightarrow> string option \<Rightarrow> string" where
  "dht_store_path home_known db_path =
     opt_or (if home_known then ''.nullnode/dht_store.db'' else ''./.nullnode/dht_store.db'') db_path"

definition dht_store_url :: "string \<Rightarrow> string" where
  "dht_store_url path = ''sqlite://'' @ path"

definition dht_store_open ::
  "(string \<Rightarrow> bool) \<Rightarrow> bool \<Rightarrow> bool \<Rightarrow> string option \<Rightarrow> (string \<rightharpoonup> DhtStore) \<Rightarrow> string + DhtStore" where
  "dht_store_open creates dir_ok home_known db_path disk =
     (let url = dht_store_url (dht_store_path home_known db_path)
      in if \<not> dir_ok then Inl ''create directory''
         else (case disk url of
                 Some S \<Rightarrow> Inr S
               | None \<Rightarrow> if creates url then Inr init_tables else Inl ''unable to open database file''))"

text \<open>As sqlx documents it: a missing file is created only when the URL asks for it with \<open>mode=rwc\<close>.\<close>

definition sqlx_laws :: "(string \<Rightarrow> bool) \<Rightarrow> bool" where
  "sqlx_laws creates \<longleftrightarrow> (\<forall>url. creates url \<longleftrightarrow> sublist ''mode=rwc'' url)"

text \<open>TLS is used if both files are configured and can be loaded; otherwise the node falls back to plain text.\<close>

definition dht_tls :: "bool \<Rightarrow> NodeConfig \<Rightarrow> bool" where
  "dht_tls loads config \<longleftrightarrow> cfg_ssl_certfile config \<noteq> [] \<and> cfg_ssl_keyfile config \<noteq> [] \<and> loads"

text \<open>The start of the server: the node with its state, and whether it accepts TLS connections.\<close>

definition boot_start ::
  "(bytes \<Rightarrow> bytes) \<Rightarrow> crypto_lib \<Rightarrow> 'cert pgp_lib \<Rightarrow> (string \<Rightarrow> string option list option) \<Rightarrow> (string \<Rightarrow> bool) \<Rightarrow> boot_io \<Rightarrow> Args
    \<Rightarrow> file_system \<Rightarrow> (string \<rightharpoonup> DhtStore) \<Rightarrow> (DhtNode \<times> node_state \<times> bool) option \<times> file_system" where
  "boot_start sha256 L P key_packets creates io args fs disk =
     (let (nid, fs') = boot_null_id L P key_packets io args fs
      in (Option.bind nid (\<lambda>i.
            let config = boot_config io args i
            in case dht_store_open creates (bo_db_dir io) (bo_home io) (cfg_db_path config) disk of
                 Inl _ \<Rightarrow> None
               | Inr S \<Rightarrow> if \<not> bo_bind io then None
                   else let (node, N) = node_new sha256 config S in Some (node, N, dht_tls (bo_tls io) config)), fs'))"

section \<open>The identity of the server is stable\<close>

lemma unencrypted_stable:
  assumes "crypto_laws L" and "fs path = None" and "length rnd = 64"
  obtains kp fs' where "load_or_generate_unencrypted L True rnd path fs = (Inr kp, fs')"
    and "\<And>ok2 rnd2. load_or_generate_unencrypted L ok2 rnd2 path fs' = (Inr kp, fs')"
    and "\<And>p. p \<noteq> path \<Longrightarrow> fs' p = fs p"
proof -
  let ?kp = "\<lparr>kp_enc = kem_public L rnd, kp_dec = rnd\<rparr>"
  let ?kvs = "[(''enc'', JStr (hex_encode L (kem_public L rnd))), (''dec'', JStr (hex_encode L rnd))]"
  obtain j where j: "json_parse L (json_print L (JObj ?kvs)) = Some j" "json_get j ''enc'' = Some (JStr (hex_encode L (kem_public L rnd)))"
      "json_get j ''dec'' = Some (JStr (hex_encode L rnd))"
    by (rule crypto_laws_json [OF assms(1), of ?kvs]) simp_all
  let ?fs = "fs(path \<mapsto> json_print L (JObj ?kvs))"
  have "load_or_generate_unencrypted L True rnd path fs = (Inr ?kp, ?fs)"
    using assms(2) by (simp add: load_or_generate_unencrypted_def generate_def save_unencrypted_def write_file_def)
  moreover have "load_or_generate_unencrypted L ok2 rnd2 path ?fs = (Inr ?kp, ?fs)" for ok2 rnd2
    using crypto_laws_public [OF assms(1,3)] assms(3)
    by (simp add: load_or_generate_unencrypted_def load_unencrypted_def j json_field_def hex_field_def crypto_laws_text [OF assms(1)]
        rebuild_keypair_def)
  ultimately show thesis by (rule that) simp_all
qed

text \<open>
  A bootstrap server without a certificate and without options keeps its Null ID over restarts: the first start writes a key pair
  from which the ID is derived, and every later start with the same files, whatever random bytes it draws and even if it cannot
  write, has the same ID.
\<close>

theorem bootstrap_id_stable:
  assumes "crypto_laws L" and "ar_id args = None" and "\<not> ar_allow_no_key args" and "bo_home io" and "bo_home io'"
    and "fs BOOT_KEY_PATH = None" and "fs ''.nullnode/gnupg/own_cert.asc'' = None" and "bo_key_writable io" and "length (bo_key_seed io) = 64"
  shows "\<exists>nid fs'. boot_null_id L P key_packets io args fs = (Some nid, fs') \<and> boot_null_id L P key_packets io' args fs' = (Some nid, fs')"
proof -
  obtain kp fs' where kp: "load_or_generate_unencrypted L True (bo_key_seed io) BOOT_KEY_PATH fs = (Inr kp, fs')"
      "\<And>ok2 rnd2. load_or_generate_unencrypted L ok2 rnd2 BOOT_KEY_PATH fs' = (Inr kp, fs')" "\<And>p. p \<noteq> BOOT_KEY_PATH \<Longrightarrow> fs' p = fs p"
    by (rule unencrypted_stable [where path = BOOT_KEY_PATH and fs = fs, OF assms(1,6,9)]) blast
  have "fs' ''.nullnode/gnupg/own_cert.asc'' = None" using kp(3) [of "''.nullnode/gnupg/own_cert.asc''"] assms(7) by (simp add: BOOT_KEY_PATH_def)
  then show ?thesis
    using assms(2-5,7,8) kp(1,2)
    by (simp add: boot_null_id_def get_gpg_fingerprint_def gpg_home_def load_or_generate_kyber_id_def)
qed

section \<open>The server and a new client\<close>

lemma boot_start_Some:
  assumes "boot_start sha256 L P key_packets creates io args fs disk = (Some (node, N, tls), fs')"
  obtains i S where "dht_store_open creates (bo_db_dir io) (bo_home io) (Some (boot_db_path io args)) disk = Inr S"
    and "node_new sha256 (boot_config io args i) S = (node, N)" and "tls = dht_tls (bo_tls io) (boot_config io args i)"
proof -
  obtain nid fs1 where n: "boot_null_id L P key_packets io args fs = (nid, fs1)" by (cases "boot_null_id L P key_packets io args fs")
  with assms obtain i where i: "nid = Some i" by (cases nid) (simp_all add: boot_start_def)
  have c: "cfg_db_path (boot_config io args i) = Some (boot_db_path io args)" by (simp add: boot_config_def)
  show thesis
  proof (cases "dht_store_open creates (bo_db_dir io) (bo_home io) (Some (boot_db_path io args)) disk")
    case (Inr S)
    with assms n i c that show ?thesis by (auto simp: boot_start_def Let_def split: if_splits prod.splits)
  qed (use assms n i c in \<open>simp add: boot_start_def Let_def\<close>)
qed

lemma boot_start_node:
  assumes "boot_start sha256 L P key_packets creates io args fs disk = (Some (node, N, tls), fs')"
    and "disk (dht_store_url (boot_db_path io args)) = Some S"
  shows "dn_fingerprint node = []" and "ns_store N = S" and "ns_seen N = []"
proof -
  obtain i S' where o: "dht_store_open creates (bo_db_dir io) (bo_home io) (Some (boot_db_path io args)) disk = Inr S'"
    and n: "node_new sha256 (boot_config io args i) S' = (node, N)" using boot_start_Some [OF assms(1)] by metis
  have "S' = S" using o assms(2) by (simp add: dht_store_open_def dht_store_path_def Let_def split: if_splits)
  with n show "dn_fingerprint node = []" "ns_store N = S" "ns_seen N = []" by (auto simp: node_new_def boot_config_def)
qed

text \<open>
  A server cannot create its database: the URL does not ask sqlx to create the file, so as long as nothing else has created
  it, every start fails, whatever the options.
\<close>

theorem first_start_fails:
  assumes "sqlx_laws creates" and "disk (dht_store_url (boot_db_path io args)) = None"
    and "\<not> sublist ''mode=rwc'' (dht_store_url (boot_db_path io args))"
  shows "fst (boot_start sha256 L P key_packets creates io args fs disk) = None"
proof -
  have no: "\<not> creates (dht_store_url (boot_db_path io args))" using assms(1,3) by (simp add: sqlx_laws_def)
  have "\<exists>e. dht_store_open creates (bo_db_dir io) (bo_home io) (Some (boot_db_path io args)) disk = Inl e"
    using assms(2) no by (simp add: dht_store_open_def dht_store_path_def Let_def)
  then show ?thesis by (auto simp: boot_start_def boot_config_def Let_def case_prod_beta intro!: Option.bind_eq_None_conv [THEN iffD2])
qed

text \<open>A server that is configured for TLS but cannot load its files accepts plain connections.\<close>

theorem tls_falls_back:
  assumes "boot_start sha256 L P key_packets creates (io\<lparr>bo_tls := False\<rparr>) args fs disk = (Some (node, N, tls), fs')"
  shows "\<not> tls"
  using boot_start_Some [OF assms] by (auto simp: dht_tls_def)

text \<open>
  C35. A new identity can register at a bootstrap server with an empty database: whatever the server's options and its Null ID, the first
  registration that a client prepares is accepted, and the client is told so.
\<close>

theorem bootstrap_registers_client:
  assumes "boot_start sha256 L (nl_pgp D) key_packets creates io args fs disk = (Some (node, N, tls), fs')"
    and "disk (dht_store_url (boot_db_path io args)) = Some init_tables"
    and "signature_laws (nl_pgp D)" and "key_laws K" and "kl_pgp K = nl_pgp D" and "valid_identity (nl_pgp D) identity"
    and "- (2 ^ 63) \<le> ri_now rio" and "ri_now rio < 2 ^ 63" and "c_io c = (\<lambda>_. no_faults)"
    and "prepare_register (nl_argon2 D) K rio identity cert False = Inr req"
  shows "\<exists>reply. fst (handle_put D (dn_fingerprint node) c req N) = Envelope reply
    \<and> register_answer (\<lambda>_. Some reply) (FText t # rest) = Inr ()"
proof -
  note N = boot_start_node [OF assms(1,2)]
  have fp: "validate_fingerprint (id_fingerprint identity)" using assms(6) by (simp add: valid_identity_def)
  have io: "c_io c i = no_faults" for i using assms(9) by simp
  have "put_guards D [] c req N"
    unfolding register_guards [OF assms(3-8,10)] by (simp add: N io count_keys_def exec_def init_tables_def)
  moreover have "accepted_nonce (put_event c req) (ns_store N) \<noteq> None"
    unfolding register_store_accepts [OF assms(10,7,8) io fp] by (simp add: N init_tables_def live_seq_def)
  ultimately show ?thesis
    by (cases rule: handle_put_cases [of D "[]" c req N]) (auto simp: N(1) reply_found_def register_answer_def)
qed

section \<open>Witnesses\<close>

definition demo_boot_io :: boot_io where
  "demo_boot_io = \<lparr>bo_home = True, bo_readable = True, bo_random_id = [1], bo_key_writable = True, bo_key_seed = replicate 64 5,
     bo_db_dir = True, bo_tls = True, bo_bind = True\<rparr>"

theorem bootstrap_id_stable_witness:
  "\<exists>nid fs'. boot_null_id toy_crypto toy_pgp (\<lambda>_. None) demo_boot_io Args_default Map.empty = (Some nid, fs')
     \<and> boot_null_id toy_crypto toy_pgp (\<lambda>_. None) (demo_boot_io\<lparr>bo_key_writable := False, bo_key_seed := []\<rparr>) Args_default fs' = (Some nid, fs')"
  by (rule bootstrap_id_stable [OF toy_crypto_laws]) (simp_all add: Args_default_def demo_boot_io_def)

definition demo_disk :: "string \<rightharpoonup> DhtStore" where
  "demo_disk = [''sqlite://.nullnode/bootstrap_dht.db'' \<mapsto> init_tables]"

lemma demo_disk_boot: "demo_disk (dht_store_url (boot_db_path demo_boot_io Args_default)) = Some init_tables"
  by (simp add: demo_disk_def dht_store_url_def boot_db_path_def Args_default_def demo_boot_io_def)

theorem bootstrap_registers_client_witness:
  "\<exists>node N tls fs' req reply. boot_start id toy_crypto reg_pgp (\<lambda>_. None) (\<lambda>_. False) demo_boot_io Args_default Map.empty demo_disk = (Some (node, N, tls), fs')
     \<and> prepare_register reg_argon2 reg_keys reg_io reg_identity ''ab12'' False = Inr req
     \<and> fst (handle_put reg_lib (dn_fingerprint node) reg_call req N) = Envelope reply
     \<and> register_answer (\<lambda>_. Some reply) [FText []] = Inr ()"
proof -
  obtain kp fs1 where "load_or_generate_unencrypted toy_crypto True (replicate 64 5) BOOT_KEY_PATH Map.empty = (Inr kp, fs1)"
    by (rule unencrypted_stable [OF toy_crypto_laws, of Map.empty BOOT_KEY_PATH "replicate 64 5"]) simp_all
  then have "\<exists>nid. boot_null_id toy_crypto reg_pgp (\<lambda>_. None) demo_boot_io Args_default Map.empty = (Some nid, fs1)"
    by (simp add: boot_null_id_def get_gpg_fingerprint_def Args_default_def load_or_generate_kyber_id_def demo_boot_io_def)
  then obtain node N tls fs' where b: "boot_start id toy_crypto reg_pgp (\<lambda>_. None) (\<lambda>_. False) demo_boot_io Args_default Map.empty demo_disk = (Some (node, N, tls), fs')"
    using demo_disk_boot by (auto simp: boot_start_def node_new_def dht_store_open_def dht_store_path_def boot_config_def Let_def demo_boot_io_def)
  obtain req where p: "prepare_register reg_argon2 reg_keys reg_io reg_identity ''ab12'' False = Inr req" using reg_prepare by blast
  have l: "signature_laws (nl_pgp reg_lib)" "kl_pgp reg_keys = nl_pgp reg_lib" "valid_identity (nl_pgp reg_lib) reg_identity"
      "nl_pgp reg_lib = reg_pgp" "nl_argon2 reg_lib = reg_argon2"
    using reg_signature_laws reg_identity_valid by (simp_all add: reg_lib_def reg_keys_def)
  have io: "- (2 ^ 63) \<le> ri_now reg_io" "ri_now reg_io < 2 ^ 63" "c_io reg_call = (\<lambda>_. no_faults)" by (simp_all add: reg_io_def reg_call_def)
  from bootstrap_registers_client [OF b [folded l(4)] demo_disk_boot l(1) reg_key_laws l(2,3) io p [folded l(5)], of "[]" "[]"] b p show ?thesis by auto
qed

end
