(* ===== verification/SecureMem.thy ===== *)
theory SecureMem
  imports Prelude
begin

text \<open>
  Secure memory (\<open>crypto/src/secure_mem.rs\<close>): zeroing, page locking, key containers and allocation between guard pages. The
  memory of the process is explicit: the bytes, which addresses are mapped, which pages are inaccessible or locked, and the
  blocks that the global allocator has handed out. Addresses are naturals; a \<open>usize\<close> is a 64-bit word, as in a release build.
  What the operating system and the allocator answer are arguments. The platform is Linux.
\<close>

unbundle bit_operations_syntax

section \<open>Memory\<close>

definition GUARD_PAGE_SIZE :: u64 where "GUARD_PAGE_SIZE = 4096"

abbreviation PAGE :: nat where "PAGE \<equiv> 4096"

record memory =
  m_bytes :: "nat \<Rightarrow> u8"
  m_mapped :: "nat set"
  m_noaccess :: "nat set"
  m_locked :: "nat set"
  m_heap :: "(nat \<times> nat) list"

text \<open>The bytes of a buffer, the pages that it touches, and what the processor allows.\<close>

definition buffer :: "memory \<Rightarrow> nat \<Rightarrow> nat \<Rightarrow> bytes" where
  "buffer M a n = map (m_bytes M) [a..<a + n]"

definition pages :: "nat \<Rightarrow> nat \<Rightarrow> nat set" where
  "pages a n = (if n = 0 then {} else {a div PAGE..(a + n - 1) div PAGE})"

definition accessible :: "memory \<Rightarrow> nat \<Rightarrow> bool" where
  "accessible M a \<longleftrightarrow> a \<in> m_mapped M \<and> a div PAGE \<notin> m_noaccess M"

text \<open>The system calls; a call that fails changes nothing.\<close>

definition sys_mlock :: "bool \<Rightarrow> nat \<Rightarrow> nat \<Rightarrow> memory \<Rightarrow> memory" where
  "sys_mlock ok a n M = (if ok then M\<lparr>m_locked := m_locked M \<union> pages a n\<rparr> else M)"

definition sys_munlock :: "bool \<Rightarrow> nat \<Rightarrow> nat \<Rightarrow> memory \<Rightarrow> memory" where
  "sys_munlock ok a n M = (if ok then M\<lparr>m_locked := m_locked M - pages a n\<rparr> else M)"

definition sys_protect_none :: "bool \<Rightarrow> nat \<Rightarrow> nat \<Rightarrow> memory \<Rightarrow> memory" where
  "sys_protect_none ok a n M = (if ok then M\<lparr>m_noaccess := m_noaccess M \<union> pages a n\<rparr> else M)"

definition sys_munmap :: "bool \<Rightarrow> nat \<Rightarrow> nat \<Rightarrow> memory \<Rightarrow> memory" where
  "sys_munmap ok a n M =
     (if ok then M\<lparr>m_mapped := m_mapped M - {a..<a + n}, m_noaccess := m_noaccess M - pages a n, m_locked := m_locked M - pages a n\<rparr>
      else M)"

section \<open>Zeroing and locking\<close>

text \<open>The pointer loop of \<open>secure_zero_memory\<close>.\<close>

function zero_loop :: "nat \<Rightarrow> nat \<Rightarrow> memory \<Rightarrow> memory" where
  "zero_loop p fin M = (if p < fin then zero_loop (p + 1) fin (M\<lparr>m_bytes := (m_bytes M)(p := 0)\<rparr>) else M)"
  by pat_completeness auto
termination by (relation "measure (\<lambda>(p, fin, _). fin - p)") auto

declare zero_loop.simps [simp del]

definition secure_zero_memory :: "nat \<Rightarrow> nat \<Rightarrow> memory \<Rightarrow> memory" where
  "secure_zero_memory a n M = (if n = 0 then M else zero_loop a (a + n) M)"

definition lock_memory :: "bool \<Rightarrow> nat \<Rightarrow> nat \<Rightarrow> memory \<Rightarrow> bool \<times> memory" where
  "lock_memory ok a n M = (ok, sys_mlock ok a n M)"

definition unlock_memory :: "bool \<Rightarrow> nat \<Rightarrow> nat \<Rightarrow> memory \<Rightarrow> bool \<times> memory" where
  "unlock_memory ok a n M = (ok, sys_munlock ok a n M)"

section \<open>Key material\<close>

text \<open>A vector is its address and length.\<close>

record SecureKeyMaterial =
  sk_addr :: nat
  sk_len :: nat
  sk_locked :: bool

text \<open>The vector moves into the container, so its buffer stays where it is. For locking the code makes a copy at the address
  \<open>clone\<close>, locks the copy, and frees it at the end of the block; freeing does not change its bytes.\<close>

definition skm_new :: "bool \<Rightarrow> nat \<Rightarrow> nat \<Rightarrow> nat \<Rightarrow> bool \<Rightarrow> memory \<Rightarrow> SecureKeyMaterial \<times> memory" where
  "skm_new lock_ok clone a n lock_pages M =
     (if lock_pages \<and> n \<noteq> 0 then
        let M = M\<lparr>m_bytes := (\<lambda>x. if clone \<le> x \<and> x < clone + n then m_bytes M (a + (x - clone)) else m_bytes M x)\<rparr>;
            (locked, M) = lock_memory lock_ok clone n M
        in (\<lparr>sk_addr = a, sk_len = n, sk_locked = locked\<rparr>, M)
      else (\<lparr>sk_addr = a, sk_len = n, sk_locked = False\<rparr>, M))"

definition skm_bytes :: "SecureKeyMaterial \<Rightarrow> memory \<Rightarrow> bytes" where
  "skm_bytes k M = buffer M (sk_addr k) (sk_len k)"

definition skm_is_empty :: "SecureKeyMaterial \<Rightarrow> bool" where
  "skm_is_empty k \<longleftrightarrow> sk_len k = 0"

definition skm_purge :: "bool \<Rightarrow> SecureKeyMaterial \<Rightarrow> memory \<Rightarrow> SecureKeyMaterial \<times> memory" where
  "skm_purge unlock_ok k M =
     (let M = secure_zero_memory (sk_addr k) (sk_len k) M
      in if sk_locked k then (k\<lparr>sk_locked := False\<rparr>, snd (unlock_memory unlock_ok (sk_addr k) (sk_len k) M)) else (k, M))"

definition skm_drop :: "bool \<Rightarrow> SecureKeyMaterial \<Rightarrow> memory \<Rightarrow> memory" where
  "skm_drop unlock_ok k M = snd (skm_purge unlock_ok k M)"

section \<open>Guard pages\<close>

definition guarded_size :: "u64 \<Rightarrow> u64" where
  "guarded_size data_size =
     (let total_size = GUARD_PAGE_SIZE * 2 + data_size
      in (total_size + GUARD_PAGE_SIZE - 1) AND NOT (GUARD_PAGE_SIZE - 1))"

text \<open>\<open>Layout::from_size_align\<close>: the size, rounded up to the alignment, must not exceed \<open>isize::MAX\<close>.\<close>

definition layout_ok :: "u64 \<Rightarrow> u64 \<Rightarrow> bool" where
  "layout_ok sz align \<longleftrightarrow> unat sz \<le> 2 ^ 63 - unat align"

record guard_io =
  gi_base :: "nat option"
  gi_before :: bool
  gi_after :: bool
  gi_lock :: bool
  gi_unlock :: bool
  gi_unmap :: bool

definition heap_alloc :: "nat \<Rightarrow> nat \<Rightarrow> memory \<Rightarrow> memory" where
  "heap_alloc base sz M = M\<lparr>m_mapped := m_mapped M \<union> {base..<base + sz}, m_heap := (base, sz) # m_heap M\<rparr>"

text \<open>The results of \<open>mprotect\<close> and \<open>mlock\<close> are ignored.\<close>

definition alloc_guarded :: "guard_io \<Rightarrow> u64 \<Rightarrow> memory \<Rightarrow> nat option \<times> memory" where
  "alloc_guarded io data_size M =
     (let total_size = guarded_size data_size
      in if \<not> layout_ok total_size GUARD_PAGE_SIZE then (None, M)
         else (case gi_base io of
                 None \<Rightarrow> (None, M)
               | Some base \<Rightarrow>
                   let M = heap_alloc base (unat total_size) M;
                       M = sys_protect_none (gi_before io) base PAGE M;
                       M = sys_protect_none (gi_after io) (base + unat (total_size - GUARD_PAGE_SIZE)) PAGE M;
                       M = sys_mlock (gi_lock io) (base + PAGE) (unat data_size) M
                   in (Some (base + PAGE), M)))"

definition dealloc_guarded :: "guard_io \<Rightarrow> nat \<Rightarrow> u64 \<Rightarrow> memory \<Rightarrow> memory" where
  "dealloc_guarded io p data_size M =
     (let M = sys_munlock (gi_unlock io) p (unat data_size) M
      in sys_munmap (gi_unmap io) (p - PAGE) (unat (guarded_size data_size)) M)"

record GuardedKeyMaterial =
  gk_ptr :: nat
  gk_len :: u64

definition copy_bytes :: "nat \<Rightarrow> nat \<Rightarrow> nat \<Rightarrow> memory \<Rightarrow> memory" where
  "copy_bytes src dst n M =
     M\<lparr>m_bytes := (\<lambda>x. if dst \<le> x \<and> x < dst + n then m_bytes M (src + (x - dst)) else m_bytes M x)\<rparr>"

definition gkm_new :: "guard_io \<Rightarrow> nat \<Rightarrow> u64 \<Rightarrow> memory \<Rightarrow> GuardedKeyMaterial option \<times> memory" where
  "gkm_new io src len M =
     (case alloc_guarded io len M of
        (None, M) \<Rightarrow> (None, M)
      | (Some p, M) \<Rightarrow> (Some \<lparr>gk_ptr = p, gk_len = len\<rparr>, secure_zero_memory src (unat len) (copy_bytes src p (unat len) M)))"

definition gkm_bytes :: "GuardedKeyMaterial \<Rightarrow> memory \<Rightarrow> bytes" where
  "gkm_bytes k M = buffer M (gk_ptr k) (unat (gk_len k))"

definition gkm_is_empty :: "GuardedKeyMaterial \<Rightarrow> bool" where
  "gkm_is_empty k \<longleftrightarrow> gk_len k = 0"

definition gkm_drop :: "guard_io \<Rightarrow> GuardedKeyMaterial \<Rightarrow> memory \<Rightarrow> memory" where
  "gkm_drop io k M = dealloc_guarded io (gk_ptr k) (gk_len k) (secure_zero_memory (gk_ptr k) (unat (gk_len k)) M)"

section \<open>Zeroing is exact\<close>

lemma zero_loop_exact:
  "zero_loop p fin M = M\<lparr>m_bytes := (\<lambda>x. if p \<le> x \<and> x < fin then 0 else m_bytes M x)\<rparr>"
proof (induction p fin M rule: zero_loop.induct)
  case (1 p fin M)
  show ?case
  proof (cases "p < fin")
    case True
    have "(\<lambda>x. if Suc p \<le> x \<and> x < fin then 0 else m_bytes (M\<lparr>m_bytes := (m_bytes M)(p := 0)\<rparr>) x) = (\<lambda>x. if p \<le> x \<and> x < fin then 0 else m_bytes M x)"
      using True by (auto simp: fun_eq_iff Suc_le_eq)
    with 1 True show ?thesis by (subst zero_loop.simps) simp
  next
    case False
    then have "(\<lambda>x. if p \<le> x \<and> x < fin then 0 else m_bytes M x) = m_bytes M" by (auto simp: fun_eq_iff)
    with False show ?thesis by (subst zero_loop.simps) simp
  qed
qed

lemma secure_zero_memory_exact:
  "secure_zero_memory a n M = M\<lparr>m_bytes := (\<lambda>x. if a \<le> x \<and> x < a + n then 0 else m_bytes M x)\<rparr>"
proof (cases "n = 0")
  case True
  then have "(\<lambda>x. if a \<le> x \<and> x < a + n then 0 else m_bytes M x) = m_bytes M" by (auto simp: fun_eq_iff)
  with True show ?thesis by (simp add: secure_zero_memory_def)
qed (simp add: secure_zero_memory_def zero_loop_exact)

lemma buffer_zeroed: "buffer (secure_zero_memory a n M) a n = replicate n 0"
  by (rule nth_equalityI) (simp_all add: buffer_def secure_zero_memory_exact)

lemma buffer_cong: "(\<And>x. a \<le> x \<Longrightarrow> x < a + n \<Longrightarrow> m_bytes M x = m_bytes M' x) \<Longrightarrow> buffer M a n = buffer M' a n"
  by (simp add: buffer_def)

lemma sys_bytes [simp]:
  "m_bytes (sys_mlock ok a n M) = m_bytes M" "m_bytes (sys_munlock ok a n M) = m_bytes M"
  "m_bytes (sys_protect_none ok a n M) = m_bytes M" "m_bytes (sys_munmap ok a n M) = m_bytes M"
  "m_bytes (heap_alloc a n M) = m_bytes M"
  by (simp_all add: sys_mlock_def sys_munlock_def sys_protect_none_def sys_munmap_def heap_alloc_def)

text \<open>
  Purging a key container overwrites the whole key with zeros, changes no other byte of the memory, keeps the length and leaves
  the container unlocked, whether or not unlocking works; a second purge, such as the one on drop, changes no byte.
\<close>

theorem skm_purge_exact:
  "let (k', M') = skm_purge ok k M
   in skm_bytes k' M' = replicate (sk_len k) 0 \<and> sk_len k' = sk_len k \<and> \<not> sk_locked k'
    \<and> m_bytes M' = (\<lambda>x. if sk_addr k \<le> x \<and> x < sk_addr k + sk_len k then 0 else m_bytes M x)
    \<and> m_bytes (skm_drop ok' k' M') = m_bytes M'"
proof -
  have "buffer M' a n = replicate n 0" if "m_bytes M' = (\<lambda>x. if a \<le> x \<and> x < a + n then 0 else m_bytes M x)" for M' a n
    using that by (intro nth_equalityI) (simp_all add: buffer_def)
  then show ?thesis
    by (simp add: skm_purge_def skm_drop_def skm_bytes_def unlock_memory_def secure_zero_memory_exact Let_def fun_eq_iff)
qed

text \<open>
  Page locking protects the wrong memory: when a container is created with locked pages, a second copy of the key is made and
  locked; the flag says "locked", only the pages of the copy are locked, and after purging the container the whole key can
  still be read from the copy.
\<close>

theorem locked_key_survives_purge:
  assumes "n \<noteq> 0" and "clone + n \<le> a \<or> a + n \<le> clone"
  shows "let (k, M') = skm_new True clone a n True M; (k', M'') = skm_purge ok k M'
    in sk_locked k \<and> skm_bytes k M' = buffer M a n \<and> m_locked M' = m_locked M \<union> pages clone n
     \<and> skm_bytes k' M'' = replicate n 0 \<and> buffer M'' clone n = buffer M a n"
proof -
  have copy: "buffer M' clone n = buffer M a n" if "\<And>x. clone \<le> x \<Longrightarrow> x < clone + n \<Longrightarrow> m_bytes M' x = m_bytes M (a + (x - clone))" for M'
    using that by (intro nth_equalityI) (simp_all add: buffer_def)
  have keep: "buffer M' a n = buffer M a n" if "\<And>x. a \<le> x \<Longrightarrow> x < a + n \<Longrightarrow> m_bytes M' x = m_bytes M x" for M'
    using that by (rule buffer_cong)
  show ?thesis
    using assms
    by (auto simp: skm_new_def skm_purge_def skm_bytes_def lock_memory_def unlock_memory_def secure_zero_memory_exact Let_def sys_mlock_def
        intro!: copy keep nth_equalityI simp: buffer_def)
qed

section \<open>Guard pages and their gap\<close>

lemma page_mask: "(w :: u64) AND NOT 0xFFF = push_bit 12 (drop_bit 12 w)"
proof -
  have m: "(0xFFF :: u64) = mask 12" by (simp add: mask_numeral)
  show ?thesis unfolding m by (rule bit_word_eqI) (auto simp: bit_simps)
qed

lemma unat_page_mask: "unat ((w :: u64) AND NOT 0xFFF) = unat w div PAGE * PAGE"
proof -
  have w: "unat w < 2 ^ 64" using unsigned_less [of w, where ?'a = nat] by simp
  have d: "unat (drop_bit 12 w) = unat w div PAGE" by (simp only: unat_drop_bit_eq) (simp add: drop_bit_eq_div)
  have "unat (push_bit 12 (drop_bit 12 w)) = unat w div PAGE * PAGE mod 2 ^ 64"
    by (simp add: push_bit_eq_mult unat_word_ariths d)
  also have "\<dots> = unat w div PAGE * PAGE" using w by (intro mod_less) (meson div_times_less_eq_dividend le_less_trans)
  finally show ?thesis by (simp only: page_mask)
qed

text \<open>The size of the region for \<open>n\<close> bytes, as a number: two pages and the pages that the data need.\<close>

definition data_pages :: "nat \<Rightarrow> nat" where
  "data_pages n = (n + PAGE - 1) div PAGE"

lemma guarded_size_exact:
  assumes "unat n < 2 ^ 63"
  shows "unat (guarded_size n) = (2 + data_pages (unat n)) * PAGE"
proof -
  have "unat (8192 + n) = 8192 + unat n" using assms by (simp add: unat_word_ariths)
  then have a: "unat (8192 + n + 4095) = 8192 + unat n + 4095" using assms by (simp add: unat_word_ariths)
  have "guarded_size n = (8192 + n + 4095) AND NOT 0xFFF"
    by (simp add: guarded_size_def GUARD_PAGE_SIZE_def algebra_simps)
  then have "unat (guarded_size n) = (8192 + unat n + 4095) div PAGE * PAGE" by (simp only: unat_page_mask a)
  also have "(8192 + unat n + 4095) div PAGE = 2 + data_pages (unat n)" by (simp add: data_pages_def div_add_self1)
  finally show ?thesis .
qed

lemma data_pages_bounds: "n \<le> data_pages n * PAGE" "data_pages n * PAGE < n + PAGE"
proof -
  have "data_pages n * PAGE + (n + PAGE - 1) mod PAGE = n + PAGE - 1" unfolding data_pages_def by (rule div_mult_mod_eq)
  moreover have "(n + PAGE - 1) mod PAGE < PAGE" by simp
  ultimately show "n \<le> data_pages n * PAGE" "data_pages n * PAGE < n + PAGE" by linarith+
qed

lemma data_pages_full: "data_pages n * PAGE = n \<longleftrightarrow> PAGE dvd n"
proof
  assume "data_pages n * PAGE = n"
  then show "PAGE dvd n" by (metis dvd_triv_right)
next
  assume "PAGE dvd n"
  then obtain m where "n = PAGE * m" by blast
  then show "data_pages n * PAGE = n" by (simp add: data_pages_def)
qed

text \<open>Of the pages \<open>b\<close> to \<open>b + k + 1\<close> the first and the last are protected.\<close>

lemma pages_one: "pages (b * PAGE) PAGE = {b}"
proof -
  have "(b * PAGE + PAGE - 1) div PAGE = b" by (rule div_nat_eqI) simp_all
  then show ?thesis by (simp add: pages_def)
qed

lemma alloc_guarded_Some:
  assumes "unat n < 2 ^ 62" and "gi_base io = Some (b * PAGE)"
  shows "fst (alloc_guarded io n M) = Some ((b + 1) * PAGE)"
    and "gi_before io \<Longrightarrow> gi_after io \<Longrightarrow>
      m_noaccess (snd (alloc_guarded io n M)) = m_noaccess M \<union> {b, b + 1 + data_pages (unat n)}"
    and "m_mapped (snd (alloc_guarded io n M)) = m_mapped M \<union> {b * PAGE..<(b + 2 + data_pages (unat n)) * PAGE}"
    and "m_bytes (snd (alloc_guarded io n M)) = m_bytes M"
    and "m_heap (snd (alloc_guarded io n M)) = (b * PAGE, unat (guarded_size n)) # m_heap M"
    and "m_locked (snd (alloc_guarded io n M)) = (if gi_lock io then m_locked M \<union> pages ((b + 1) * PAGE) (unat n) else m_locked M)"
proof -
  let ?k = "data_pages (unat n)"
  have g: "unat (guarded_size n) = (2 + ?k) * PAGE" using assms(1) by (intro guarded_size_exact) simp
  have "?k * PAGE < unat n + PAGE" by (rule data_pages_bounds)
  then have l: "layout_ok (guarded_size n) GUARD_PAGE_SIZE"
    using assms(1) by (simp add: layout_ok_def g GUARD_PAGE_SIZE_def)
  have "unat (guarded_size n - 4096) = unat (guarded_size n) - unat (4096 :: u64)"
    by (rule unat_sub) (simp add: word_le_nat_alt g)
  then have s: "unat (guarded_size n - GUARD_PAGE_SIZE) = (1 + ?k) * PAGE" by (simp add: g GUARD_PAGE_SIZE_def)
  have a: "alloc_guarded io n M = (Some (b * PAGE + PAGE),
      sys_mlock (gi_lock io) (b * PAGE + PAGE) (unat n) (sys_protect_none (gi_after io) ((b + (1 + ?k)) * PAGE) PAGE
        (sys_protect_none (gi_before io) (b * PAGE) PAGE (heap_alloc (b * PAGE) ((2 + ?k) * PAGE) M))))"
    by (simp add: alloc_guarded_def Let_def l assms(2) g s algebra_simps)
  show "fst (alloc_guarded io n M) = Some ((b + 1) * PAGE)" by (simp add: a)
  show "m_noaccess (snd (alloc_guarded io n M)) = m_noaccess M \<union> {b, b + 1 + ?k}" if "gi_before io" "gi_after io"
    using that pages_one [of "b + (1 + ?k)"] pages_one [of b] by (simp only: a) (auto simp: sys_mlock_def sys_protect_none_def heap_alloc_def algebra_simps)
  show "m_mapped (snd (alloc_guarded io n M)) = m_mapped M \<union> {b * PAGE..<(b + 2 + ?k) * PAGE}"
    by (simp add: a sys_mlock_def sys_protect_none_def heap_alloc_def algebra_simps)
  show "m_bytes (snd (alloc_guarded io n M)) = m_bytes M" by (simp add: a)
  show "m_heap (snd (alloc_guarded io n M)) = (b * PAGE, unat (guarded_size n)) # m_heap M"
    by (simp add: a g sys_mlock_def sys_protect_none_def heap_alloc_def)
  show "m_locked (snd (alloc_guarded io n M)) = (if gi_lock io then m_locked M \<union> pages ((b + 1) * PAGE) (unat n) else m_locked M)"
    by (simp add: a sys_mlock_def sys_protect_none_def heap_alloc_def algebra_simps)
qed

lemma guarded_accessible:
  assumes "unat n < 2 ^ 62" and "gi_base io = Some (b * PAGE)" and "gi_before io" and "gi_after io"
    and "\<forall>p \<in> {b..b + 1 + data_pages (unat n)}. p \<notin> m_noaccess M"
    and "b * PAGE \<le> x" and "x < (b + 2 + data_pages (unat n)) * PAGE"
  shows "accessible (snd (alloc_guarded io n M)) x \<longleftrightarrow> (b + 1) * PAGE \<le> x \<and> x < (b + 1) * PAGE + data_pages (unat n) * PAGE"
proof -
  let ?k = "data_pages (unat n)"
  have r: "b \<le> x div PAGE" "x div PAGE \<le> b + 1 + ?k"
    using assms(6,7) by (simp_all add: less_eq_div_iff_mult_less_eq less_mult_imp_div_less algebra_simps flip: less_Suc_eq_le)
  have m: "x \<in> m_mapped (snd (alloc_guarded io n M))"
    using assms(6,7) unfolding alloc_guarded_Some(3) [OF assms(1,2)] by simp
  have "accessible (snd (alloc_guarded io n M)) x \<longleftrightarrow> x div PAGE \<noteq> b \<and> x div PAGE \<noteq> b + 1 + ?k"
    using m r assms(5) unfolding accessible_def alloc_guarded_Some(2) [OF assms(1-4)] by auto
  also have "\<dots> \<longleftrightarrow> b + 1 \<le> x div PAGE \<and> x div PAGE < b + 1 + ?k" using r by auto
  also have "\<dots> \<longleftrightarrow> (b + 1) * PAGE \<le> x \<and> x < (b + 1) * PAGE + ?k * PAGE"
    by (simp add: less_eq_div_iff_mult_less_eq div_less_iff_less_mult algebra_simps)
  finally show ?thesis .
qed

text \<open>
  C30. Guarded keys, exactly: with memory from the allocator and working system calls, the container holds the key, the caller's
  buffer is zeroed, and of the allocated region exactly the pages that hold key data are accessible; the page
  before the key and the page after its last page are not.
\<close>

theorem guarded_key_exact:
  assumes "unat n < 2 ^ 62" and "gi_base io = Some (b * PAGE)" and "gi_before io" and "gi_after io"
    and "\<forall>p \<in> {b..b + 1 + data_pages (unat n)}. p \<notin> m_noaccess M"
    and "src + unat n \<le> b * PAGE \<or> (b + 2 + data_pages (unat n)) * PAGE \<le> src"
  shows "\<exists>k M'. gkm_new io src n M = (Some k, M') \<and> gkm_bytes k M' = buffer M src (unat n) \<and> buffer M' src (unat n) = replicate (unat n) 0
    \<and> (\<forall>x \<in> {b * PAGE..<(b + 2 + data_pages (unat n)) * PAGE}.
         accessible M' x \<longleftrightarrow> gk_ptr k \<le> x \<and> x < gk_ptr k + data_pages (unat n) * PAGE)"
proof -
  let ?p = "(b + 1) * PAGE" and ?M = "snd (alloc_guarded io n M)"
  let ?M' = "secure_zero_memory src (unat n) (copy_bytes src ?p (unat n) ?M)"
  have new: "gkm_new io src n M = (Some \<lparr>gk_ptr = ?p, gk_len = n\<rparr>, ?M')"
    using alloc_guarded_Some(1) [OF assms(1,2), of M] by (cases "alloc_guarded io n M") (simp add: gkm_new_def)
  have "unat n \<le> data_pages (unat n) * PAGE" by (rule data_pages_bounds)
  then have dis: "src + unat n \<le> ?p \<or> ?p + unat n \<le> src" using assms(6) by (auto simp: algebra_simps)
  have "buffer ?M' ?p (unat n) = buffer M src (unat n)"
    using dis by (intro nth_equalityI)
      (auto simp: buffer_def secure_zero_memory_exact copy_bytes_def alloc_guarded_Some(4) [OF assms(1,2)] simp del: distrib_right_numeral mult_Suc)
  moreover have "accessible ?M' x = accessible ?M x" for x by (simp add: accessible_def secure_zero_memory_exact copy_bytes_def)
  ultimately show ?thesis
    using new guarded_accessible [OF assms(1-5)] buffer_zeroed
    by (intro exI [of _ "\<lparr>gk_ptr = ?p, gk_len = n\<rparr>"] exI [of _ ?M']) (simp add: gkm_bytes_def)
qed

text \<open>
  The byte after a guarded key can be written without a fault unless the length is a multiple of the page size, although
  every overflow is documented to trap.
\<close>

theorem overflow_not_trapped:
  assumes "unat n < 2 ^ 62" and "gi_base io = Some (b * PAGE)" and "gi_before io" and "gi_after io"
    and "\<forall>p \<in> {b..b + 1 + data_pages (unat n)}. p \<notin> m_noaccess M"
  shows "accessible (snd (alloc_guarded io n M)) ((b + 1) * PAGE + unat n) \<longleftrightarrow> \<not> PAGE dvd unat n"
proof -
  let ?k = "data_pages (unat n)"
  have k: "unat n \<le> ?k * PAGE" by (rule data_pages_bounds)
  have r: "b * PAGE \<le> (b + 1) * PAGE + unat n" "(b + 1) * PAGE + unat n < (b + 2 + ?k) * PAGE" using k by (simp_all add: algebra_simps)
  have "accessible (snd (alloc_guarded io n M)) ((b + 1) * PAGE + unat n) \<longleftrightarrow> unat n < ?k * PAGE"
    using guarded_accessible [OF assms r] by simp
  also have "\<dots> \<longleftrightarrow> \<not> PAGE dvd unat n" using k data_pages_full [of "unat n"] by auto
  finally show ?thesis .
qed

text \<open>
  Dropping a guarded key zeroes and unmaps it, but the block came from the allocator, which is not told: a block
  that it still counts as allocated is no longer mapped.
\<close>

theorem dropped_block_unmapped:
  assumes "unat n < 2 ^ 62" and "gi_base io = Some (b * PAGE)" and "gi_unmap io"
    and "gkm_new io src n M = (Some k, M')"
  shows "\<exists>size. (b * PAGE, size) \<in> set (m_heap (gkm_drop io k M')) \<and> size \<noteq> 0
    \<and> {b * PAGE..<b * PAGE + size} \<inter> m_mapped (gkm_drop io k M') = {}
    \<and> buffer (gkm_drop io k M') (gk_ptr k) (unat n) = replicate (unat n) 0"
proof -
  have k: "gk_ptr k = (b + 1) * PAGE" "gk_len k = n" "m_heap M' = (b * PAGE, unat (guarded_size n)) # m_heap M"
    using assms(4) alloc_guarded_Some(1,5) [OF assms(1,2), of M]
    by (auto simp: gkm_new_def secure_zero_memory_exact copy_bytes_def split: prod.splits option.splits)
  have "buffer (gkm_drop io k M') (gk_ptr k) (unat n) = replicate (unat n) 0"
    by (intro nth_equalityI) (simp_all add: buffer_def gkm_drop_def dealloc_guarded_def secure_zero_memory_exact k(2) Let_def)
  moreover have "unat (guarded_size n) \<noteq> 0" using assms(1) guarded_size_exact [of n] by simp
  ultimately show ?thesis
    using assms(3)
    by (intro exI [of _ "unat (guarded_size n)"])
       (auto simp: k gkm_drop_def dealloc_guarded_def sys_munmap_def sys_munlock_def secure_zero_memory_exact Let_def)
qed

text \<open>The size computation wraps around: a request of \<open>2 ^ 64 - 8192\<close> bytes passes the layout check as a region of no bytes.\<close>

theorem guarded_size_wraps: "guarded_size (- 8192) = 0 \<and> layout_ok (guarded_size (- 8192)) GUARD_PAGE_SIZE"
  by (simp add: guarded_size_def layout_ok_def GUARD_PAGE_SIZE_def)

section \<open>Witnesses\<close>

definition demo_memory :: memory where
  "demo_memory = \<lparr>m_bytes = (\<lambda>x. word_of_nat x), m_mapped = {0..<PAGE}, m_noaccess = {}, m_locked = {}, m_heap = []\<rparr>"

theorem locked_key_survives_purge_witness:
  "let (k, M') = skm_new True 100 10 4 True demo_memory; (k', M'') = skm_purge True k M'
   in sk_locked k \<and> skm_bytes k M' = buffer demo_memory 10 4 \<and> m_locked M' = m_locked demo_memory \<union> pages 100 4
    \<and> skm_bytes k' M'' = replicate 4 0 \<and> buffer M'' 100 4 = buffer demo_memory 10 4"
  by (rule locked_key_survives_purge) simp_all

theorem guarded_key_exact_witness:
  "\<exists>k M'. gkm_new \<lparr>gi_base = Some (2 * PAGE), gi_before = True, gi_after = True, gi_lock = True, gi_unlock = True, gi_unmap = True\<rparr>
       10 5 demo_memory = (Some k, M') \<and> gkm_bytes k M' = buffer demo_memory 10 5 \<and> buffer M' 10 5 = replicate 5 0"
  using guarded_key_exact [of 5 "\<lparr>gi_base = Some (2 * PAGE), gi_before = True, gi_after = True, gi_lock = True, gi_unlock = True, gi_unmap = True\<rparr>"
      2 demo_memory 10]
  by (auto simp: demo_memory_def)

end
