(* ===== verification/MailboxRace.thy ===== *)
theory MailboxRace
  imports Mailbox
begin

text \<open>
  The relay's mail operations when tasks run concurrently (\<open>RelayState\<close> in \<open>relay/src/main.rs\<close>). The code guards the mailboxes in memory by a
  lock, which \<open>store_message\<close> and \<open>cleanup_expired\<close> keep until their SQL statement has run, and which \<open>ack_message\<close> and \<open>purge_all_messages\<close> release
  before theirs; \<open>fetch_messages\<close> reads the table without the lock and the mailbox under it. Here an operation is two phases, and
  an inductive step relation interleaves the phases of any number of tasks. The definitions of \<open>Mailbox\<close> are the phases
  without interruption.
\<close>

section \<open>Phases\<close>

definition store_memory :: "u64 \<Rightarrow> MailboxStoreRequest \<Rightarrow> mail_state \<Rightarrow> mail_state" where
  "store_memory now req M =
     (let nid = sr_recipient_nid req;
          mailbox = opt_or (mailbox_new MAX_MAILBOX_SIZE) (map_of (ms_mailboxes M) nid)
      in M\<lparr>ms_mailboxes := AList.update nid (mailbox_store (request_entry now req) mailbox) (ms_mailboxes M)\<rparr>)"

definition request_row :: "u64 \<Rightarrow> MailboxStoreRequest \<Rightarrow> string \<Rightarrow> MailRow" where
  "request_row now req sender_encrypted =
     \<lparr>row_recipient_nid = sr_recipient_nid req, row_signed_blob = sr_signed_blob req, row_sender_nid = sr_sender_nid req,
      row_sender_fp = sr_sender_fp req, row_seq = sr_seq req, row_stored_at = sint now, row_delivered = False,
      row_sender_encrypted = sender_encrypted\<rparr>"

definition store_row :: "crypto_lib \<Rightarrow> bool \<Rightarrow> bytes \<Rightarrow> u64 \<Rightarrow> MailboxStoreRequest \<Rightarrow> mail_state \<Rightarrow> (string + unit) \<times> mail_state" where
  "store_row L db_ok nonce_bytes now req M =
     (case ms_db M of
        None \<Rightarrow> (Inr (), M)
      | Some rows \<Rightarrow>
          (case encrypt_metadata L nonce_bytes (sr_sender_nid req @ [CHR 0x0A] @ sr_sender_fp req) (ms_metadata_key M) of
             None \<Rightarrow> (Inl ''panic: AES-256-GCM encrypt'', M)
           | Some sender_encrypted \<Rightarrow>
               if \<not> db_ok then (Inl ''db store error'', M)
               else (Inr (), M\<lparr>ms_db := Some (rows @ [request_row now req sender_encrypted])\<rparr>)))"

definition ack_memory :: "string \<Rightarrow> int \<Rightarrow> mail_state \<Rightarrow> mail_state" where
  "ack_memory nid seq = update_mailbox nid (mailbox_ack seq)"

definition ack_rows :: "bool \<Rightarrow> string \<Rightarrow> int \<Rightarrow> mail_state \<Rightarrow> mail_state" where
  "ack_rows db_ok nid seq =
     update_rows db_ok (map (\<lambda>r. if row_recipient_nid r = nid \<and> row_seq r = seq \<and> \<not> row_delivered r
                                then r\<lparr>row_delivered := True\<rparr> else r))"

definition purge_memory :: "string \<Rightarrow> mail_state \<Rightarrow> mail_state" where
  "purge_memory nid M = M\<lparr>ms_mailboxes := AList.delete nid (ms_mailboxes M)\<rparr>"

definition purge_rows :: "bool \<Rightarrow> string \<Rightarrow> mail_state \<Rightarrow> mail_state" where
  "purge_rows db_ok nid = update_rows db_ok (filter (\<lambda>r. row_recipient_nid r \<noteq> nid))"

definition cleanup_memory :: "u64 \<Rightarrow> mail_state \<Rightarrow> mail_state" where
  "cleanup_memory now M =
     M\<lparr>ms_mailboxes := filter (\<lambda>(_, mb). mb_entries mb \<noteq> [])
        (map (\<lambda>(k, mb). (k, mb\<lparr>mb_entries := filter (\<lambda>e. now - me_stored_at e < MAILBOX_TTL_SECONDS) (mb_entries mb)\<rparr>)) (ms_mailboxes M))\<rparr>"

definition cleanup_rows :: "bool \<Rightarrow> u64 \<Rightarrow> mail_state \<Rightarrow> mail_state" where
  "cleanup_rows db_ok now =
     update_rows db_ok (filter (\<lambda>r. \<not> (row_stored_at r < sint (now - MAILBOX_TTL_SECONDS) \<and> row_delivered r)))"

definition fetch_rows :: "string \<Rightarrow> mail_state \<Rightarrow> MailboxEntry list" where
  "fetch_rows nid M = map row_entry (sort_key row_seq (pending nid M))"

definition fetch_memory :: "u64 \<Rightarrow> string \<Rightarrow> mail_state \<Rightarrow> MailboxEntry list" where
  "fetch_memory now nid M = (case map_of (ms_mailboxes M) nid of None \<Rightarrow> [] | Some mb \<Rightarrow> mailbox_fetch now mb)"

text \<open>Phases without interruption are the operations of theory \<open>Mailbox\<close>.\<close>

theorem phases_compose:
  "store_message L db_ok nonce now req M = store_row L db_ok nonce now req (store_memory now req M)"
  "ack_message db_ok nid seq M = ack_rows db_ok nid seq (ack_memory nid seq M)"
  "purge_all_messages db_ok nid M = purge_rows db_ok nid (purge_memory nid M)"
  "cleanup_expired db_ok now M = cleanup_rows db_ok now (cleanup_memory now M)"
  "fetch_messages db_ok now nid M = (if db_ok \<and> pending nid M \<noteq> [] then fetch_rows nid M else fetch_memory now nid M)"
proof -
  show "store_message L db_ok nonce now req M = store_row L db_ok nonce now req (store_memory now req M)"
    by (simp add: store_message_def store_row_def store_memory_def request_row_def Let_def split: option.split)
  show "ack_message db_ok nid seq M = ack_rows db_ok nid seq (ack_memory nid seq M)"
    by (simp add: ack_message_def ack_rows_def ack_memory_def)
  show "purge_all_messages db_ok nid M = purge_rows db_ok nid (purge_memory nid M)"
    by (simp add: purge_all_messages_def purge_rows_def purge_memory_def)
  show "cleanup_expired db_ok now M = cleanup_rows db_ok now (cleanup_memory now M)"
    by (simp add: cleanup_expired_def cleanup_rows_def cleanup_memory_def Let_def)
  show "fetch_messages db_ok now nid M = (if db_ok \<and> pending nid M \<noteq> [] then fetch_rows nid M else fetch_memory now nid M)"
    by (simp add: fetch_messages_eq fetch_rows_def fetch_memory_def in_memory_def mailbox_fetch_def split: option.split)
qed

section \<open>Tasks\<close>

text \<open>What a task has left to do. A task in \<open>Storing\<close> or \<open>Cleaning\<close> holds the lock.\<close>

datatype mail_task =
    Idle
  | Storing MailboxStoreRequest u64
  | Acking string int
  | Purging string
  | Fetching string
  | Cleaning u64

record race_state =
  rx_mail :: mail_state
  rx_lock :: "nat option"
  rx_tasks :: "nat \<Rightarrow> mail_task"

datatype race_event =
    EStore MailboxStoreRequest u64
  | EStored MailboxStoreRequest "string + unit"
  | EAck string int
  | EAcked string int bool
  | EPurge string
  | EPurged string bool
  | ERows string "MailboxEntry list"
  | EMiss string bool
  | EFetched string "MailboxEntry list"
  | ECleanup
  | ECleaned

definition advance :: "nat \<Rightarrow> mail_task \<Rightarrow> nat option \<Rightarrow> mail_state \<Rightarrow> race_state \<Rightarrow> race_state" where
  "advance i t lock M s = s\<lparr>rx_mail := M, rx_lock := lock, rx_tasks := (rx_tasks s)(i := t)\<rparr>"

lemma advance_simps [simp]:
  "rx_mail (advance i t lock M s) = M" "rx_lock (advance i t lock M s) = lock"
  "rx_tasks (advance i t lock M s) = (rx_tasks s)(i := t)"
  by (simp_all add: advance_def)

inductive race_step :: "crypto_lib \<Rightarrow> nat \<Rightarrow> race_event \<Rightarrow> race_state \<Rightarrow> race_state \<Rightarrow> bool" for L where
  store_begin: "rx_tasks s i = Idle \<Longrightarrow> rx_lock s = None \<Longrightarrow>
    race_step L i (EStore req now) s (advance i (Storing req now) (Some i) (store_memory now req (rx_mail s)) s)"
| store_end: "rx_tasks s i = Storing req now \<Longrightarrow> store_row L db_ok nonce now req (rx_mail s) = (r, M) \<Longrightarrow>
    race_step L i (EStored req r) s (advance i Idle None M s)"
| ack_begin: "rx_tasks s i = Idle \<Longrightarrow> rx_lock s = None \<Longrightarrow>
    race_step L i (EAck nid seq) s (advance i (Acking nid seq) None (ack_memory nid seq (rx_mail s)) s)"
| ack_end: "rx_tasks s i = Acking nid seq \<Longrightarrow>
    race_step L i (EAcked nid seq db_ok) s (advance i Idle (rx_lock s) (ack_rows db_ok nid seq (rx_mail s)) s)"
| purge_begin: "rx_tasks s i = Idle \<Longrightarrow> rx_lock s = None \<Longrightarrow>
    race_step L i (EPurge nid) s (advance i (Purging nid) None (purge_memory nid (rx_mail s)) s)"
| purge_end: "rx_tasks s i = Purging nid \<Longrightarrow>
    race_step L i (EPurged nid db_ok) s (advance i Idle (rx_lock s) (purge_rows db_ok nid (rx_mail s)) s)"
| fetch_hit: "rx_tasks s i = Idle \<Longrightarrow> pending nid (rx_mail s) \<noteq> [] \<Longrightarrow>
    race_step L i (ERows nid (fetch_rows nid (rx_mail s))) s s"
| fetch_miss: "rx_tasks s i = Idle \<Longrightarrow> \<not> db_ok \<or> pending nid (rx_mail s) = [] \<Longrightarrow>
    race_step L i (EMiss nid db_ok) s (advance i (Fetching nid) (rx_lock s) (rx_mail s) s)"
| fetch_end: "rx_tasks s i = Fetching nid \<Longrightarrow> rx_lock s = None \<Longrightarrow>
    race_step L i (EFetched nid (fetch_memory now nid (rx_mail s))) s (advance i Idle None (rx_mail s) s)"
| cleanup_begin: "rx_tasks s i = Idle \<Longrightarrow> rx_lock s = None \<Longrightarrow>
    race_step L i ECleanup s (advance i (Cleaning now) (Some i) (cleanup_memory now (rx_mail s)) s)"
| cleanup_end: "rx_tasks s i = Cleaning now \<Longrightarrow>
    race_step L i ECleaned s (advance i Idle None (cleanup_rows db_ok now (rx_mail s)) s)"

inductive race_run :: "crypto_lib \<Rightarrow> (nat \<times> race_event) list \<Rightarrow> race_state \<Rightarrow> race_state \<Rightarrow> bool" for L where
  run_nil: "race_run L [] s s"
| run_cons: "race_step L i e s s' \<Longrightarrow> race_run L es s' s'' \<Longrightarrow> race_run L ((i, e) # es) s s''"

inductive_cases run_nilE: "race_run L [] s s'"
inductive_cases run_consE: "race_run L (e # es) s s'"

section \<open>Effects of the phases\<close>

lemma ack_memory_eq: "ack_memory nid seq M = ack_message False nid seq M"
  by (simp add: ack_message_def ack_memory_def update_rows_def)

lemma purge_memory_eq: "purge_memory nid M = purge_all_messages False nid M"
  by (simp add: purge_all_messages_def purge_memory_def update_rows_def)

lemma cleanup_memory_eq: "cleanup_memory now M = cleanup_expired False now M"
  by (simp add: cleanup_expired_def cleanup_memory_def update_rows_def Let_def)

lemma pending_cong: "ms_db M = ms_db M' \<Longrightarrow> pending nid M = pending nid M'"
  by (simp add: pending_def)

lemma in_memory_cong: "ms_mailboxes M = ms_mailboxes M' \<Longrightarrow> in_memory nid M = in_memory nid M'"
  by (simp add: in_memory_def)

lemma mail_ok_cong: "ms_mailboxes M = ms_mailboxes M' \<Longrightarrow> mail_ok M = mail_ok M'"
  by (simp add: mail_ok_def)

lemma rows_mailboxes [simp]:
  "ms_mailboxes (ack_rows db_ok nid seq M) = ms_mailboxes M" "ms_mailboxes (purge_rows db_ok nid M) = ms_mailboxes M"
  "ms_mailboxes (cleanup_rows db_ok now M) = ms_mailboxes M"
  by (simp_all add: ack_rows_def purge_rows_def cleanup_rows_def)

lemma store_row_mailboxes: "store_row L db_ok nonce now req M = (r, M') \<Longrightarrow> ms_mailboxes M' = ms_mailboxes M"
  by (auto simp: store_row_def split: option.splits if_splits)

lemma pending_phases [simp]:
  "pending nid (store_memory now req M) = pending nid M"
  "pending nid (ack_memory nid' seq M) = pending nid M"
  "pending nid (purge_memory nid' M) = pending nid M"
  "pending nid (cleanup_memory now M) = pending nid M"
  "pending nid (ack_rows db_ok nid' seq M) =
     (if db_ok \<and> nid' = nid then filter (\<lambda>r. row_seq r \<noteq> seq) (pending nid M) else pending nid M)"
  "pending nid (purge_rows db_ok nid' M) = (if db_ok \<and> nid' = nid then [] else pending nid M)"
  "pending nid (cleanup_rows db_ok now M) = pending nid M"
proof -
  have "pending nid (ack_rows db_ok nid' seq M) = pending nid (ack_message db_ok nid' seq M)"
    by (rule pending_cong) (simp add: ack_rows_def ack_message_def update_rows_def)
  then show "pending nid (ack_rows db_ok nid' seq M) =
     (if db_ok \<and> nid' = nid then filter (\<lambda>r. row_seq r \<noteq> seq) (pending nid M) else pending nid M)" by simp
  have "pending nid (purge_rows db_ok nid' M) = pending nid (purge_all_messages db_ok nid' M)"
    by (rule pending_cong) (simp add: purge_rows_def purge_all_messages_def update_rows_def)
  then show "pending nid (purge_rows db_ok nid' M) = (if db_ok \<and> nid' = nid then [] else pending nid M)" by simp
  have "pending nid (cleanup_rows db_ok now M) = pending nid (cleanup_expired db_ok now M)"
    by (rule pending_cong) (simp add: cleanup_rows_def cleanup_expired_def update_rows_def Let_def)
  then show "pending nid (cleanup_rows db_ok now M) = pending nid M" by simp
qed (simp_all add: ack_memory_eq purge_memory_eq cleanup_memory_eq, simp add: store_memory_def pending_def Let_def)

lemma request_row_simps [simp]:
  "row_recipient_nid (request_row now req e) = sr_recipient_nid req" "row_seq (request_row now req e) = sr_seq req"
  "\<not> row_delivered (request_row now req e)" "row_entry (request_row now req e) = request_entry now req"
  by (simp_all add: request_row_def row_entry_def request_entry_def)

lemma pending_store_row:
  assumes "store_row L db_ok nonce now req M = (r, M')"
  shows "set (pending nid M) \<subseteq> set (pending nid M')"
    and "\<forall>row \<in> set (pending nid M') - set (pending nid M). sr_recipient_nid req = nid \<and> row_seq row = sr_seq req"
    and "r = Inr () \<Longrightarrow> ms_db M \<noteq> None \<Longrightarrow> \<exists>row \<in> set (pending (sr_recipient_nid req) M'). row_entry row = request_entry now req"
  using assms by (auto simp: store_row_def pending_def intro: exI [of _ "request_row now req e" for e] split: option.splits if_splits)

lemma in_memory_store_memory:
  "set (in_memory nid (store_memory now req M)) \<subseteq>
     (if sr_recipient_nid req = nid then {request_entry now req} else {}) \<union> set (in_memory nid M)"
proof -
  have "in_memory nid (store_memory now req M) = in_memory nid (snd (store_message undefined False [] now req M))"
    by (rule in_memory_cong) (simp add: store_memory_def store_message_def Let_def split: option.split)
  then show ?thesis using in_memory_store [of nid undefined False "[]" now req M] by simp
qed

lemma mail_ok_store_memory: "mail_ok M \<Longrightarrow> mail_ok (store_memory now req M)"
proof -
  have "mail_ok (store_memory now req M) = mail_ok (snd (store_message undefined False [] now req M))"
    by (rule mail_ok_cong) (simp add: store_memory_def store_message_def Let_def split: option.split)
  then show "mail_ok M \<Longrightarrow> ?thesis" using mail_ok_store by simp
qed

section \<open>Invariant: the lock excludes\<close>

fun holds_lock :: "mail_task \<Rightarrow> bool" where
  "holds_lock (Storing req now) \<longleftrightarrow> True"
| "holds_lock (Cleaning now) \<longleftrightarrow> True"
| "holds_lock _ \<longleftrightarrow> False"

text \<open>The mailboxes are within their bounds, and the tasks that hold the lock are the one that is recorded.\<close>

definition race_ok :: "race_state \<Rightarrow> bool" where
  "race_ok s \<longleftrightarrow> mail_ok (rx_mail s) \<and> (\<forall>i. holds_lock (rx_tasks s i) \<longleftrightarrow> rx_lock s = Some i)"

lemma not_locker: "race_ok s \<Longrightarrow> \<not> holds_lock (rx_tasks s i) \<Longrightarrow> rx_lock s \<noteq> Some i"
  by (auto simp: race_ok_def)

lemma race_ok_step: "race_step L i e s s' \<Longrightarrow> race_ok s \<Longrightarrow> race_ok s'"
proof (induction rule: race_step.induct)
  case (store_end s i req now db_ok nonce r M)
  moreover from this have "mail_ok M" using mail_ok_cong [OF store_row_mailboxes] by (auto simp: race_ok_def)
  ultimately show ?case unfolding race_ok_def by (metis advance_simps fun_upd_apply holds_lock.simps(1,3) option.distinct(1) option.inject)
next
  case (cleanup_end s i now db_ok)
  moreover from this have "mail_ok (cleanup_rows db_ok now (rx_mail s))" using mail_ok_cong [OF rows_mailboxes(3)] by (auto simp: race_ok_def)
  ultimately show ?case unfolding race_ok_def by (metis advance_simps fun_upd_apply holds_lock.simps(2,3) option.distinct(1) option.inject)
next
  case (ack_end s i nid seq db_ok)
  with not_locker [of s i] mail_ok_cong [OF rows_mailboxes(1), of db_ok nid seq "rx_mail s"] show ?case by (simp add: race_ok_def)
next
  case (purge_end s i nid db_ok)
  with not_locker [of s i] mail_ok_cong [OF rows_mailboxes(2), of db_ok nid "rx_mail s"] show ?case by (simp add: race_ok_def)
next
  case (fetch_miss s i db_ok nid)
  with not_locker [of s i] show ?case by (simp add: race_ok_def)
qed (auto simp: race_ok_def ack_memory_eq purge_memory_eq cleanup_memory_eq mail_ok_store_memory invs)

lemma race_ok_run: "race_run L es s s' \<Longrightarrow> race_ok s \<Longrightarrow> race_ok s'"
  by (induction rule: race_run.induct) (blast dest: race_ok_step)+

text \<open>
  C16. The bounds hold under every interleaving, and the lock excludes: starting with empty mailboxes, however the phases of
  any number of tasks are interleaved and whatever fails, no mailbox has more than 1000 messages and no sender more than ten in it, and no
  two tasks are between the phases of a store or a clean-up at the same time.
\<close>

theorem race_bounded:
  assumes "race_run L es \<lparr>rx_mail = \<lparr>ms_mailboxes = [], ms_db = db, ms_metadata_key = key\<rparr>, rx_lock = None, rx_tasks = \<lambda>_. Idle\<rparr> s"
  shows "length (in_memory nid (rx_mail s)) \<le> 1000 \<and> length (from_sender fp (in_memory nid (rx_mail s))) \<le> 10
    \<and> (holds_lock (rx_tasks s i) \<longrightarrow> holds_lock (rx_tasks s j) \<longrightarrow> i = j)"
proof -
  have ok: "race_ok s" by (rule race_ok_run [OF assms]) (simp add: race_ok_def mail_ok_def)
  then have m: "mail_ok (rx_mail s)" by (simp add: race_ok_def)
  have "length (in_memory nid (rx_mail s)) \<le> 1000" "length (from_sender fp (in_memory nid (rx_mail s))) \<le> 10"
    using mail_ok_lookup [OF m, of nid]
    by (auto simp: in_memory_def mailbox_ok_def MAX_MAILBOX_SIZE_def MAX_ENTRIES_PER_SENDER_def from_sender_def split: option.split)
  moreover have "holds_lock (rx_tasks s i) \<longrightarrow> holds_lock (rx_tasks s j) \<longrightarrow> i = j" using ok by (auto simp: race_ok_def)
  ultimately show ?thesis by blast
qed

section \<open>Stored mail under interleaving\<close>

text \<open>Whether an event finishes the removal of a message: the second phase of its acknowledgement or of a purge.\<close>

fun finishes_removal :: "string \<Rightarrow> int \<Rightarrow> race_event \<Rightarrow> bool" where
  "finishes_removal nid seq (EAcked nid' seq' db_ok) \<longleftrightarrow> nid' = nid \<and> seq' = seq"
| "finishes_removal nid seq (EPurged nid' db_ok) \<longleftrightarrow> nid' = nid"
| "finishes_removal nid seq _ \<longleftrightarrow> False"

text \<open>Whether an event is an answer to a fetch that lacks an entry although the table could be read.\<close>

fun misses_entry :: "string \<Rightarrow> MailboxEntry \<Rightarrow> race_event \<Rightarrow> bool" where
  "misses_entry nid entry (ERows nid' es) \<longleftrightarrow> nid' = nid \<and> entry \<notin> set es"
| "misses_entry nid entry (EMiss nid' db_ok) \<longleftrightarrow> nid' = nid \<and> db_ok"
| "misses_entry nid entry _ \<longleftrightarrow> False"

lemma pending_step:
  assumes "race_step L i e s s'" and "row \<in> set (pending nid (rx_mail s))" and "\<not> finishes_removal nid (row_seq row) e"
  shows "row \<in> set (pending nid (rx_mail s')) \<and> \<not> misses_entry nid (row_entry row) e"
  using assms
proof (induction rule: race_step.induct)
  case (store_end s i req now db_ok nonce r M)
  then show ?case using pending_store_row(1) by fastforce
qed (auto simp: fetch_rows_def)

lemma pending_run:
  assumes "race_run L es s s'" and "row \<in> set (pending nid (rx_mail s))" and "\<forall>(j, e) \<in> set es. \<not> finishes_removal nid (row_seq row) e"
  shows "row \<in> set (pending nid (rx_mail s')) \<and> (\<forall>(j, e) \<in> set es. \<not> misses_entry nid (row_entry row) e)"
  using assms by (induction rule: race_run.induct) (auto dest: pending_step)

text \<open>
  C15. A message that was reported as stored is kept and delivered under every interleaving: until the second phase of an
  acknowledgement of its number or of a purge of its mailbox runs, every fetch that can read the table returns it.
\<close>

theorem stored_message_delivered:
  assumes "race_step L i (EStored req (Inr ())) s s'" and "rx_tasks s i = Storing req now" and "ms_db (rx_mail s) \<noteq> None"
    and "race_run L es s' s''" and "\<forall>(j, e) \<in> set es. \<not> finishes_removal (sr_recipient_nid req) (sr_seq req) e"
  shows "(\<forall>(j, e) \<in> set es. \<not> misses_entry (sr_recipient_nid req) (request_entry now req) e)
    \<and> request_entry now req \<in> set (fetch_messages True now' (sr_recipient_nid req) (rx_mail s''))"
proof -
  obtain row where row: "row \<in> set (pending (sr_recipient_nid req) (rx_mail s'))" "row_entry row = request_entry now req"
    using assms(1-3) pending_store_row(3) by (cases rule: race_step.cases) fastforce+
  then have "row_seq row = sr_seq req" by (simp add: row_entry_def request_entry_def)
  with pending_run [OF assms(4) row(1)] assms(5) row(2)
  have *: "row \<in> set (pending (sr_recipient_nid req) (rx_mail s''))"
    and m: "\<forall>(j, e) \<in> set es. \<not> misses_entry (sr_recipient_nid req) (request_entry now req) e" by auto
  from * row(2) have "request_entry now req \<in> set (fetch_messages True now' (sr_recipient_nid req) (rx_mail s''))"
    by (cases "pending (sr_recipient_nid req) (rx_mail s'') = []") (force simp: fetch_messages_eq)+
  with m show ?thesis by blast
qed

section \<open>Acknowledged mail under interleaving\<close>

fun starts_store :: "string \<Rightarrow> int \<Rightarrow> race_event \<Rightarrow> bool" where
  "starts_store nid seq (EStore req now) \<longleftrightarrow> sr_recipient_nid req = nid \<and> sr_seq req = seq"
| "starts_store nid seq _ \<longleftrightarrow> False"

fun returns_seq :: "string \<Rightarrow> int \<Rightarrow> race_event \<Rightarrow> bool" where
  "returns_seq nid seq (ERows nid' es) \<longleftrightarrow> nid' = nid \<and> seq \<in> me_seq ` set es"
| "returns_seq nid seq (EFetched nid' es) \<longleftrightarrow> nid' = nid \<and> seq \<in> me_seq ` set es"
| "returns_seq nid seq _ \<longleftrightarrow> False"

text \<open>No message with the number is in memory or on its way to the table; and none is in the table.\<close>

definition memory_clear :: "string \<Rightarrow> int \<Rightarrow> race_state \<Rightarrow> bool" where
  "memory_clear nid seq s \<longleftrightarrow> race_ok s \<and> seq \<notin> me_seq ` set (in_memory nid (rx_mail s))
     \<and> (\<forall>i req now. rx_tasks s i = Storing req now \<longrightarrow> \<not> (sr_recipient_nid req = nid \<and> sr_seq req = seq))"

definition rows_clear :: "string \<Rightarrow> int \<Rightarrow> race_state \<Rightarrow> bool" where
  "rows_clear nid seq s \<longleftrightarrow> seq \<notin> row_seq ` set (pending nid (rx_mail s))"

lemma memory_clear_step:
  assumes "race_step L i e s s'" and "memory_clear nid seq s" and "\<not> starts_store nid seq e"
  shows "memory_clear nid seq s'"
proof -
  have ok: "race_ok s" "race_ok s'" using race_ok_step [OF assms(1)] assms(2) by (auto simp: memory_clear_def)
  then have m: "mail_ok (rx_mail s)" by (simp add: race_ok_def)
  from assms have "seq \<notin> me_seq ` set (in_memory nid (rx_mail s'))
     \<and> (\<forall>i req now. rx_tasks s' i = Storing req now \<longrightarrow> \<not> (sr_recipient_nid req = nid \<and> sr_seq req = seq))"
  proof (cases rule: race_step.cases)
    case (store_begin req now)
    with assms(2,3) in_memory_store_memory [of nid now req "rx_mail s"] show ?thesis
      by (fastforce simp: memory_clear_def request_entry_def split: if_splits)
  next
    case (store_end req now db_ok nonce r M)
    with assms(2) in_memory_cong [OF store_row_mailboxes [OF store_end(4)], of nid] show ?thesis by (auto simp: memory_clear_def)
  next
    case (cleanup_begin now)
    with assms(2) in_memory_cleanup [OF m, of nid False now] show ?thesis by (auto simp: memory_clear_def cleanup_memory_eq)
  qed (use assms(2) in \<open>auto simp: memory_clear_def ack_memory_eq purge_memory_eq in_memory_cong [OF rows_mailboxes(1)]
        in_memory_cong [OF rows_mailboxes(2)] in_memory_cong [OF rows_mailboxes(3)] split: if_splits\<close>)
  with ok(2) show ?thesis by (simp add: memory_clear_def)
qed

lemma rows_clear_step:
  assumes "race_step L i e s s'" and "memory_clear nid seq s" and "rows_clear nid seq s"
  shows "rows_clear nid seq s' \<and> \<not> returns_seq nid seq e"
  using assms(1)
proof (cases rule: race_step.cases)
  case (store_end req now db_ok nonce r M)
  have "\<not> (sr_recipient_nid req = nid \<and> sr_seq req = seq)" using assms(2) store_end(3) by (auto simp: memory_clear_def)
  with assms(3) store_end pending_store_row(2) [OF store_end(4), of nid] show ?thesis by (force simp: rows_clear_def)
next
  case (fetch_hit nid')
  with assms(3) show ?thesis by (auto simp: rows_clear_def fetch_rows_def row_entry_def)
next
  case (fetch_end nid' now)
  with assms(2,3) show ?thesis
    by (auto simp: rows_clear_def memory_clear_def fetch_memory_def in_memory_def mailbox_fetch_def split: option.splits)
qed (use assms(3) in \<open>auto simp: rows_clear_def\<close>)

lemma clear_run:
  assumes "race_run L es s s'" and "memory_clear nid seq s" and "\<forall>(j, e) \<in> set es. \<not> starts_store nid seq e"
  shows "memory_clear nid seq s' \<and> (rows_clear nid seq s \<longrightarrow> rows_clear nid seq s' \<and> (\<forall>(j, e) \<in> set es. \<not> returns_seq nid seq e))"
  using assms
proof (induction rule: race_run.induct)
  case (run_cons i e s s' es s'')
  then have "memory_clear nid seq s'" using memory_clear_step by fastforce
  with run_cons rows_clear_step [OF run_cons(1,4)] show ?case by auto
qed simp

text \<open>
  C14. An acknowledgement works under every interleaving: once both its phases have run, with a working database, no fetch returns a
  message with this number, whatever other tasks did between the phases and do afterwards, as long as no store of
  a message with the number has begun since.
\<close>

theorem ack_interleaved:
  assumes "race_ok s" and "race_step L i (EAck nid seq) s s\<^sub>1" and "race_run L es s\<^sub>1 s\<^sub>2" and "race_step L i (EAcked nid seq True) s\<^sub>2 s\<^sub>3"
    and "race_run L es' s\<^sub>3 s'" and "\<forall>(j, e) \<in> set (es @ es'). \<not> starts_store nid seq e"
  shows "(\<forall>(j, e) \<in> set es'. \<not> returns_seq nid seq e)
    \<and> seq \<notin> me_seq ` set (fetch_messages db_ok now nid (rx_mail s'))"
proof -
  have "memory_clear nid seq s\<^sub>1"
    using assms(2)
  proof (cases rule: race_step.cases)
    case ack_begin
    then have "\<not> holds_lock (rx_tasks s j)" for j using assms(1) by (simp add: race_ok_def)
    then have "rx_tasks s j \<noteq> Storing req now" for j req now by (metis holds_lock.simps(1))
    with ack_begin race_ok_step [OF assms(2,1)] show ?thesis by (auto simp: memory_clear_def ack_memory_eq)
  qed
  then have "memory_clear nid seq s\<^sub>2" using clear_run [OF assms(3)] assms(6) by auto
  then have "memory_clear nid seq s\<^sub>3" using memory_clear_step [OF assms(4)] by simp
  moreover have "rows_clear nid seq s\<^sub>3"
    using assms(4) by (cases rule: race_step.cases) (auto simp: rows_clear_def)
  ultimately have clear: "memory_clear nid seq s'" "rows_clear nid seq s'"
    and none: "\<forall>(j, e) \<in> set es'. \<not> returns_seq nid seq e"
    using clear_run [OF assms(5)] assms(6) by auto
  have "seq \<notin> me_seq ` set (fetch_messages db_ok now nid (rx_mail s'))"
    using clear by (auto simp: fetch_messages_eq memory_clear_def rows_clear_def row_entry_def)
  with none show ?thesis by blast
qed

section \<open>A race that loses mail\<close>

text \<open>
  A purge takes a message with it that is stored after the purge began: between the two phases another task stores a message and its
  sender is told so; then the second phase deletes the row. The message is left in memory only, and a restart
  loses it.
\<close>

theorem purge_race_loses_message:
  assumes "ms_db M = Some rows" and "encrypt_metadata L nonce (sr_sender_nid req @ [CHR 0x0A] @ sr_sender_fp req) (ms_metadata_key M) = Some e"
  shows "\<exists>s. race_run L [(0, EPurge (sr_recipient_nid req)), (1, EStore req now), (1, EStored req (Inr ())), (0, EPurged (sr_recipient_nid req) True)]
        \<lparr>rx_mail = M, rx_lock = None, rx_tasks = \<lambda>_. Idle\<rparr> s
     \<and> fetch_messages True now' (sr_recipient_nid req) ((rx_mail s)\<lparr>ms_mailboxes := []\<rparr>) = []"
proof -
  let ?nid = "sr_recipient_nid req"
  let ?s0 = "\<lparr>rx_mail = M, rx_lock = None, rx_tasks = \<lambda>_. Idle\<rparr>"
  let ?s1 = "advance 0 (Purging ?nid) None (purge_memory ?nid (rx_mail ?s0)) ?s0"
  let ?s2 = "advance 1 (Storing req now) (Some 1) (store_memory now req (rx_mail ?s1)) ?s1"
  let ?M3 = "(rx_mail ?s2)\<lparr>ms_db := Some (rows @ [request_row now req e])\<rparr>"
  let ?s3 = "advance 1 Idle None ?M3 ?s2"
  let ?s4 = "advance 0 Idle (rx_lock ?s3) (purge_rows True ?nid (rx_mail ?s3)) ?s3"
  have row: "store_row L True nonce now req (rx_mail ?s2) = (Inr (), ?M3)"
    using assms by (simp add: store_row_def store_memory_def purge_memory_def Let_def)
  have s1: "race_step L 0 (EPurge ?nid) ?s0 ?s1" by (rule purge_begin) simp_all
  have s2: "race_step L 1 (EStore req now) ?s1 ?s2" by (rule store_begin) simp_all
  have s3: "race_step L 1 (EStored req (Inr ())) ?s2 ?s3" by (rule store_end [OF _ row]) simp
  have s4: "race_step L 0 (EPurged ?nid True) ?s3 ?s4" by (rule purge_end) simp
  have run: "race_run L [(0, EPurge ?nid), (1, EStore req now), (1, EStored req (Inr ())), (0, EPurged ?nid True)] ?s0 ?s4"
    by (rule run_cons [OF s1 run_cons [OF s2 run_cons [OF s3 run_cons [OF s4 run_nil]]]])
  have "pending ?nid ((rx_mail ?s4)\<lparr>ms_mailboxes := []\<rparr>) = []"
    using pending_phases(6) [of ?nid True ?nid ?M3] pending_cong [of "(rx_mail ?s4)\<lparr>ms_mailboxes := []\<rparr>" "rx_mail ?s4" ?nid] by simp
  then have "fetch_messages True now' ?nid ((rx_mail ?s4)\<lparr>ms_mailboxes := []\<rparr>) = []" by (simp add: fetch_messages_eq in_memory_def)
  with run show ?thesis by blast
qed

section \<open>Witnesses\<close>

definition hi :: MailboxStoreRequest where "hi = hello_request ''alice'' 1"

definition hi_mail :: mail_state where "hi_mail = snd (store_row toy_crypto True [] 5 hi empty_mail)"

definition storing_hi :: race_state where
  "storing_hi = \<lparr>rx_mail = empty_mail, rx_lock = Some 1, rx_tasks = (\<lambda>_. Idle)(1 := Storing hi 5)\<rparr>"

lemma hi_row: "store_row toy_crypto True [] 5 hi empty_mail = (Inr (), hi_mail)"
  by (simp add: hi_mail_def store_row_def empty_mail_def encrypt_metadata_def toy_crypto_def)

lemma hi_pending: "pending ''bob'' hi_mail \<noteq> []" "in_memory ''bob'' hi_mail = []" "ms_mailboxes hi_mail = []"
  by (simp_all add: hi_mail_def hi_def hello_request_def pending_def in_memory_def store_row_def empty_mail_def encrypt_metadata_def toy_crypto_def
      request_row_def)

theorem race_bounded_witness:
  "\<exists>s. race_run toy_crypto [(1, EStore hi 5)] \<lparr>rx_mail = \<lparr>ms_mailboxes = [], ms_db = Some [], ms_metadata_key = []\<rparr>, rx_lock = None, rx_tasks = \<lambda>_. Idle\<rparr> s
     \<and> holds_lock (rx_tasks s 1) \<and> length (in_memory ''bob'' (rx_mail s)) \<le> 1000 \<and> length (from_sender ''A'' (in_memory ''bob'' (rx_mail s))) \<le> 10
     \<and> (holds_lock (rx_tasks s 1) \<longrightarrow> holds_lock (rx_tasks s 0) \<longrightarrow> (1 :: nat) = 0)"
proof -
  let ?s0 = "\<lparr>rx_mail = \<lparr>ms_mailboxes = [], ms_db = Some [], ms_metadata_key = []\<rparr>, rx_lock = None, rx_tasks = \<lambda>_. Idle\<rparr>"
  let ?s1 = "advance 1 (Storing hi 5) (Some 1) (store_memory 5 hi (rx_mail ?s0)) ?s0"
  have "race_step toy_crypto 1 (EStore hi 5) ?s0 ?s1" by (rule store_begin) simp_all
  then have run: "race_run toy_crypto [(1, EStore hi 5)] ?s0 ?s1" by (rule run_cons [OF _ run_nil])
  moreover have "holds_lock (rx_tasks ?s1 1)" by simp
  ultimately show ?thesis using race_bounded [OF run, of "''bob''" "''A''" 1 0] by blast
qed

theorem stored_message_delivered_witness:
  "\<exists>s answer. race_step toy_crypto 1 (EStored hi (Inr ())) storing_hi s \<and> race_run toy_crypto [(0, ERows ''bob'' answer)] s s
     \<and> request_entry 5 hi \<in> set answer \<and> request_entry 5 hi \<in> set (fetch_messages True 9 ''bob'' (rx_mail s))"
proof -
  let ?s = "advance 1 Idle None hi_mail storing_hi"
  have nid: "sr_recipient_nid hi = ''bob''" by (simp add: hi_def hello_request_def)
  have task: "rx_tasks storing_hi 1 = Storing hi 5" and db: "ms_db (rx_mail storing_hi) \<noteq> None"
    by (simp_all add: storing_hi_def empty_mail_def)
  have step: "race_step toy_crypto 1 (EStored hi (Inr ())) storing_hi ?s"
    using hi_row by (intro store_end) (simp_all add: storing_hi_def)
  have hit: "race_step toy_crypto 0 (ERows ''bob'' (fetch_rows ''bob'' (rx_mail ?s))) ?s ?s"
    using hi_pending by (intro fetch_hit) (simp_all add: storing_hi_def)
  have run: "race_run toy_crypto [(0, ERows ''bob'' (fetch_rows ''bob'' (rx_mail ?s)))] ?s ?s" by (rule run_cons [OF hit run_nil])
  from stored_message_delivered [OF step task db run, of 9] nid
  have "request_entry 5 hi \<in> set (fetch_rows ''bob'' (rx_mail ?s))" "request_entry 5 hi \<in> set (fetch_messages True 9 ''bob'' (rx_mail ?s))"
    by simp_all
  with step run show ?thesis by blast
qed

definition idle_hi :: race_state where "idle_hi = \<lparr>rx_mail = hi_mail, rx_lock = None, rx_tasks = \<lambda>_. Idle\<rparr>"

theorem ack_interleaved_witness:
  "\<exists>s\<^sub>1 s\<^sub>3 answer. race_run toy_crypto [(0, EAck ''bob'' 1), (1, ERows ''bob'' answer), (0, EAcked ''bob'' 1 True)] idle_hi s\<^sub>3 \<and> answer \<noteq> []
     \<and> race_run toy_crypto [(1, EMiss ''bob'' True)] s\<^sub>3 s\<^sub>1 \<and> 1 \<notin> me_seq ` set (fetch_messages True 9 ''bob'' (rx_mail s\<^sub>1))"
proof -
  let ?s1 = "advance 0 (Acking ''bob'' 1) None (ack_memory ''bob'' 1 (rx_mail idle_hi)) idle_hi"
  let ?s3 = "advance 0 Idle (rx_lock ?s1) (ack_rows True ''bob'' 1 (rx_mail ?s1)) ?s1"
  let ?s4 = "advance 1 (Fetching ''bob'') (rx_lock ?s3) (rx_mail ?s3) ?s3"
  have ok: "race_ok idle_hi" using hi_pending(3) by (simp add: race_ok_def idle_hi_def mail_ok_def)
  have a: "race_step toy_crypto 0 (EAck ''bob'' 1) idle_hi ?s1" by (rule ack_begin) (simp_all add: idle_hi_def)
  have p: "pending ''bob'' (rx_mail ?s1) \<noteq> []" using hi_pending(1) by (simp add: idle_hi_def)
  have f: "race_step toy_crypto 1 (ERows ''bob'' (fetch_rows ''bob'' (rx_mail ?s1))) ?s1 ?s1"
    using p by (intro fetch_hit) (simp_all add: idle_hi_def)
  have b: "race_step toy_crypto 0 (EAcked ''bob'' 1 True) ?s1 ?s3" by (rule ack_end) simp
  have "\<forall>row \<in> set (pending ''bob'' hi_mail). row_seq row = 1"
    by (simp add: hi_mail_def hi_def hello_request_def pending_def store_row_def empty_mail_def encrypt_metadata_def toy_crypto_def request_row_def)
  then have "pending ''bob'' (rx_mail ?s3) = []" by (simp add: idle_hi_def filter_empty_conv)
  then have m: "race_step toy_crypto 1 (EMiss ''bob'' True) ?s3 ?s4" by (intro fetch_miss) (simp_all add: idle_hi_def)
  have run: "race_run toy_crypto [(1, ERows ''bob'' (fetch_rows ''bob'' (rx_mail ?s1)))] ?s1 ?s1" by (rule run_cons [OF f run_nil])
  have run': "race_run toy_crypto [(1, EMiss ''bob'' True)] ?s3 ?s4" by (rule run_cons [OF m run_nil])
  have all: "race_run toy_crypto [(0, EAck ''bob'' 1), (1, ERows ''bob'' (fetch_rows ''bob'' (rx_mail ?s1))), (0, EAcked ''bob'' 1 True)] idle_hi ?s3"
    by (rule run_cons [OF a run_cons [OF f run_cons [OF b run_nil]]])
  have "fetch_rows ''bob'' (rx_mail ?s1) \<noteq> []" using p by (metis fetch_rows_def length_0_conv length_map length_sort)
  moreover from ack_interleaved [OF ok a run b run', of True 9] have "1 \<notin> me_seq ` set (fetch_messages True 9 ''bob'' (rx_mail ?s4))" by simp
  ultimately show ?thesis using all run' by blast
qed

end
