(* ===== verification/RelayPool.thy ===== *)
theory RelayPool
  imports RelayServer
begin

text \<open>
  The tasks of a running relay (the end of \<open>main\<close> in \<open>relay/src/main.rs\<close>): the accept loop starts a task for each connection, and
  timers, peers and connections run concurrently. A task is a small state machine that gives way between two
  frames and between the parts of \<open>handle_connection\<close>; the pool runs the tasks in any order. A task that runs without
  interruption is \<open>handle_connection_relay\<close>, and the pool as a whole, restarts included, changes the relay only by steps of \<open>server_step\<close>.
\<close>

section \<open>A connection as a task\<close>

text \<open>Where a connection waits: for its admission, for TLS, for the upgrade to a WebSocket, for its next event.\<close>

datatype conn_task =
    ConnNew conn_io "conn_event list"
  | ConnTls conn_io "conn_event list"
  | ConnWs conn_io "conn_event list"
  | ConnLoop conn_io "conn_event list"

text \<open>One event of the message loop; \<open>False\<close> ends the loop.\<close>

fun ws_loop_event :: "'cert relay_lib \<Rightarrow> conn_event \<Rightarrow> relay_state \<Rightarrow> bool \<times> conn_out list \<times> relay_state" where
  "ws_loop_event R (WsText c t) S = (let (out, S) = handle_ws_text R c t S in (True, map OutRelay out, S))"
| "ws_loop_event R WsPing S = (True, [OutPong], S)"
| "ws_loop_event R WsPong S = (True, [], S)"
| "ws_loop_event R WsClose S = (False, [], S)"
| "ws_loop_event R WsBinary S = (True, map OutRelay (send_error ''binary messages not supported''), S)"
| "ws_loop_event R WsFrame S = (True, [], S)"
| "ws_loop_event R WsError S = (False, [], S)"
| "ws_loop_event R WsTick S = (True, [OutPing], S)"

fun conn_step ::
  "(bytes \<Rightarrow> bytes) \<Rightarrow> 'cert relay_lib \<Rightarrow> (json \<Rightarrow> string) \<Rightarrow> conn_task \<Rightarrow> relay_host \<Rightarrow> conn_task option \<times> conn_out list \<times> relay_host" where
  "conn_step H R pretty (ConnNew io es) h =
     (let (ok, S) = admit_connection (co_now io) (co_ip io) (rh_state h)
      in (if ok then Some (if rp_tls (rh_run h) then ConnTls io es else ConnWs io es) else None, [], on_state (\<lambda>_. S) h))"
| "conn_step H R pretty (ConnTls io es) h =
     (if \<not> co_tls io then (None, [], h)
      else (Some (ConnWs io es), [], case co_cert io of None \<Rightarrow> h | Some cert \<Rightarrow> tls_peer H (rb_crypto R) pretty (co_files io) cert h))"
| "conn_step H R pretty (ConnWs io es) h =
     (if \<not> co_ws io then (None, [], h)
      else if relay_overloaded (rh_state h) then (None, if co_sent io then map OutRelay (send_error ''relay overloaded'') else [], h)
      else (Some (ConnLoop io es), [], h))"
| "conn_step H R pretty (ConnLoop io []) h = (None, [], h)"
| "conn_step H R pretty (ConnLoop io (e # es)) h =
     (let (more, out, S) = ws_loop_event R e (rh_state h) in (if more then Some (ConnLoop io es) else None, out, on_state (\<lambda>_. S) h))"

text \<open>Every step brings a task closer to its end.\<close>

fun task_size :: "conn_task \<Rightarrow> nat" where
  "task_size (ConnNew io es) = length es + 3"
| "task_size (ConnTls io es) = length es + 2"
| "task_size (ConnWs io es) = length es + 1"
| "task_size (ConnLoop io es) = length es"

lemma conn_step_size: "conn_step H R pretty t h = (Some t', out, h') \<Longrightarrow> task_size t' < task_size t"
  by (induction H R pretty t h rule: conn_step.induct) (auto simp: Let_def split: if_splits prod.splits)

function conn_run ::
  "(bytes \<Rightarrow> bytes) \<Rightarrow> 'cert relay_lib \<Rightarrow> (json \<Rightarrow> string) \<Rightarrow> conn_task \<Rightarrow> relay_host \<Rightarrow> conn_out list \<times> relay_host" where
  "conn_run H R pretty t h =
     (case conn_step H R pretty t h of
        (None, out, h) \<Rightarrow> (out, h)
      | (Some t, out, h) \<Rightarrow> (let (rest, h) = conn_run H R pretty t h in (out @ rest, h)))"
  by pat_completeness auto
termination
  by (relation "measure (\<lambda>(H, R, pretty, t, h). task_size t)") (auto dest: conn_step_size [OF sym])

declare conn_run.simps [simp del]

lemma conn_run_loop:
  "conn_run H R pretty (ConnLoop io es) h = (fst (ws_loop R es (rh_state h)), on_state (\<lambda>_. snd (ws_loop R es (rh_state h))) h)"
proof (induction es arbitrary: h)
  case Nil
  show ?case by (simp add: conn_run.simps)
next
  case (Cons e es)
  then show ?case
    by (subst conn_run.simps, cases e) (simp_all add: case_prod_beta Let_def comp_def)
qed

lemma conn_run_ws:
  "conn_run H R pretty (ConnWs io es) h =
     (if \<not> co_ws io then ([], h)
      else if relay_overloaded (rh_state h) then (if co_sent io then map OutRelay (send_error ''relay overloaded'') else [], h)
      else (fst (ws_loop R es (rh_state h)), on_state (\<lambda>_. snd (ws_loop R es (rh_state h))) h))"
  by (subst conn_run.simps) (simp add: conn_run_loop)

lemma serve_ws_task:
  "snd (serve_ws R io es h) = snd (conn_run H R pretty (ConnWs io es) h)"
  "fst (serve_ws R io es h) = Inr out \<Longrightarrow> fst (conn_run H R pretty (ConnWs io es) h) = out"
  by (auto simp: conn_run_ws serve_ws_def handle_ws_connection_def case_prod_beta Let_def split: if_splits)

text \<open>A task that is never interrupted is the connection handler: it ends, leaves the same relay and disk behind and, where
  the handler returns without an error of the socket, has sent the same frames.\<close>

theorem task_is_connection:
  "snd (conn_run H R pretty (ConnNew io es) h) = snd (handle_connection_relay H R pretty io es h)"
  "fst (handle_connection_relay H R pretty io es h) = Inr out \<Longrightarrow> fst (conn_run H R pretty (ConnNew io es) h) = out"
proof -
  let ?h = "on_state (\<lambda>_. snd (admit_connection (co_now io) (co_ip io) (rh_state h))) h"
  let ?h' = "case co_cert io of None \<Rightarrow> ?h | Some cert \<Rightarrow> tls_peer H (rb_crypto R) pretty (co_files io) cert ?h"
  have tls: "conn_run H R pretty (ConnTls io es) ?h = (if co_tls io then conn_run H R pretty (ConnWs io es) ?h' else ([], ?h))"
    by (subst conn_run.simps) simp
  have "conn_run H R pretty (ConnNew io es) h =
      (if \<not> fst (admit_connection (co_now io) (co_ip io) (rh_state h)) then ([], ?h)
       else if rp_tls (rh_run h) then conn_run H R pretty (ConnTls io es) ?h else conn_run H R pretty (ConnWs io es) ?h)"
    by (subst conn_run.simps) (simp add: case_prod_beta Let_def)
  then show "snd (conn_run H R pretty (ConnNew io es) h) = snd (handle_connection_relay H R pretty io es h)"
    "fst (handle_connection_relay H R pretty io es h) = Inr out \<Longrightarrow> fst (conn_run H R pretty (ConnNew io es) h) = out"
    by (auto simp: tls handle_connection_relay_def case_prod_beta Let_def serve_ws_task [where H = H and pretty = pretty] split: if_splits)
qed

section \<open>The pool of tasks\<close>

record relay_pool =
  pl_host :: relay_host
  pl_tasks :: "conn_task list"
  pl_running :: bool

text \<open>What happens to the pool: a connection is accepted, or the listener fails; a connection runs up to its next wait; a timer
  ticks (mailboxes, limiters, gossip); the task of a configured peer connects; a peer's channel is emptied or its text arrives; the
  process is interrupted, or started again, also after a crash.\<close>

datatype main_event =
    MaAccept conn_io "conn_event list"
  | MaAcceptError
  | MaRun nat
  | MaCleanup bool u64
  | MaLimiters f64
  | MaGossip f64 f64 string
  | MaPeer bool f64 string
  | MaPeerSent bool string
  | MaPeerText f64 string string
  | MaShutdown
  | MaRestart start_io RelayArgs

definition spawn :: "conn_task \<Rightarrow> relay_pool \<Rightarrow> relay_pool" where
  "spawn t p = p\<lparr>pl_tasks := pl_tasks p @ [t]\<rparr>"

text \<open>A task that ends leaves the pool.\<close>

definition run_task :: "(bytes \<Rightarrow> bytes) \<Rightarrow> 'cert relay_lib \<Rightarrow> (json \<Rightarrow> string) \<Rightarrow> nat \<Rightarrow> relay_pool \<Rightarrow> relay_pool" where
  "run_task H R pretty i p =
     (if length (pl_tasks p) \<le> i then p
      else (case conn_step H R pretty (pl_tasks p ! i) (pl_host p) of
              (None, _, h) \<Rightarrow> p\<lparr>pl_host := h, pl_tasks := take i (pl_tasks p) @ drop (Suc i) (pl_tasks p)\<rparr>
            | (Some t, _, h) \<Rightarrow> p\<lparr>pl_host := h, pl_tasks := (pl_tasks p)[i := t]\<rparr>))"

definition background :: "(relay_state \<Rightarrow> relay_state) \<Rightarrow> relay_pool \<Rightarrow> relay_pool" where
  "background f p = p\<lparr>pl_host := on_state f (pl_host p)\<rparr>"

definition restart_relay :: "crypto_lib \<Rightarrow> start_io \<Rightarrow> RelayArgs \<Rightarrow> relay_pool \<Rightarrow> relay_pool" where
  "restart_relay L io args p =
     (let h = pl_host p
      in case relay_main L io args (rh_fs h) (saved_dbs h) of
           Inl _ \<Rightarrow> p\<lparr>pl_tasks := [], pl_running := False\<rparr>
         | Inr q \<Rightarrow> \<lparr>pl_host = h\<lparr>rh_run := q, rh_dbs := saved_dbs h\<rparr>, pl_tasks = [], pl_running = True\<rparr>)"

fun main_step :: "(bytes \<Rightarrow> bytes) \<Rightarrow> 'cert relay_lib \<Rightarrow> (json \<Rightarrow> string) \<Rightarrow> main_event \<Rightarrow> relay_pool \<Rightarrow> relay_pool" where
  "main_step H R pretty (MaRestart io args) p = restart_relay (rb_crypto R) io args p"
| "main_step H R pretty e p =
     (if \<not> pl_running p then p
      else (case e of
              MaAccept io es \<Rightarrow> spawn (ConnNew io es) p
            | MaAcceptError \<Rightarrow> p
            | MaRun i \<Rightarrow> run_task H R pretty i p
            | MaCleanup db_ok now \<Rightarrow> background (relay_step R (RCleanup db_ok now)) p
            | MaLimiters now \<Rightarrow> background (cleanup_limiters now) p
            | MaGossip now inst mid \<Rightarrow> background (relay_step R (RGossip now inst mid)) p
            | MaPeer connected_ok now url \<Rightarrow> background (\<lambda>S. snd (connect_to_peer connected_ok now url S)) p
            | MaPeerSent ws_ok url \<Rightarrow> background (relay_step R (RPeerSent ws_ok url)) p
            | MaPeerText now url t \<Rightarrow> background (relay_step R (RPeerText now url t)) p
            | _ \<Rightarrow> p\<lparr>pl_tasks := [], pl_running := False\<rparr>))"

section \<open>The pool is a history of steps\<close>

text \<open>The texts that a client sends, that wait in the pool, that a history handles.\<close>

definition conn_texts :: "conn_event list \<Rightarrow> (relay_call \<times> string) list" where
  "conn_texts es = List.map_filter (\<lambda>e. case e of WsText c t \<Rightarrow> Some (c, t) | _ \<Rightarrow> None) es"

fun task_texts :: "conn_task \<Rightarrow> (relay_call \<times> string) list" where
  "task_texts (ConnNew io es) = conn_texts es"
| "task_texts (ConnTls io es) = conn_texts es"
| "task_texts (ConnWs io es) = conn_texts es"
| "task_texts (ConnLoop io es) = conn_texts es"

definition pool_texts :: "relay_pool \<Rightarrow> (relay_call \<times> string) multiset" where
  "pool_texts p = mset (concat (map task_texts (pl_tasks p)))"

definition accepted_texts :: "main_event list \<Rightarrow> (relay_call \<times> string) list" where
  "accepted_texts es = concat (map (\<lambda>e. case e of MaAccept io cs \<Rightarrow> conn_texts cs | _ \<Rightarrow> []) es)"

definition handled_texts :: "server_event list \<Rightarrow> (relay_call \<times> string) list" where
  "handled_texts hist = List.map_filter (\<lambda>e. case e of SvStep (RText c t) \<Rightarrow> Some (c, t) | _ \<Rightarrow> None) hist"

lemma texts_simps [simp]:
  "conn_texts [] = []" "conn_texts (e # es) = (case e of WsText c t \<Rightarrow> (c, t) # conn_texts es | _ \<Rightarrow> conn_texts es)"
  "accepted_texts [] = []" "accepted_texts (m # ms) = (case m of MaAccept io cs \<Rightarrow> conn_texts cs | _ \<Rightarrow> []) @ accepted_texts ms"
  "handled_texts [] = []" "handled_texts (hist @ hist') = handled_texts hist @ handled_texts hist'"
  "handled_texts (v # hist) = (case v of SvStep (RText c t) \<Rightarrow> [(c, t)] | _ \<Rightarrow> []) @ handled_texts hist"
  by (simp_all add: conn_texts_def accepted_texts_def handled_texts_def List.map_filter_def split: conn_event.split server_event.split relay_event.split)

definition option_texts :: "conn_task option \<Rightarrow> (relay_call \<times> string) multiset" where
  "option_texts t = (case t of None \<Rightarrow> {#} | Some t \<Rightarrow> mset (task_texts t))"

lemma conn_step_history:
  assumes "conn_step H R pretty t h = (t', out, h')"
  obtains hist where "h' = fold (server_step H R pretty) hist h" and "mset (handled_texts hist) + option_texts t' \<subseteq># mset (task_texts t)"
proof (cases t)
  case (ConnNew io es)
  with assms show ?thesis
    by (intro that [of "[SvStep (RConnect (co_now io) (co_ip io))]"])
      (auto simp: on_state_def option_texts_def case_prod_beta Let_def)
next
  case (ConnTls io es)
  with assms show ?thesis
    by (intro that [of "case co_cert io of Some cert \<Rightarrow> if co_tls io then [SvPeerCert (co_files io) cert] else [] | None \<Rightarrow> []"])
      (auto simp: option_texts_def split: option.splits if_splits)
next
  case (ConnWs io es)
  with assms show ?thesis
    by (intro that [of "[]"]) (auto simp: option_texts_def split: if_splits)
next
  case (ConnLoop io es)
  show ?thesis
  proof (cases es)
    case Nil
    with assms ConnLoop show ?thesis by (intro that [of "[]"]) (auto simp: option_texts_def)
  next
    case (Cons e es')
    with assms ConnLoop show ?thesis
      by (intro that [of "case e of WsText c t \<Rightarrow> [SvStep (RText c t)] | _ \<Rightarrow> []"]; cases e)
        (auto simp: on_state_def option_texts_def case_prod_beta Let_def)
  qed
qed

lemma run_task_history:
  obtains hist where "pl_host (run_task H R pretty i p) = fold (server_step H R pretty) hist (pl_host p)"
    and "mset (handled_texts hist) + pool_texts (run_task H R pretty i p) \<subseteq># pool_texts p"
proof (cases "i < length (pl_tasks p)")
  case True
  obtain t' out h' where step: "conn_step H R pretty (pl_tasks p ! i) (pl_host p) = (t', out, h')"
    by (cases "conn_step H R pretty (pl_tasks p ! i) (pl_host p)")
  obtain hist where hist: "h' = fold (server_step H R pretty) hist (pl_host p)"
      "mset (handled_texts hist) + option_texts t' \<subseteq># mset (task_texts (pl_tasks p ! i))"
    by (rule conn_step_history [OF step])
  let ?rest = "mset (concat (map task_texts (take i (pl_tasks p)))) + mset (concat (map task_texts (drop (Suc i) (pl_tasks p))))"
  have "pool_texts p = mset (concat (map task_texts (take i (pl_tasks p) @ pl_tasks p ! i # drop (Suc i) (pl_tasks p))))"
    unfolding pool_texts_def using id_take_nth_drop [OF True] by simp
  then have old: "pool_texts p = mset (task_texts (pl_tasks p ! i)) + ?rest" by simp
  have new: "pool_texts (run_task H R pretty i p) = option_texts t' + ?rest"
    using True step by (cases t') (simp_all add: run_task_def pool_texts_def option_texts_def upd_conv_take_nth_drop)
  have "mset (handled_texts hist) + option_texts t' + ?rest \<subseteq># mset (task_texts (pl_tasks p ! i)) + ?rest"
    using hist(2) by (rule mset_subset_eq_mono_add) simp
  then have "mset (handled_texts hist) + pool_texts (run_task H R pretty i p) \<subseteq># pool_texts p"
    unfolding old new by (simp add: ac_simps)
  moreover have "pl_host (run_task H R pretty i p) = h'" using True step by (cases t') (simp_all add: run_task_def)
  ultimately show ?thesis using hist(1) by (intro that [of hist]) simp_all
next
  case False
  then show ?thesis by (intro that [of "[]"]) (simp_all add: run_task_def)
qed

lemma background_history:
  assumes "\<And>S. f S = relay_step R v S" and "\<And>c t. v \<noteq> RText c t"
  shows "\<exists>hist. pl_host (background f p) = fold (server_step H R pretty) hist (pl_host p)
    \<and> mset (handled_texts hist) + pool_texts (background f p) \<subseteq># pool_texts p"
proof -
  have "f = relay_step R v" using assms(1) by (intro ext)
  then show ?thesis
    using assms(2) by (intro exI [of _ "[SvStep v]"]) (auto simp: background_def pool_texts_def simp del: relay_step.simps split: relay_event.split)
qed

lemma main_step_history:
  "\<exists>hist. pl_host (main_step H R pretty e p) = fold (server_step H R pretty) hist (pl_host p)
    \<and> mset (handled_texts hist) + pool_texts (main_step H R pretty e p) \<subseteq># mset (accepted_texts [e]) + pool_texts p"
proof (cases "pl_running p \<and> (\<forall>io args. e \<noteq> MaRestart io args)")
  case False
  then consider (off) "\<not> pl_running p" "\<forall>io args. e \<noteq> MaRestart io args" | (restart) io args where "e = MaRestart io args" by blast
  then show ?thesis
  proof cases
    case off
    then have "main_step H R pretty e p = p" by (cases e) simp_all
    then show ?thesis by (intro exI [of _ "[]"]) simp
  next
    case (restart io args)
    then show ?thesis
      by (intro exI [of _ "[SvRestart io args]"]) (simp add: restart_relay_def Let_def pool_texts_def split: sum.split)
  qed
next
  case True
  note bg = background_history [where H = H and R = R and pretty = pretty and p = p]
  show ?thesis
  proof (cases e)
    case (MaAccept io es)
    with True show ?thesis by (intro exI [of _ "[]"]) (simp add: spawn_def pool_texts_def)
  next
    case (MaRun i)
    obtain hist where "pl_host (run_task H R pretty i p) = fold (server_step H R pretty) hist (pl_host p)"
        "mset (handled_texts hist) + pool_texts (run_task H R pretty i p) \<subseteq># pool_texts p"
      by (rule run_task_history)
    with True MaRun show ?thesis by auto
  next
    case (MaPeer connected_ok now url)
    show ?thesis
    proof (cases connected_ok)
      case True
      with \<open>pl_running p \<and> _\<close> MaPeer bg [of "\<lambda>S. snd (connect_to_peer True now url S)" "RPeerUp now url"] show ?thesis
        by (simp add: connect_to_peer_def)
    next
      case False
      with \<open>pl_running p \<and> _\<close> MaPeer show ?thesis by (intro exI [of _ "[]"]) (simp add: connect_to_peer_def background_def pool_texts_def)
    qed
  next
    case MaAcceptError
    with True show ?thesis by (intro exI [of _ "[]"]) simp
  next
    case MaShutdown
    with True show ?thesis by (intro exI [of _ "[]"]) (simp add: pool_texts_def)
  next
    case (MaLimiters now)
    with True bg [of "cleanup_limiters now" "RLimiterCleanup now"] show ?thesis by simp
  qed (use True bg in \<open>auto simp del: relay_step.simps\<close>)
qed

lemma mset_chain: "A + P \<subseteq># E \<Longrightarrow> B + Q \<subseteq># F + P \<Longrightarrow> A + (B + Q) \<subseteq># F + E"
proof -
  assume 1: "A + P \<subseteq># E" and 2: "B + Q \<subseteq># F + P"
  have "A + (B + Q) \<subseteq># A + (F + P)" using 2 by simp
  also have "A + (F + P) = F + (A + P)" by (simp add: ac_simps)
  also have "\<dots> \<subseteq># F + E" using 1 by simp
  finally show ?thesis .
qed


section \<open>Mail in a concurrent relay\<close>

lemma on_state_mail:
  "mail_on_disk db nid (on_state f h) = (if db = rp_db (rh_run h) then pending nid (rs_mail (f (rh_state h)))
     else filter (\<lambda>r. row_recipient_nid r = nid \<and> \<not> row_delivered r) (rh_dbs h db))"
  by (simp add: mail_on_disk_eq)

lemma background_mail:
  assumes "\<And>S. f S = relay_step R v S" and "\<And>c t. v \<noteq> RText c t"
  shows "prefix (mail_on_disk db nid (pl_host p)) (mail_on_disk db nid (pl_host (background f p)))"
proof (rule ccontr)
  assume "\<not> ?thesis"
  then have "\<not> prefix (pending nid (rs_mail (rh_state (pl_host p)))) (pending nid (rs_mail (relay_step R v (rh_state (pl_host p)))))"
    by (simp add: background_def on_state_mail mail_on_disk_eq assms(1) del: relay_step.simps split: if_splits)
  then show False by (rule step_mail) (use assms(2) in blast)
qed

lemma conn_step_mail:
  assumes "conn_step H R pretty task h = (t', out, h')" and "\<not> prefix (mail_on_disk db nid h) (mail_on_disk db nid h')"
  obtains io c t rest where "task = ConnLoop io (WsText c t # rest)" and "h' = on_state (relay_step R (RText c t)) h"
proof (cases task)
  case (ConnLoop io es)
  show ?thesis
  proof (cases es)
    case (Cons e rest)
    with assms ConnLoop show ?thesis
      by (cases e; auto intro!: that simp: case_prod_beta Let_def on_state_def)
  qed (use assms ConnLoop in auto)
qed (use assms in \<open>auto simp: mail_on_disk_eq case_prod_beta Let_def split: if_splits option.splits\<close>)

lemma main_step_mail:
  assumes "\<not> prefix (mail_on_disk db nid (pl_host p)) (mail_on_disk db nid (pl_host (main_step H R pretty e p)))"
  obtains i io c t rest where "e = MaRun i" and "i < length (pl_tasks p)" and "pl_tasks p ! i = ConnLoop io (WsText c t # rest)"
    and "pl_host (main_step H R pretty e p) = on_state (relay_step R (RText c t)) (pl_host p)"
proof (cases e)
  case (MaRun i)
  obtain t' out h' where step: "conn_step H R pretty (pl_tasks p ! i) (pl_host p) = (t', out, h')"
    by (cases "conn_step H R pretty (pl_tasks p ! i) (pl_host p)")
  have run: "pl_running p" "i < length (pl_tasks p)" using assms MaRun by (auto simp: run_task_def split: if_splits)
  then have h': "pl_host (main_step H R pretty e p) = h'" using MaRun step by (cases t') (simp_all add: run_task_def)
  with assms have "\<not> prefix (mail_on_disk db nid (pl_host p)) (mail_on_disk db nid h')" by simp
  with step obtain io c t rest where "pl_tasks p ! i = ConnLoop io (WsText c t # rest)" "h' = on_state (relay_step R (RText c t)) (pl_host p)"
    by (rule conn_step_mail)
  with MaRun run(2) h' show ?thesis by (auto intro: that)
next
  case (MaRestart io args)
  have "mail_on_disk db nid (pl_host (restart_relay (rb_crypto R) io args p)) =
      mail_on_disk db nid (server_step H R pretty (SvRestart io args) (pl_host p))"
    by (simp add: restart_relay_def Let_def split: sum.split)
  with assms MaRestart show ?thesis by (simp add: restart_mail del: server_step.simps)
next
  case (MaPeer connected_ok now url)
  with assms show ?thesis by (simp add: background_def connect_to_peer_def on_state_mail mail_on_disk_eq on_fed_def split: if_splits)
next
  case (MaLimiters now)
  with assms background_mail [of "cleanup_limiters now" R "RLimiterCleanup now" db nid p] show ?thesis by (simp split: if_splits)
qed (use assms background_mail [where R = R] in \<open>auto simp: spawn_def simp del: relay_step.simps split: if_splits\<close>)

text \<open>
  C11. Stored mail survives everything but its owner: in every interleaving of connections, background tasks, peers, interruptions and restarts
  with whatever options, the undelivered mail of a recipient in a database is kept, in order, unless at some point the task of a connection handled an
  acknowledgement or a purge that names this recipient, has a fresh timestamp and carries a signature that verified under the
  certificate pinned at that moment for a fingerprint whose Null ID is the recipient.
\<close>

theorem mail_removed_only_by_owner:
  assumes "\<not> prefix (mail_on_disk db nid (pl_host p)) (mail_on_disk db nid (pl_host (fold (main_step H R pretty) es p)))"
  shows "\<exists>es1 i es2 io c t rest env. es = es1 @ MaRun i # es2
    \<and> (let q = fold (main_step H R pretty) es1 p; S = rh_state (pl_host (main_step H R pretty (MaRun i) q)) in
         i < length (pl_tasks q) \<and> pl_tasks q ! i = ConnLoop io (WsText c t # rest)
         \<and> Option.bind (json_parse (rb_crypto R) t) parse_relay_envelope = Some env
         \<and> field_str (re_payload env) ''recipient_nid'' = nid
         \<and> (re_msg_type env = ''relay-ack'' \<and> owner_signed R c (re_payload env) (ack_data R (re_payload env)) nid S
            \<or> re_msg_type env = ''relay-purge'' \<and> owner_signed R c (re_payload env) (purge_data R (re_payload env)) nid S))"
proof -
  obtain es1 e es2 where es: "es = es1 @ e # es2" and drop: "\<not> prefix (mail_on_disk db nid (pl_host (fold (main_step H R pretty) es1 p)))
      (mail_on_disk db nid (pl_host (main_step H R pretty e (fold (main_step H R pretty) es1 p))))"
    using fold_drop_point [where f = "\<lambda>p. mail_on_disk db nid (pl_host p)", OF assms] by blast
  let ?q = "fold (main_step H R pretty) es1 p"
  obtain i io c t rest where i: "e = MaRun i" "i < length (pl_tasks ?q)" "pl_tasks ?q ! i = ConnLoop io (WsText c t # rest)"
      "pl_host (main_step H R pretty e ?q) = on_state (relay_step R (RText c t)) (pl_host ?q)"
    using drop by (rule main_step_mail)
  then have "\<not> prefix (pending nid (rs_mail (rh_state (pl_host ?q)))) (pending nid (rs_mail (relay_step R (RText c t) (rh_state (pl_host ?q)))))"
    using drop by (simp add: on_state_mail mail_on_disk_eq del: main_step.simps relay_step.simps split: if_splits)
  then obtain env where "Option.bind (json_parse (rb_crypto R) t) parse_relay_envelope = Some env"
      "field_str (re_payload env) ''recipient_nid'' = nid"
      "re_msg_type env = ''relay-ack'' \<and> owner_signed R c (re_payload env) (ack_data R (re_payload env)) nid (relay_step R (RText c t) (rh_state (pl_host ?q)))
       \<or> re_msg_type env = ''relay-purge'' \<and> owner_signed R c (re_payload env) (purge_data R (re_payload env)) nid (relay_step R (RText c t) (rh_state (pl_host ?q)))"
    by (rule text_mail) blast
  with es i show ?thesis
    by (intro exI [of _ es1] exI [of _ i] exI [of _ es2] exI [of _ io] exI [of _ c] exI [of _ t] exI [of _ rest] exI [of _ env])
      (simp add: Let_def del: main_step.simps relay_step.simps)
qed

section \<open>Witnesses\<close>

text \<open>A running relay with one stored message and a connection over which its owner is about to acknowledge it.\<close>

definition toy_conn :: conn_io where
  "toy_conn = \<lparr>co_now = 0, co_ip = ''1.2.3.4'', co_tls = False, co_cert = None, co_files = io_fine, co_ws = True, co_sent = True, co_closed = True\<rparr>"

definition toy_pool :: relay_pool where
  "toy_pool = \<lparr>pl_host = toy_host, pl_tasks = [ConnLoop toy_conn [WsText toy_call ack_text]], pl_running = True\<rparr>"

theorem mail_removed_only_by_owner_witness:
  "\<exists>es1 i es2 io c t rest env. [MaCleanup True 9, MaRun 0] = es1 @ MaRun i # es2
    \<and> (let q = fold (main_step id toy_server_lib (\<lambda>_. [])) es1 toy_pool;
           S = rh_state (pl_host (main_step id toy_server_lib (\<lambda>_. []) (MaRun i) q)) in
         i < length (pl_tasks q) \<and> pl_tasks q ! i = ConnLoop io (WsText c t # rest)
         \<and> Option.bind (json_parse (rb_crypto toy_server_lib) t) parse_relay_envelope = Some env
         \<and> field_str (re_payload env) ''recipient_nid'' = toy_nid
         \<and> (re_msg_type env = ''relay-ack'' \<and> owner_signed toy_server_lib c (re_payload env) (ack_data toy_server_lib (re_payload env)) toy_nid S
            \<or> re_msg_type env = ''relay-purge'' \<and> owner_signed toy_server_lib c (re_payload env) (purge_data toy_server_lib (re_payload env)) toy_nid S))"
proof (rule mail_removed_only_by_owner)
  have "on_state (relay_step toy_server_lib (RCleanup True 9)) toy_host = toy_host"
    by (simp add: toy_host_def on_state_def cleanup_expired_def toy_state_def relay_new_def update_rows_def Let_def)
  then have "main_step id toy_server_lib (\<lambda>_. []) (MaCleanup True 9) toy_pool = toy_pool"
    by (simp add: toy_pool_def background_def)
  moreover have "pl_host (main_step id toy_server_lib (\<lambda>_. []) (MaRun 0) toy_pool)
      = server_step id toy_server_lib (\<lambda>_. []) (SvStep (RText toy_call ack_text)) toy_host"
    by (simp add: toy_pool_def run_task_def on_state_def case_prod_beta Let_def)
  moreover have "mail_on_disk ''d'' toy_nid toy_host \<noteq> []"
    by (simp add: mail_on_disk_eq toy_host_def toy_state_def relay_new_def pending_def)
  moreover have "pl_host toy_pool = toy_host" by (simp add: toy_pool_def)
  ultimately show "\<not> prefix (mail_on_disk ''d'' toy_nid (pl_host toy_pool)) (mail_on_disk ''d'' toy_nid
      (pl_host (fold (main_step id toy_server_lib (\<lambda>_. [])) [MaCleanup True 9, MaRun 0] toy_pool)))"
    by (simp add: toy_ack_removes del: server_step.simps main_step.simps)
qed

end
