(* ===== verification/SessionCodec.thy ===== *)
theory SessionCodec
  imports ClientConversation Federation
begin

text \<open>
  The text of a ratchet session (\<open>serialize\<close> and \<open>deserialize\<close> of \<open>crypto/src/lib.rs\<close>, with the derived reader and printer of
  \<open>RatchetState\<close>), which the client keeps in its database between two messages. The texts themselves are those of \<open>serde_json\<close>:
  \<open>print\<close> and \<open>parse\<close> are parameters. The table of skipped keys is a hash table, so the order of its entries in
  the text is not determined: \<open>order\<close> is the order in which the iterator visits the keys.
\<close>

section \<open>Documents\<close>

fun as_bool :: "json \<Rightarrow> bool option" where
  "as_bool (JBool b) = Some b"
| "as_bool _ = None"

definition as_byte_vec :: "json \<Rightarrow> bytes option" where
  "as_byte_vec j = Option.bind (as_array j) (\<lambda>xs. all_some (map as_u8 xs))"

text \<open>An object is read into a hash table entry by entry: the last entry with a key stays.\<close>

fun as_key_table :: "json \<Rightarrow> (string \<rightharpoonup> bytes) option" where
  "as_key_table (JObj kvs) =
     map_option (\<lambda>es. map_of (rev es)) (all_some (map (\<lambda>(k, v). map_option (Pair k) (as_byte_vec v)) kvs))"
| "as_key_table _ = None"

definition key_table_json :: "string list \<Rightarrow> (string \<rightharpoonup> bytes) \<Rightarrow> json" where
  "key_table_json order m = JObj (List.map_filter (\<lambda>k. map_option (\<lambda>v. (k, bytes_json v)) (m k)) order)"

definition session_fields :: "string list" where
  "session_fields = [''peer_fp'', ''peer_nid'', ''our_fp'', ''is_initiator'', ''root_key'', ''send_chain_key'',
     ''recv_chain_key'', ''send_message_number'', ''recv_message_number'', ''skipped_keys'']"

definition session_json :: "string list \<Rightarrow> RatchetState \<Rightarrow> json" where
  "session_json order s =
     JObj [(''peer_fp'', JStr (rs_peer_fp s)), (''peer_nid'', JStr (rs_peer_nid s)), (''our_fp'', JStr (rs_our_fp s)),
           (''is_initiator'', JBool (rs_is_initiator s)), (''root_key'', bytes_json (rs_root_key s)),
           (''send_chain_key'', bytes_json (rs_send_chain_key s)), (''recv_chain_key'', bytes_json (rs_recv_chain_key s)),
           (''send_message_number'', JInt (uint (rs_send_message_number s))),
           (''recv_message_number'', JInt (uint (rs_recv_message_number s))),
           (''skipped_keys'', key_table_json order (rs_skipped_keys s))]"

text \<open>A field that occurs twice is an error of the derived reader; unknown fields are ignored.\<close>

fun duplicate_field :: "string list \<Rightarrow> json \<Rightarrow> bool" where
  "duplicate_field names (JObj kvs) \<longleftrightarrow> \<not> distinct (filter (\<lambda>k. List.member names k) (map fst kvs))"
| "duplicate_field names _ \<longleftrightarrow> False"

definition parse_session :: "json \<Rightarrow> RatchetState option" where
  "parse_session j =
     (if duplicate_field session_fields j then None
      else
     Option.bind (json_struct session_fields j) (\<lambda>f.
     Option.bind (required as_str (f ''peer_fp'')) (\<lambda>peer_fp.
     Option.bind (required as_str (f ''peer_nid'')) (\<lambda>peer_nid.
     Option.bind (required as_str (f ''our_fp'')) (\<lambda>our_fp.
     Option.bind (required as_bool (f ''is_initiator'')) (\<lambda>is_initiator.
     Option.bind (required as_byte_vec (f ''root_key'')) (\<lambda>root_key.
     Option.bind (required as_byte_vec (f ''send_chain_key'')) (\<lambda>send_chain_key.
     Option.bind (required as_byte_vec (f ''recv_chain_key'')) (\<lambda>recv_chain_key.
     Option.bind (required as_u64 (f ''send_message_number'')) (\<lambda>send_message_number.
     Option.bind (required as_u64 (f ''recv_message_number'')) (\<lambda>recv_message_number.
     Option.bind (required as_key_table (f ''skipped_keys'')) (\<lambda>skipped_keys.
       Some \<lparr>rs_peer_fp = peer_fp, rs_peer_nid = peer_nid, rs_our_fp = our_fp, rs_is_initiator = is_initiator,
             rs_root_key = root_key, rs_send_chain_key = send_chain_key, rs_recv_chain_key = recv_chain_key,
             rs_send_message_number = send_message_number, rs_recv_message_number = recv_message_number,
             rs_skipped_keys = skipped_keys\<rparr>))))))))))))"

definition serialize :: "(json \<Rightarrow> string) \<Rightarrow> string list \<Rightarrow> RatchetState \<Rightarrow> CryptoError + string" where
  "serialize print order s = Inr (print (session_json order s))"

definition deserialize :: "(string \<Rightarrow> json option) \<Rightarrow> string \<Rightarrow> CryptoError + RatchetState" where
  "deserialize parse data = ok_or (Serialization ''serde_json'') (Option.bind (parse data) parse_session)"

section \<open>The reader inverts the printer\<close>

lemma all_some_map_comp [simp]: "(\<And>x. x \<in> set xs \<Longrightarrow> f (g x) = Some x) \<Longrightarrow> all_some (map f (map g xs)) = Some xs"
  by (induction xs) simp_all

lemma as_byte_vec_json [simp]: "as_byte_vec (bytes_json bs) = Some bs"
  by (simp add: as_byte_vec_def bytes_json_def del: as_u8.simps map_map)

definition iterates :: "string list \<Rightarrow> (string \<rightharpoonup> bytes) \<Rightarrow> bool" where
  "iterates order m \<longleftrightarrow> distinct order \<and> set order = dom m"

lemma option_eqI: "(\<And>v. x = Some v \<longleftrightarrow> y = Some v) \<Longrightarrow> x = y"
  by (cases x; cases y) auto

lemma iterates_entries:
  assumes "iterates order m"
  shows "List.map_filter (\<lambda>k. map_option (h k) (m k)) order = map (\<lambda>k. h k (the (m k))) order"
proof -
  have "set ks \<subseteq> dom m \<Longrightarrow> List.map_filter (\<lambda>k. map_option (h k) (m k)) ks = map (\<lambda>k. h k (the (m k))) ks" for ks
    by (induction ks) (auto simp: List.map_filter_simps)
  with assms show ?thesis by (simp add: iterates_def)
qed

lemma as_key_table_json:
  assumes "iterates order m"
  shows "as_key_table (key_table_json order m) = Some m"
proof -
  let ?es = "map (\<lambda>k. (k, the (m k))) order"
  have "all_some (map (\<lambda>(k, v). map_option (Pair k) (as_byte_vec v)) (map (\<lambda>(k, v). (k, bytes_json v)) ?es)) = Some ?es"
    by (rule all_some_map_comp) auto
  then have "as_key_table (key_table_json order m) = Some (map_of (rev ?es))"
    by (simp add: key_table_json_def iterates_entries [OF assms] o_def)
  moreover have "map_of (rev ?es) k = Some v \<longleftrightarrow> m k = Some v" for k v
  proof -
    have "distinct (map fst (rev ?es))" using assms by (simp add: iterates_def rev_map o_def)
    then have "map_of (rev ?es) k = Some v \<longleftrightarrow> (k, v) \<in> set ?es" by (simp add: map_of_eq_Some_iff)
    with assms show ?thesis by (force simp: iterates_def)
  qed
  then have "map_of (rev ?es) = m" by (intro ext option_eqI) blast
  ultimately show ?thesis by simp
qed

lemma parse_session_json: "iterates order (rs_skipped_keys s) \<Longrightarrow> parse_session (session_json order s) = Some s"
  by (cases s) (simp add: parse_session_def session_json_def session_fields_def json_struct_def required_def as_key_table_json
      del: as_u64.simps as_key_table.simps)

section \<open>Texts\<close>

text \<open>What \<open>serde_json\<close> documents: a document whose texts are UTF-8, whose numbers are integers of at most 64 bits and whose objects
  repeat no key is printed as UTF-8 text that parses to the same document. The length of the text is linear in the document.\<close>

fun json_doc :: "json \<Rightarrow> bool" where
  "json_doc JNull \<longleftrightarrow> True"
| "json_doc (JBool b) \<longleftrightarrow> True"
| "json_doc (JInt i) \<longleftrightarrow> 0 \<le> i \<and> i < 2 ^ 64"
| "json_doc (JFloat r) \<longleftrightarrow> False"
| "json_doc (JStr t) \<longleftrightarrow> utf8_valid (as_bytes t)"
| "json_doc (JArr xs) \<longleftrightarrow> list_all json_doc xs"
| "json_doc (JObj kvs) \<longleftrightarrow> distinct (map fst kvs) \<and> list_all (\<lambda>(k, v). utf8_valid (as_bytes k) \<and> json_doc v) kvs"

fun json_weight :: "json \<Rightarrow> nat" where
  "json_weight (JStr t) = 1 + length t"
| "json_weight (JArr xs) = 1 + sum_list (map json_weight xs)"
| "json_weight (JObj kvs) = 1 + sum_list (map (\<lambda>(k, v). 1 + length k + json_weight v) kvs)"
| "json_weight _ = 1"

definition serde_laws :: "(json \<Rightarrow> string) \<Rightarrow> (string \<Rightarrow> json option) \<Rightarrow> bool" where
  "serde_laws print parse \<longleftrightarrow>
     (\<forall>j. json_doc j \<longrightarrow> parse (print j) = Some j \<and> utf8_valid (as_bytes (print j)) \<and> length (print j) \<le> 80 * json_weight j)"

text \<open>The strings of a session are Rust strings, so they are UTF-8.\<close>

definition session_texts_ok :: "RatchetState \<Rightarrow> bool" where
  "session_texts_ok s \<longleftrightarrow> list_all (\<lambda>t. utf8_valid (as_bytes t)) [rs_peer_fp s, rs_peer_nid s, rs_our_fp s]
     \<and> (\<forall>k \<in> dom (rs_skipped_keys s). utf8_valid (as_bytes k))"

lemma bytes_json_doc [simp]: "json_doc (bytes_json bs)" "json_weight (bytes_json bs) = 1 + length bs"
proof -
  have "uint b < 2 ^ 64" for b :: u8 using unsigned_less [of b, where ?'a = int] by simp
  then show "json_doc (bytes_json bs)" by (simp add: bytes_json_def list_all_iff)
  show "json_weight (bytes_json bs) = 1 + length bs" by (simp add: bytes_json_def o_def sum_list_triv)
qed

lemma key_table_doc:
  "iterates order m \<Longrightarrow> \<forall>k \<in> dom m. utf8_valid (as_bytes k) \<Longrightarrow> json_doc (key_table_json order m)"
  by (auto simp: key_table_json_def iterates_entries list_all_iff o_def iterates_def)

lemma ascii_field [simp]: "utf8_valid (as_bytes k)" if "list_all (\<lambda>c. of_char c < (128 :: nat)) k"
  using that by (simp add: utf8_valid_ascii as_bytes_def list_all_iff)

lemma session_json_doc:
  assumes "iterates order (rs_skipped_keys s)" and "session_texts_ok s"
  shows "json_doc (session_json order s)"
proof -
  have "uint w < 2 ^ 64" for w :: u64 using unsigned_less [of w, where ?'a = int] by simp
  then show ?thesis
    using assms key_table_doc [OF assms(1)] by (simp add: session_json_def session_texts_ok_def)
qed


section \<open>Sessions in the client's database\<close>

text \<open>The codec with which the client stores its sessions; \<open>order\<close> visits the keys of every table.\<close>

definition serde_codec :: "(json \<Rightarrow> string) \<Rightarrow> (string \<Rightarrow> json option) \<Rightarrow> ((string \<rightharpoonup> bytes) \<Rightarrow> string list) \<Rightarrow> session_codec" where
  "serde_codec print parse order =
     \<lparr>sess_print = \<lambda>s. (case serialize print (order (rs_skipped_keys s)) s of Inl _ \<Rightarrow> None | Inr t \<Rightarrow> Some t),
      sess_read = \<lambda>t. (case deserialize parse t of Inl _ \<Rightarrow> None | Inr s \<Rightarrow> Some s)\<rparr>"

lemma session_weight:
  assumes "session_small s"
  shows "json_weight (session_json [] s) \<le> 2 ^ 21"
  using assms by (simp add: session_small_def session_json_def key_table_json_def List.map_filter_simps)

lemma serde_codec_laws:
  assumes "serde_laws print parse" and "order Map.empty = []"
  shows "codec_laws (serde_codec print parse order)"
  unfolding codec_laws_def
proof (intro allI impI)
  fix s
  assume s: "session_small s"
  then have "rs_skipped_keys s = Map.empty" "session_texts_ok s" by (simp_all add: session_small_def session_texts_ok_def)
  moreover from this have "json_doc (session_json [] s)" by (intro session_json_doc) (simp_all add: iterates_def)
  then have "parse (print (session_json [] s)) = Some (session_json [] s)" "utf8_valid (as_bytes (print (session_json [] s)))"
      "length (print (session_json [] s)) \<le> 80 * json_weight (session_json [] s)"
    using assms(1) by (simp_all add: serde_laws_def)
  ultimately show "\<exists>t. sess_print (serde_codec print parse order) s = Some t \<and> db_text t \<and> sess_read (serde_codec print parse order) t = Some s"
    using session_weight [OF s] assms(2)
    by (simp add: serde_codec_def serialize_def deserialize_def db_text_def parse_session_json iterates_def ok_or_def)
qed

section \<open>Witnesses\<close>

text \<open>A printer with a tag for each kind of value, texts in hexadecimal and numbers in binary, and its recursive descent parser.\<close>

fun toy_doc :: "json \<Rightarrow> string" where
  "toy_doc JNull = ''n''"
| "toy_doc (JBool b) = (if b then ''t'' else ''f'')"
| "toy_doc (JInt i) = CHR ''i'' # toy_bits (word_of_int i)"
| "toy_doc (JFloat r) = ''n''"
| "toy_doc (JStr t) = CHR ''s'' # toy_hex (as_bytes t) @ ''|''"
| "toy_doc (JArr xs) = CHR ''['' # concat (map toy_doc xs) @ '']''"
| "toy_doc (JObj kvs) = CHR ''{'' # concat (map (\<lambda>(k, v). toy_hex (as_bytes k) @ CHR ''|'' # toy_doc v) kvs) @ ''}''"

definition toy_word :: "string \<Rightarrow> string \<times> string" where
  "toy_word t = (map (\<lambda>b. char_of (unat b)) (toy_unhex (takeWhile (\<lambda>c. c \<noteq> CHR ''|'') t)), tl (dropWhile (\<lambda>c. c \<noteq> CHR ''|'') t))"

fun toy_value :: "nat \<Rightarrow> string \<Rightarrow> (json \<times> string) option"
  and toy_items :: "nat \<Rightarrow> string \<Rightarrow> (json list \<times> string) option"
  and toy_members :: "nat \<Rightarrow> string \<Rightarrow> ((string \<times> json) list \<times> string) option" where
  "toy_value (Suc n) (c # t) =
     (if c = CHR ''n'' then Some (JNull, t)
      else if c = CHR ''t'' then Some (JBool True, t)
      else if c = CHR ''f'' then Some (JBool False, t)
      else if c = CHR ''i'' then Some (JInt (uint (toy_unbits (take 64 t))), drop 64 t)
      else if c = CHR ''s'' then (case toy_word t of (w, r) \<Rightarrow> Some (JStr w, r))
      else if c = CHR ''['' then map_option (\<lambda>(xs, r). (JArr xs, r)) (toy_items n t)
      else map_option (\<lambda>(kvs, r). (JObj kvs, r)) (toy_members n t))"
| "toy_value _ _ = None"
| "toy_items (Suc n) (c # t) =
     (if c = CHR '']'' then Some ([], t)
      else Option.bind (toy_value n (c # t)) (\<lambda>(x, r). map_option (\<lambda>(xs, r'). (x # xs, r')) (toy_items n r)))"
| "toy_items _ _ = None"
| "toy_members (Suc n) (c # t) =
     (if c = CHR ''}'' then Some ([], t)
      else case toy_word (c # t) of (k, r) \<Rightarrow>
        Option.bind (toy_value n r) (\<lambda>(x, r). map_option (\<lambda>(kvs, r'). ((k, x) # kvs, r')) (toy_members n r)))"
| "toy_members _ _ = None"

lemma toy_word_hex [simp]: "toy_word (toy_hex (as_bytes t) @ CHR ''|'' # r) = (t, r)"
proof -
  have "\<forall>c \<in> set (toy_hex (as_bytes t)). c \<noteq> CHR ''|''" using toy_no_bar(1) by metis
  then show ?thesis by (simp add: toy_word_def takeWhile_append2 dropWhile_append2 as_bytes_def o_def)
qed

lemma toy_bits_length [simp]: "length (toy_bits w) = 64"
  by (simp add: toy_bits_def)

lemma toy_doc_head: "\<exists>c t. toy_doc j = c # t \<and> c \<noteq> CHR '']''"
  by (cases j) simp_all

lemma toy_items_doc:
  assumes "\<And>x n r. x \<in> set xs \<Longrightarrow> length (toy_doc x) \<le> n \<Longrightarrow> toy_value n (toy_doc x @ r) = Some (x, r)"
    and "length (concat (map toy_doc xs)) < n"
  shows "toy_items n (concat (map toy_doc xs) @ CHR '']'' # r) = Some (xs, r)"
  using assms
proof (induction xs arbitrary: n)
  case Nil
  then show ?case by (cases n) simp_all
next
  case (Cons x xs)
  obtain m where m: "n = Suc m" using Cons.prems(2) by (cases n) simp_all
  obtain c t where c: "toy_doc x = c # t" "c \<noteq> CHR '']''" using toy_doc_head by blast
  have "toy_value m (toy_doc x @ concat (map toy_doc xs) @ CHR '']'' # r) = Some (x, concat (map toy_doc xs) @ CHR '']'' # r)"
    using Cons.prems by (intro Cons.prems(1)) (simp_all add: m)
  moreover have "toy_items m (concat (map toy_doc xs) @ CHR '']'' # r) = Some (xs, r)"
    using Cons.prems by (intro Cons.IH) (simp_all add: m c(1))
  ultimately show ?case using c by (simp add: m)
qed

lemma toy_members_doc:
  assumes "\<And>k v n r. (k, v) \<in> set kvs \<Longrightarrow> length (toy_doc v) \<le> n \<Longrightarrow> toy_value n (toy_doc v @ r) = Some (v, r)"
    and "length (concat (map (\<lambda>(k, v). toy_hex (as_bytes k) @ CHR ''|'' # toy_doc v) kvs)) < n"
  shows "toy_members n (concat (map (\<lambda>(k, v). toy_hex (as_bytes k) @ CHR ''|'' # toy_doc v) kvs) @ CHR ''}'' # r) = Some (kvs, r)"
  using assms
proof (induction kvs arbitrary: n)
  case Nil
  then show ?case by (cases n) simp_all
next
  case (Cons kv kvs)
  obtain k v where kv: "kv = (k, v)" by (cases kv)
  obtain m where m: "n = Suc m" using Cons.prems(2) by (cases n) simp_all
  let ?rest = "concat (map (\<lambda>(k, v). toy_hex (as_bytes k) @ CHR ''|'' # toy_doc v) kvs) @ CHR ''}'' # r"
  obtain c t where c: "toy_hex (as_bytes k) @ CHR ''|'' # toy_doc v @ ?rest = c # t" "c \<noteq> CHR ''}''"
    using toy_hex_range [of _ "as_bytes k"] by (cases "toy_hex (as_bytes k)") (simp, fastforce)
  have "toy_value m (toy_doc v @ ?rest) = Some (v, ?rest)"
    using Cons.prems by (intro Cons.prems(1) [of k]) (simp_all add: m kv)
  moreover have "toy_members m ?rest = Some (kvs, r)"
    using Cons.prems by (intro Cons.IH) (auto simp: m kv)
  moreover have "toy_word (c # t) = (k, toy_doc v @ ?rest)" by (simp flip: c(1))
  ultimately have "toy_members (Suc m) (c # t) = Some (kv # kvs, r)" using c(2) by (simp add: kv)
  then show ?case by (simp add: kv m flip: c(1))
qed

lemma toy_value_doc: "json_doc j \<Longrightarrow> length (toy_doc j) \<le> n \<Longrightarrow> toy_value n (toy_doc j @ r) = Some (j, r)"
proof (induction j arbitrary: n r rule: toy_doc.induct)
  case (6 xs)
  then show ?case by (cases n) (auto simp: list_all_iff toy_items_doc)
next
  case (7 kvs)
  have "toy_value n (toy_doc v @ r) = Some (v, r)" if "(k, v) \<in> set kvs" "length (toy_doc v) \<le> n" for k v n r
    using "7.IH" [OF that(1) refl _ that(2)] "7.prems"(1) that(1) by (auto simp: list_all_iff)
  with "7.prems"(2) show ?case by (cases n) (simp_all add: toy_members_doc)
next
  case (3 i)
  then show ?case by (cases n) (simp_all add: toy_bits_length unsigned_of_int take_bit_int_eq_self)
next
  case (2 b)
  then show ?case by (cases n; cases b) simp_all
next
  case (5 t)
  then show ?case by (cases n) simp_all
qed (auto simp: Suc_le_eq gr0_conv_Suc)

definition toy_doc_parse :: "string \<Rightarrow> json option" where
  "toy_doc_parse t = (case toy_value (length t) t of Some (j, []) \<Rightarrow> Some j | _ \<Rightarrow> None)"

lemma toy_doc_ascii: "c \<in> set (toy_doc j) \<Longrightarrow> (of_char c :: nat) < 128"
proof (induction j rule: toy_doc.induct)
  case (7 kvs)
  then show ?case using toy_hex_range by (fastforce split: prod.splits)
qed (use toy_hex_range in \<open>fastforce simp: toy_bits_def split: if_splits\<close>)+

lemma toy_doc_length: "length (toy_doc j) \<le> 80 * json_weight j"
proof (induction j rule: toy_doc.induct)
  case (6 xs)
  then have "sum_list (map (length \<circ> toy_doc) xs) \<le> sum_list (map (\<lambda>x. 80 * json_weight x) xs)"
    by (intro sum_list_mono) simp
  then show ?case by (simp add: length_concat o_def flip: sum_list_const_mult)
next
  case (7 kvs)
  let ?w = "\<lambda>(k, v). 1 + length k + json_weight v"
  have "sum_list (map (length \<circ> (\<lambda>(k, v). toy_hex (as_bytes k) @ CHR ''|'' # toy_doc v)) kvs) \<le> sum_list (map (\<lambda>x. 80 * ?w x) kvs)"
    using 7 by (intro sum_list_mono) fastforce
  then show ?case by (simp add: length_concat o_def flip: sum_list_const_mult)
qed (simp_all add: toy_bits_length)

lemma toy_serde_laws: "serde_laws toy_doc toy_doc_parse"
  using toy_doc_ascii toy_doc_length toy_value_doc [where r = "[]"]
  by (simp add: serde_laws_def toy_doc_parse_def utf8_valid_ascii list_all_iff as_bytes_def)

definition toy_order :: "(string \<rightharpoonup> bytes) \<Rightarrow> string list" where
  "toy_order m = filter (\<lambda>k. m k \<noteq> None) [''a'', ''b'']"

definition skipping_session :: RatchetState where
  "skipping_session = \<lparr>rs_peer_fp = ''A'', rs_peer_nid = ''N'', rs_our_fp = ''B'', rs_is_initiator = True, rs_root_key = [1, 255],
     rs_send_chain_key = [], rs_recv_chain_key = [0], rs_send_message_number = -1, rs_recv_message_number = 7,
     rs_skipped_keys = [''a'' \<mapsto> [1, 2], ''b'' \<mapsto> []]\<rparr>"


text \<open>The conversation of two clients with the program's own session texts in their databases.\<close>

lemma serde_world_ok: "world_ok (toy_world\<lparr>w_codec := serde_codec toy_doc toy_doc_parse toy_order\<rparr>)"
  using toy_world_ok serde_codec_laws [OF toy_serde_laws, of toy_order] by (simp add: world_ok_def toy_order_def)

end
