(* ===== verification/Ids.thy ===== *)
theory Ids
  imports Prelude
begin

text \<open>
  Identifiers and time stamps: \<open>uuid_hex\<close>, \<open>random_hex\<close> and \<open>now_unix\<close>, which the crates share in copies (\<open>protocol/src/envelope.rs\<close>,
  \<open>dht-core/src/util.rs\<close>, \<open>p2p/src/util.rs\<close>, \<open>relay/src/main.rs\<close>). What the generator of random numbers and the clock return are arguments.
\<close>

definition hex_char :: "nat \<Rightarrow> char" where
  "hex_char d = char_of (if d < 10 then 48 + d else 87 + d)"

text \<open>The formats \<open>{:0kx}\<close>, for a number below \<open>16 ^ k\<close>.\<close>

fun fmt_hex :: "nat \<Rightarrow> nat \<Rightarrow> string" where
  "fmt_hex 0 v = []"
| "fmt_hex (Suc k) v = fmt_hex k (v div 16) @ [hex_char (v mod 16)]"

definition uuid_hex :: "u128 \<Rightarrow> string" where
  "uuid_hex n = take 16 (fmt_hex 32 (unat n))"

definition random_hex :: "u8 list \<Rightarrow> string" where
  "random_hex rnd = concat (map (\<lambda>b. fmt_hex 2 (unat b)) rnd)"

text \<open>A clock before the epoch reads as zero.\<close>

definition now_unix :: "f64 \<Rightarrow> f64" where
  "now_unix since_epoch = (if since_epoch < 0 then 0 else since_epoch)"

section \<open>Properties\<close>

lemma length_fmt_hex [simp]: "length (fmt_hex k v) = k"
  by (induction k arbitrary: v) simp_all

lemma fmt_hex_take: "take k (fmt_hex (k + m) v) = fmt_hex k (v div 16 ^ m)"
  by (induction m arbitrary: v) (simp_all add: div_mult2_eq)

lemma hex_char_code: "d < 16 \<Longrightarrow> (of_char (hex_char d) :: nat) = (if d < 10 then 48 + d else 87 + d)"
  by (simp add: hex_char_def)

lemma hex_char_inj: "d < 16 \<Longrightarrow> e < 16 \<Longrightarrow> hex_char d = hex_char e \<Longrightarrow> d = e"
  by (drule arg_cong [of _ _ "of_char :: char \<Rightarrow> nat"]) (simp add: hex_char_code split: if_splits)

lemma fmt_hex_inj: "v < 16 ^ k \<Longrightarrow> w < 16 ^ k \<Longrightarrow> fmt_hex k v = fmt_hex k w \<Longrightarrow> v = w"
proof (induction k arbitrary: v w)
  case (Suc k)
  then have "v div 16 = w div 16" by (intro Suc.IH) (simp_all add: div_less_iff_less_mult ac_simps)
  moreover have "v mod 16 = w mod 16" using Suc.prems(3) by (intro hex_char_inj) simp_all
  ultimately show ?case by (metis div_mult_mod_eq)
qed simp

lemma fmt_hex_digits: "list_all is_ascii_hexdigit (fmt_hex k v)"
proof -
  have "list_all (\<lambda>d. is_ascii_hexdigit (hex_char d)) [0..<16]" by code_simp
  then have "is_ascii_hexdigit (hex_char d)" if "d < 16" for d using that by (simp add: list_all_iff)
  then show ?thesis by (induction k arbitrary: v) simp_all
qed

text \<open>An identifier has 16 hexadecimal digits and carries the upper half of the random number, the lower half is lost: two
  identifiers agree exactly if the upper 64 bits of the numbers do.\<close>

theorem uuid_hex_eq: "uuid_hex n = uuid_hex m \<longleftrightarrow> drop_bit 64 n = drop_bit 64 m"
proof -
  have half: "unat (drop_bit 64 w) = unat w div 16 ^ 16" for w :: u128
    unfolding unat_drop_bit_eq by (simp add: drop_bit_eq_div)
  then have uuid: "uuid_hex w = fmt_hex 16 (unat (drop_bit 64 w))" for w
    using fmt_hex_take [of 16 16 "unat w"] by (simp add: uuid_hex_def)
  have "unat (drop_bit 64 w) < 16 ^ 16" for w :: u128
    unfolding half using unsigned_less [of w, where ?'a = nat] by (simp add: div_less_iff_less_mult)
  from fmt_hex_inj [OF this [of n] this [of m]] show ?thesis
    unfolding uuid by (metis word_unat_eq_iff)
qed

theorem uuid_hex_format: "length (uuid_hex n) = 16" "list_all is_ascii_hexdigit (uuid_hex n)"
  using fmt_hex_digits [of 32 "unat n"] by (auto simp: uuid_hex_def list_all_iff dest: in_set_takeD)

text \<open>A challenge has two digits per random byte, and different bytes give different challenges.\<close>

theorem random_hex_inj: "random_hex a = random_hex b \<longleftrightarrow> a = b"
proof
  show "a = b" if "random_hex a = random_hex b"
    using that
  proof (induction a arbitrary: b)
    case Nil
    then show ?case by (cases b) (auto simp: random_hex_def numeral_2_eq_2)
  next
    case (Cons x a)
    then obtain y b' where b: "b = y # b'" by (cases b) (auto simp: random_hex_def numeral_2_eq_2)
    with Cons.prems have "fmt_hex 2 (unat x) = fmt_hex 2 (unat y)" "random_hex a = random_hex b'"
      by (simp_all add: random_hex_def append_eq_append_conv)
    moreover have "unat z < 16 ^ 2" for z :: u8 using unsigned_less [of z, where ?'a = nat] by simp
    ultimately show ?case using b Cons.IH fmt_hex_inj by (metis word_unat_eq_iff)
  qed
qed simp

lemma length_random_hex: "length (random_hex rnd) = 2 * length rnd"
  by (induction rnd) (simp_all add: random_hex_def)

end
