(* ===== verification/Spec2Isabelle.thy ===== *)
theory Spec2Isabelle
  imports NodeSafety Braid RatchetSession RelayServer PeerTable StunNat SocksTransport Pir DeliveryTokens CoverTraffic BootstrapVerify
    BotLog CryptoUtils Padding ClientServer ClientMain ClientOnion Bootstrap SecureMem MailboxRace RelayPool SessionCodec Ids
begin

text \<open>
  \<^bold>\<open>NullNode: a verification development.\<close>

  NullNode is a decentralised messenger written in Rust. Bootstrap servers run nodes of a distributed hash table (DHT) that
  store signed records by identity (a Null ID, derived from an OpenPGP fingerprint); relays store messages for
  recipients and forward them to each other; clients register, look each other up, and exchange messages
  that a double ratchet encrypts, directly or through a relay. The development models these programs from the
  sources under \<open>src/\<close> and proves what makes them correct, or where they are not.

  \<^bold>\<open>Theories and the code they model\<close>

  Shared:
  \<^item> \<open>Prelude\<close>: machine integers, Rust's \<open>Result\<close>, strings, slices and hash tables, and the contracts (locales) on which the
    component theories rest: \<open>state_machine\<close> (an invariant kept by every event), \<open>replay_guard\<close> (no token is accepted twice) and
    \<open>version_guard\<close> (accepted versions only grow). \<open>Endian\<close>, \<open>HostPort\<close>: bytes of integers, host and port texts.
    \<open>Ids\<close>: the identifiers and time stamps that every crate generates.

  Protocol crate (\<open>protocol/src\<close>):
  \<^item> \<open>Gpg\<close> (\<open>gpg.rs\<close>), \<open>Wire\<close> (\<open>constants.rs\<close>, \<open>envelope.rs\<close>), \<open>Pow\<close> (\<open>pow.rs\<close>), \<open>Braid\<close> (\<open>braid.rs\<close>): signatures, envelopes, proof of work and
    the transport of a key in chunks.

  DHT crate (\<open>dht-core/src\<close>) and its server:
  \<^item> \<open>Identity\<close> (\<open>crypto_helpers.rs\<close>), \<open>RateLimit\<close> (\<open>ratelimit.rs\<close>), \<open>Store\<close> (\<open>sqlite_store.rs\<close>), \<open>DhtNode\<close> (\<open>dht_node.rs\<close>, \<open>types.rs\<close>) with its
    properties in \<open>NodeSafety\<close>; \<open>PinCache\<close> (\<open>pin_cache.rs\<close>), \<open>BootstrapVerify\<close> (\<open>bootstrap_verify.rs\<close>), \<open>BotLog\<close> (\<open>bot_log.rs\<close>);
    \<open>Bootstrap\<close> (\<open>bootstrap/src/main.rs\<close>).

  Cryptography (\<open>crypto/src\<close>, \<open>crypto-utils/src\<close>):
  \<^item> \<open>Kem\<close> (\<open>kyber.rs\<close>), \<open>RatchetSession\<close> and \<open>SessionCodec\<close> (\<open>lib.rs\<close>: the ratchet, and its stored text), \<open>Pir\<close> (\<open>pir.rs\<close>), \<open>DeliveryTokens\<close> (\<open>delivery_tokens.rs\<close>), \<open>CoverTraffic\<close> (\<open>cbnp.rs\<close>),
    \<open>SecureMem\<close> (\<open>secure_mem.rs\<close>), \<open>CryptoUtils\<close> (\<open>crypto-utils/src/lib.rs\<close>).

  Relay (\<open>relay/src/main.rs\<close>):
  \<^item> \<open>Mailbox\<close> (mailboxes and their table), \<open>RelayAuth\<close> (timestamps, nonces, pinned certificates, HMAC), \<open>Federation\<close> (peers, routes, channels),
    \<open>Relay\<close> (every message handler, the limiter and the background tasks), \<open>RelayServer\<close> (options, start, connections, restarts),
    \<open>RelayPool\<close> (the tasks of \<open>main\<close> and the accept loop), \<open>MailboxRace\<close> (the mail operations when tasks interleave inside them).

  Peer-to-peer crate (\<open>p2p/src\<close>):
  \<^item> \<open>P2pHandshake\<close> (\<open>handshake.rs\<close>, \<open>protocol.rs\<close>), \<open>PeerTable\<close> (\<open>peer.rs\<close>), \<open>StunNat\<close> (\<open>nat.rs\<close>), \<open>SocksTransport\<close> (\<open>transport.rs\<close>).

  Client (\<open>client/src/main.rs\<close>):
  \<^item> \<open>Padding\<close> (padding and safety numbers), \<open>ClientDb\<close> (the encrypted database), \<open>ClientFiles\<close> (contacts, aliases, delivery secrets, server
    discovery), \<open>ClientIdentity\<close> (certificate and identity files), \<open>ClientDht\<close> (lookup and registration), \<open>ClientRelay\<close> (sending and fetching through
    a relay), \<open>ClientP2p\<close> (direct messages and the listener), \<open>ClientOnion\<close> (sending through two relays, the contact cache), \<open>ClientMain\<close> (the
    commands and the PID file). \<open>ClientServer\<close> joins client and relay, \<open>ClientConversation\<close> two clients and a relay.

  \<^bold>\<open>How state and operations correspond\<close>

  A struct is a record with the fields of the source (prefixed, because record fields are global), an enum is a datatype, and an operation
  is a function from its arguments and the old state to its result and the new state. \<open>Result\<close> is a sum with \<open>Inl\<close> for errors; a
  panic is \<open>None\<close> or an error text that begins with panic. Error texts that embed a message of a library are
  abbreviated. A Rust string is the list of its UTF-8 bytes. A \<open>HashMap\<close> is an association list with distinct keys. \<open>u8\<close> to \<open>u128\<close> and \<open>usize\<close> where it may
  wrap are words, \<open>i64\<close> values are integers whose range the JSON accessors check, \<open>f64\<close> values are rationals (reals in \<open>CoverTraffic\<close>, for
  the logarithm). Memory is explicit in \<open>SecureMem\<close>: bytes by address, with mapped, protected and locked pages.

  A handler is one step, and shared state behind locks is threaded through a sequence of steps; connections are tasks that give way between
  two frames. Where the code does not hold a lock between two phases (\<open>put\<close> of the store, the mail operations, the PID file) the phases are
  separate definitions, and their interleaving is a step relation or is examined directly. Clock
  readings (one per message of a relay), random numbers, prompts, the frames of a connection and failures of
  files, database and network are explicit arguments, usually in a record \<open>..._io\<close>. Code of other packages (Argon2, SHA-2, BLAKE2b, HMAC, HKDF,
  AES-GCM, ML-KEM, base64, serde's printers and parser, Sequoia, age, sqlx) is a parameter: a function or a record of
  functions, with the documented facts that a theorem needs as a named hypothesis (\<open>argon2_total\<close>, \<open>crypto_laws\<close>, \<open>key_laws\<close>, \<open>signature_laws\<close>,
  \<open>pretty_laws\<close>, \<open>array_laws\<close>, \<open>serde_laws\<close>, \<open>sqlx_laws\<close>), and a stand-in instance for the witnesses.

  \<^bold>\<open>What is shown\<close>

  \<^item> DHT: the handlers refine the store; a node accepts no request twice under any interleaving and any storage failure; every stored
    record belongs to the identity it is filed under; caches and limiters are bounded and the rate limit holds in every window; writes
    are atomic; a published record is found until it expires; exactly which registrations of a client succeed.
  \<^item> Relay: exactly which requests are accepted and with what effect; stored mail survives every history, restarts included, until its owner
    removes it; nonces are not reused; pinned certificates stay; however connections, timers, peers and restarts interleave, the
    relay is a sequence of those steps in which each text of a client is handled at most once. With interleaving inside
    the mail operations, mailboxes stay bounded, confirmed messages are delivered and acknowledged ones are not.
  \<^item> Messages: a ratchet conversation decrypts in order; two clients and a relay implement a pair of queues; padding, key
    chunks, key files and stored sessions round trip; the database, the address book and the peer queues refine lists and maps.
  \<^item> Parsers and loops end, and STUN responses are never read out of range. Guarded keys are surrounded by
    inaccessible pages.
  \<^item> Some theorems show behaviour that differs from the comments: no message is ever delivered directly or through two relays, first
    messages can be read by the relay, an expired identity cannot register again, certificates are not bound to fingerprints,
    restarts forget replay protection, a purge can take a message with it that was confirmed after it began, private lookups find a contact only by chance, and more.

  \<^bold>\<open>Termination\<close>

  All loops are total functions: the nonce search ends at its maximum, the STUN scan advances, message loops consume their messages and wait
  loops their events; the task of a connection gets closer to its end with every step. Loops that run for ever (accept loops, timers) are
  histories of steps, and theorems quantify over all of them. The
  only bounded counters are those of the code, such as the ten frames in which the client waits for an answer.

  \<^bold>\<open>What is not modelled\<close>

  Sockets, TLS and DNS, the terminal, signal handling, file permissions, log output and the rounding of doubles: they are outside the
  program's own logic, and their outcomes are arguments. Interleaving inside the handlers of the relay other than its mail operations: their
  checks run under one lock each, and the handlers are steps here. Constructors and accessors without a decision, unused constants and dead code
  (the typed ML-KEM wrappers, the in-memory variants of the databases, the relay's challenge generator) are left out.
\<close>

end
